(* ===== verification/Nexus_Prelude.thy ===== *)
theory Nexus_Prelude
  imports Main "HOL-Library.Word" "HOL-Library.Monad_Syntax"
begin

unbundle bit_operations_syntax

text \<open>
  The shared vocabulary of the development: the fixed-width integer types of
  \<^verbatim>\<open>include/hypervisor/types.h\<close>, its result codes and utility macros, the reading of
  undefined behaviour as \<^const>\<open>None\<close>, and the generic facts on words, lists, maps and
  options that the component theories use.

  Conventions. A C pointer that is only stored, compared and dereferenced is a reference
  (a natural number) with \<^const>\<open>None\<close> for \<open>NULL\<close>; a pointer on which the code does
  arithmetic is a 64-bit word with \<open>0\<close> for \<open>NULL\<close>. A computation that the C standard leaves
  undefined (a \<open>NULL\<close> dereference, an access outside an object, a division by zero, a use
  after \<open>free\<close>) has the value \<^const>\<open>None\<close> of type \<open>'a run\<close>; every defined computation is
  a \<^const>\<open>Some\<close>. The log calls of the components are left out.
\<close>

section \<open>Fixed-width types\<close>

type_synonym u8 = "8 word"
type_synonym u16 = "16 word"
type_synonym u32 = "32 word"
type_synonym u64 = "64 word"

type_synonym phys_addr = u64
type_synonym guest_addr = u64

type_synonym 'a run = "'a option"

text \<open>\<open>ref\<close> names an object on the C heap: references are never reused.\<close>

type_synonym ref = nat

section \<open>Result codes\<close>

datatype nexusvm_result =
    NEXUSVM_OK
  | NEXUSVM_ERR_GENERIC
  | NEXUSVM_ERR_NOT_SUPPORTED
  | NEXUSVM_ERR_INVALID_PARAM
  | NEXUSVM_ERR_NO_MEMORY
  | NEXUSVM_ERR_NOT_FOUND
  | NEXUSVM_ERR_ALREADY_EXISTS
  | NEXUSVM_ERR_VMX_FAILED
  | NEXUSVM_ERR_SVM_FAILED
  | NEXUSVM_ERR_CPU_NOT_SUPPORTED
  | NEXUSVM_ERR_VM_RUNNING
  | NEXUSVM_ERR_VM_NOT_RUNNING
  | NEXUSVM_ERR_MIGRATION_FAILED
  | NEXUSVM_ERR_CHECKPOINT_FAILED

fun result_code :: "nexusvm_result \<Rightarrow> int" where
  "result_code NEXUSVM_OK = 0"
| "result_code NEXUSVM_ERR_GENERIC = -1"
| "result_code NEXUSVM_ERR_NOT_SUPPORTED = -2"
| "result_code NEXUSVM_ERR_INVALID_PARAM = -3"
| "result_code NEXUSVM_ERR_NO_MEMORY = -4"
| "result_code NEXUSVM_ERR_NOT_FOUND = -5"
| "result_code NEXUSVM_ERR_ALREADY_EXISTS = -6"
| "result_code NEXUSVM_ERR_VMX_FAILED = -7"
| "result_code NEXUSVM_ERR_SVM_FAILED = -8"
| "result_code NEXUSVM_ERR_CPU_NOT_SUPPORTED = -9"
| "result_code NEXUSVM_ERR_VM_RUNNING = -10"
| "result_code NEXUSVM_ERR_VM_NOT_RUNNING = -11"
| "result_code NEXUSVM_ERR_MIGRATION_FAILED = -12"
| "result_code NEXUSVM_ERR_CHECKPOINT_FAILED = -13"

section \<open>Utility macros\<close>

definition PAGE_SHIFT :: nat where
  "PAGE_SHIFT = 12"

definition PAGE_SIZE :: u64 where
  "PAGE_SIZE = push_bit PAGE_SHIFT 1"

definition HUGE_PAGE_SIZE :: u64 where
  "HUGE_PAGE_SIZE = push_bit 21 1"

definition GIG_PAGE_SIZE :: u64 where
  "GIG_PAGE_SIZE = push_bit 30 1"

definition IS_ALIGNED :: "u64 \<Rightarrow> u64 \<Rightarrow> bool" where
  "IS_ALIGNED x a \<longleftrightarrow> x AND (a - 1) = 0"

definition ALIGN :: "u64 \<Rightarrow> u64 \<Rightarrow> u64" where
  "ALIGN x a = (x + (a - 1)) AND NOT (a - 1)"

lemma PAGE_SIZE_eq [simp]: "PAGE_SIZE = 4096"
  by (simp add: PAGE_SIZE_def PAGE_SHIFT_def)

lemma HUGE_PAGE_SIZE_eq [simp]: "HUGE_PAGE_SIZE = 0x200000"
  by (simp add: HUGE_PAGE_SIZE_def)

lemma GIG_PAGE_SIZE_eq [simp]: "GIG_PAGE_SIZE = 0x40000000"
  by (simp add: GIG_PAGE_SIZE_def)

section \<open>Words\<close>

named_theorems word_steps
  \<open>unfolding a loop counter of machine width as a natural number\<close>

lemma unat_minus_one_Suc [word_steps]: "n \<noteq> 0 \<Longrightarrow> unat n = Suc (unat (n - 1 :: 'a::len word))"
  using unat_minus_one [of n] by (simp add: unat_gt_0)

lemma unat_pred_less [word_steps]: "n \<noteq> 0 \<Longrightarrow> unat (n - 1 :: 'a::len word) < unat n"
  by (simp add: unat_minus_one_Suc)

lemma unat_below: "unat (n :: 'a::len word) < 2 ^ LENGTH('a)"
  by (rule unsigned_less)

lemma unat_of_nat_small: "k < 2 ^ LENGTH('a) \<Longrightarrow> unat (of_nat k :: 'a::len word) = k"
  by (simp add: unsigned_of_nat take_bit_nat_eq_self)

lemma of_nat_word_nonzero:
  "0 < k \<Longrightarrow> k < 2 ^ LENGTH('a) \<Longrightarrow> (of_nat k :: 'a::len word) \<noteq> 0"
  by (metis less_numeral_extra(3) unat_0 unat_of_nat_small)

lemma word_minus_one_less: "n \<noteq> 0 \<Longrightarrow> n - 1 < (n :: 'a::len word)"
  by (simp add: word_less_nat_alt unat_pred_less)

lemma unat_Suc_below: "i < n \<Longrightarrow> unat (i + 1 :: 'a::len word) = Suc (unat i)"
proof -
  assume "i < n"
  then have "Suc (unat i) < 2 ^ LENGTH('a)"
    using unat_below [of n] by (meson Suc_lessI less_trans_Suc linorder_not_less order_less_le_trans word_less_nat_alt Suc_leI order_le_less_trans)
  then show ?thesis by (simp add: unat_word_ariths)
qed

lemma loop_measure [word_steps]: "i < n \<Longrightarrow> unat n - unat (i + 1 :: 'a::len word) < unat n - unat i"
  by (simp add: unat_Suc_below word_less_nat_alt)

end
