(* ===== verification/Utils_Mem.thy ===== *)
theory Utils_Mem
  imports Nexus_Prelude
begin

text \<open>
  The memory and string routines of \<^verbatim>\<open>src/utils/log.c\<close> over a byte-addressed 64-bit memory.
  Every \<open>while (n--)\<close> loop keeps its \<open>size_t\<close> counter as a 64-bit word, so that the
  wrap-around of a counter that is decremented once more on the way out is part of the model.
  The routines that run until a terminating zero byte are partial functions.
\<close>

section \<open>Definitions\<close>

type_synonym mem = "u64 \<Rightarrow> u8"

function memset_loop :: "mem \<Rightarrow> u64 \<Rightarrow> u8 \<Rightarrow> u64 \<Rightarrow> mem" where
  "memset_loop m p c n = (if n = 0 then m else memset_loop (m(p := c)) (p + 1) c (n - 1))"
  by pat_completeness auto
termination
  by (relation "measure (\<lambda>(m, p, c, n). unat n)") (auto simp: unat_pred_less)

text \<open>\<open>memset\<close> stores the low byte of its \<open>int\<close> argument.\<close>

definition memset :: "mem \<Rightarrow> u64 \<Rightarrow> 32 word \<Rightarrow> u64 \<Rightarrow> mem" where
  "memset m s c n = memset_loop m s (ucast c) n"

function memcpy :: "mem \<Rightarrow> u64 \<Rightarrow> u64 \<Rightarrow> u64 \<Rightarrow> mem" where
  "memcpy m d s n = (if n = 0 then m else memcpy (m(d := m s)) (d + 1) (s + 1) (n - 1))"
  by pat_completeness auto
termination
  by (relation "measure (\<lambda>(m, d, s, n). unat n)") (auto simp: unat_pred_less)

text \<open>The descending loop of \<open>memmove\<close>: both pointers are decremented before each copy.\<close>

function memmove_down :: "mem \<Rightarrow> u64 \<Rightarrow> u64 \<Rightarrow> u64 \<Rightarrow> mem" where
  "memmove_down m d s n =
     (if n = 0 then m
      else memmove_down (m(d - 1 := m (s - 1))) (d - 1) (s - 1) (n - 1))"
  by pat_completeness auto
termination
  by (relation "measure (\<lambda>(m, d, s, n). unat n)") (auto simp: unat_pred_less)

definition memmove :: "mem \<Rightarrow> u64 \<Rightarrow> u64 \<Rightarrow> u64 \<Rightarrow> mem" where
  "memmove m d s n =
     (if d < s then memcpy m d s n else memmove_down m (d + n) (s + n) n)"

function memcmp :: "mem \<Rightarrow> u64 \<Rightarrow> u64 \<Rightarrow> u64 \<Rightarrow> int" where
  "memcmp m p1 p2 n =
     (if n = 0 then 0
      else if m p1 \<noteq> m p2 then uint (m p1) - uint (m p2)
      else memcmp m (p1 + 1) (p2 + 1) (n - 1))"
  by pat_completeness auto
termination
  by (relation "measure (\<lambda>(m, p1, p2, n). unat n)") (auto simp: unat_pred_less)

partial_function (option) strlen_loop :: "mem \<Rightarrow> u64 \<Rightarrow> u64 \<Rightarrow> u64 option" where
  "strlen_loop m s len = (if m s = 0 then Some len else strlen_loop m (s + 1) (len + 1))"

definition strlen :: "mem \<Rightarrow> u64 \<Rightarrow> u64 option" where
  "strlen m s = strlen_loop m s 0"

text \<open>\<open>char\<close> is signed on the x86-64 target, hence \<^const>\<open>sint\<close>.\<close>

partial_function (option) strcmp :: "mem \<Rightarrow> u64 \<Rightarrow> u64 \<Rightarrow> int option" where
  "strcmp m s1 s2 =
     (if m s1 \<noteq> 0 \<and> m s2 \<noteq> 0 \<and> m s1 = m s2 then strcmp m (s1 + 1) (s2 + 1)
      else Some (sint (m s1) - sint (m s2)))"

text \<open>
  \<open>while (n-- && \<dots>)\<close>: the loop returns both pointers and the counter after its last
  decrement, which the final test reads.
\<close>

function strncmp_loop :: "mem \<Rightarrow> u64 \<Rightarrow> u64 \<Rightarrow> u64 \<Rightarrow> u64 \<times> u64 \<times> u64" where
  "strncmp_loop m s1 s2 n =
     (if n \<noteq> 0 \<and> m s1 \<noteq> 0 \<and> m s2 \<noteq> 0 \<and> m s1 = m s2
      then strncmp_loop m (s1 + 1) (s2 + 1) (n - 1)
      else (s1, s2, n - 1))"
  by pat_completeness auto
termination
  by (relation "measure (\<lambda>(m, s1, s2, n). unat n)") (auto simp: unat_pred_less)

definition strncmp :: "mem \<Rightarrow> u64 \<Rightarrow> u64 \<Rightarrow> u64 \<Rightarrow> int" where
  "strncmp m s1 s2 n =
     (case strncmp_loop m s1 s2 n of
        (p1, p2, k) \<Rightarrow> if k = -1 then 0 else sint (m p1) - sint (m p2))"

function strncpy_copy :: "mem \<Rightarrow> u64 \<Rightarrow> u64 \<Rightarrow> u64 \<Rightarrow> mem \<times> u64 \<times> u64" where
  "strncpy_copy m p src n =
     (if n \<noteq> 0 \<and> m src \<noteq> 0
      then strncpy_copy (m(p := m src)) (p + 1) (src + 1) (n - 1)
      else (m, p, n - 1))"
  by pat_completeness auto
termination
  by (relation "measure (\<lambda>(m, p, src, n). unat n)") (auto simp: unat_pred_less)

definition strncpy :: "mem \<Rightarrow> u64 \<Rightarrow> u64 \<Rightarrow> u64 \<Rightarrow> mem" where
  "strncpy m dest src n =
     (case strncpy_copy m dest src n of (m', p, k) \<Rightarrow> memset_loop m' p 0 k)"

partial_function (option) strcpy_loop :: "mem \<Rightarrow> u64 \<Rightarrow> u64 \<Rightarrow> mem option" where
  "strcpy_loop m p src =
     (let c = m src; m' = m(p := c)
      in if c = 0 then Some m' else strcpy_loop m' (p + 1) (src + 1))"

definition strcpy :: "mem \<Rightarrow> u64 \<Rightarrow> u64 \<Rightarrow> mem option" where
  "strcpy m dest src = strcpy_loop m dest src"

declare memset_loop.simps [simp del] memcpy.simps [simp del] memmove_down.simps [simp del]
  memcmp.simps [simp del] strncmp_loop.simps [simp del] strncpy_copy.simps [simp del]

section \<open>Copying\<close>

lemma word_pred_less_iff:
  "x \<noteq> 0 \<Longrightarrow> n \<noteq> 0 \<Longrightarrow> x - 1 < n - 1 \<longleftrightarrow> x < (n :: 'a::len word)"
  by (simp add: word_less_nat_alt unat_minus_one_Suc)

lemma word_minus_succ: "a - (d + 1) = a - d - (1 :: 'a::len word)"
  by simp

lemma minus_one_not_less: "\<not> (- 1 :: 'a::len word) < n"
  by (simp add: not_less)

lemma memset_loop_eq:
  "memset_loop m p c n = (\<lambda>a. if a - p < n then c else m a)"
proof (induction m p c n rule: memset_loop.induct)
  case (1 m p c n)
  show ?case
  proof (cases "n = 0")
    case False
    have step: "(if a - (p + 1) < n - 1 then c else (m(p := c)) a) = (if a - p < n then c else m a)"
      for a
    proof (cases "a = p")
      case True
      with False show ?thesis by (simp add: word_gt_0)
    next
      case ne: False
      then have "a - p \<noteq> 0" by simp
      from word_pred_less_iff [OF this False] ne show ?thesis
        by (simp add: word_minus_succ)
    qed
    show ?thesis
      by (subst memset_loop.simps) (simp only: False if_False 1 [OF False] step)
  qed (simp add: memset_loop.simps)
qed

text \<open>
  The ascending copy reads each source byte before it is overwritten unless the destination
  starts inside the source, strictly after its first byte.
\<close>

lemma memcpy_ascending:
  assumes "d - s = 0 \<or> n \<le> d - s"
  shows "memcpy m d s n = (\<lambda>a. if a - d < n then m (s + (a - d)) else m a)"
  using assms
proof (induction m d s n rule: memcpy.induct)
  case (1 m d s n)
  show ?case
  proof (cases "n = 0")
    case False
    let ?m = "m(d := m s)"
    from 1(2) have "d + 1 - (s + 1) = 0 \<or> n - 1 \<le> d + 1 - (s + 1)"
      using word_minus_one_less [OF False] by (auto intro: order_trans less_imp_le)
    note IH = 1(1) [OF False this]
    have step: "(if a - (d + 1) < n - 1 then ?m (s + 1 + (a - (d + 1))) else ?m a)
        = (if a - d < n then m (s + (a - d)) else m a)" for a
    proof (cases "a = d")
      case True
      with False show ?thesis by (simp add: word_gt_0 minus_one_not_less)
    next
      case ne: False
      then have nz: "a - d \<noteq> 0" by simp
      have src: "s + 1 + (a - (d + 1)) = s + (a - d)" by simp
      have "?m (s + (a - d)) = m (s + (a - d))" if "a - d < n"
      proof (cases "s + (a - d) = d")
        case True
        then have "a - d = d - s" by (simp add: algebra_simps)
        with 1(2) that nz show ?thesis by auto
      qed simp
      with word_pred_less_iff [OF nz False] ne show ?thesis
        by (simp add: word_minus_succ src)
    qed
    show ?thesis
      by (subst memcpy.simps) (simp only: False if_False IH step)
  qed (simp add: memcpy.simps)
qed

lemma memmove_descending:
  assumes "s - d = 0 \<or> n \<le> s - d"
  shows "memmove_down m (d + n) (s + n) n
       = (\<lambda>a. if a - d < n then m (s + (a - d)) else m a)"
  using assms
proof (induction "unat n" arbitrary: m n)
  case 0
  then show ?case by (simp add: memmove_down.simps unat_eq_0)
next
  case (Suc k)
  then have nz: "n \<noteq> 0" by auto
  let ?m = "m(d + (n - 1) := m (s + (n - 1)))"
  have lt: "n - 1 < n" using nz by (rule word_minus_one_less)
  have k: "k = unat (n - 1)" using Suc(2) nz by (simp add: unat_minus_one_Suc)
  have "s - d = 0 \<or> n - 1 \<le> s - d" using Suc(3) lt by (auto intro: order_trans less_imp_le)
  note IH = Suc(1) [OF k this, of ?m]
  have step: "(if a - d < n - 1 then ?m (s + (a - d)) else ?m a)
      = (if a - d < n then m (s + (a - d)) else m a)" for a
  proof (cases "a - d < n - 1")
    case True
    have "s + (a - d) \<noteq> d + (n - 1)"
    proof
      assume "s + (a - d) = d + (n - 1)"
      then have e: "s - d = (n - 1) - (a - d)" by (simp add: algebra_simps)
      moreover have "(n - 1) - (a - d) \<noteq> 0"
        unfolding right_minus_eq using True by auto
      moreover have "(n - 1) - (a - d) \<le> n - 1" using True by (intro word_sub_le less_imp_le)
      ultimately show False using Suc(3) e lt by auto
    qed
    with True lt show ?thesis by (auto dest: less_trans)
  next
    case False
    show ?thesis
    proof (cases "a = d + (n - 1)")
      case True
      then have "a - d = n - 1" by simp
      with True lt show ?thesis by simp
    next
      case ne: False
      then have "a - d \<noteq> n - 1" by (auto simp: algebra_simps)
      with False nz have "\<not> a - d < n"
        using unat_minus_one_Suc [OF nz] by (auto simp: word_less_nat_alt word_unat_eq_iff)
      with False ne show ?thesis by simp
    qed
  qed
  have pred: "d + n - 1 = d + (n - 1)" "s + n - 1 = s + (n - 1)" by simp_all
  show ?case
    by (subst memmove_down.simps) (simp only: nz if_False pred IH step)
qed

lemma word_diff_room:
  assumes "s \<le> d" and "unat d + unat n \<le> 2 ^ LENGTH('a)"
  shows "s - d = 0 \<or> n \<le> s - (d :: 'a::len word)"
proof (cases "s = d")
  case False
  with assms(1) have lt: "s < d" by simp
  have "unat (s - d) = 2 ^ LENGTH('a) + unat s - unat d"
    using lt by (simp add: unat_sub_if' word_less_nat_alt)
  moreover have "unat n \<le> 2 ^ LENGTH('a) + unat s - unat d" using assms(2) by linarith
  ultimately show ?thesis by (simp add: word_le_nat_alt)
qed simp

text \<open>C24. \<open>memmove\<close> copies \<open>n\<close> bytes as if through a temporary buffer, whatever the overlap of
  source and destination: for two regions that do not run past the end of the address space,
  every destination byte holds the source byte of the memory before the call, and no other
  byte changes.
\<close>

theorem memmove_correct:
  assumes "unat s + unat n \<le> 2 ^ 64" and "unat d + unat n \<le> 2 ^ 64"
  shows "memmove m d s n = (\<lambda>a. if a - d < n then m (s + (a - d)) else m a)"
proof (cases "d < s")
  case True
  have "d - s = 0 \<or> n \<le> d - s"
    using True assms(1) by (intro word_diff_room) auto
  with True show ?thesis by (simp add: memmove_def memcpy_ascending)
next
  case False
  have "s - d = 0 \<or> n \<le> s - d"
    using False assms(2) by (intro word_diff_room) auto
  with False show ?thesis by (simp add: memmove_def memmove_descending)
qed

theorem memmove_correct_witness:
  "(unat (0x1000 :: u64) + unat (8 :: u64) \<le> 2 ^ 64 \<and> unat (0x1004 :: u64) + unat (8 :: u64) \<le> 2 ^ 64)
   \<and> memmove ucast 0x1004 0x1000 8 0x1007 = (3 :: u8)"
proof -
  have h: "unat (0x1000 :: u64) + unat (8 :: u64) \<le> 2 ^ 64"
    "unat (0x1004 :: u64) + unat (8 :: u64) \<le> 2 ^ 64" by simp_all
  show ?thesis using h by (simp add: memmove_correct [OF h])
qed

section \<open>Strings\<close>

text \<open>\<open>cstr m s k\<close>: the string at \<open>s\<close> has length \<open>k\<close>.\<close>

definition cstr :: "mem \<Rightarrow> u64 \<Rightarrow> nat \<Rightarrow> bool" where
  "cstr m s k \<longleftrightarrow> m (s + of_nat k) = 0 \<and> (\<forall>j<k. m (s + of_nat j) \<noteq> 0)"

lemma cstr_0 [simp]: "cstr m s 0 \<longleftrightarrow> m s = 0"
  by (simp add: cstr_def)

lemma cstr_Suc: "cstr m s (Suc k) \<longleftrightarrow> m s \<noteq> 0 \<and> cstr m (s + 1) k"
  by (auto simp: cstr_def less_Suc_eq_0_disj algebra_simps)

lemma strlen_loop_cstr: "cstr m s k \<Longrightarrow> strlen_loop m s len = Some (len + of_nat k)"
proof (induction k arbitrary: s len)
  case 0
  then show ?case by (subst strlen_loop.simps) simp
next
  case (Suc k)
  then have "strlen_loop m (s + 1) (len + 1) = Some (len + 1 + of_nat k)"
    by (simp add: cstr_Suc)
  with Suc.prems show ?case
    by (subst strlen_loop.simps) (simp add: cstr_Suc algebra_simps)
qed

lemma strncmp_Suc:
  assumes "n \<noteq> 0"
  shows "strncmp m s1 s2 n =
    (if m s1 \<noteq> 0 \<and> m s2 \<noteq> 0 \<and> m s1 = m s2 then strncmp m (s1 + 1) (s2 + 1) (n - 1)
     else sint (m s1) - sint (m s2))"
proof -
  have "n - 1 \<noteq> -1" using assms by (simp add: eq_neg_iff_add_eq_0)
  with assms show ?thesis
    by (simp add: strncmp_def strncmp_loop.simps [of m s1 s2 n])
qed

lemma strncmp_0 [simp]: "strncmp m s1 s2 0 = 0"
  by (simp add: strncmp_def strncmp_loop.simps)

lemma all_less_Suc_shift:
  fixes s :: "'a::len word"
  shows "(\<forall>j<Suc k. (\<forall>i<j. P (s + of_nat i)) \<longrightarrow> Q (s + of_nat j) (t + of_nat j)) \<longleftrightarrow>
    Q s t \<and> (P s \<longrightarrow> (\<forall>j<k. (\<forall>i<j. P (s + 1 + of_nat i)) \<longrightarrow> Q (s + 1 + of_nat j) (t + 1 + of_nat j)))"
  (is "?L \<longleftrightarrow> ?R")
proof -
  have pre: "(\<forall>i<Suc j. P (s + of_nat i)) \<longleftrightarrow> P s \<and> (\<forall>i<j. P (s + 1 + of_nat i))" for j
    by (auto simp: less_Suc_eq_0_disj algebra_simps)
  have "?L \<longleftrightarrow> Q s t \<and> (\<forall>j<k. (\<forall>i<Suc j. P (s + of_nat i)) \<longrightarrow> Q (s + 1 + of_nat j) (t + 1 + of_nat j))"
    by (simp add: All_less_Suc2 algebra_simps)
  then show ?thesis unfolding pre by blast
qed

text \<open>\<open>strncmp\<close> compares at most \<open>n\<close> characters: it returns \<open>0\<close> exactly when the two
  arguments agree at every position below \<open>n\<close> that no earlier terminator of the first string
  cuts off.
\<close>

theorem strncmp_eq_0_iff:
  "strncmp m s1 s2 n = 0 \<longleftrightarrow>
     (\<forall>j<unat n. (\<forall>i<j. m (s1 + of_nat i) \<noteq> 0) \<longrightarrow> m (s1 + of_nat j) = m (s2 + of_nat j))"
proof (induction "unat n" arbitrary: s1 s2 n)
  case 0
  then have "n = 0" by (simp add: unat_eq_0)
  then show ?case by simp
next
  case (Suc k)
  then have nz: "n \<noteq> 0" by auto
  then have k: "k = unat (n - 1)" using Suc(2) by (simp add: unat_minus_one_Suc)
  note IH = Suc(1) [OF k, of "s1 + 1" "s2 + 1"]
  have sint_inj: "sint (m s1) - sint (m s2) = 0 \<longleftrightarrow> m s1 = m s2" by (auto dest: signed_word_eqI)
  show ?case
    unfolding Suc(2) [symmetric] all_less_Suc_shift [where P = "\<lambda>a. m a \<noteq> 0" and Q = "\<lambda>a b. m a = m b"]
    using strncmp_Suc [OF nz, of m s1 s2] IH sint_inj by (auto simp: k)
qed

theorem strncmp_eq_0_iff_witness:
  "strncmp (\<lambda>a. if a = 9 then 66 else 65) 0 8 1 = 0 \<and>
   strncmp (\<lambda>a. if a = 9 then 66 else 65) 0 8 2 \<noteq> 0"
  unfolding strncmp_eq_0_iff by (auto intro: exI [of _ 1])

text \<open>\<open>strlen\<close> returns: on a string of length \<open>k\<close> the loop stops at the terminator and yields
  \<open>k\<close>.
\<close>

theorem strlen_correct: "cstr m s k \<Longrightarrow> strlen m s = Some (of_nat k)"
  by (simp add: strlen_def strlen_loop_cstr)

theorem strlen_correct_witness:
  "cstr (\<lambda>a. if a < 5 then 65 else 0) 2 3 \<and> strlen (\<lambda>a. if a < 5 then 65 else 0) 2 = Some 3"
proof -
  have "cstr (\<lambda>a. if a < 5 then 65 else 0) 2 3"
    by (simp add: numeral_3_eq_3 cstr_Suc)
  from this strlen_correct [OF this] show ?thesis by simp
qed

section \<open>\<open>strncpy\<close>\<close>

lemma strncpy_copy_prefix:
  assumes "\<forall>j<k. m (src + of_nat j) \<noteq> 0" and "k \<le> unat n"
    and "p - src = 0 \<or> k < unat (p - src)"
  shows "strncpy_copy m p src n
       = strncpy_copy (memcpy m p src (of_nat k)) (p + of_nat k) (src + of_nat k) (n - of_nat k)"
  using assms
proof (induction k arbitrary: m p src n)
  case 0
  then show ?case by (simp add: memcpy.simps)
next
  case (Suc k)
  let ?m = "m(p := m src)"
  from Suc.prems(2) have nz: "n \<noteq> 0" by auto
  have src: "m src \<noteq> 0" using Suc.prems(1) by force
  have lt: "Suc k < 2 ^ 64" using Suc.prems(2) unat_below [of n] by simp
  have "?m (src + 1 + of_nat j) \<noteq> 0" if "j < k" for j
  proof (cases "src + 1 + of_nat j = p")
    case True
    then have "p - src = of_nat (Suc j)" by (simp add: algebra_simps)
    moreover have "unat (of_nat (Suc j) :: u64) = Suc j"
      using that lt by (intro unat_of_nat_small) simp
    ultimately show ?thesis using Suc.prems(3) that by auto
  next
    case False
    moreover have "m (src + of_nat (Suc j)) \<noteq> 0" using Suc.prems(1) that by (simp del: of_nat_Suc)
    ultimately show ?thesis by (simp add: algebra_simps)
  qed
  moreover have "k \<le> unat (n - 1)" using Suc.prems(2) nz by (simp add: unat_minus_one_Suc)
  moreover have "p + 1 - (src + 1) = 0 \<or> k < unat (p + 1 - (src + 1))" using Suc.prems(3) by auto
  ultimately have IH: "strncpy_copy ?m (p + 1) (src + 1) (n - 1) =
      strncpy_copy (memcpy ?m (p + 1) (src + 1) (of_nat k)) (p + 1 + of_nat k) (src + 1 + of_nat k)
        (n - 1 - of_nat k)"
    by (intro Suc.IH) auto
  have "(of_nat (Suc k) :: u64) \<noteq> 0" using lt by (intro of_nat_word_nonzero) simp_all
  then have cp: "memcpy m p src (of_nat (Suc k)) = memcpy ?m (p + 1) (src + 1) (of_nat k)"
    by (subst memcpy.simps) simp
  have step: "strncpy_copy m p src n = strncpy_copy ?m (p + 1) (src + 1) (n - 1)"
    using nz src by (subst strncpy_copy.simps) simp
  show ?case unfolding step IH cp by (simp add: algebra_simps)
qed

lemma no_overwrite:
  assumes "p - src = 0 \<or> k < unat (p - src)" and "k < 2 ^ 64"
  shows "\<not> src + of_nat k - p < (of_nat k :: u64)"
  using assms(1)
proof
  assume "k < unat (p - src)"
  moreover have "src + of_nat k - p = of_nat k - (p - src)" by simp
  moreover have "unat (of_nat k :: u64) = k" using assms(2) by (intro unat_of_nat_small) simp
  ultimately show ?thesis
    using unat_below [of "p - src"] by (simp only: word_less_nat_alt unat_sub_if_size) (simp add: word_size)
qed auto

lemma word_diff_less_iff:
  fixes k x y :: u64
  assumes "k \<le> y"
  shows "x - k < y - k \<longleftrightarrow> k \<le> x \<and> x < y"
proof -
  have y: "unat (y - k) = unat y - unat k" using assms by (simp add: unat_sub)
  have ky: "unat k \<le> unat y" using assms by (simp add: word_le_nat_alt)
  show ?thesis
  proof (cases "k \<le> x")
    case True
    then have "unat (x - k) = unat x - unat k" by (simp add: unat_sub)
    with True y ky show ?thesis by (auto simp: word_less_nat_alt word_le_nat_alt)
  next
    case False
    then have "unat (x - k) = unat x + 2 ^ 64 - unat k"
      by (simp add: unat_sub_if_size word_size word_le_nat_alt)
    moreover have "unat y < 2 ^ 64" using unat_below [of y] by simp
    ultimately have "unat (y - k) \<le> unat (x - k)" using y ky by linarith
    with False show ?thesis by (simp add: word_less_nat_alt)
  qed
qed

text \<open>\<open>strncpy\<close> on a source shorter than \<open>n\<close>: it copies the characters and pads with zeros,
  but only up to byte \<open>n - 2\<close>. The last byte of the destination field keeps what it held
  before the call, because the counter is decremented once more by the test that sees the
  terminator.
\<close>

theorem strncpy_short:
  assumes "cstr m src k" and "k < unat n"
    and "dest - src = 0 \<or> k < unat (dest - src)"
  shows "strncpy m dest src n =
    (\<lambda>a. if a - dest < of_nat k then m (src + (a - dest))
         else if a - dest < n - 1 then 0 else m a)"
proof -
  let ?k = "of_nat k :: u64"
  let ?M = "memcpy m dest src ?k"
  have lt: "k < 2 ^ 64" using assms(2) unat_below [of n] by simp
  then have uk: "unat ?k = k" by (intro unat_of_nat_small) simp
  have "dest - src = 0 \<or> ?k \<le> dest - src" using assms(3) by (auto simp: word_le_nat_alt uk)
  then have M: "?M = (\<lambda>a. if a - dest < ?k then m (src + (a - dest)) else m a)"
    by (rule memcpy_ascending)
  have "?M (src + ?k) = 0"
    using assms(1) no_overwrite [OF assms(3) lt] by (simp add: M cstr_def)
  moreover have "n - ?k \<noteq> 0" using assms(2) uk by auto
  ultimately have cp: "strncpy_copy m dest src n = (?M, dest + ?k, n - ?k - 1)"
    using assms by (subst strncpy_copy_prefix [of k])
      (auto simp: cstr_def strncpy_copy.simps [of ?M])
  have "(if a - (dest + ?k) < n - ?k - 1 then 0 else ?M a) =
    (if a - dest < ?k then m (src + (a - dest)) else if a - dest < n - 1 then 0 else m a)" for a
  proof -
    have e: "a - (dest + ?k) = (a - dest) - ?k" "n - ?k - 1 = n - 1 - ?k" by simp_all
    have "unat (n - 1) = unat n - 1" using assms(2) by (intro unat_minus_one) auto
    then have "?k \<le> n - 1" using assms(2) by (simp add: word_le_nat_alt uk)
    from word_diff_less_iff [OF this, of "a - dest"] show ?thesis
      unfolding e M by (cases "a - dest < ?k") (simp_all add: not_le [symmetric])
  qed
  then show ?thesis by (simp add: strncpy_def cp memset_loop_eq)
qed

theorem strncpy_short_witness:
  "cstr (\<lambda>a. if a < 5 then 65 else 0) 2 3 \<and> 3 < unat (8 :: u64) \<and> 3 < unat (0x100 - 2 :: u64) \<and>
   strncpy (\<lambda>a. if a < 5 then 65 else if a = 0x107 then 66 else 0) 0x100 2 8 0x107 = 66"
proof -
  have c: "cstr (\<lambda>a. if a < 5 then 65 else if a = 0x107 then 66 else 0) 2 3"
    "cstr (\<lambda>a. if a < 5 then 65 else 0) 2 3"
    by (simp_all add: numeral_3_eq_3 cstr_Suc)
  have h: "3 < unat (8 :: u64)" "(0x100 :: u64) - 2 = 0 \<or> 3 < unat (0x100 - 2 :: u64)" by simp_all
  show ?thesis using c(2) strncpy_short [OF c(1) h] by simp
qed

text \<open>\<open>strncpy\<close> on a source with at least \<open>n\<close> characters (\<open>0 < n\<close>): the counter wraps to
  \<open>2 ^ 64 - 1\<close> and the padding loop zeroes the whole address space but for the last copied
  byte. This is the path \<open>vm_create\<close> takes for a configuration name of 63 characters or more.
\<close>

theorem strncpy_long_overrun:
  assumes "\<forall>j<unat n. m (src + of_nat j) \<noteq> 0" and "n \<noteq> 0"
    and "dest - src = 0 \<or> n < dest - src"
  shows "strncpy m dest src n = (\<lambda>a. if a = dest + (n - 1) then m (src + (n - 1)) else 0)"
proof -
  let ?M = "memcpy m dest src n"
  have "dest - src = 0 \<or> n \<le> dest - src" using assms(3) by auto
  then have M: "?M = (\<lambda>a. if a - dest < n then m (src + (a - dest)) else m a)"
    by (rule memcpy_ascending)
  have cp: "strncpy_copy m dest src n = (?M, dest + n, - 1)"
    using assms by (subst strncpy_copy_prefix [of "unat n"])
      (auto simp: word_less_nat_alt strncpy_copy.simps [of ?M])
  have "a - (dest + n) < - 1 \<longleftrightarrow> a \<noteq> dest + (n - 1)" for a
  proof -
    have "a - (dest + n) < - 1 \<longleftrightarrow> a - (dest + n) \<noteq> - 1"
      using word_order.extremum [of "a - (dest + n)"] by (auto simp: less_le)
    also have "\<dots> \<longleftrightarrow> a \<noteq> dest + (n - 1)" by (auto simp: algebra_simps)
    finally show ?thesis .
  qed
  then show ?thesis
    using word_minus_one_less [OF assms(2)]
    by (auto simp: strncpy_def cp memset_loop_eq M fun_eq_iff)
qed

theorem strncpy_long_overrun_witness:
  "(4 :: u64) \<noteq> 0 \<and> (4 :: u64) < 0x100 - 2 \<and> strncpy (\<lambda>a. 65) 0x100 2 4 0x9000 = 0"
proof -
  have h: "\<forall>j<unat (4 :: u64). (\<lambda>a :: u64. 65 :: u8) (2 + of_nat j) \<noteq> 0" "(4 :: u64) \<noteq> 0"
    "(0x100 :: u64) - 2 = 0 \<or> (4 :: u64) < 0x100 - 2" by simp_all
  show ?thesis using strncpy_long_overrun [OF h] by simp
qed

end
