(* ===== verification/Utils_Crc.thy ===== *)
theory Utils_Crc
  imports Utils_Mem
begin

text \<open>
  The table-driven CRC-32 of \<^verbatim>\<open>src/utils/log.c\<close>. The reference definition shifts one bit
  at a time with the reflected polynomial \<open>0xEDB88320\<close>; the lemmas show that the table and the
  byte loop compute it, and that a corrupted burst of up to 32 bits is always detected.
\<close>

section \<open>Definitions\<close>

definition crc32_table :: "u32 list" where
  "crc32_table =
    [0x00000000, 0x77073096, 0xEE0E612C, 0x990951BA, 0x076DC419, 0x706AF48F,
     0xE963A535, 0x9E6495A3, 0x0EDB8832, 0x79DCB8A4, 0xE0D5E91E, 0x97D2D988,
     0x09B64C2B, 0x7EB17CBD, 0xE7B82D07, 0x90BF1D91, 0x1DB71064, 0x6AB020F2,
     0xF3B97148, 0x84BE41DE, 0x1ADAD47D, 0x6DDDE4EB, 0xF4D4B551, 0x83D385C7,
     0x136C9856, 0x646BA8C0, 0xFD62F97A, 0x8A65C9EC, 0x14015C4F, 0x63066CD9,
     0xFA0F3D63, 0x8D080DF5, 0x3B6E20C8, 0x4C69105E, 0xD56041E4, 0xA2677172,
     0x3C03E4D1, 0x4B04D447, 0xD20D85FD, 0xA50AB56B, 0x35B5A8FA, 0x42B2986C,
     0xDBBBC9D6, 0xACBCF940, 0x32D86CE3, 0x45DF5C75, 0xDCD60DCF, 0xABD13D59,
     0x26D930AC, 0x51DE003A, 0xC8D75180, 0xBFD06116, 0x21B4F4B5, 0x56B3C423,
     0xCFBA9599, 0xB8BDA50F, 0x2802B89E, 0x5F058808, 0xC60CD9B2, 0xB10BE924,
     0x2F6F7C87, 0x58684C11, 0xC1611DAB, 0xB6662D3D, 0x76DC4190, 0x01DB7106,
     0x98D220BC, 0xEFD5102A, 0x71B18589, 0x06B6B51F, 0x9FBFE4A5, 0xE8B8D433,
     0x7807C9A2, 0x0F00F934, 0x9609A88E, 0xE10E9818, 0x7F6A0DBB, 0x086D3D2D,
     0x91646C97, 0xE6635C01, 0x6B6B51F4, 0x1C6C6162, 0x856530D8, 0xF262004E,
     0x6C0695ED, 0x1B01A57B, 0x8208F4C1, 0xF50FC457, 0x65B0D9C6, 0x12B7E950,
     0x8BBEB8EA, 0xFCB9887C, 0x62DD1DDF, 0x15DA2D49, 0x8CD37CF3, 0xFBD44C65,
     0x4DB26158, 0x3AB551CE, 0xA3BC0074, 0xD4BB30E2, 0x4ADFA541, 0x3DD895D7,
     0xA4D1C46D, 0xD3D6F4FB, 0x4369E96A, 0x346ED9FC, 0xAD678846, 0xDA60B8D0,
     0x44042D73, 0x33031DE5, 0xAA0A4C5F, 0xDD0D7CC9, 0x5005713C, 0x270241AA,
     0xBE0B1010, 0xC90C2086, 0x5768B525, 0x206F85B3, 0xB966D409, 0xCE61E49F,
     0x5EDEF90E, 0x29D9C998, 0xB0D09822, 0xC7D7A8B4, 0x59B33D17, 0x2EB40D81,
     0xB7BD5C3B, 0xC0BA6CAD, 0xEDB88320, 0x9ABFB3B6, 0x03B6E20C, 0x74B1D29A,
     0xEAD54739, 0x9DD277AF, 0x04DB2615, 0x73DC1683, 0xE3630B12, 0x94643B84,
     0x0D6D6A3E, 0x7A6A5AA8, 0xE40ECF0B, 0x9309FF9D, 0x0A00AE27, 0x7D079EB1,
     0xF00F9344, 0x8708A3D2, 0x1E01F268, 0x6906C2FE, 0xF762575D, 0x806567CB,
     0x196C3671, 0x6E6B06E7, 0xFED41B76, 0x89D32BE0, 0x10DA7A5A, 0x67DD4ACC,
     0xF9B9DF6F, 0x8EBEEFF9, 0x17B7BE43, 0x60B08ED5, 0xD6D6A3E8, 0xA1D1937E,
     0x38D8C2C4, 0x4FDFF252, 0xD1BB67F1, 0xA6BC5767, 0x3FB506DD, 0x48B2364B,
     0xD80D2BDA, 0xAF0A1B4C, 0x36034AF6, 0x41047A60, 0xDF60EFC3, 0xA867DF55,
     0x316E8EEF, 0x4669BE79, 0xCB61B38C, 0xBC66831A, 0x256FD2A0, 0x5268E236,
     0xCC0C7795, 0xBB0B4703, 0x220216B9, 0x5505262F, 0xC5BA3BBE, 0xB2BD0B28,
     0x2BB45A92, 0x5CB36A04, 0xC2D7FFA7, 0xB5D0CF31, 0x2CD99E8B, 0x5BDEAE1D,
     0x9B64C2B0, 0xEC63F226, 0x756AA39C, 0x026D930A, 0x9C0906A9, 0xEB0E363F,
     0x72076785, 0x05005713, 0x95BF4A82, 0xE2B87A14, 0x7BB12BAE, 0x0CB61B38,
     0x92D28E9B, 0xE5D5BE0D, 0x7CDCEFB7, 0x0BDBDF21, 0x86D3D2D4, 0xF1D4E242,
     0x68DDB3F8, 0x1FDA836E, 0x81BE16CD, 0xF6B9265B, 0x6FB077E1, 0x18B74777,
     0x88085AE6, 0xFF0F6A70, 0x66063BCA, 0x11010B5C, 0x8F659EFF, 0xF862AE69,
     0x616BFFD3, 0x166CCF45, 0xA00AE278, 0xD70DD2EE, 0x4E048354, 0x3903B3C2,
     0xA7672661, 0xD06016F7, 0x4969474D, 0x3E6E77DB, 0xAED16A4A, 0xD9D65ADC,
     0x40DF0B66, 0x37D83BF0, 0xA9BCAE53, 0xDEBB9EC5, 0x47B2CF7F, 0x30B5FFE9,
     0xBDBDF21C, 0xCABAC28A, 0x53B39330, 0x24B4A3A6, 0xBAD03605, 0xCDD70693,
     0x54DE5729, 0x23D967BF, 0xB3667A2E, 0xC4614AB8, 0x5D681B02, 0x2A6F2B94,
     0xB40BBE37, 0xC30C8EA1, 0x5A05DF1B, 0x2D02EF8D]"

text \<open>One iteration of the loop; the index is below 256 by the mask.\<close>

definition crc32_update :: "u32 \<Rightarrow> u8 \<Rightarrow> u32" where
  "crc32_update crc b = crc32_table ! unat ((crc XOR ucast b) AND 0xFF) XOR drop_bit 8 crc"

function crc32_loop :: "mem \<Rightarrow> u64 \<Rightarrow> u64 \<Rightarrow> u32 \<Rightarrow> u32" where
  "crc32_loop m p len crc =
     (if len = 0 then crc else crc32_loop m (p + 1) (len - 1) (crc32_update crc (m p)))"
  by pat_completeness auto
termination
  by (relation "measure (\<lambda>(m, p, len, crc). unat len)") (auto simp: unat_pred_less)

definition crc32 :: "mem \<Rightarrow> u64 \<Rightarrow> u64 \<Rightarrow> u32" where
  "crc32 m data len = crc32_loop m data len 0xFFFFFFFF XOR 0xFFFFFFFF"

declare crc32_loop.simps [simp del]

section \<open>The bitwise reference\<close>

definition crc_bit :: "u32 \<Rightarrow> u32" where
  "crc_bit c = (if bit c 0 then drop_bit 1 c XOR 0xEDB88320 else drop_bit 1 c)"

definition crc_byte :: "u8 \<Rightarrow> u32 \<Rightarrow> u32" where
  "crc_byte b c = (crc_bit ^^ 8) (c XOR ucast b)"

definition crc32_bitwise :: "u8 list \<Rightarrow> u32" where
  "crc32_bitwise bs = fold crc_byte bs 0xFFFFFFFF XOR 0xFFFFFFFF"

text \<open>The bytes of a buffer.\<close>

definition bytes_at :: "mem \<Rightarrow> u64 \<Rightarrow> nat \<Rightarrow> u8 list" where
  "bytes_at m p n = map (\<lambda>i. m (p + of_nat i)) [0..<n]"

lemma bytes_at_0 [simp]: "bytes_at m p 0 = []"
  by (simp add: bytes_at_def)

lemma length_bytes_at [simp]: "length (bytes_at m p n) = n"
  by (simp add: bytes_at_def)

lemma bytes_at_Suc: "bytes_at m p (Suc n) = m p # bytes_at m (p + 1) n"
  by (simp add: bytes_at_def upt_conv_Cons map_Suc_upt [symmetric] algebra_simps
      del: upt_Suc)

section \<open>The shift register is linear and injective\<close>

lemma crc_bit_0 [simp]: "crc_bit 0 = 0"
  by (simp add: crc_bit_def)

lemma crc_bit_xor: "crc_bit (a XOR b) = crc_bit a XOR crc_bit b"
proof -
  have "bit (a XOR b) 0 \<longleftrightarrow> bit a 0 \<noteq> bit b 0" by (simp add: bit_xor_iff)
  moreover have "drop_bit 1 (a XOR b) = drop_bit 1 a XOR drop_bit 1 b" by (rule drop_bit_xor)
  ultimately show ?thesis
    by (auto simp: crc_bit_def ac_simps xor.left_commute)
qed

lemma crc_bits_xor: "(crc_bit ^^ n) (a XOR b) = (crc_bit ^^ n) a XOR (crc_bit ^^ n) b"
  by (induction n) (simp_all add: crc_bit_xor)

lemma crc_bits_0 [simp]: "(crc_bit ^^ n) 0 = 0"
  by (induction n) simp_all

lemma crc_bit_eq_0: "crc_bit c = 0 \<Longrightarrow> c = 0"
proof (cases "bit c 0")
  case True
  assume "crc_bit c = 0"
  then have "bit (drop_bit 1 c XOR 0xEDB88320 :: u32) 31 = bit (0 :: u32) 31"
    using True by (simp add: crc_bit_def)
  moreover have "\<not> bit (drop_bit 1 c) 31" using bit_imp_le_length [of c 32]
    by (auto simp: bit_drop_bit_eq)
  moreover have "bit (0xEDB88320 :: u32) 31" by code_simp
  ultimately show ?thesis by (simp add: bit_xor_iff)
next
  case False
  assume "crc_bit c = 0"
  then have "drop_bit 1 c = 0" using False by (simp add: crc_bit_def)
  then have "\<not> bit (drop_bit 1 c) n" for n by simp
  then have "\<not> bit c (Suc n)" for n by (simp add: bit_drop_bit_eq)
  with False have "\<not> bit c n" for n by (cases n) simp_all
  then show ?thesis by (simp add: bit_eq_iff)
qed

lemma crc_bits_eq_0: "(crc_bit ^^ n) c = 0 \<Longrightarrow> c = 0"
  by (induction n) (auto dest: crc_bit_eq_0)

lemma xor_eq_0_word: "(a XOR b :: 'a::len word) = 0 \<longleftrightarrow> a = b"
  by (metis xor.assoc xor.right_neutral xor_self_eq xor.left_neutral)

lemma xor_left_cancel_word: "(a XOR b :: 'a::len word) = a XOR c \<longleftrightarrow> b = c"
  by (metis xor.assoc xor.left_neutral xor_self_eq)

lemma crc_bits_inj: "(crc_bit ^^ n) a = (crc_bit ^^ n) b \<longleftrightarrow> a = b"
  using crc_bits_eq_0 [of n "a XOR b"] by (auto simp: crc_bits_xor xor_eq_0_word)

lemma crc_bits_shift:
  "(\<forall>i<n. \<not> bit c i) \<Longrightarrow> (crc_bit ^^ n) c = drop_bit n c"
proof (induction n arbitrary: c)
  case 0
  then show ?case by simp
next
  case (Suc n)
  have "\<not> bit c 0" using Suc.prems by simp
  then have "crc_bit c = drop_bit 1 c" by (simp add: crc_bit_def)
  moreover have "\<forall>i<n. \<not> bit (drop_bit 1 c) i" using Suc.prems by (simp add: bit_drop_bit_eq)
  ultimately have "(crc_bit ^^ n) (crc_bit c) = drop_bit n (drop_bit 1 c)" using Suc.IH by simp
  then show ?case by (simp add: funpow_Suc_right del: funpow.simps)
qed

section \<open>The table holds the reference register\<close>

definition table_double :: "u32 list \<Rightarrow> u32 \<Rightarrow> u32 list" where
  "table_double xs e = xs @ map (\<lambda>x. x XOR e) xs"

lemma crc32_table_double:
  "crc32_table = foldl table_double [0]
     [0x77073096, 0xEE0E612C, 0x076DC419, 0x0EDB8832, 0x1DB71064, 0x3B6E20C8, 0x76DC4190, 0xEDB88320]"
  by (simp add: table_double_def crc32_table_def)

lemma crc_bit_chain:
  "crc_bit 128 = 64" "crc_bit 64 = 32" "crc_bit 32 = 16" "crc_bit 16 = 8" "crc_bit 8 = 4"
  "crc_bit 4 = 2" "crc_bit 2 = 1" "crc_bit 1 = 0xEDB88320"
  "crc_bit 0xEDB88320 = 0x76DC4190"
  "crc_bit 0x76DC4190 = 0x3B6E20C8"
  "crc_bit 0x3B6E20C8 = 0x1DB71064"
  "crc_bit 0x1DB71064 = 0x0EDB8832"
  "crc_bit 0x0EDB8832 = 0x076DC419"
  "crc_bit 0x076DC419 = 0xEE0E612C"
  "crc_bit 0xEE0E612C = 0x77073096"
  by code_simp+

lemma crc32_table_powers:
  "[0x77073096, 0xEE0E612C, 0x076DC419, 0x0EDB8832, 0x1DB71064, 0x3B6E20C8, 0x76DC4190, 0xEDB88320] = map (\<lambda>k. (crc_bit ^^ 8) (2 ^ k)) [0..<8]"
  by (simp add: upt_rec numeral_eq_Suc crc_bit_chain)

lemma table_double_step:
  assumes "k < 8"
  shows "table_double (map (\<lambda>i. (crc_bit ^^ n) (of_nat i)) [0..<2 ^ k]) ((crc_bit ^^ n) (2 ^ k)) =
    map (\<lambda>i. (crc_bit ^^ n) (of_nat i)) [0..<2 ^ Suc k]"
proof -
  have x: "(of_nat (i + 2 ^ k) :: u32) = of_nat i XOR 2 ^ k" if "i < 2 ^ k" for i
  proof -
    have "(of_nat i :: u32) AND 2 ^ k = 0"
    proof (rule bit_word_eqI)
      fix j :: nat
      assume "j < LENGTH(32)"
      have "\<not> bit i k" using that by (metis bit_take_bit_iff less_irrefl take_bit_nat_eq_self)
      then show "bit ((of_nat i :: u32) AND 2 ^ k) j \<longleftrightarrow> bit (0 :: u32) j"
        by (auto simp: bit_and_iff bit_exp_iff bit_of_nat_iff)
    qed
    then show ?thesis by (simp add: disjunctive_add_eq_xor)
  qed
  have "[0..<2 ^ Suc k] = [0..<2 ^ k] @ map (\<lambda>i. i + 2 ^ k) [0..<2 ^ k]"
    using upt_add_eq_append [of 0 "2 ^ k" "2 ^ k"] map_add_upt [of "2 ^ k" "2 ^ k"]
    by (simp only: power_Suc mult_2)
  moreover have "map (\<lambda>i. (crc_bit ^^ n) (of_nat (i + 2 ^ k))) [0..<2 ^ k] =
      map (\<lambda>i. (crc_bit ^^ n) (of_nat i) XOR (crc_bit ^^ n) (2 ^ k)) [0..<2 ^ k]"
    by (intro map_cong refl) (simp only: x atLeastLessThan_iff crc_bits_xor set_upt)
  ultimately show ?thesis by (simp add: table_double_def comp_def)
qed

lemma table_double_all:
  "k \<le> 8 \<Longrightarrow> foldl table_double [0] (map (\<lambda>j. (crc_bit ^^ n) (2 ^ j)) [0..<k]) =
     map (\<lambda>i. (crc_bit ^^ n) (of_nat i)) [0..<2 ^ k]"
  by (induction k) (simp_all add: table_double_step del: power_Suc)

lemma crc32_table_eq: "crc32_table = map (\<lambda>i. (crc_bit ^^ 8) (of_nat i)) [0..<256]"
  unfolding crc32_table_double crc32_table_powers using table_double_all [of 8 8] by simp

lemma crc32_table_nth: "i < 256 \<Longrightarrow> crc32_table ! i = (crc_bit ^^ 8) (of_nat i)"
  by (simp add: crc32_table_eq)

section \<open>The byte loop\<close>

lemma crc32_update_eq: "crc32_update c b = crc_byte b c"
proof -
  let ?x = "c XOR ucast b"
  let ?lo = "?x AND 0xFF" and ?hi = "?x AND NOT 0xFF"
  have m: "(0xFF :: u32) = mask 8" by (simp add: mask_eq_exp_minus_1)
  have "unat ?lo \<le> unat (0xFF :: u32)"
    using word_and_le1 [of ?x "0xFF"] by (simp only: word_le_nat_alt)
  then have "unat ?lo < 256" by simp
  then have t: "crc32_table ! unat ?lo = (crc_bit ^^ 8) ?lo" by (simp add: crc32_table_nth)
  have "(crc_bit ^^ 8) ?hi = drop_bit 8 ?hi"
    by (rule crc_bits_shift) (simp add: m bit_and_iff bit_not_iff bit_mask_iff)
  also have "\<dots> = drop_bit 8 c"
    by (rule bit_word_eqI)
      (auto simp: m bit_and_iff bit_not_iff bit_mask_iff bit_drop_bit_eq bit_xor_iff bit_ucast_iff dest: bit_imp_le_length)
  finally have h: "(crc_bit ^^ 8) ?hi = drop_bit 8 c" .
  have "?x = ?lo XOR ?hi"
    by (rule bit_word_eqI) (auto simp: m bit_and_iff bit_not_iff bit_xor_iff)
  then have "crc_byte b c = (crc_bit ^^ 8) (?lo XOR ?hi)" by (simp add: crc_byte_def)
  then show ?thesis unfolding crc32_update_def crc_bits_xor t h by (rule sym)
qed

lemma crc32_loop_fold:
  "crc32_loop m p len c = fold crc_byte (bytes_at m p (unat len)) c"
proof (induction "unat len" arbitrary: p len c)
  case 0
  then show ?case by (simp add: unat_eq_0 crc32_loop.simps)
next
  case (Suc k)
  then have nz: "len \<noteq> 0" by auto
  then have k: "k = unat (len - 1)" using Suc(2) by (simp add: unat_minus_one_Suc)
  have "crc32_loop m p len c = crc32_loop m (p + 1) (len - 1) (crc32_update c (m p))"
    using nz by (subst crc32_loop.simps) simp
  then show ?case
    by (simp add: Suc(1) [OF k] crc32_update_eq Suc(2) [symmetric] k [symmetric] bytes_at_Suc)
qed

section \<open>Detection of burst errors\<close>

text \<open>\<open>pack_le\<close> reads up to four bytes as the little-endian word that enters the register.\<close>

fun pack_le :: "u8 list \<Rightarrow> u32" where
  "pack_le [] = 0"
| "pack_le (b # bs) = ucast b XOR push_bit 8 (pack_le bs)"

lemma pack_le_bound: "bit (pack_le bs) i \<Longrightarrow> i < 8 * length bs"
proof (induction bs arbitrary: i)
  case (Cons b bs)
  then show ?case
    by (cases "i < 8")
      (auto simp: bit_xor_iff bit_ucast_iff bit_push_bit_iff dest: bit_imp_le_length dest!: Cons.IH)
qed simp

lemma pack_le_inj: "length xs = length ys \<Longrightarrow> length xs \<le> 4 \<Longrightarrow> pack_le xs = pack_le ys \<Longrightarrow> xs = ys"
proof (induction xs ys rule: list_induct2')
  case (4 x xs y ys)
  have bits: "bit (ucast x XOR push_bit 8 (pack_le xs) :: u32) i \<longleftrightarrow>
      bit (ucast y XOR push_bit 8 (pack_le ys) :: u32) i" for i
    using "4.prems"(3) by simp
  have "x = y"
  proof (rule bit_word_eqI)
    fix i :: nat
    assume "i < LENGTH(8)"
    then show "bit x i \<longleftrightarrow> bit y i" using bits [of i] by (simp add: bit_xor_iff bit_ucast_iff bit_push_bit_iff)
  qed
  then have eq: "push_bit 8 (pack_le xs) = push_bit 8 (pack_le ys)"
    using "4.prems"(3) by (simp add: xor_left_cancel_word)
  have "pack_le xs = pack_le ys"
  proof (rule bit_word_eqI)
    fix i :: nat
    assume "i < LENGTH(32)"
    show "bit (pack_le xs) i \<longleftrightarrow> bit (pack_le ys) i"
    proof (cases "i < 24")
      case True
      have "bit (push_bit 8 (pack_le xs)) (i + 8) = bit (push_bit 8 (pack_le ys)) (i + 8)"
        by (simp add: eq)
      with True show ?thesis by (simp add: bit_push_bit_iff)
    next
      case False
      then have "\<not> bit (pack_le xs) i" "\<not> bit (pack_le ys) i"
        using "4.prems" by (auto dest!: pack_le_bound)
      then show ?thesis by simp
    qed
  qed
  with \<open>x = y\<close> 4 show ?case by simp
qed simp_all

lemma crc_bytes_pack:
  "length bs \<le> 4 \<Longrightarrow> fold crc_byte bs c = (crc_bit ^^ (8 * length bs)) (c XOR pack_le bs)"
proof (induction bs arbitrary: c)
  case (Cons b bs)
  let ?w = "pack_le bs"
  have "(crc_bit ^^ 8) (push_bit 8 ?w) = drop_bit 8 (push_bit 8 ?w)"
    by (rule crc_bits_shift) (simp add: bit_push_bit_iff)
  also have "\<dots> = ?w"
    using Cons.prems
    by (intro bit_word_eqI) (auto simp: bit_drop_bit_eq bit_push_bit_iff dest: pack_le_bound)
  finally have w: "?w = (crc_bit ^^ 8) (push_bit 8 ?w)" ..
  have "fold crc_byte (b # bs) c = (crc_bit ^^ (8 * length bs)) (crc_byte b c XOR ?w)"
    using Cons by simp
  also have "crc_byte b c XOR ?w = (crc_bit ^^ 8) (c XOR pack_le (b # bs))"
    by (subst w) (simp add: crc_byte_def crc_bits_xor xor.assoc del: funpow.simps)
  finally show ?case using funpow_add [of "8 * length bs" 8 crc_bit] by (simp add: add.commute)
qed simp

lemma crc_fold_inj: "fold crc_byte bs c = fold crc_byte bs d \<longleftrightarrow> c = d"
proof (induction bs arbitrary: c d)
  case (Cons b bs)
  have "crc_byte b c = crc_byte b d \<longleftrightarrow> c = d"
    by (simp add: crc_byte_def crc_bits_inj xor.commute [of _ "ucast b"] xor_left_cancel_word)
  with Cons.IH show ?case by simp
qed simp

section \<open>Properties\<close>

text \<open>C22. The table-driven \<open>crc32\<close> computes the CRC-32 defined by the reflected polynomial
  \<open>0xEDB88320\<close> one bit at a time, over exactly the \<open>len\<close> bytes of the buffer.
\<close>

theorem crc32_refines_bitwise: "crc32 m data len = crc32_bitwise (bytes_at m data (unat len))"
  by (simp add: crc32_def crc32_bitwise_def crc32_loop_fold)

text \<open>C23. Every error burst of up to four bytes changes the checksum: two buffers of the same length
  that differ only inside a window of at most four consecutive bytes, and do differ there, have
  different CRCs.
\<close>

theorem crc32_detects_burst:
  assumes "bytes_at m1 a (unat len) = pre @ xs @ post"
    and "bytes_at m2 b (unat len) = pre @ ys @ post"
    and "length xs = length ys" "length xs \<le> 4" "xs \<noteq> ys"
  shows "crc32 m1 a len \<noteq> crc32 m2 b len"
proof
  assume "crc32 m1 a len = crc32 m2 b len"
  then have "fold crc_byte (pre @ xs @ post) 0xFFFFFFFF = fold crc_byte (pre @ ys @ post) 0xFFFFFFFF"
    unfolding crc32_def crc32_loop_fold assms(1,2)
    by (simp add: xor.commute [of _ "0xFFFFFFFF"] xor_left_cancel_word)
  then have "fold crc_byte xs (fold crc_byte pre 0xFFFFFFFF) = fold crc_byte ys (fold crc_byte pre 0xFFFFFFFF)"
    by (simp add: crc_fold_inj)
  then have "pack_le xs = pack_le ys"
    using assms(3,4) by (simp add: crc_bytes_pack crc_bits_inj xor_left_cancel_word)
  with assms(3-5) show False by (simp add: pack_le_inj)
qed

theorem crc32_detects_burst_witness:
  "crc32 (\<lambda>a. if a = 1 then 7 else 0) 0 3 \<noteq> crc32 (\<lambda>a. 0) 0 3"
  by (rule crc32_detects_burst [of _ _ _ "[0]" "[7]" "[0]" _ _ "[0]"])
    (code_simp, code_simp, simp_all)

end
