(* ===== verification/Io_Emul.thy ===== *)
theory Io_Emul
  imports Nexus_Prelude
begin

text \<open>
  Port I/O, MMIO and interrupt lines of \<^verbatim>\<open>src/hypervisor/io/io_emul.c\<close>.

  Handler entries are heap objects linked by their \<open>next\<close> pointers, so that a freed entry that is
  still reachable is visible as undefined behaviour. A handler's \<open>u64 *value\<close> argument is an
  address; the words of the host that such pointers address are the map \<open>host\<close>. \<open>malloc\<close> is the
  parameter \<open>av\<close>: whether the \<open>k\<close>-th request succeeds. The five functions of the file with the
  handler type are the constructors of \<open>io_fn\<close>. \<open>io_emul_init\<close> passes five arguments where
  \<open>io_register_handler\<close> has four parameters; they are read by position, so that the read function
  is the handler and the write function is the unused \<open>context\<close>. The \<open>nexusvcpu_t\<close> argument is
  only compared with \<open>NULL\<close>.
\<close>

section \<open>State\<close>

datatype io_fn = CMOS_READ | PS2_KEYBOARD_READ | PIT_READ | UART_READ | VGA_READ

record io_handler =
  port :: u16
  count :: u16
  handler :: io_fn
  io_next :: "ref option"

record mmio_handler =
  mstart :: u64
  mend :: u64
  mhandler :: nat
  mmio_next :: "ref option"

record io_state =
  io_objs :: "ref \<rightharpoonup> io_handler"
  mmio_objs :: "ref \<rightharpoonup> mmio_handler"
  g_io_handlers :: "ref option"
  g_mmio_handlers :: "ref option"
  g_io_initialized :: bool
  cmos_rtc :: "u8 list"
  cmos_index :: u8
  ps2_status :: u8
  ps2_output :: u8
  pit_counter :: "u16 list"
  pit_mode :: "u8 list"
  uart_regs :: "u8 list"
  vga_attr_index :: u8
  vga_attr_data :: u8
  vga_misc_output :: u8
  g_irq_lines :: "bool list"
  host :: "u64 \<Rightarrow> u64"
  mallocs :: nat

text \<open>The static initialisers.\<close>

definition io_static :: io_state where
  "io_static = \<lparr>io_objs = Map.empty, mmio_objs = Map.empty, g_io_handlers = None, g_mmio_handlers = None,
     g_io_initialized = False, cmos_rtc = replicate 128 0, cmos_index = 0, ps2_status = 0, ps2_output = 0,
     pit_counter = [0, 0, 0], pit_mode = [0, 0, 0], uart_regs = replicate 8 0, vga_attr_index = 0,
     vga_attr_data = 0, vga_misc_output = 0, g_irq_lines = replicate 256 False, host = (\<lambda>_. 0),
     mallocs = 0\<rparr>"

text \<open>\<open>*value = x\<close>; the write through \<open>NULL\<close> is undefined.\<close>

definition put :: "io_state \<Rightarrow> u64 \<Rightarrow> u64 \<Rightarrow> io_state run" where
  "put s p x = (if p = 0 then None else Some (s\<lparr>host := (host s)(p := x)\<rparr>))"

section \<open>Devices\<close>

definition cmos_read :: "io_state \<Rightarrow> u16 \<Rightarrow> u32 \<Rightarrow> u64 \<Rightarrow> (nexusvm_result \<times> io_state) run" where
  "cmos_read s prt sz p = do {
     s' \<leftarrow> (if prt = 0x70 then put s p (ucast (cmos_index s))
            else if prt = 0x71 then
              (if cmos_index s < 128 then put s p (ucast (cmos_rtc s ! unat (cmos_index s)))
               else put s p 0xFF)
            else put s p 0xFF);
     Some (NEXUSVM_OK, s')
   }"

definition cmos_write :: "io_state \<Rightarrow> u16 \<Rightarrow> u32 \<Rightarrow> u64 \<Rightarrow> nexusvm_result \<times> io_state" where
  "cmos_write s prt sz v =
     (NEXUSVM_OK,
      if prt = 0x70 then s\<lparr>cmos_index := ucast (v AND 0x7F)\<rparr>
      else if prt = 0x71 then
        (if cmos_index s < 128 then s\<lparr>cmos_rtc := (cmos_rtc s)[unat (cmos_index s) := ucast v]\<rparr> else s)
      else s)"

definition ps2_keyboard_read :: "io_state \<Rightarrow> u16 \<Rightarrow> u32 \<Rightarrow> u64 \<Rightarrow> (nexusvm_result \<times> io_state) run" where
  "ps2_keyboard_read s prt sz p = do {
     s' \<leftarrow> (if prt = 0x60 then do { s1 \<leftarrow> put s p (ucast (ps2_output s)); Some (s1\<lparr>ps2_output := 0\<rparr>) }
            else if prt = 0x64 then put s p (ucast (ps2_status s))
            else put s p 0xFF);
     Some (NEXUSVM_OK, s')
   }"

definition ps2_keyboard_write :: "io_state \<Rightarrow> u16 \<Rightarrow> u32 \<Rightarrow> u64 \<Rightarrow> nexusvm_result \<times> io_state" where
  "ps2_keyboard_write s prt sz v =
     (NEXUSVM_OK, if prt = 0x60 then s\<lparr>ps2_status := ucast v\<rparr> else s)"

definition pit_read :: "io_state \<Rightarrow> u16 \<Rightarrow> u32 \<Rightarrow> u64 \<Rightarrow> (nexusvm_result \<times> io_state) run" where
  "pit_read s prt sz p = do {
     s' \<leftarrow> (if 0x40 \<le> prt \<and> prt \<le> 0x42 then put s p (ucast (pit_counter s ! unat (prt - 0x40)))
            else put s p 0);
     Some (NEXUSVM_OK, s')
   }"

text \<open>The store to \<open>pit_mode[3]\<close> is outside the array.\<close>

definition pit_write :: "io_state \<Rightarrow> u16 \<Rightarrow> u32 \<Rightarrow> u64 \<Rightarrow> (nexusvm_result \<times> io_state) run" where
  "pit_write s prt sz v =
     (if 0x40 \<le> prt \<and> prt \<le> 0x42
      then Some (NEXUSVM_OK, s\<lparr>pit_counter := (pit_counter s)[unat (prt - 0x40) := ucast v]\<rparr>)
      else if prt = 0x43 then
        (let c = unat (drop_bit 6 v AND 3) in
         if c < length (pit_mode s) then Some (NEXUSVM_OK, s\<lparr>pit_mode := (pit_mode s)[c := ucast v]\<rparr>)
         else None)
      else Some (NEXUSVM_OK, s))"

definition uart_read :: "io_state \<Rightarrow> u16 \<Rightarrow> u32 \<Rightarrow> u64 \<Rightarrow> (nexusvm_result \<times> io_state) run" where
  "uart_read s prt sz p = do {
     let reg = unat (prt AND 7);
     s' \<leftarrow> (if reg < 8 then put s p (ucast (uart_regs s ! reg)) else put s p 0xFF);
     Some (NEXUSVM_OK, s')
   }"

definition uart_write :: "io_state \<Rightarrow> u16 \<Rightarrow> u32 \<Rightarrow> u64 \<Rightarrow> nexusvm_result \<times> io_state" where
  "uart_write s prt sz v =
     (let reg = unat (prt AND 7) in
      (NEXUSVM_OK, if reg < 8 then s\<lparr>uart_regs := (uart_regs s)[reg := ucast v]\<rparr> else s))"

definition vga_read :: "io_state \<Rightarrow> u16 \<Rightarrow> u32 \<Rightarrow> u64 \<Rightarrow> (nexusvm_result \<times> io_state) run" where
  "vga_read s prt sz p = do {
     s' \<leftarrow> (if 0x3C0 \<le> prt \<and> prt \<le> 0x3DF then put s p (if prt = 0x3DA then 0 else 0) else put s p 0);
     Some (NEXUSVM_OK, s')
   }"

definition vga_write :: "io_state \<Rightarrow> u16 \<Rightarrow> u32 \<Rightarrow> u64 \<Rightarrow> nexusvm_result \<times> io_state" where
  "vga_write s prt sz v =
     (NEXUSVM_OK,
      if prt = 0x3C0 \<or> prt = 0x3C2 then s\<lparr>vga_attr_index := ucast v\<rparr>
      else if prt = 0x3DA then s\<lparr>vga_misc_output := ucast v\<rparr>
      else s)"

text \<open>The call through the function pointer of an entry.\<close>

fun call_handler :: "io_fn \<Rightarrow> io_state \<Rightarrow> u16 \<Rightarrow> u32 \<Rightarrow> u64 \<Rightarrow> (nexusvm_result \<times> io_state) run" where
  "call_handler CMOS_READ = cmos_read"
| "call_handler PS2_KEYBOARD_READ = ps2_keyboard_read"
| "call_handler PIT_READ = pit_read"
| "call_handler UART_READ = uart_read"
| "call_handler VGA_READ = vga_read"

section \<open>Handler lists\<close>

definition io_register_handler ::
  "(nat \<Rightarrow> bool) \<Rightarrow> io_state \<Rightarrow> u16 \<Rightarrow> u16 \<Rightarrow> io_fn \<Rightarrow> nexusvm_result \<times> io_state"
where
  "io_register_handler av s prt cnt h =
     (let k = mallocs s; s1 = s\<lparr>mallocs := Suc k\<rparr> in
      if \<not> av k then (NEXUSVM_ERR_NO_MEMORY, s1)
      else (NEXUSVM_OK,
        s1\<lparr>io_objs := (io_objs s1)(k \<mapsto> \<lparr>port = prt, count = cnt, handler = h, io_next = g_io_handlers s1\<rparr>),
           g_io_handlers := Some k\<rparr>))"

text \<open>
  The loop of \<open>io_unregister_handler\<close>. \<open>prev\<close> points to the head variable (\<^const>\<open>None\<close>) or to the
  \<open>next\<close> member of an entry.
\<close>

definition set_io_link :: "io_state \<Rightarrow> ref option \<Rightarrow> ref option \<Rightarrow> io_state run" where
  "set_io_link s prev v =
     (case prev of None \<Rightarrow> Some (s\<lparr>g_io_handlers := v\<rparr>)
      | Some p \<Rightarrow> (case io_objs s p of None \<Rightarrow> None
         | Some e \<Rightarrow> Some (s\<lparr>io_objs := (io_objs s)(p \<mapsto> e\<lparr>io_next := v\<rparr>)\<rparr>)))"

partial_function (option) io_unregister_loop ::
  "io_state \<Rightarrow> u16 \<Rightarrow> ref option \<Rightarrow> ref option \<Rightarrow> (nexusvm_result \<times> io_state) option"
where
  "io_unregister_loop s prt prev entry =
     (if entry = None then Some (NEXUSVM_ERR_NOT_FOUND, s)
      else do {
          r \<leftarrow> entry;
          e \<leftarrow> io_objs s r;
          if port e = prt then do {
            s1 \<leftarrow> set_io_link s prev (io_next e);
            Some (NEXUSVM_OK, s1\<lparr>io_objs := (io_objs s1)(r := None)\<rparr>)
          } else io_unregister_loop s prt (Some r) (io_next e)
        })"

definition io_unregister_handler :: "io_state \<Rightarrow> u16 \<Rightarrow> (nexusvm_result \<times> io_state) run" where
  "io_unregister_handler s prt = io_unregister_loop s prt None (g_io_handlers s)"

definition io_emul_init :: "(nat \<Rightarrow> bool) \<Rightarrow> io_state \<Rightarrow> nexusvm_result \<times> io_state" where
  "io_emul_init av s =
     (let s = s\<lparr>g_io_handlers := None, g_mmio_handlers := None, g_io_initialized := True\<rparr>;
          (_, s) = io_register_handler av s 0x70 8 CMOS_READ;
          (_, s) = io_register_handler av s 0x60 2 PS2_KEYBOARD_READ;
          (_, s) = io_register_handler av s 0x40 4 PIT_READ;
          (_, s) = io_register_handler av s 0x3F8 8 UART_READ;
          (_, s) = io_register_handler av s 0x3C0 (0x3DA - 0x3C0 + 1) VGA_READ
      in (NEXUSVM_OK, s))"

text \<open>The two loops of \<open>io_emul_shutdown\<close>; the head pointers are not reset.\<close>

partial_function (option) io_free_loop :: "io_state \<Rightarrow> ref option \<Rightarrow> io_state option" where
  "io_free_loop s io =
     (if io = None then Some s
      else do { r \<leftarrow> io; e \<leftarrow> io_objs s r; io_free_loop (s\<lparr>io_objs := (io_objs s)(r := None)\<rparr>) (io_next e) })"

partial_function (option) mmio_free_loop :: "io_state \<Rightarrow> ref option \<Rightarrow> io_state option" where
  "mmio_free_loop s io =
     (if io = None then Some s
      else do { r \<leftarrow> io; e \<leftarrow> mmio_objs s r; mmio_free_loop (s\<lparr>mmio_objs := (mmio_objs s)(r := None)\<rparr>) (mmio_next e) })"

definition io_emul_shutdown :: "io_state \<Rightarrow> io_state run" where
  "io_emul_shutdown s = do {
     s \<leftarrow> io_free_loop s (g_io_handlers s);
     s \<leftarrow> mmio_free_loop s (g_mmio_handlers s);
     Some (s\<lparr>g_io_initialized := False\<rparr>)
   }"

section \<open>Port and memory-mapped access\<close>

text \<open>
  The search loops. \<open>handler->port + handler->count\<close> is computed as an \<open>int\<close> and does not wrap.
\<close>

definition in_ports :: "io_handler \<Rightarrow> u16 \<Rightarrow> bool" where
  "in_ports e p \<longleftrightarrow> port e \<le> p \<and> unat p < unat (port e) + unat (count e)"

partial_function (option) io_find :: "io_state \<Rightarrow> u16 \<Rightarrow> ref option \<Rightarrow> io_fn option option" where
  "io_find s prt h =
     (if h = None then Some None
      else do {
          r \<leftarrow> h;
          e \<leftarrow> io_objs s r;
          if in_ports e prt then Some (Some (handler e)) else io_find s prt (io_next e)
        })"

definition io_port_read ::
  "io_state \<Rightarrow> ref option \<Rightarrow> u16 \<Rightarrow> u32 \<Rightarrow> u64 \<Rightarrow> (nexusvm_result \<times> io_state) run"
where
  "io_port_read s vcpu prt sz p =
     (if vcpu = None \<or> p = 0 then Some (NEXUSVM_ERR_INVALID_PARAM, s)
      else do {
        s \<leftarrow> put s p 0;
        f \<leftarrow> io_find s prt (g_io_handlers s);
        case f of Some h \<Rightarrow> call_handler h s prt sz p
        | None \<Rightarrow> do {
            s \<leftarrow> (if sz = 1 then put s p 0xFF
                  else if sz = 2 then put s p 0xFFFF
                  else if sz = 4 then put s p 0xFFFFFFFF
                  else Some s);
            Some (NEXUSVM_OK, s)
          }
      })"

text \<open>\<open>io_port_write\<close> passes the written value as the pointer argument of the handler.\<close>

definition io_port_write ::
  "io_state \<Rightarrow> ref option \<Rightarrow> u16 \<Rightarrow> u32 \<Rightarrow> u64 \<Rightarrow> (nexusvm_result \<times> io_state) run"
where
  "io_port_write s vcpu prt sz v =
     (if vcpu = None then Some (NEXUSVM_ERR_INVALID_PARAM, s)
      else do {
        f \<leftarrow> io_find s prt (g_io_handlers s);
        case f of Some h \<Rightarrow> call_handler h s prt sz v
        | None \<Rightarrow> Some (NEXUSVM_OK, s)
      })"

definition pci_config_read :: "u8 \<Rightarrow> u8 \<Rightarrow> u8 \<Rightarrow> u8 \<Rightarrow> u32 \<Rightarrow> u32 option \<Rightarrow> nexusvm_result \<times> u32 option" where
  "pci_config_read bus dev func reg sz v =
     (case v of None \<Rightarrow> (NEXUSVM_ERR_INVALID_PARAM, None) | Some _ \<Rightarrow> (NEXUSVM_OK, Some 0xFFFFFFFF))"

definition pci_config_write :: "u8 \<Rightarrow> u8 \<Rightarrow> u8 \<Rightarrow> u8 \<Rightarrow> u32 \<Rightarrow> u32 \<Rightarrow> nexusvm_result" where
  "pci_config_write bus dev func reg sz v = NEXUSVM_OK"

text \<open>
  No function of the repository has the type of an MMIO handler: handlers are code of the caller of
  \<open>mmio_register_handler\<close>, named by numbers, and what they do is the parameter \<open>ext\<close>.
\<close>

type_synonym mmio_fn = "nat \<Rightarrow> io_state \<Rightarrow> u64 \<Rightarrow> u32 \<Rightarrow> u64 \<Rightarrow> (nexusvm_result \<times> io_state) run"

partial_function (option) mmio_find :: "io_state \<Rightarrow> u64 \<Rightarrow> ref option \<Rightarrow> nat option option" where
  "mmio_find s addr h =
     (if h = None then Some None
      else do {
          r \<leftarrow> h;
          e \<leftarrow> mmio_objs s r;
          if mstart e \<le> addr \<and> addr < mend e then Some (Some (mhandler e)) else mmio_find s addr (mmio_next e)
        })"

definition mmio_read :: "mmio_fn \<Rightarrow> io_state \<Rightarrow> ref option \<Rightarrow> u64 \<Rightarrow> u32 \<Rightarrow> u64 \<Rightarrow> (nexusvm_result \<times> io_state) run" where
  "mmio_read ext s vcpu addr sz p =
     (if vcpu = None \<or> p = 0 then Some (NEXUSVM_ERR_INVALID_PARAM, s)
      else do {
        s \<leftarrow> put s p 0;
        f \<leftarrow> mmio_find s addr (g_mmio_handlers s);
        case f of Some h \<Rightarrow> ext h s addr sz p | None \<Rightarrow> Some (NEXUSVM_OK, s)
      })"

definition mmio_write :: "mmio_fn \<Rightarrow> io_state \<Rightarrow> ref option \<Rightarrow> u64 \<Rightarrow> u32 \<Rightarrow> u64 \<Rightarrow> (nexusvm_result \<times> io_state) run" where
  "mmio_write ext s vcpu addr sz v =
     (if vcpu = None then Some (NEXUSVM_ERR_INVALID_PARAM, s)
      else do {
        f \<leftarrow> mmio_find s addr (g_mmio_handlers s);
        case f of Some h \<Rightarrow> ext h s addr sz v | None \<Rightarrow> Some (NEXUSVM_OK, s)
      })"

definition mmio_register_handler ::
  "(nat \<Rightarrow> bool) \<Rightarrow> io_state \<Rightarrow> u64 \<Rightarrow> u64 \<Rightarrow> nat \<Rightarrow> nexusvm_result \<times> io_state"
where
  "mmio_register_handler av s st en h =
     (let k = mallocs s; s1 = s\<lparr>mallocs := Suc k\<rparr> in
      if \<not> av k then (NEXUSVM_ERR_NO_MEMORY, s1)
      else (NEXUSVM_OK,
        s1\<lparr>mmio_objs := (mmio_objs s1)(k \<mapsto> \<lparr>mstart = st, mend = en, mhandler = h, mmio_next = g_mmio_handlers s1\<rparr>),
           g_mmio_handlers := Some k\<rparr>))"

section \<open>Interrupt lines\<close>

definition io_irq_set :: "io_state \<Rightarrow> u32 \<Rightarrow> bool \<Rightarrow> io_state" where
  "io_irq_set s irq level =
     (if irq < 256 then s\<lparr>g_irq_lines := (g_irq_lines s)[unat irq := level]\<rparr> else s)"

definition io_irq_get :: "io_state \<Rightarrow> u32 \<Rightarrow> bool" where
  "io_irq_get s irq = (if irq < 256 then g_irq_lines s ! unat irq else False)"

definition io_generate_interrupt :: "io_state \<Rightarrow> ref option \<Rightarrow> u8 \<Rightarrow> io_state" where
  "io_generate_interrupt s vcpu vector = s"

end
