(* ===== verification/Io_Correct.thy ===== *)
theory Io_Correct
  imports Io_Emul
begin

text \<open>
  Correctness of the I/O component: the handler chain as an abstract list, the operations on it,
  and the behaviour of port access on every port.
\<close>

section \<open>The handler chain\<close>

text \<open>The abstract view of an entry: port, count and function.\<close>

type_synonym io_key = "u16 \<times> u16 \<times> io_fn"

definition entry_key :: "io_handler \<Rightarrow> io_key" where
  "entry_key e = (port e, count e, handler e)"

definition key_covers :: "u16 \<Rightarrow> io_key \<Rightarrow> bool" where
  "key_covers p k = (case k of (a, c, h) \<Rightarrow> unat a \<le> unat p \<and> unat p < unat a + unat c)"

fun chain :: "(ref \<rightharpoonup> io_handler) \<Rightarrow> ref option \<Rightarrow> (ref \<times> io_key) list \<Rightarrow> bool" where
  "chain objs p [] \<longleftrightarrow> p = None"
| "chain objs p ((r, k) # xs) \<longleftrightarrow>
     p = Some r \<and> (\<exists>e. objs r = Some e \<and> entry_key e = k \<and> chain objs (io_next e) xs)"

text \<open>
  The invariant of the component: the entries form a chain of distinct live objects, every live
  object was allocated before now, and the device arrays have their declared sizes.
\<close>

definition io_sizes :: "io_state \<Rightarrow> bool" where
  "io_sizes s \<longleftrightarrow> (\<forall>r. io_objs s r \<noteq> None \<longrightarrow> r < mallocs s) \<and>
     length (cmos_rtc s) = 128 \<and> length (pit_counter s) = 3 \<and> length (pit_mode s) = 3 \<and>
     length (uart_regs s) = 8 \<and> length (g_irq_lines s) = 256"

definition io_inv :: "io_state \<Rightarrow> (ref \<times> io_key) list \<Rightarrow> bool" where
  "io_inv s xs \<longleftrightarrow> chain (io_objs s) (g_io_handlers s) xs \<and> distinct (map fst xs) \<and> io_sizes s"

lemma chain_cong: "chain objs p xs \<Longrightarrow> (\<And>r. r \<in> fst ` set xs \<Longrightarrow> objs' r = objs r) \<Longrightarrow> chain objs' p xs"
  by (induction xs arbitrary: p) force+

lemma chain_live: "chain objs p xs \<Longrightarrow> r \<in> fst ` set xs \<Longrightarrow> objs r \<noteq> None"
  by (induction xs arbitrary: p) force+

lemma io_find_simps [simp]:
  "io_find s prt None = Some None"
  "io_find s prt (Some r) =
     (case io_objs s r of None \<Rightarrow> None
      | Some e \<Rightarrow> if in_ports e prt then Some (Some (handler e)) else io_find s prt (io_next e))"
  by (simp_all add: io_find.simps [of s prt "Some r"] io_find.simps [of s prt None] split: option.split)

lemma in_ports_key: "in_ports e p \<longleftrightarrow> key_covers p (entry_key e)"
  by (simp add: in_ports_def key_covers_def entry_key_def word_le_nat_alt)

text \<open>The search loop returns the function of the first entry that covers the port.\<close>

lemma chain_find:
  "chain (io_objs s) p xs \<Longrightarrow>
   io_find s prt p = Some (map_option (snd \<circ> snd) (find (key_covers prt) (map snd xs)))"
proof (induction xs arbitrary: p)
  case (Cons x xs)
  then show ?case by (cases x) (auto simp: in_ports_key, simp_all add: entry_key_def)
qed simp

lemma io_inv_find:
  "io_inv s xs \<Longrightarrow>
   io_find s prt (g_io_handlers s) = Some (map_option (snd \<circ> snd) (find (key_covers prt) (map snd xs)))"
  by (simp add: io_inv_def chain_find)

section \<open>Registration\<close>

lemma io_register_inv:
  assumes "io_inv s xs" "av (mallocs s)"
  shows "\<exists>s'. io_register_handler av s prt cnt h = (NEXUSVM_OK, s') \<and> io_inv s' ((mallocs s, (prt, cnt, h)) # xs)"
proof -
  let ?e = "\<lparr>port = prt, count = cnt, handler = h, io_next = g_io_handlers s\<rparr>"
  let ?objs = "(io_objs s)(mallocs s \<mapsto> ?e)"
  have c: "chain (io_objs s) (g_io_handlers s) xs" and "io_objs s (mallocs s) = None"
    using assms(1) unfolding io_inv_def io_sizes_def by blast+
  then have fresh: "mallocs s \<notin> fst ` set xs" using chain_live by blast
  have "chain ?objs (g_io_handlers s) xs"
    using c by (rule chain_cong) (metis fresh fun_upd_other)
  then have "io_inv (s\<lparr>mallocs := Suc (mallocs s), io_objs := ?objs, g_io_handlers := Some (mallocs s)\<rparr>)
      ((mallocs s, (prt, cnt, h)) # xs)"
    using fresh assms(1) by (simp add: io_inv_def io_sizes_def entry_key_def less_Suc_eq)
  with assms(2) show ?thesis by (simp add: io_register_handler_def Let_def)
qed

text \<open>The entries that \<open>io_emul_init\<close> leaves, newest first.\<close>

definition default_ports :: "io_key list" where
  "default_ports = [(0x3C0, 0x1B, VGA_READ), (0x3F8, 8, UART_READ), (0x40, 4, PIT_READ),
     (0x60, 2, PS2_KEYBOARD_READ), (0x70, 8, CMOS_READ)]"

lemma io_emul_init_inv:
  assumes "io_sizes s" "\<And>k. av k"
  shows "\<exists>s' xs. io_emul_init av s = (NEXUSVM_OK, s') \<and> io_inv s' xs \<and> map snd xs = default_ports"
proof -
  let ?s = "s\<lparr>g_io_handlers := None, g_mmio_handlers := None, Io_Emul.g_io_initialized := True\<rparr>"
  have 0: "io_inv ?s []" using assms(1) by (simp add: io_inv_def io_sizes_def)
  obtain s1 where 1: "io_register_handler av ?s 0x70 8 CMOS_READ = (NEXUSVM_OK, s1)"
      "io_inv s1 [(mallocs ?s, (0x70, 8, CMOS_READ))]"
    using io_register_inv [of _ _ av, OF 0 assms(2)] by blast
  obtain s2 where 2: "io_register_handler av s1 0x60 2 PS2_KEYBOARD_READ = (NEXUSVM_OK, s2)"
      "io_inv s2 [(mallocs s1, (0x60, 2, PS2_KEYBOARD_READ)), (mallocs ?s, (0x70, 8, CMOS_READ))]"
    using io_register_inv [of _ _ av, OF 1(2) assms(2)] by blast
  obtain s3 where 3: "io_register_handler av s2 0x40 4 PIT_READ = (NEXUSVM_OK, s3)"
      "io_inv s3 [(mallocs s2, (0x40, 4, PIT_READ)), (mallocs s1, (0x60, 2, PS2_KEYBOARD_READ)),
        (mallocs ?s, (0x70, 8, CMOS_READ))]"
    using io_register_inv [of _ _ av, OF 2(2) assms(2)] by blast
  obtain s4 where 4: "io_register_handler av s3 0x3F8 8 UART_READ = (NEXUSVM_OK, s4)"
      "io_inv s4 [(mallocs s3, (0x3F8, 8, UART_READ)), (mallocs s2, (0x40, 4, PIT_READ)),
        (mallocs s1, (0x60, 2, PS2_KEYBOARD_READ)), (mallocs ?s, (0x70, 8, CMOS_READ))]"
    using io_register_inv [of _ _ av, OF 3(2) assms(2)] by blast
  obtain s5 where 5: "io_register_handler av s4 0x3C0 0x1B VGA_READ = (NEXUSVM_OK, s5)"
      "io_inv s5 [(mallocs s4, (0x3C0, 0x1B, VGA_READ)), (mallocs s3, (0x3F8, 8, UART_READ)),
        (mallocs s2, (0x40, 4, PIT_READ)), (mallocs s1, (0x60, 2, PS2_KEYBOARD_READ)),
        (mallocs ?s, (0x70, 8, CMOS_READ))]"
    using io_register_inv [of _ _ av, OF 4(2) assms(2)] by blast
  have "io_emul_init av s = (NEXUSVM_OK, s5)"
    using 1(1) 2(1) 3(1) 4(1) 5(1) by (simp add: io_emul_init_def Let_def)
  then show ?thesis using 5(2) by (intro exI conjI) (assumption, assumption, simp add: default_ports_def)
qed

section \<open>Unregistering\<close>

lemma io_unregister_loop_simps:
  "io_unregister_loop s prt prev None = Some (NEXUSVM_ERR_NOT_FOUND, s)"
  "io_objs s r = Some e \<Longrightarrow> io_unregister_loop s prt prev (Some r) =
     (if port e = prt then
        map_option (\<lambda>s1. (NEXUSVM_OK, s1\<lparr>io_objs := (io_objs s1)(r := None)\<rparr>)) (set_io_link s prev (io_next e))
      else io_unregister_loop s prt (Some r) (io_next e))"
  by (simp_all add: io_unregister_loop.simps [of s prt prev] map_option_case split: option.split)

text \<open>Taking out the entry after the prefix \<open>us\<close>: from the list, or from the head pointer.\<close>

definition prev_of :: "(ref \<times> io_key) list \<Rightarrow> ref option" where
  "prev_of us = (if us = [] then None else Some (fst (last us)))"

lemma chain_unlink:
  assumes "chain objs p (us @ (q, k) # b)" "distinct (map fst (us @ (q, k) # b))" "us \<noteq> []" "objs q = Some f"
  shows "\<exists>e. objs (fst (last us)) = Some e \<and>
    chain (objs(fst (last us) \<mapsto> e\<lparr>io_next := io_next f\<rparr>, q := None)) p (us @ b)"
  using assms
proof (induction us arbitrary: p)
  case (Cons u us)
  obtain r j where u: "u = (r, j)" by (cases u)
  from Cons.prems obtain e where e: "p = Some r" "objs r = Some e" "entry_key e = j"
      "chain objs (io_next e) (us @ (q, k) # b)" by (auto simp: u)
  show ?case
  proof (cases "us = []")
    case True
    then have c: "chain objs (io_next f) b" and "io_next e = Some q" using e(4) Cons.prems(4) by auto
    define objs' where "objs' = objs(r \<mapsto> e\<lparr>io_next := io_next f\<rparr>, q := None)"
    have "chain objs' (io_next f) b"
      using c by (rule chain_cong) (use Cons.prems(2) True u in \<open>force simp: objs'_def\<close>)
    moreover have "objs' r = Some (e\<lparr>io_next := io_next f\<rparr>)"
      using Cons.prems(2) True by (simp add: objs'_def u)
    ultimately have "chain objs' p (u # b)" using e by (simp add: u entry_key_def)
    moreover have l: "fst (last (u # us)) = r" "(u # us) @ b = u # b" using True by (simp_all add: u)
    ultimately show ?thesis unfolding l objs'_def using e(2) by (intro exI [of _ e] conjI)
  next
    case False
    let ?l = "fst (last us)"
    have "distinct (map fst (us @ (q, k) # b))" using Cons.prems(2) by simp
    then obtain e' where e': "objs ?l = Some e'"
        "chain (objs(?l \<mapsto> e'\<lparr>io_next := io_next f\<rparr>, q := None)) (io_next e) (us @ b)"
      using Cons.IH [OF e(4) _ False Cons.prems(4)] by blast
    define objs' where "objs' = objs(?l \<mapsto> e'\<lparr>io_next := io_next f\<rparr>, q := None)"
    have "r \<noteq> ?l" "r \<noteq> q" using Cons.prems(2) False last_in_set [of us] by (auto simp: u)
    then have "objs' r = Some e" using e(2) by (simp add: objs'_def)
    then have "chain objs' p (u # us @ b)" using e e'(2) by (simp add: u objs'_def [symmetric])
    moreover have l: "last (u # us) = last us" "(u # us) @ b = u # us @ b" using False by simp_all
    ultimately show ?thesis unfolding l objs'_def using e'(1) by (intro exI [of _ e'] conjI)
  qed
qed simp

text \<open>The abstract effect: the first entry with that port goes.\<close>

fun remove_port :: "u16 \<Rightarrow> (ref \<times> io_key) list \<Rightarrow> (ref \<times> io_key) list" where
  "remove_port p [] = []"
| "remove_port p (x # xs) = (if fst (snd x) = p then xs else x # remove_port p xs)"

lemma chain_split: "chain objs p (us @ (q, k) # b) \<Longrightarrow> \<exists>f. objs q = Some f \<and> entry_key f = k"
  by (induction us arbitrary: p) auto

lemma chain_next:
  "chain objs p (us @ [(q, k)] @ b) \<Longrightarrow> objs q = Some f \<Longrightarrow> distinct (map fst (us @ [(q, k)] @ b)) \<Longrightarrow>
   (case b of [] \<Rightarrow> io_next f = None | (r, j) # _ \<Rightarrow> io_next f = Some r)"
  by (induction us arbitrary: p) (auto split: list.splits)

lemma remove_port_fst: "fst ` set (remove_port p xs) \<subseteq> fst ` set xs"
  by (induction xs) auto

lemma remove_port_distinct: "distinct (map fst xs) \<Longrightarrow> distinct (map fst (remove_port p xs))"
  using remove_port_fst by (induction xs) fastforce+

lemma io_unregister_step:
  assumes "chain (io_objs s) (g_io_handlers s) (us @ (q, k) # b)" "distinct (map fst (us @ (q, k) # b))"
    and "io_objs s q = Some f" "io_next f = (case b of [] \<Rightarrow> None | (r, _) # _ \<Rightarrow> Some r)"
  shows "\<exists>s1. set_io_link s (prev_of us) (io_next f) = Some s1 \<and>
    chain ((io_objs s1)(q := None)) (g_io_handlers s1) (us @ b) \<and>
    (io_sizes s \<longrightarrow> io_sizes (s1\<lparr>io_objs := (io_objs s1)(q := None)\<rparr>))"
proof (cases "us = []")
  case True
  then have c: "chain (io_objs s) (io_next f) b" using assms(1,3) by auto
  have "chain ((io_objs s)(q := None)) (io_next f) b"
    using c by (rule chain_cong) (use assms(2) True in force)
  then show ?thesis using True by (auto simp: prev_of_def set_io_link_def io_sizes_def)
next
  case False
  obtain e where e: "io_objs s (fst (last us)) = Some e"
      "chain ((io_objs s)(fst (last us) \<mapsto> e\<lparr>io_next := io_next f\<rparr>, q := None)) (g_io_handlers s) (us @ b)"
    using chain_unlink [OF assms(1,2) False assms(3)] by blast
  let ?s = "s\<lparr>io_objs := (io_objs s)(fst (last us) \<mapsto> e\<lparr>io_next := io_next f\<rparr>)\<rparr>"
  have "set_io_link s (prev_of us) (io_next f) = Some ?s"
    using False e(1) by (simp add: prev_of_def set_io_link_def)
  moreover have "io_sizes s \<longrightarrow> io_sizes (?s\<lparr>io_objs := (io_objs ?s)(q := None)\<rparr>)"
    using e(1) by (auto simp: io_sizes_def)
  ultimately show ?thesis using e(2) by (intro exI [of _ ?s]) simp
qed

lemma io_unregister_loop_effect:
  assumes "chain (io_objs s) (g_io_handlers s) (us @ xs)" "distinct (map fst (us @ xs))" "io_sizes s"
  shows "\<exists>s'. io_unregister_loop s prt (prev_of us) (case xs of [] \<Rightarrow> None | (r, _) # _ \<Rightarrow> Some r) =
      Some (if \<exists>x\<in>set xs. fst (snd x) = prt then NEXUSVM_OK else NEXUSVM_ERR_NOT_FOUND, s') \<and>
    io_inv s' (us @ remove_port prt xs)"
  using assms
proof (induction xs arbitrary: us)
  case Nil
  then show ?case by (simp add: io_unregister_loop_simps io_inv_def)
next
  case (Cons x xs)
  obtain q k where x: "x = (q, k)" by (cases x)
  obtain f where f: "io_objs s q = Some f" "entry_key f = k" using chain_split Cons.prems(1) x by blast
  have nx: "io_next f = (case xs of [] \<Rightarrow> None | (r, _) # _ \<Rightarrow> Some r)"
    using chain_next [of "io_objs s" "g_io_handlers s" us q k xs f] Cons.prems f x by (auto split: list.splits)
  have pk: "port f = fst k" using f(2) by (auto simp: entry_key_def)
  show ?case
  proof (cases "fst k = prt")
    case True
    obtain s1 where s1: "set_io_link s (prev_of us) (io_next f) = Some s1"
        "chain ((io_objs s1)(q := None)) (g_io_handlers s1) (us @ xs)"
        "io_sizes (s1\<lparr>io_objs := (io_objs s1)(q := None)\<rparr>)"
      using io_unregister_step [OF _ _ f(1) nx, of us k] Cons.prems x by blast
    then have "io_inv (s1\<lparr>io_objs := (io_objs s1)(q := None)\<rparr>) (us @ xs)"
      using Cons.prems(2) by (simp add: io_inv_def)
    with s1(1) show ?thesis using True f pk by (simp add: x io_unregister_loop_simps)
  next
    case False
    have "prev_of (us @ [x]) = Some q" by (simp add: prev_of_def x)
    moreover obtain s' where
      "io_unregister_loop s prt (prev_of (us @ [x])) (case xs of [] \<Rightarrow> None | (r, _) # _ \<Rightarrow> Some r) =
         Some (if \<exists>x\<in>set xs. fst (snd x) = prt then NEXUSVM_OK else NEXUSVM_ERR_NOT_FOUND, s')"
      "io_inv s' ((us @ [x]) @ remove_port prt xs)"
      using Cons.IH [of "us @ [x]"] Cons.prems by auto
    ultimately show ?thesis using False f pk nx by (simp add: x io_unregister_loop_simps)
  qed
qed

section \<open>Shutdown\<close>

lemma io_free_loop_simps:
  "io_free_loop s None = Some s"
  "io_objs s r = Some e \<Longrightarrow> io_free_loop s (Some r) = io_free_loop (s\<lparr>io_objs := (io_objs s)(r := None)\<rparr>) (io_next e)"
  by (simp_all add: io_free_loop.simps [of s])

lemma io_free_loop_chain:
  "chain (io_objs s) p xs \<Longrightarrow> distinct (map fst xs) \<Longrightarrow>
   \<exists>s'. io_free_loop s p = Some s' \<and> s' = s\<lparr>io_objs := io_objs s'\<rparr> \<and> (\<forall>r\<in>fst ` set xs. io_objs s' r = None) \<and>
     (\<forall>r. io_objs s r = None \<longrightarrow> io_objs s' r = None)"
proof (induction xs arbitrary: s p)
  case Nil
  then show ?case by (simp add: io_free_loop_simps)
next
  case (Cons x xs)
  obtain q k where x: "x = (q, k)" by (cases x)
  from Cons.prems obtain e where e: "p = Some q" "io_objs s q = Some e" "chain (io_objs s) (io_next e) xs"
    by (auto simp: x)
  define t where "t = s\<lparr>io_objs := (io_objs s)(q := None)\<rparr>"
  have "chain (io_objs t) (io_next e) xs"
    using e(3) by (rule chain_cong) (use Cons.prems(2) in \<open>force simp: x t_def\<close>)
  then obtain s' where s': "io_free_loop t (io_next e) = Some s'" "s' = t\<lparr>io_objs := io_objs s'\<rparr>"
      "\<forall>r\<in>fst ` set xs. io_objs s' r = None" "\<forall>r. io_objs t r = None \<longrightarrow> io_objs s' r = None"
    using Cons.IH Cons.prems(2) by fastforce
  have "io_free_loop s p = Some s'" using e s'(1) by (simp add: io_free_loop_simps t_def)
  moreover have "s' = s\<lparr>io_objs := io_objs s'\<rparr>" using s'(2) by (simp add: t_def)
  moreover have "io_objs s' q = None" using s'(4) by (simp add: t_def)
  ultimately show ?case using s'(3,4) by (auto simp: x t_def)
qed

section \<open>Port access never goes wrong on well-formed states\<close>

lemma put_ok: "p \<noteq> 0 \<Longrightarrow> put s p x = Some (s\<lparr>host := (host s)(p := x)\<rparr>)"
  by (simp add: put_def)

lemma io_inv_host [simp]:
  "io_inv (s\<lparr>host := m\<rparr>) xs = io_inv s xs" "io_inv (s\<lparr>ps2_output := b\<rparr>) xs = io_inv s xs"
  by (simp_all add: io_inv_def io_sizes_def)

text \<open>A handler called with a valid pointer writes that word and nothing else of the host.\<close>

lemma call_handler_ok:
  assumes "io_inv s xs" "p \<noteq> 0"
  shows "\<exists>s' v. call_handler h s prt sz p = Some (NEXUSVM_OK, s') \<and> io_inv s' xs \<and> host s' = (host s)(p := v)"
  using assms
  by (cases h) (simp_all add: cmos_read_def ps2_keyboard_read_def pit_read_def uart_read_def vga_read_def put_ok Let_def, auto)

section \<open>Properties\<close>

text \<open>After \<open>io_emul_init\<close> every port is dispatched to the handler of its range and every other port
  to none. The keyboard range is 0x60 to 0x61: port 0x64, which the comment names, has no handler.
\<close>

theorem io_default_dispatch:
  assumes "io_sizes s" "\<And>k. av k"
  shows "\<exists>s'. io_emul_init av s = (NEXUSVM_OK, s') \<and>
    (\<forall>p. io_find s' p (g_io_handlers s') = Some
       (if 0x3C0 \<le> unat p \<and> unat p \<le> 0x3DA then Some VGA_READ
        else if 0x3F8 \<le> unat p \<and> unat p \<le> 0x3FF then Some UART_READ
        else if 0x40 \<le> unat p \<and> unat p \<le> 0x43 then Some PIT_READ
        else if 0x60 \<le> unat p \<and> unat p \<le> 0x61 then Some PS2_KEYBOARD_READ
        else if 0x70 \<le> unat p \<and> unat p \<le> 0x77 then Some CMOS_READ
        else None))"
proof -
  obtain s' xs where s': "io_emul_init av s = (NEXUSVM_OK, s')" "io_inv s' xs" "map snd xs = default_ports"
    using io_emul_init_inv [of s av] assms by blast
  show ?thesis
    by (intro exI [of _ s'] conjI allI) (auto simp: s'(1,3) io_inv_find [OF s'(2)] default_ports_def key_covers_def)
qed

theorem io_default_dispatch_witness:
  "io_sizes io_static \<and> io_find (snd (io_emul_init (\<lambda>_. True) io_static)) 0x64
     (g_io_handlers (snd (io_emul_init (\<lambda>_. True) io_static))) = Some None"
proof -
  have "io_sizes io_static" by (simp add: io_static_def io_sizes_def)
  with io_default_dispatch [of io_static "\<lambda>_. True"] show ?thesis by auto
qed

text \<open>\<open>io_port_read\<close> is total on well-formed states: for every port and size it returns
  \<open>NEXUSVM_OK\<close>, keeps the invariant and the handler table, writes the result word and no other
  word of the host; a port without handler reads as all ones for sizes 1, 2 and 4.
\<close>

theorem io_port_read_total:
  assumes "io_inv s xs" "p \<noteq> 0"
  shows "\<exists>s' v. io_port_read s (Some c) prt sz p = Some (NEXUSVM_OK, s') \<and> io_inv s' xs \<and>
    host s' = (host s)(p := v) \<and>
    (find (key_covers prt) (map snd xs) = None \<longrightarrow>
       v = (if sz = 1 then 0xFF else if sz = 2 then 0xFFFF else if sz = 4 then 0xFFFFFFFF else 0))"
proof -
  let ?s = "s\<lparr>host := (host s)(p := 0)\<rparr>"
  have inv: "io_inv ?s xs" using assms(1) by simp
  note find = io_inv_find [OF inv, of prt]
  show ?thesis
  proof (cases "find (key_covers prt) (map snd xs)")
    case None
    then show ?thesis using find assms inv by (simp add: io_port_read_def put_ok)
  next
    case (Some k)
    obtain s' v where "call_handler (snd (snd k)) ?s prt sz p = Some (NEXUSVM_OK, s')" "io_inv s' xs"
        "host s' = (host ?s)(p := v)"
      using call_handler_ok [OF inv assms(2)] by blast
    then show ?thesis using find Some assms(2)
      by (intro exI [of _ s'] exI [of _ v]) (simp add: io_port_read_def put_ok)
  qed
qed

theorem io_port_read_total_witness:
  "\<exists>s'. io_port_read io_static (Some 0) 0x80 1 0x1000 = Some (NEXUSVM_OK, s') \<and> host s' 0x1000 = 0xFF"
proof -
  have "io_inv io_static []" by (simp add: io_static_def io_inv_def io_sizes_def)
  from io_port_read_total [OF this, of "0x1000" 0 "0x80" 1] show ?thesis by auto
qed

text \<open>\<open>io_port_write\<close> hands the value that the guest writes to the read handler as a pointer: for
  every handled port and every value \<open>v\<close> but zero the word of the host at address \<open>v\<close> is
  overwritten, and no device register takes the value; the value zero is a \<open>NULL\<close> dereference.
\<close>

theorem io_port_write_overwrites_host:
  assumes "io_inv s xs" "find (key_covers prt) (map snd xs) = Some (a, c, h)"
  shows "if v = 0 then io_port_write s (Some w) prt sz v = None
    else \<exists>s' x. io_port_write s (Some w) prt sz v = Some (NEXUSVM_OK, s') \<and> host s' = (host s)(v := x) \<and>
      cmos_rtc s' = cmos_rtc s \<and> cmos_index s' = cmos_index s \<and> pit_counter s' = pit_counter s \<and>
      pit_mode s' = pit_mode s \<and> uart_regs s' = uart_regs s"
proof -
  have "io_port_write s (Some w) prt sz v = call_handler h s prt sz v"
    using assms(2) io_inv_find [OF assms(1), of prt] by (simp add: io_port_write_def)
  then show ?thesis
    by (cases h) (auto simp: cmos_read_def ps2_keyboard_read_def pit_read_def uart_read_def vga_read_def put_def Let_def)
qed

text \<open>The registers after the default handlers were installed on the static state.\<close>

definition io_ready :: io_state where
  "io_ready = snd (io_emul_init (\<lambda>_. True) io_static)"

lemma io_ready_inv: "\<exists>xs. io_inv io_ready xs \<and> map snd xs = default_ports"
proof -
  have "io_sizes io_static" by (simp add: io_static_def io_sizes_def)
  from io_emul_init_inv [OF this, of "\<lambda>_. True"] show ?thesis by (auto simp: io_ready_def)
qed

theorem io_port_write_overwrites_host_witness:
  "(\<exists>s' x. io_port_write io_ready (Some 0) 0x71 1 0xDEAD0000 = Some (NEXUSVM_OK, s') \<and>
     host s' = (host io_ready)(0xDEAD0000 := x)) \<and> io_port_write io_ready (Some 0) 0x71 1 0 = None"
proof -
  obtain xs where xs: "io_inv io_ready xs" "map snd xs = default_ports" using io_ready_inv by blast
  have "find (key_covers 0x71) default_ports = Some (0x70, 8, CMOS_READ)" by code_simp
  then have f: "find (key_covers 0x71) (map snd xs) = Some (0x70, 8, CMOS_READ)" using xs(2) by simp
  show ?thesis
    using io_port_write_overwrites_host [OF xs(1) f, of "0xDEAD0000" 0 1]
      io_port_write_overwrites_host [OF xs(1) f, of 0 0 1] by auto
qed

text \<open>C25. \<open>io_unregister_handler\<close> returns, removes the newest entry registered for exactly that port,
  reports whether there was one, and keeps the invariant and all other entries.
\<close>

theorem io_unregister_refines:
  assumes "io_inv s xs"
  shows "\<exists>s'. io_unregister_handler s prt =
      Some (if \<exists>x\<in>set xs. fst (snd x) = prt then NEXUSVM_OK else NEXUSVM_ERR_NOT_FOUND, s') \<and>
    io_inv s' (remove_port prt xs)"
proof -
  have "g_io_handlers s = (case xs of [] \<Rightarrow> None | (r, _) # _ \<Rightarrow> Some r)"
    using assms by (cases xs) (auto simp: io_inv_def)
  then show ?thesis
    using io_unregister_loop_effect [of s "[]" xs prt] assms
    by (simp add: io_unregister_handler_def io_inv_def prev_of_def)
qed

theorem io_unregister_refines_witness:
  "\<exists>s'. io_unregister_handler io_ready 0x40 = Some (NEXUSVM_OK, s')"
proof -
  obtain xs where xs: "io_inv io_ready xs" "map snd xs = default_ports" using io_ready_inv by blast
  have "(0x40, 4, PIT_READ) \<in> set (map snd xs)" by (simp add: xs(2) default_ports_def)
  then have "\<exists>x\<in>set xs. fst (snd x) = 0x40" by force
  with io_unregister_refines [OF xs(1), of "0x40"] show ?thesis by auto
qed

text \<open>After \<open>io_emul_shutdown\<close> the head pointer still names the first freed entry: when at least one
  handler was registered, any later port read is a use after free.
\<close>

theorem io_use_after_shutdown:
  assumes "io_inv s xs" "xs \<noteq> []" "g_mmio_handlers s = None" "p \<noteq> 0"
  shows "\<exists>s'. io_emul_shutdown s = Some s' \<and> io_port_read s' (Some c) prt sz p = None"
proof -
  obtain r k ys where xs: "xs = (r, k) # ys" using assms(2) by (cases xs) auto
  have c: "chain (io_objs s) (g_io_handlers s) xs" "distinct (map fst xs)" "g_io_handlers s = Some r"
    using assms(1) by (simp_all add: io_inv_def xs)
  obtain t where t: "io_free_loop s (g_io_handlers s) = Some t" "t = s\<lparr>io_objs := io_objs t\<rparr>" "io_objs t r = None"
    using io_free_loop_chain [OF c(1,2)] by (auto simp: xs)
  have h: "g_mmio_handlers t = None" "g_io_handlers t = Some r"
    using assms(3) c(3) by (subst t(2), simp)+
  then have "io_emul_shutdown s = Some (t\<lparr>Io_Emul.g_io_initialized := False\<rparr>)"
    using t(1) by (simp add: io_emul_shutdown_def mmio_free_loop.simps)
  then show ?thesis using h t(3) assms(4) by (simp add: io_port_read_def put_ok)
qed

theorem io_use_after_shutdown_witness:
  "\<exists>s'. io_emul_shutdown io_ready = Some s' \<and> io_port_read s' (Some 0) 0x70 1 0x1000 = None"
proof -
  obtain xs where xs: "io_inv io_ready xs" "map snd xs = default_ports" using io_ready_inv by blast
  then have "xs \<noteq> []" by (auto simp: default_ports_def)
  moreover have "g_mmio_handlers io_ready = None" by code_simp
  ultimately show ?thesis using io_use_after_shutdown [OF xs(1), of "0x1000"] by simp
qed

text \<open>CMOS round trip: after an index write and a data write, the data port reads back the low byte of
  the written value, and every other CMOS cell keeps its value.
\<close>

theorem cmos_roundtrip:
  assumes "io_sizes s" "p \<noteq> 0"
  shows "let s1 = snd (cmos_write s 0x70 1 i); s2 = snd (cmos_write s1 0x71 1 v) in
    (\<exists>s3. cmos_read s2 0x71 1 p = Some (NEXUSVM_OK, s3) \<and> host s3 p = v AND 0xFF) \<and>
    (\<forall>j<128. j \<noteq> unat (i AND 0x7F) \<longrightarrow> cmos_rtc s2 ! j = cmos_rtc s ! j)"
proof -
  have "i AND 0x7F \<le> 0x7F" by (rule word_and_le1)
  then have u: "unat (i AND 0x7F) \<le> 127" by (simp add: word_le_nat_alt)
  have idx: "unat (ucast (i AND 0x7F) :: u8) = unat (i AND 0x7F)"
    using u by (simp add: unsigned_ucast_eq take_bit_nat_eq_self)
  have m: "(0xFF :: u64) = mask 8" by (simp add: mask_eq_exp_minus_1)
  have "ucast (ucast v :: u8) = v AND (0xFF :: u64)"
    unfolding m by (rule bit_word_eqI) (auto simp: bit_ucast_iff bit_and_iff bit_mask_iff)
  moreover have "(ucast (i AND 0x7F) :: u8) < 128" using u idx by (simp add: word_less_nat_alt)
  ultimately show ?thesis using assms u idx
    by (simp add: cmos_write_def cmos_read_def put_ok io_sizes_def Let_def)
qed

theorem cmos_roundtrip_witness:
  "\<exists>s3. cmos_read (snd (cmos_write (snd (cmos_write io_static 0x70 1 5)) 0x71 1 0x1AB)) 0x71 1 8 = Some (NEXUSVM_OK, s3) \<and>
     host s3 8 = 0xAB"
proof -
  have "io_sizes io_static" by (simp add: io_static_def io_sizes_def)
  from cmos_roundtrip [OF this, of 8 5 "0x1AB"] show ?thesis by (simp add: Let_def)
qed

text \<open>A PIT command word with both select bits set writes \<open>pit_mode[3]\<close>, past the end of the array;
  every other command and every counter port is handled.
\<close>

theorem pit_write_mode_bound:
  assumes "io_sizes s"
  shows "pit_write s prt sz v = None \<longleftrightarrow> prt = 0x43 \<and> drop_bit 6 v AND 3 = 3"
proof -
  have le: "drop_bit 6 v AND 3 \<le> 3" by (rule word_and_le1)
  have "unat (drop_bit 6 v AND 3) < 3 \<longleftrightarrow> drop_bit 6 v AND 3 < 3" by (simp add: word_less_nat_alt)
  also have "\<dots> \<longleftrightarrow> drop_bit 6 v AND 3 \<noteq> 3" using le by (auto simp: less_le)
  finally show ?thesis using assms by (auto simp: pit_write_def io_sizes_def Let_def)
qed

theorem pit_write_mode_bound_witness: "pit_write io_static 0x43 1 0xC0 = None"
proof -
  have "io_sizes io_static" by (simp add: io_static_def io_sizes_def)
  moreover have "drop_bit 6 0xC0 AND 3 = (3 :: u64)" by code_simp
  ultimately show ?thesis using pit_write_mode_bound by blast
qed

end
