(* ===== verification/Ept.thy ===== *)
theory Ept
  imports Nexus_Prelude
begin

text \<open>
  The extended page tables of \<^verbatim>\<open>src/hypervisor/mmu/ept.c\<close>: allocation of tables, the four-level
  walk of \<open>ept_map\<close>, \<open>ept_lookup\<close> and \<open>ept_translate\<close>, large pages, and the interface that
  the virtual-machine layer uses.

  Memory. The C heap blocks the code reads as page tables are lists of entries, keyed by the
  address \<open>aligned_alloc\<close> returned. The five entry structs of \<^verbatim>\<open>types.h\<close> have one layout; their
  bit-fields add up to 65 bits, so the last field opens a second 64-bit unit and an entry takes
  16 bytes: a 4096-byte page holds 256 entries and not the 512 that the 9-bit indices reach.
  A pointer rebuilt from an entry may be dereferenced only when it is the start of a live block
  and the index is inside it; every other access is undefined (\<^const>\<open>None\<close>). A bit-field
  of 40 bits is shifted in 40 bits, as gcc compiles it (\<open>next_table\<close>).
\<close>

section \<open>Bit-field layout\<close>

text \<open>
  \<open>bitfield_layout\<close> places the members of a struct of \<open>u64\<close> bit-fields in order; a member
  that does not fit in the current 64-bit unit starts the next one. The result gives the
  offset of every member and the size of the struct in bits.
\<close>

fun bitfield_layout :: "nat \<Rightarrow> (string \<times> nat) list \<Rightarrow> (string \<times> nat) list \<times> nat" where
  "bitfield_layout pos [] = ([], 64 * ((pos + 63) div 64))"
| "bitfield_layout pos ((f, w) # fs) =
     (let off = (if pos mod 64 + w \<le> 64 then pos else 64 * (pos div 64 + 1));
          (offs, size) = bitfield_layout (off + w) fs
      in ((f, off) # offs, size))"

definition ept_pte_fields :: "(string \<times> nat) list" where
  "ept_pte_fields =
     [(''present'', 1), (''write'', 1), (''executable'', 1), (''memory_type'', 3), (''ignore_pat'', 1),
      (''accessed'', 1), (''dirty'', 1), (''access_pagesize'', 1), (''global'', 1), (''available'', 2),
      (''physical_address'', 40), (''available2'', 12)]"

definition ept_pml4e_fields :: "(string \<times> nat) list" where
  "ept_pml4e_fields =
     [(''present'', 1), (''write'', 1), (''executable'', 1), (''memory_type'', 3), (''ignore_pat'', 1),
      (''accessed'', 1), (''dirty'', 1), (''big_pagesize'', 1), (''available'', 3),
      (''physical_address'', 40), (''available2'', 12)]"

definition eptp_fields :: "(string \<times> nat) list" where
  "eptp_fields =
     [(''memory_type'', 3), (''page_walk_length'', 3), (''enable_accessed_dirty'', 1),
      (''enable_dirty_bit'', 1), (''enable_pml5'', 1), (''available'', 5),
      (''pml4_physical_address'', 40), (''available2'', 12)]"

definition sizeof_fields :: "(string \<times> nat) list \<Rightarrow> nat" where
  "sizeof_fields fs = snd (bitfield_layout 0 fs) div 8"

section \<open>Entries and the heap\<close>

text \<open>
  One record for \<open>ept_pml4e_t\<close>, \<open>ept_pdpe_t\<close>, \<open>ept_pue_t\<close> and \<open>ept_pte_t\<close>: the code casts
  between them, and all members have the same offsets (\<open>write\<close> is \<open>pte_write\<close>; \<open>access_pagesize\<close> of the last level is
  \<open>big_pagesize\<close>, \<open>global\<close> the lowest bit of the three-bit \<open>available\<close>).
\<close>

record ept_entry =
  present :: bool
  pte_write :: bool
  executable :: bool
  memory_type :: "3 word"
  ignore_pat :: bool
  accessed :: bool
  dirty :: bool
  big_pagesize :: bool
  available :: "3 word"
  physical_address :: "40 word"
  available2 :: "12 word"

definition zero_entry :: ept_entry where
  "zero_entry = \<lparr>present = False, pte_write = False, executable = False, memory_type = 0,
     ignore_pat = False, accessed = False, dirty = False, big_pagesize = False, available = 0,
     physical_address = 0, available2 = 0\<rparr>"

definition EPT_MEMORY_TYPE_WRITE_BACK :: "3 word" where
  "EPT_MEMORY_TYPE_WRITE_BACK = 6"

type_synonym ept_heap = "u64 \<rightharpoonup> ept_entry list"

text \<open>
  The state of the component: the live blocks, the initialisation flag and the trace of the
  executed \<open>invept\<close> instructions (type and descriptor address), latest first.
\<close>

record ept_state =
  blocks :: ept_heap
  g_ept_initialized :: bool
  invepts :: "(u64 \<times> u64) list"

text \<open>
  \<open>aligned_alloc\<close> of the C library is a parameter: the heap and the requested size determine
  the address, \<open>0\<close> when there is no memory.
\<close>

type_synonym allocator = "ept_heap \<Rightarrow> u64 \<Rightarrow> u64"

definition ENTRY_SIZE :: nat where
  "ENTRY_SIZE = sizeof_fields ept_pte_fields"

definition get_entry :: "ept_heap \<Rightarrow> u64 \<Rightarrow> u32 \<Rightarrow> ept_entry run" where
  "get_entry h p i =
     (case h p of None \<Rightarrow> None
      | Some es \<Rightarrow> if unat i < length es then Some (es ! unat i) else None)"

definition set_entry :: "ept_heap \<Rightarrow> u64 \<Rightarrow> u32 \<Rightarrow> ept_entry \<Rightarrow> ept_heap run" where
  "set_entry h p i e =
     (case h p of None \<Rightarrow> None
      | Some es \<Rightarrow> if unat i < length es then Some (h(p \<mapsto> es[unat i := e])) else None)"

definition EPT_PML4_INDEX :: "guest_addr \<Rightarrow> u32" where
  "EPT_PML4_INDEX gpa = ucast (drop_bit 39 gpa AND 0x1FF)"

definition EPT_PDP_INDEX :: "guest_addr \<Rightarrow> u32" where
  "EPT_PDP_INDEX gpa = ucast (drop_bit 30 gpa AND 0x1FF)"

definition EPT_PD_INDEX :: "guest_addr \<Rightarrow> u32" where
  "EPT_PD_INDEX gpa = ucast (drop_bit 21 gpa AND 0x1FF)"

definition EPT_PT_INDEX :: "guest_addr \<Rightarrow> u32" where
  "EPT_PT_INDEX gpa = ucast (drop_bit 12 gpa AND 0x1FF)"

text \<open>
  \<open>physical_address << 12\<close>, the pointer to the next table. The compiler of the \<^verbatim>\<open>Makefile\<close>, gcc, gives a bit-field that is wider than \<open>int\<close>
  an integer type of exactly its width, and promotes nothing: the shift is done in 40 bits, and what leaves them is lost before the
  result becomes a pointer.
\<close>

definition next_table :: "ept_entry \<Rightarrow> u64" where
  "next_table e = ucast (push_bit 12 (physical_address e))"

section \<open>Initialisation and allocation\<close>

text \<open>
  The argument of \<open>ept_init\<close> stands for \<open>hypervisor_get_instance\<close>: \<open>NULL\<close>, or the \<open>has_ept\<close>
  flag of the instance, which only selects a log message.
\<close>

definition ept_init :: "bool option \<Rightarrow> ept_state \<Rightarrow> nexusvm_result \<times> ept_state" where
  "ept_init hv s = (NEXUSVM_OK, s\<lparr>g_ept_initialized := True\<rparr>)"

definition ept_shutdown :: "ept_state \<Rightarrow> ept_state" where
  "ept_shutdown s = s\<lparr>g_ept_initialized := False\<rparr>"

definition ept_alloc_pages :: "allocator \<Rightarrow> ept_state \<Rightarrow> u64 \<Rightarrow> u64 \<times> ept_state" where
  "ept_alloc_pages al s count =
     (let size = count * PAGE_SIZE; pages = al (blocks s) size
      in if pages = 0 then (0, s)
         else (pages, s\<lparr>blocks := (blocks s)(pages \<mapsto> replicate (unat size div ENTRY_SIZE) zero_entry)\<rparr>))"

text \<open>
  \<open>memset (root, 0, PAGE_SIZE)\<close> on a block: its first 256 entries are zeroed; a block that is
  shorter, or no block, is an access out of bounds.
\<close>

definition clear_page :: "ept_state \<Rightarrow> u64 \<Rightarrow> ept_state run" where
  "clear_page s p =
     (let n = unat PAGE_SIZE div ENTRY_SIZE in
      case blocks s p of None \<Rightarrow> None
      | Some es \<Rightarrow>
          if n \<le> length es
          then Some (s\<lparr>blocks := (blocks s)(p \<mapsto> replicate n zero_entry @ drop n es)\<rparr>)
          else None)"

definition ept_clear_root :: "ept_state \<Rightarrow> u64 \<Rightarrow> ept_state run" where
  "ept_clear_root s root = (if root \<noteq> 0 then clear_page s root else Some s)"

definition ept_alloc_root :: "allocator \<Rightarrow> ept_state \<Rightarrow> (u64 \<times> ept_state) run" where
  "ept_alloc_root al s =
     (case ept_alloc_pages al s 1 of (root, s1) \<Rightarrow>
        if root \<noteq> 0 then do { s2 \<leftarrow> clear_page s1 root; Some (root, s2) }
        else Some (root, s1))"

text \<open>\<open>free\<close> of a pointer that is not the start of a live block is undefined.\<close>

definition ept_free_pages :: "ept_state \<Rightarrow> u64 \<Rightarrow> ept_state run" where
  "ept_free_pages s pages =
     (if pages = 0 then Some s
      else if blocks s pages = None then None
      else Some (s\<lparr>blocks := (blocks s)(pages := None)\<rparr>))"

definition ept_free_root :: "ept_state \<Rightarrow> u64 \<Rightarrow> ept_state run" where
  "ept_free_root s root = (if root \<noteq> 0 then ept_free_pages s root else Some s)"

section \<open>Mapping and lookup\<close>

text \<open>The assignments to the members of the upper entry in \<open>ept_alloc_pdpt\<close> and its siblings.\<close>

definition link_entry :: "u64 \<Rightarrow> ept_entry \<Rightarrow> ept_entry" where
  "link_entry phys e = e\<lparr>present := True, pte_write := True, executable := False,
     memory_type := EPT_MEMORY_TYPE_WRITE_BACK,
     physical_address := ucast (drop_bit 12 phys AND 0xFFFFFFFFFF)\<rparr>"

text \<open>The argument \<open>(p, i)\<close> is the pointer \<open>&p[i]\<close> to the entry to fill.\<close>

definition ept_alloc_pdpt :: "allocator \<Rightarrow> ept_state \<Rightarrow> u64 \<Rightarrow> u32 \<Rightarrow> (nexusvm_result \<times> ept_state) run" where
  "ept_alloc_pdpt al s p i =
     (case ept_alloc_pages al s 1 of (pdpt, s1) \<Rightarrow>
        if pdpt = 0 then Some (NEXUSVM_ERR_NO_MEMORY, s1)
        else do {
          e \<leftarrow> get_entry (blocks s1) p i;
          h \<leftarrow> set_entry (blocks s1) p i (link_entry pdpt e);
          Some (NEXUSVM_OK, s1\<lparr>blocks := h\<rparr>)
        })"

definition ept_alloc_pd :: "allocator \<Rightarrow> ept_state \<Rightarrow> u64 \<Rightarrow> u32 \<Rightarrow> (nexusvm_result \<times> ept_state) run" where
  "ept_alloc_pd al s p i =
     (case ept_alloc_pages al s 1 of (pd, s1) \<Rightarrow>
        if pd = 0 then Some (NEXUSVM_ERR_NO_MEMORY, s1)
        else do {
          e \<leftarrow> get_entry (blocks s1) p i;
          h \<leftarrow> set_entry (blocks s1) p i (link_entry pd e);
          Some (NEXUSVM_OK, s1\<lparr>blocks := h\<rparr>)
        })"

definition ept_alloc_pt :: "allocator \<Rightarrow> ept_state \<Rightarrow> u64 \<Rightarrow> u32 \<Rightarrow> (nexusvm_result \<times> ept_state) run" where
  "ept_alloc_pt al s p i =
     (case ept_alloc_pages al s 1 of (pt, s1) \<Rightarrow>
        if pt = 0 then Some (NEXUSVM_ERR_NO_MEMORY, s1)
        else do {
          e \<leftarrow> get_entry (blocks s1) p i;
          h \<leftarrow> set_entry (blocks s1) p i (link_entry pt e);
          Some (NEXUSVM_OK, s1\<lparr>blocks := h\<rparr>)
        })"

text \<open>\<open>ept_map\<close> discards the result of the three allocation steps, as the code does.\<close>

definition ept_map ::
  "allocator \<Rightarrow> ept_state \<Rightarrow> u64 \<Rightarrow> guest_addr \<Rightarrow> ept_entry option \<Rightarrow> (nexusvm_result \<times> ept_state) run"
where
  "ept_map al s root gpa pte =
     (if root = 0 then Some (NEXUSVM_ERR_INVALID_PARAM, s)
      else case pte of None \<Rightarrow> Some (NEXUSVM_ERR_INVALID_PARAM, s)
      | Some pte \<Rightarrow> do {
          let pml4_idx = EPT_PML4_INDEX gpa;
          e \<leftarrow> get_entry (blocks s) root pml4_idx;
          (_, s) \<leftarrow> (if \<not> present e then ept_alloc_pdpt al s root pml4_idx else Some (NEXUSVM_OK, s));
          e \<leftarrow> get_entry (blocks s) root pml4_idx;
          let pdpt = next_table e;
          let pdpt_idx = EPT_PDP_INDEX gpa;
          e \<leftarrow> get_entry (blocks s) pdpt pdpt_idx;
          (_, s) \<leftarrow> (if \<not> present e then ept_alloc_pd al s pdpt pdpt_idx else Some (NEXUSVM_OK, s));
          e \<leftarrow> get_entry (blocks s) pdpt pdpt_idx;
          let pd = next_table e;
          let pd_idx = EPT_PD_INDEX gpa;
          e \<leftarrow> get_entry (blocks s) pd pd_idx;
          (_, s) \<leftarrow> (if \<not> present e \<and> \<not> big_pagesize e then ept_alloc_pt al s pd pd_idx
                     else Some (NEXUSVM_OK, s));
          e \<leftarrow> get_entry (blocks s) pd pd_idx;
          let pt = next_table e;
          let pt_idx = EPT_PT_INDEX gpa;
          h \<leftarrow> set_entry (blocks s) pt pt_idx pte;
          Some (NEXUSVM_OK, s\<lparr>blocks := h\<rparr>)
        })"

text \<open>
  The out-parameter \<open>pte\<close> of \<open>ept_lookup\<close> is \<^const>\<open>None\<close> for \<open>NULL\<close> and else the content of
  the object; the second component of the result is its content on return.
\<close>

definition ept_lookup ::
  "ept_state \<Rightarrow> u64 \<Rightarrow> guest_addr \<Rightarrow> ept_entry option \<Rightarrow> (nexusvm_result \<times> ept_entry option) run"
where
  "ept_lookup s root gpa pte =
     (if root = 0 \<or> pte = None then Some (NEXUSVM_ERR_INVALID_PARAM, pte)
      else do {
        e \<leftarrow> get_entry (blocks s) root (EPT_PML4_INDEX gpa);
        if \<not> present e then Some (NEXUSVM_ERR_NOT_FOUND, pte)
        else do {
          e \<leftarrow> get_entry (blocks s) (next_table e) (EPT_PDP_INDEX gpa);
          if \<not> present e then Some (NEXUSVM_ERR_NOT_FOUND, pte)
          else do {
            e \<leftarrow> get_entry (blocks s) (next_table e) (EPT_PD_INDEX gpa);
            if \<not> present e then Some (NEXUSVM_ERR_NOT_FOUND, pte)
            else if big_pagesize e then Some (NEXUSVM_OK, Some e)
            else do {
              e \<leftarrow> get_entry (blocks s) (next_table e) (EPT_PT_INDEX gpa);
              if \<not> present e then Some (NEXUSVM_ERR_NOT_FOUND, pte)
              else Some (NEXUSVM_OK, Some e)
            }
          }
        }
      })"

text \<open>
  A local \<open>ept_pte_t pte;\<close> is indeterminate before the call; no caller reads it unless
  \<open>ept_lookup\<close> succeeded, so its content there is written as the zero entry.
\<close>

definition ept_invalidate :: "ept_state \<Rightarrow> u64 \<Rightarrow> guest_addr \<Rightarrow> ept_state" where
  "ept_invalidate s root gpa = s\<lparr>invepts := (1, root) # invepts s\<rparr>"

definition ept_invalidate_all :: "ept_state \<Rightarrow> ept_state" where
  "ept_invalidate_all s = s\<lparr>invepts := (2, 0) # invepts s\<rparr>"

definition ept_invept :: "ept_state \<Rightarrow> u64 \<Rightarrow> ept_state" where
  "ept_invept s ty = s\<lparr>invepts := (ty, 0) # invepts s\<rparr>"

definition ept_unmap :: "ept_state \<Rightarrow> u64 \<Rightarrow> guest_addr \<Rightarrow> (nexusvm_result \<times> ept_state) run" where
  "ept_unmap s root gpa =
     (if root = 0 then Some (NEXUSVM_ERR_INVALID_PARAM, s)
      else do {
        (result, _) \<leftarrow> ept_lookup s root gpa (Some zero_entry);
        if result \<noteq> NEXUSVM_OK then Some (result, s)
        else Some (NEXUSVM_OK, ept_invalidate s root gpa)
      })"

definition ept_translate ::
  "ept_state \<Rightarrow> u64 \<Rightarrow> guest_addr \<Rightarrow> phys_addr option \<Rightarrow> (nexusvm_result \<times> phys_addr option) run"
where
  "ept_translate s root gpa host_phys =
     (if root = 0 \<or> host_phys = None then Some (NEXUSVM_ERR_INVALID_PARAM, host_phys)
      else do {
        (result, pte) \<leftarrow> ept_lookup s root gpa (Some zero_entry);
        if result \<noteq> NEXUSVM_OK then Some (result, host_phys)
        else do {
          pte \<leftarrow> pte;
          if \<not> present pte then Some (NEXUSVM_ERR_NOT_FOUND, host_phys)
          else Some (NEXUSVM_OK, Some (next_table pte OR (gpa AND (PAGE_SIZE - 1))))
        }
      })"

section \<open>Memory types, accessed and dirty bits\<close>

text \<open>The loop of \<open>ept_set_memory_type\<close> changes only its local copy of the entry.\<close>

function ept_set_memory_type_loop :: "ept_state \<Rightarrow> u64 \<Rightarrow> guest_addr \<Rightarrow> u64 \<Rightarrow> u64 \<Rightarrow> u8 \<Rightarrow> unit run" where
  "ept_set_memory_type_loop s root gpa i pages mt =
     (if i < pages then do {
        (result, pte) \<leftarrow> ept_lookup s root (gpa + push_bit PAGE_SHIFT i) (Some zero_entry);
        let pte' = (if result = NEXUSVM_OK then map_option (\<lambda>e. e\<lparr>memory_type := ucast mt\<rparr>) pte else pte);
        ept_set_memory_type_loop s root gpa (i + 1) pages mt
      } else Some ())"
  by pat_completeness auto
termination
  by (relation "measure (\<lambda>(s, root, gpa, i, pages, mt). unat pages - unat i)")
    (auto simp: loop_measure)

definition ept_set_memory_type ::
  "ept_state \<Rightarrow> u64 \<Rightarrow> guest_addr \<Rightarrow> u64 \<Rightarrow> u8 \<Rightarrow> (nexusvm_result \<times> ept_state) run"
where
  "ept_set_memory_type s root gpa sz mt =
     (if root = 0 \<or> mt > 6 then Some (NEXUSVM_ERR_INVALID_PARAM, s)
      else do {
        let pages = drop_bit PAGE_SHIFT (sz + PAGE_SIZE - 1);
        _ \<leftarrow> ept_set_memory_type_loop s root gpa 0 pages mt;
        Some (NEXUSVM_OK, ept_invalidate s root gpa)
      })"

definition ept_enable_accessed_dirty :: "ept_state \<Rightarrow> u64 \<Rightarrow> bool \<Rightarrow> ept_state" where
  "ept_enable_accessed_dirty s root enable = s"

text \<open>The out-parameters \<open>accessed\<close> and \<open>dirty\<close> may be \<open>NULL\<close>.\<close>

definition ept_get_accessed_dirty ::
  "ept_state \<Rightarrow> u64 \<Rightarrow> guest_addr \<Rightarrow> bool option \<Rightarrow> bool option
    \<Rightarrow> (nexusvm_result \<times> bool option \<times> bool option) run"
where
  "ept_get_accessed_dirty s root gpa acc dty =
     (if root = 0 then Some (NEXUSVM_ERR_INVALID_PARAM, acc, dty)
      else do {
        (result, pte) \<leftarrow> ept_lookup s root gpa (Some zero_entry);
        if result \<noteq> NEXUSVM_OK then Some (result, acc, dty)
        else do {
          pte \<leftarrow> pte;
          Some (NEXUSVM_OK, map_option (\<lambda>_. accessed pte) acc, map_option (\<lambda>_. dirty pte) dty)
        }
      })"

definition ept_clear_accessed_dirty :: "ept_state \<Rightarrow> u64 \<Rightarrow> guest_addr \<Rightarrow> nexusvm_result \<times> ept_state" where
  "ept_clear_accessed_dirty s root gpa = (NEXUSVM_OK, s)"

section \<open>Large pages\<close>

definition big_entry :: "40 word \<Rightarrow> ept_entry \<Rightarrow> ept_entry" where
  "big_entry pa e = e\<lparr>present := True, pte_write := True, executable := False,
     memory_type := EPT_MEMORY_TYPE_WRITE_BACK, big_pagesize := True, physical_address := pa\<rparr>"

definition ept_map_2mb :: "ept_state \<Rightarrow> u64 \<Rightarrow> guest_addr \<Rightarrow> phys_addr \<Rightarrow> (nexusvm_result \<times> ept_state) run" where
  "ept_map_2mb s root gpa host_phys =
     (if \<not> IS_ALIGNED gpa HUGE_PAGE_SIZE \<or> \<not> IS_ALIGNED host_phys HUGE_PAGE_SIZE
      then Some (NEXUSVM_ERR_INVALID_PARAM, s)
      else do {
        e \<leftarrow> get_entry (blocks s) root (EPT_PML4_INDEX gpa);
        if \<not> present e then Some (NEXUSVM_ERR_NOT_FOUND, s)
        else do {
          e \<leftarrow> get_entry (blocks s) (next_table e) (EPT_PDP_INDEX gpa);
          if \<not> present e then Some (NEXUSVM_ERR_NOT_FOUND, s)
          else do {
            let pd = next_table e;
            let pd_idx = EPT_PD_INDEX gpa;
            e \<leftarrow> get_entry (blocks s) pd pd_idx;
            h \<leftarrow> set_entry (blocks s) pd pd_idx
                   (big_entry (ucast (drop_bit 21 host_phys AND 0xFFFFFFFFFF)) e);
            Some (NEXUSVM_OK, s\<lparr>blocks := h\<rparr>)
          }
        }
      })"

definition ept_map_1gb :: "ept_state \<Rightarrow> u64 \<Rightarrow> guest_addr \<Rightarrow> phys_addr \<Rightarrow> (nexusvm_result \<times> ept_state) run" where
  "ept_map_1gb s root gpa host_phys =
     (if \<not> IS_ALIGNED gpa GIG_PAGE_SIZE \<or> \<not> IS_ALIGNED host_phys GIG_PAGE_SIZE
      then Some (NEXUSVM_ERR_INVALID_PARAM, s)
      else do {
        e \<leftarrow> get_entry (blocks s) root (EPT_PML4_INDEX gpa);
        if \<not> present e then Some (NEXUSVM_ERR_NOT_FOUND, s)
        else do {
          let pdpt = next_table e;
          let pdpt_idx = EPT_PDP_INDEX gpa;
          e \<leftarrow> get_entry (blocks s) pdpt pdpt_idx;
          h \<leftarrow> set_entry (blocks s) pdpt pdpt_idx
                 (big_entry (ucast (drop_bit 30 host_phys AND 0xFFFFFFFFFF)) e);
          Some (NEXUSVM_OK, s\<lparr>blocks := h\<rparr>)
        }
      })"

declare ept_set_memory_type_loop.simps [simp del]

end
