(* ===== verification/Utils_List.thy ===== *)
theory Utils_List
  imports Nexus_Prelude
begin

text \<open>
  The intrusive circular doubly linked list of \<^verbatim>\<open>src/utils/log.h\<close>. The store maps a node to
  its pair of pointers; a node that is not in the store is not live, and a pointer field is
  \<^const>\<open>None\<close> for \<open>NULL\<close> (what \<open>calloc\<close> leaves in an unlinked node). The macros are
  translated assignment by assignment. The abstraction \<open>dll\<close> relates a head to the list of its
  nodes, and the macros refine the list operations of the interface \<open>deque\<close>.
\<close>

section \<open>Definitions\<close>

record 'n list_head =
  lnext :: "'n option"
  lprev :: "'n option"

type_synonym 'n links = "'n \<rightharpoonup> 'n list_head"

definition get_next :: "'n links \<Rightarrow> 'n \<Rightarrow> 'n option run" where
  "get_next l x = map_option lnext (l x)"

definition get_prev :: "'n links \<Rightarrow> 'n \<Rightarrow> 'n option run" where
  "get_prev l x = map_option lprev (l x)"

definition set_next :: "'n links \<Rightarrow> 'n \<Rightarrow> 'n option \<Rightarrow> 'n links run" where
  "set_next l x v = (case l x of None \<Rightarrow> None | Some c \<Rightarrow> Some (l(x \<mapsto> c\<lparr>lnext := v\<rparr>)))"

definition set_prev :: "'n links \<Rightarrow> 'n \<Rightarrow> 'n option \<Rightarrow> 'n links run" where
  "set_prev l x v = (case l x of None \<Rightarrow> None | Some c \<Rightarrow> Some (l(x \<mapsto> c\<lparr>lprev := v\<rparr>)))"

definition INIT_LIST_HEAD :: "'n \<Rightarrow> 'n links \<Rightarrow> 'n links run" where
  "INIT_LIST_HEAD head l = do {
     l \<leftarrow> set_next l head (Some head);
     set_prev l head (Some head)
   }"

text \<open>
  In \<open>(head)->next->prev = (new)\<close> the inner pointer is read first; the read of \<open>NULL\<close> as a node
  is the \<^const>\<open>None\<close> of the second binding.
\<close>

definition list_add :: "'n \<Rightarrow> 'n \<Rightarrow> 'n links \<Rightarrow> 'n links run" where
  "list_add new head l = do {
     hn \<leftarrow> get_next l head;
     l \<leftarrow> set_next l new hn;
     l \<leftarrow> set_prev l new (Some head);
     hn \<leftarrow> get_next l head;
     n \<leftarrow> hn;
     l \<leftarrow> set_prev l n (Some new);
     set_next l head (Some new)
   }"

definition list_add_tail :: "'n \<Rightarrow> 'n \<Rightarrow> 'n links \<Rightarrow> 'n links run" where
  "list_add_tail new head l = do {
     l \<leftarrow> set_next l new (Some head);
     hp \<leftarrow> get_prev l head;
     l \<leftarrow> set_prev l new hp;
     hp \<leftarrow> get_prev l head;
     p \<leftarrow> hp;
     l \<leftarrow> set_next l p (Some new);
     set_prev l head (Some new)
   }"

definition list_del :: "'n \<Rightarrow> 'n links \<Rightarrow> 'n links run" where
  "list_del entry l = do {
     ep \<leftarrow> get_prev l entry;
     en \<leftarrow> get_next l entry;
     p \<leftarrow> ep;
     l \<leftarrow> set_next l p en;
     en \<leftarrow> get_next l entry;
     ep \<leftarrow> get_prev l entry;
     n \<leftarrow> en;
     set_prev l n ep
   }"

definition list_empty :: "'n \<Rightarrow> 'n links \<Rightarrow> bool run" where
  "list_empty head l = map_option (\<lambda>n. n = Some head) (get_next l head)"

text \<open>
  \<open>list_for_each\<close> with a loop body that reads the list but does not change it. The loop may run
  forever on a damaged list.
\<close>

partial_function (option) list_loop ::
  "'n links \<Rightarrow> 'n \<Rightarrow> ('a \<Rightarrow> 'n \<Rightarrow> 'a option) \<Rightarrow> 'n \<Rightarrow> 'a \<Rightarrow> 'a option"
where
  "list_loop l head body pos acc =
     (if pos = head then Some acc
      else do {
        acc \<leftarrow> body acc pos;
        nx \<leftarrow> get_next l pos;
        nx \<leftarrow> nx;
        list_loop l head body nx acc
      })"

definition list_for_each ::
  "'n links \<Rightarrow> 'n \<Rightarrow> ('a \<Rightarrow> 'n \<Rightarrow> 'a option) \<Rightarrow> 'a \<Rightarrow> 'a option"
where
  "list_for_each l head body acc = do {
     nx \<leftarrow> get_next l head;
     nx \<leftarrow> nx;
     list_loop l head body nx acc
   }"

section \<open>Linked segments\<close>

text \<open>\<open>seg l a xs b\<close>: the links lead from \<open>a\<close> through \<open>xs\<close> to \<open>b\<close> and back.\<close>

fun seg :: "'n links \<Rightarrow> 'n \<Rightarrow> 'n list \<Rightarrow> 'n \<Rightarrow> bool" where
  "seg l a [] b \<longleftrightarrow> get_next l a = Some (Some b) \<and> get_prev l b = Some (Some a)"
| "seg l a (x # xs) b \<longleftrightarrow> get_next l a = Some (Some x) \<and> get_prev l x = Some (Some a) \<and> seg l x xs b"

definition dll :: "'n links \<Rightarrow> 'n \<Rightarrow> 'n list \<Rightarrow> bool" where
  "dll l h xs \<longleftrightarrow> distinct (h # xs) \<and> seg l h xs h"

lemma seg_append: "seg l a (xs @ y # ys) b \<longleftrightarrow> seg l a xs y \<and> seg l y ys b"
  by (induction xs arbitrary: a) auto

lemma seg_first: "seg l a xs b \<Longrightarrow> get_next l a = Some (Some (hd (xs @ [b])))"
  by (cases xs) auto

lemma seg_last: "seg l a xs b \<Longrightarrow> get_prev l b = Some (Some (last (a # xs)))"
  by (induction xs arbitrary: a) auto

lemma seg_retarget:
  assumes "seg l a xs b"
    and "\<And>z. z \<in> set (butlast (a # xs)) \<Longrightarrow> get_next l' z = get_next l z"
    and "\<And>z. z \<in> set xs \<Longrightarrow> get_prev l' z = get_prev l z"
    and "get_next l' (last (a # xs)) = Some (Some c)" "get_prev l' c = Some (Some (last (a # xs)))"
  shows "seg l' a xs c"
  using assms by (induction xs arbitrary: a) auto

lemma seg_cong:
  assumes "seg l a xs b"
    and "\<And>z. z \<in> set (a # xs) \<Longrightarrow> get_next l' z = get_next l z"
    and "\<And>z. z \<in> set (xs @ [b]) \<Longrightarrow> get_prev l' z = get_prev l z"
  shows "seg l' a xs b"
  using assms by (induction xs arbitrary: a) auto

lemma dll_cong: "dll l h xs \<Longrightarrow> (\<And>z. z \<in> set (h # xs) \<Longrightarrow> l' z = l z) \<Longrightarrow> dll l' h xs"
  by (auto simp: dll_def get_next_def get_prev_def intro: seg_cong)

lemma seg_live: "seg l a xs b \<Longrightarrow> z \<in> set (a # xs) \<Longrightarrow> \<exists>c. l z = Some c"
  by (induction xs arbitrary: a) (auto simp: get_next_def)

lemma dll_live: "dll l h xs \<Longrightarrow> z \<in> set (h # xs) \<Longrightarrow> \<exists>c. l z = Some c"
  by (auto simp: dll_def dest: seg_live)

section \<open>Pointer updates\<close>

definition upd_next :: "'n links \<Rightarrow> 'n \<Rightarrow> 'n option \<Rightarrow> 'n links" where
  "upd_next l x v = l(x := map_option (\<lambda>c. c\<lparr>lnext := v\<rparr>) (l x))"

definition upd_prev :: "'n links \<Rightarrow> 'n \<Rightarrow> 'n option \<Rightarrow> 'n links" where
  "upd_prev l x v = l(x := map_option (\<lambda>c. c\<lparr>lprev := v\<rparr>) (l x))"

lemma set_next_upd: "l x \<noteq> None \<Longrightarrow> set_next l x v = Some (upd_next l x v)"
  by (auto simp: set_next_def upd_next_def)

lemma set_prev_upd: "l x \<noteq> None \<Longrightarrow> set_prev l x v = Some (upd_prev l x v)"
  by (auto simp: set_prev_def upd_prev_def)

lemma upd_live [simp]:
  "upd_next l x v y = None \<longleftrightarrow> l y = None" "upd_prev l x v y = None \<longleftrightarrow> l y = None"
  by (auto simp: upd_next_def upd_prev_def)

lemma upd_dom [simp]: "dom (upd_next l x v) = dom l" "dom (upd_prev l x v) = dom l"
  by (simp_all add: dom_def)

lemma upd_other [simp]:
  "y \<noteq> x \<Longrightarrow> upd_next l x v y = l y" "y \<noteq> x \<Longrightarrow> upd_prev l x v y = l y"
  by (simp_all add: upd_next_def upd_prev_def)

lemma get_upd [simp]:
  "get_next (upd_next l x v) y = (if y = x \<and> l x \<noteq> None then Some v else get_next l y)"
  "get_prev (upd_prev l x v) y = (if y = x \<and> l x \<noteq> None then Some v else get_prev l y)"
  "get_next (upd_prev l x v) y = get_next l y"
  "get_prev (upd_next l x v) y = get_prev l y"
  by (cases "l x"; simp add: get_next_def get_prev_def upd_next_def upd_prev_def)+

section \<open>The macros on a well-formed list\<close>

lemma list_add_tail_links:
  assumes "dll l h xs" "n \<notin> set (h # xs)" "l n \<noteq> None"
  shows "list_add_tail n h l =
    Some (upd_prev (upd_next (upd_prev (upd_next l n (Some h)) n (Some (last (h # xs)))) (last (h # xs)) (Some n)) h (Some n))"
proof -
  have p: "get_prev l h = Some (Some (last (h # xs)))" using assms(1) by (auto simp: dll_def dest: seg_last)
  have live: "l h \<noteq> None" "l (last (h # xs)) \<noteq> None"
    using dll_live [OF assms(1)] last_in_set [of "h # xs"] by auto
  have "n \<noteq> h" using assms(2) by auto
  then show ?thesis using assms(3) p live
    by (simp add: list_add_tail_def set_next_upd set_prev_upd del: last.simps)
qed

lemma list_add_tail_dll:
  assumes d: "dll l h xs" and n: "n \<notin> set (h # xs)" "l n \<noteq> None"
  shows "\<exists>l'. list_add_tail n h l = Some l' \<and> dll l' h (xs @ [n]) \<and> dom l' = dom l \<and>
    (\<forall>z. z \<notin> set (n # h # xs) \<longrightarrow> l' z = l z)"
proof -
  let ?p = "last (h # xs)"
  let ?l = "upd_prev (upd_next (upd_prev (upd_next l n (Some h)) n (Some ?p)) ?p (Some n)) h (Some n)"
  have seg: "seg l h xs h" and dist: "distinct (h # xs)" using d by (simp_all add: dll_def)
  have p: "?p \<in> set (h # xs)" by (rule last_in_set) simp
  have live: "l h \<noteq> None" "l ?p \<noteq> None" using dll_live [OF d] p by auto
  have np: "n \<noteq> h" "n \<noteq> ?p" using n p by auto
  have b: "z \<noteq> ?p \<and> z \<noteq> n" if "z \<in> set (butlast (h # xs))" for z
    using that dist n(1) append_butlast_last_id [of "h # xs"] not_distinct_conv_prefix
    by (metis distinct_append disjoint_iff in_set_butlastD list.set_intros(1) list.simps(3))
  have "seg ?l h xs n"
    using seg by (rule seg_retarget) (use b n dist live np in \<open>auto simp del: last.simps butlast.simps\<close>)
  moreover have "get_next ?l n = Some (Some h)" "get_prev ?l h = Some (Some n)"
    using np n live by (simp_all del: last.simps)
  ultimately have "seg ?l h (xs @ [n]) h" by (simp add: seg_append)
  then have "dll ?l h (xs @ [n])" using dist n by (auto simp: dll_def)
  moreover have "dom ?l = dom l" by simp
  moreover have "?l z = l z" if "z \<notin> set (n # h # xs)" for z
    using that p by (metis list.set_intros(1) list.set_intros(2) upd_other)
  ultimately show ?thesis using list_add_tail_links [OF d n] by blast
qed

lemma list_add_dll:
  assumes d: "dll l h xs" and n: "n \<notin> set (h # xs)" "l n \<noteq> None"
  shows "\<exists>l'. list_add n h l = Some l' \<and> dll l' h (n # xs) \<and> dom l' = dom l \<and>
    (\<forall>z. z \<notin> set (n # h # xs) \<longrightarrow> l' z = l z)"
proof -
  define f where "f = hd (xs @ [h])"
  let ?l = "upd_next (upd_prev (upd_prev (upd_next l n (Some f)) n (Some h)) f (Some n)) h (Some n)"
  have seg: "seg l h xs h" and dist: "distinct (h # xs)" using d by (simp_all add: dll_def)
  have f: "f \<in> set (h # xs)" by (cases xs) (simp_all add: f_def)
  have live: "l h \<noteq> None" "l f \<noteq> None" using dll_live [OF d] f by auto
  have nf: "n \<noteq> h" "n \<noteq> f" using n f by auto
  have "get_next l h = Some (Some f)" using seg seg_first by (simp add: f_def)
  then have "list_add n h l = Some ?l"
    using n(2) live nf by (simp add: list_add_def set_next_upd set_prev_upd)
  moreover have "seg ?l n xs h"
  proof (cases xs)
    case Nil
    then show ?thesis using n live nf by (simp add: f_def)
  next
    case (Cons y ys)
    then have "seg l y ys h" using seg by simp
    then have "seg ?l y ys h"
      by (rule seg_cong) (use Cons n dist in \<open>auto simp: f_def\<close>)
    then show ?thesis using Cons n live nf dist by (auto simp: f_def)
  qed
  then have "dll ?l h (n # xs)" using dist n live nf by (auto simp: dll_def)
  moreover have "dom ?l = dom l" by simp
  moreover have "?l z = l z" if "z \<notin> set (n # h # xs)" for z
    using that f by (metis list.set_intros(1) list.set_intros(2) upd_other)
  ultimately show ?thesis by blast
qed

lemma list_del_dll:
  assumes d: "dll l h (xs @ e # ys)"
  shows "\<exists>l'. list_del e l = Some l' \<and> dll l' h (xs @ ys) \<and> dom l' = dom l \<and>
    (\<forall>z. z \<notin> set (h # xs @ ys) \<longrightarrow> l' z = l z)"
proof -
  define p q where "p = last (h # xs)" and "q = hd (ys @ [h])"
  let ?l = "upd_prev (upd_next l p (Some q)) q (Some p)"
  have dist: "distinct (h # xs @ e # ys)" using d by (simp add: dll_def)
  have s1: "seg l h xs e" and s2: "seg l e ys h" using d by (simp_all add: dll_def seg_append)
  have ep: "get_prev l e = Some (Some p)" using seg_last [OF s1] by (simp only: p_def)
  have en: "get_next l e = Some (Some q)" using s2 seg_first by (simp add: q_def)
  have p: "p \<in> set (h # xs)" unfolding p_def by (rule last_in_set) simp
  have q: "q \<in> set (h # ys)" by (cases ys) (simp_all add: q_def)
  have live: "l p \<noteq> None" "l q \<noteq> None" using dll_live [OF d] p q by auto
  have ne: "e \<noteq> p" "e \<noteq> q" using dist p q by auto
  then have del: "list_del e l = Some ?l"
    using ep en live by (simp add: list_del_def set_next_upd set_prev_upd)
  have b: "z \<noteq> p" if "z \<in> set (butlast (h # xs))" for z
    using that dist append_butlast_last_id [of "h # xs"] unfolding p_def
    by (metis (no_types, lifting) Cons_eq_appendI disjoint_iff distinct_append list.set_intros(1) list.simps(3))
  have "q \<notin> set xs" using q dist by auto
  then have r: "seg ?l h xs q"
    using b live s1 unfolding p_def by (intro seg_retarget [OF s1]) (auto simp del: last.simps butlast.simps)
  have "seg ?l h (xs @ ys) h"
  proof (cases ys)
    case Nil
    then show ?thesis using r by (simp add: q_def)
  next
    case (Cons y zs)
    then have "seg l y zs h" using s2 by simp
    then have "seg ?l y zs h"
      by (rule seg_cong) (use Cons p dist in \<open>auto simp: q_def\<close>)
    then show ?thesis using r Cons by (simp add: seg_append q_def)
  qed
  then have "dll ?l h (xs @ ys)" using dist by (simp add: dll_def)
  moreover have "?l z = l z" if "z \<notin> set (h # xs @ ys)" for z
    using that p q by (metis Un_iff list.set_intros(1) set_ConsD set_append list.set_intros(2) upd_other)
  ultimately show ?thesis using del by (intro exI [of _ ?l]) simp
qed

lemma INIT_LIST_HEAD_dll:
  "l h \<noteq> None \<Longrightarrow> \<exists>l'. INIT_LIST_HEAD h l = Some l' \<and> dll l' h [] \<and> dom l' = dom l \<and> (\<forall>z. z \<noteq> h \<longrightarrow> l' z = l z)"
  by (simp add: INIT_LIST_HEAD_def set_next_upd set_prev_upd dll_def)

lemma list_empty_dll: "dll l h xs \<Longrightarrow> list_empty h l = Some (xs = [])"
  by (cases xs) (auto simp: list_empty_def dll_def)

lemma dll_first: "dll l h xs \<Longrightarrow> get_next l h = Some (Some (hd (xs @ [h])))"
  by (auto simp: dll_def dest: seg_first)

section \<open>Traversal\<close>

fun foldM :: "('a \<Rightarrow> 'n \<Rightarrow> 'a option) \<Rightarrow> 'n list \<Rightarrow> 'a \<Rightarrow> 'a option" where
  "foldM f [] a = Some a"
| "foldM f (x # xs) a = do { a \<leftarrow> f a x; foldM f xs a }"

lemma list_loop_seg:
  "seg l a xs h \<Longrightarrow> h \<notin> set xs \<Longrightarrow> list_loop l h body (hd (xs @ [h])) acc = foldM body xs acc"
proof (induction xs arbitrary: a acc)
  case Nil
  then show ?case by (simp add: list_loop.simps)
next
  case (Cons x xs)
  then have "seg l x xs h" "x \<noteq> h" by auto
  moreover from this(1) have "get_next l x = Some (Some (hd (xs @ [h])))" by (rule seg_first)
  ultimately show ?case
    using Cons by (cases "body acc x") (simp_all add: list_loop.simps [of l h body x])
qed

text \<open>A traversal of a well-formed list returns, and visits every node once and in order.\<close>

lemma list_for_each_dll: "dll l h xs \<Longrightarrow> list_for_each l h body acc = foldM body xs acc"
  by (auto simp: list_for_each_def dll_first dll_def list_loop_seg)

lemma foldM_total: "(\<And>a x. x \<in> set xs \<Longrightarrow> f a x = Some (g a x)) \<Longrightarrow> foldM f xs a = Some (foldl g a xs)"
  by (induction xs arbitrary: a) simp_all

section \<open>The queue interface\<close>

text \<open>
  What the clients of a queue rely on: insertion at both ends and removal act on the abstract
  list, keep every node usable, and change the links of the nodes of this queue only
  (\<open>touch l l' A\<close>).
\<close>

locale deque =
  fixes repr :: "'l \<Rightarrow> 'n list \<Rightarrow> bool"
    and usable :: "'l \<Rightarrow> 'n \<Rightarrow> bool"
    and touch :: "'l \<Rightarrow> 'l \<Rightarrow> 'n set \<Rightarrow> bool"
    and push_front push_back del :: "'n \<Rightarrow> 'l \<Rightarrow> 'l run"
  assumes push_back: "repr l xs \<Longrightarrow> usable l n \<Longrightarrow> n \<notin> set xs \<Longrightarrow>
      \<exists>l'. push_back n l = Some l' \<and> repr l' (xs @ [n]) \<and> touch l l' (insert n (set xs))"
    and push_front: "repr l xs \<Longrightarrow> usable l n \<Longrightarrow> n \<notin> set xs \<Longrightarrow>
      \<exists>l'. push_front n l = Some l' \<and> repr l' (n # xs) \<and> touch l l' (insert n (set xs))"
    and del: "repr l (xs @ n # ys) \<Longrightarrow>
      \<exists>l'. del n l = Some l' \<and> repr l' (xs @ ys) \<and> touch l l' (set (xs @ ys))"
    and repr_distinct: "repr l xs \<Longrightarrow> distinct xs"
    and repr_usable: "repr l xs \<Longrightarrow> n \<in> set xs \<Longrightarrow> usable l n"
    and touch_usable: "touch l l' A \<Longrightarrow> usable l n \<Longrightarrow> usable l' n"
    and touch_trans: "touch l l' A \<Longrightarrow> touch l' l'' B \<Longrightarrow> touch l l'' (A \<union> B)"
begin

lemma move_back:
  assumes "repr l (xs @ n # ys)"
  shows "\<exists>l'. (do { l \<leftarrow> del n l; push_back n l }) = Some l' \<and> repr l' (xs @ ys @ [n]) \<and>
    touch l l' (set (xs @ n # ys))"
proof -
  obtain l1 where l1: "del n l = Some l1" "repr l1 (xs @ ys)" "touch l l1 (set (xs @ ys))"
    using del [OF assms] by blast
  have "n \<notin> set (xs @ ys)" using repr_distinct [OF assms] by auto
  moreover have "usable l1 n" using touch_usable [OF l1(3)] repr_usable [OF assms] by simp
  ultimately obtain l2 where "push_back n l1 = Some l2" "repr l2 ((xs @ ys) @ [n])"
      "touch l1 l2 (insert n (set (xs @ ys)))"
    using push_back [OF l1(2)] by blast
  moreover from touch_trans [OF l1(3) this(3)] have "touch l l2 (set (xs @ n # ys))"
    by (simp add: Un_ac insert_absorb)
  ultimately show ?thesis using l1(1) by simp
qed

lemma move_front:
  assumes "repr l (xs @ n # ys)"
  shows "\<exists>l'. (do { l \<leftarrow> del n l; push_front n l }) = Some l' \<and> repr l' (n # xs @ ys) \<and>
    touch l l' (set (xs @ n # ys))"
proof -
  obtain l1 where l1: "del n l = Some l1" "repr l1 (xs @ ys)" "touch l l1 (set (xs @ ys))"
    using del [OF assms] by blast
  have "n \<notin> set (xs @ ys)" using repr_distinct [OF assms] by auto
  moreover have "usable l1 n" using touch_usable [OF l1(3)] repr_usable [OF assms] by simp
  ultimately obtain l2 where "push_front n l1 = Some l2" "repr l2 (n # xs @ ys)"
      "touch l1 l2 (insert n (set (xs @ ys)))"
    using push_front [OF l1(2)] by blast
  moreover from touch_trans [OF l1(3) this(3)] have "touch l l2 (set (xs @ n # ys))"
    by (simp add: Un_ac insert_absorb)
  ultimately show ?thesis using l1(1) by simp
qed

end

definition touches :: "'n \<Rightarrow> 'n links \<Rightarrow> 'n links \<Rightarrow> 'n set \<Rightarrow> bool" where
  "touches h l l' A \<longleftrightarrow> dom l' = dom l \<and> (\<forall>z. z \<notin> insert h A \<longrightarrow> l' z = l z)"

definition node_of :: "'n \<Rightarrow> 'n links \<Rightarrow> 'n \<Rightarrow> bool" where
  "node_of h l n \<longleftrightarrow> n \<noteq> h \<and> n \<in> dom l"

interpretation dll: deque "\<lambda>l. dll l h" "node_of h" "touches h"
  "\<lambda>n. list_add n h" "\<lambda>n. list_add_tail n h" list_del for h :: 'n
proof unfold_locales
  fix l :: "'n links" and xs ys :: "'n list" and n :: 'n
  show "dll l h xs \<Longrightarrow> node_of h l n \<Longrightarrow> n \<notin> set xs \<Longrightarrow>
      \<exists>l'. list_add_tail n h l = Some l' \<and> dll l' h (xs @ [n]) \<and> touches h l l' (insert n (set xs))"
    using list_add_tail_dll [of l h xs n] by (fastforce simp: node_of_def touches_def domIff)
  show "dll l h xs \<Longrightarrow> node_of h l n \<Longrightarrow> n \<notin> set xs \<Longrightarrow>
      \<exists>l'. list_add n h l = Some l' \<and> dll l' h (n # xs) \<and> touches h l l' (insert n (set xs))"
    using list_add_dll [of l h xs n] by (fastforce simp: node_of_def touches_def domIff)
  show "dll l h (xs @ n # ys) \<Longrightarrow>
      \<exists>l'. list_del n l = Some l' \<and> dll l' h (xs @ ys) \<and> touches h l l' (set (xs @ ys))"
    using list_del_dll [of l h xs n ys] by (fastforce simp: touches_def)
  show "dll l h xs \<Longrightarrow> distinct xs" by (simp add: dll_def)
  show "dll l h xs \<Longrightarrow> n \<in> set xs \<Longrightarrow> node_of h l n"
    using dll_live [of l h xs n] by (auto simp: node_of_def dll_def)
qed (auto simp: touches_def node_of_def)

section \<open>Properties\<close>

text \<open>\<open>list_add_tail\<close> appends a new node to the abstract list, \<open>list_for_each\<close> then returns and
  visits the old nodes in order and the new one last, and nodes of other lists are untouched.
\<close>

theorem list_add_tail_refines:
  assumes "dll l h xs" "n \<notin> set (h # xs)" "n \<in> dom l"
  shows "\<exists>l'. list_add_tail n h l = Some l' \<and> dll l' h (xs @ [n]) \<and>
    list_for_each l' h (\<lambda>acc x. Some (acc @ [x])) [] = Some (xs @ [n]) \<and>
    (\<forall>z. z \<notin> set (n # h # xs) \<longrightarrow> l' z = l z)"
proof -
  obtain l' where l': "list_add_tail n h l = Some l'" "dll l' h (xs @ [n])"
      "\<forall>z. z \<notin> set (n # h # xs) \<longrightarrow> l' z = l z"
    using list_add_tail_dll [OF assms(1,2)] assms(3) by (auto simp: domIff)
  moreover have "foldl (\<lambda>acc x. acc @ [x]) ys zs = ys @ zs" for ys zs :: "'a list"
    by (induction zs arbitrary: ys) simp_all
  ultimately show ?thesis
    by (simp add: list_for_each_dll foldM_total [where g = "\<lambda>acc x. acc @ [x]"])
qed

text \<open>A head \<open>0\<close> and two unlinked nodes.\<close>

definition demo_links :: "nat links" where
  "demo_links = [0 \<mapsto> \<lparr>lnext = Some 0, lprev = Some 0\<rparr>, 1 \<mapsto> \<lparr>lnext = None, lprev = None\<rparr>,
     2 \<mapsto> \<lparr>lnext = None, lprev = None\<rparr>]"

lemma demo_links_dll: "dll demo_links 0 []"
  by (simp add: dll_def demo_links_def get_next_def get_prev_def)

theorem list_add_tail_refines_witness:
  "\<exists>l'. list_add_tail 1 0 demo_links = Some l' \<and> dll l' 0 [1]"
  using list_add_tail_refines [OF demo_links_dll, of 1] by (auto simp: demo_links_def)

text \<open>\<open>list_del\<close> removes exactly the given node from the abstract list; its own pointers still
  point into the list afterwards.
\<close>

theorem list_del_refines:
  assumes "dll l h (xs @ e # ys)"
  shows "\<exists>l'. list_del e l = Some l' \<and> dll l' h (xs @ ys) \<and> l' e = l e \<and>
    get_next l' e = Some (Some (hd (ys @ [h]))) \<and> get_prev l' e = Some (Some (last (h # xs)))"
proof -
  obtain l' where l': "list_del e l = Some l'" "dll l' h (xs @ ys)" "\<forall>z. z \<notin> set (h # xs @ ys) \<longrightarrow> l' z = l z"
    using list_del_dll [OF assms] by blast
  have "e \<notin> set (h # xs @ ys)" using assms by (auto simp: dll_def)
  then have same: "l' e = l e" using l'(3) by blast
  have "seg l h xs e" "seg l e ys h" using assms by (simp_all add: dll_def seg_append)
  from seg_last [OF this(1)] seg_first [OF this(2)] show ?thesis
    using l' same by (simp add: get_next_def get_prev_def)
qed

theorem list_del_refines_witness:
  "\<exists>l'. list_del 1 [0 \<mapsto> \<lparr>lnext = Some 1, lprev = Some 1\<rparr>, (1::nat) \<mapsto> \<lparr>lnext = Some 0, lprev = Some 0\<rparr>] = Some l'
     \<and> dll l' 0 []"
proof -
  have "dll [0 \<mapsto> \<lparr>lnext = Some 1, lprev = Some 1\<rparr>, (1::nat) \<mapsto> \<lparr>lnext = Some 0, lprev = Some 0\<rparr>] 0 ([] @ 1 # [])"
    by (simp add: dll_def get_next_def get_prev_def)
  from list_del_refines [OF this] show ?thesis by auto
qed

text \<open>Induction over a traversal that returned, for a fixed list and loop body.\<close>

lemma list_loop_induct [consumes 1, case_names loop]:
  assumes "list_loop l h body pos acc = Some y"
    and step: "\<And>loop pos acc y. (\<And>pos acc y. loop pos acc = Some y \<Longrightarrow> Q pos acc y) \<Longrightarrow>
      (if pos = h then Some acc
       else body acc pos \<bind> (\<lambda>acc. get_next l pos \<bind> (\<lambda>nx. nx \<bind> (\<lambda>nx. loop nx acc)))) = Some y \<Longrightarrow>
      Q pos acc y"
  shows "Q pos acc y"
proof -
  have "l = l \<longrightarrow> h = h \<longrightarrow> body = body \<longrightarrow> Q pos acc y"
    by (rule list_loop.raw_induct [where P = "\<lambda>l' h' body' pos acc y. l' = l \<longrightarrow> h' = h \<longrightarrow> body' = body \<longrightarrow> Q pos acc y", OF _ assms(1)])
      (use step in blast)
  then show ?thesis by simp
qed

lemma list_loop_self:
  assumes "get_next l n = Some (Some n)" "n \<noteq> h"
  shows "list_loop l h body n acc = None"
proof -
  have "list_loop l h body pos acc = Some y \<Longrightarrow> pos \<noteq> n" for pos acc y
  proof (induction rule: list_loop_induct)
    case (loop loop pos acc y)
    then show ?case using assms by (auto split: if_splits simp: bind_eq_Some_conv)
  qed
  then show ?thesis by (metis not_None_eq)
qed

lemma list_loop_next_cong:
  assumes "get_next l = get_next m"
  shows "list_loop l h body pos acc = list_loop m h body pos acc"
proof -
  have imp: "list_loop m h body pos acc = Some y"
    if "list_loop l h body pos acc = Some y" "get_next l = get_next m" for l m :: "'a links" and pos acc y
    using that(1)
  proof (induction rule: list_loop_induct)
    case (loop loop pos acc y)
    then show ?case using that(2)
      by (subst list_loop.simps) (auto split: if_splits simp: bind_eq_Some_conv)
  qed
  show ?thesis using imp [of l _ _ _ m] imp [of m _ _ _ l] assms
    by (metis not_None_eq)
qed

lemma list_loop_lasso:
  assumes "seg l a xs n" "h \<notin> set xs" "get_next l n = Some (Some n)" "n \<noteq> h"
  shows "list_loop l h body (hd (xs @ [n])) acc = None"
  using assms
proof (induction xs arbitrary: a acc)
  case Nil
  then show ?case by (simp add: list_loop_self)
next
  case (Cons x xs)
  then have "seg l x xs n" "x \<noteq> h" by auto
  moreover from this(1) have "get_next l x = Some (Some (hd (xs @ [n])))" by (rule seg_first)
  ultimately show ?case
    using Cons by (cases "body acc x") (simp_all add: list_loop.simps [of l h body x])
qed

lemma list_add_tail_again:
  assumes "dll l h (xs @ [n])"
  shows "list_add_tail n h l = Some (upd_prev (upd_next (upd_prev (upd_next l n (Some h)) n (Some n)) n (Some n)) h (Some n))"
    and "get_next (the (list_add_tail n h l)) h = Some (Some (hd (xs @ [n])))"
proof -
  let ?l = "upd_prev (upd_next (upd_prev (upd_next l n (Some h)) n (Some n)) n (Some n)) h (Some n)"
  have s: "seg l h xs n" "get_prev l h = Some (Some n)" "n \<noteq> h" using assms by (auto simp: dll_def seg_append)
  have live: "l h \<noteq> None" "l n \<noteq> None" using dll_live [OF assms] by auto
  show a: "list_add_tail n h l = Some ?l"
    using live s(2,3) by (simp add: list_add_tail_def set_next_upd set_prev_upd)
  show "get_next (the (list_add_tail n h l)) h = Some (Some (hd (xs @ [n])))"
    using seg_first [OF s(1)] s(3) by (simp add: a)
qed

text \<open>The loop of a traversal never ends, whatever its body does.\<close>

lemma list_for_each_again:
  assumes "dll l h (xs @ [n])"
  shows "list_for_each (the (list_add_tail n h l)) h body acc = None"
proof -
  let ?l = "upd_prev (upd_next (upd_prev (upd_next l n (Some h)) n (Some n)) n (Some n)) h (Some n)"
  have dist: "distinct (h # xs @ [n])" and s: "seg l h xs n" using assms by (simp_all add: dll_def seg_append)
  have live: "l h \<noteq> None" "l n \<noteq> None" using dll_live [OF assms] by auto
  have ne: "n \<noteq> h" using dist by auto
  have "list_loop ?l h body (hd (xs @ [n])) acc = None"
  proof (cases xs)
    case Nil
    then show ?thesis using live ne by (simp add: list_loop_self)
  next
    case (Cons y ys)
    define m where "m = upd_prev ?l n (Some (last (h # xs)))"
    have "seg m h xs n"
      using dist live s seg_last [OF s] by (intro seg_cong [OF s]) (auto simp: m_def)
    then have "list_loop m h body (hd (xs @ [n])) acc = None"
      by (rule list_loop_lasso) (use dist live in \<open>auto simp: m_def\<close>)
    moreover have "get_next m = get_next ?l" by (simp add: m_def fun_eq_iff)
    ultimately show ?thesis using list_loop_next_cong by metis
  qed
  then show ?thesis using list_add_tail_again [OF assms] by (simp add: list_for_each_def)
qed

text \<open>Adding a node a second time damages the list: when the node is already the last one,
  \<open>list_add_tail\<close> makes it its own successor and no traversal from the head returns.
\<close>

theorem list_add_tail_twice_diverges:
  assumes "dll l h (xs @ [n])"
  shows "\<exists>l'. list_add_tail n h l = Some l' \<and> list_for_each l' h body acc = None"
  using list_add_tail_again(1) [OF assms] list_for_each_again [OF assms, of body acc] by simp

theorem list_add_tail_twice_diverges_witness:
  "\<exists>l'. list_add_tail 1 0 [0 \<mapsto> \<lparr>lnext = Some 1, lprev = Some 1\<rparr>, (1::nat) \<mapsto> \<lparr>lnext = Some 0, lprev = Some 0\<rparr>] = Some l'
     \<and> list_for_each l' 0 (\<lambda>n x. Some (Suc n)) 0 = None"
proof -
  have "dll [0 \<mapsto> \<lparr>lnext = Some 1, lprev = Some 1\<rparr>, (1::nat) \<mapsto> \<lparr>lnext = Some 0, lprev = Some 0\<rparr>] 0 ([] @ [1])"
    by (simp add: dll_def get_next_def get_prev_def)
  from list_add_tail_twice_diverges [OF this] show ?thesis .
qed

end
