(* ===== verification/Nexus_Types.thy ===== *)
theory Nexus_Types
  imports Ept Io_Emul Utils_List
begin

text \<open>
  The data types of \<^verbatim>\<open>include/hypervisor/types.h\<close> and \<^verbatim>\<open>src/hypervisor/hypervisor.h\<close> that the
  virtual-machine layer uses, and the world: every heap object of the C program by reference,
  and the static variables of the modules.

  Two declarations of the source do not fit their uses and are read as the code uses them: \<open>vcpus\<close>
  of \<open>nexusvm_t\<close> is an array of pointers, and the adjacent members \<open>next\<close>, \<open>prev\<close> of
  \<open>sched_entity_t\<close> are the \<open>struct list_head\<close> that the list macros get by \<open>&entity->next\<close>.
\<close>

section \<open>Enumerations\<close>

datatype cpu_vendor = CPU_VENDOR_UNKNOWN | CPU_VENDOR_INTEL | CPU_VENDOR_AMD

datatype vm_state =
    VM_STATE_CREATED
  | VM_STATE_INITIALIZED
  | VM_STATE_RUNNING
  | VM_STATE_PAUSED
  | VM_STATE_SUSPENDED
  | VM_STATE_MIGRATING
  | VM_STATE_CHECKPOINTING
  | VM_STATE_SHUTTING_DOWN
  | VM_STATE_SHUTDOWN
  | VM_STATE_FAILED

fun vm_state_code :: "vm_state \<Rightarrow> u64" where
  "vm_state_code VM_STATE_CREATED = 0"
| "vm_state_code VM_STATE_INITIALIZED = 1"
| "vm_state_code VM_STATE_RUNNING = 2"
| "vm_state_code VM_STATE_PAUSED = 3"
| "vm_state_code VM_STATE_SUSPENDED = 4"
| "vm_state_code VM_STATE_MIGRATING = 5"
| "vm_state_code VM_STATE_CHECKPOINTING = 6"
| "vm_state_code VM_STATE_SHUTTING_DOWN = 7"
| "vm_state_code VM_STATE_SHUTDOWN = 8"
| "vm_state_code VM_STATE_FAILED = 9"

datatype memory_region_type =
    MEM_REGION_RAM | MEM_REGION_ROM | MEM_REGION_MMIO | MEM_REGION_IOMEM
  | MEM_REGION_DEVICE | MEM_REGION_SHARED | MEM_REGION_VOLATILE

definition MEM_REGION_READABLE :: u32 where "MEM_REGION_READABLE = push_bit 0 1"
definition MEM_REGION_WRITABLE :: u32 where "MEM_REGION_WRITABLE = push_bit 1 1"

datatype sched_policy = SCHED_FIFO | SCHED_RR | SCHED_CFS | SCHED_BVT | SCHED_WALT

datatype vm_priority = PRIORITY_LOW | PRIORITY_NORMAL | PRIORITY_HIGH | PRIORITY_REALTIME

section \<open>Register state\<close>

record guest_gprs =
  rax :: u64
  rbx :: u64
  rcx :: u64
  rdx :: u64
  rsi :: u64
  rdi :: u64
  rbp :: u64
  rsp :: u64
  r8 :: u64
  r9 :: u64
  r10 :: u64
  r11 :: u64
  r12 :: u64
  r13 :: u64
  r14 :: u64
  r15 :: u64
  rip :: u64
  rflags :: u64

record segment_reg =
  selector :: u16
  base :: u64
  limit :: u32
  attributes :: u32

record guest_control_regs =
  cr0 :: u64
  cr2 :: u64
  cr3 :: u64
  cr4 :: u64
  cr8 :: u64

record guest_debug_regs =
  dr0 :: u64
  dr1 :: u64
  dr2 :: u64
  dr3 :: u64
  dr6 :: u64
  dr7 :: u64

text \<open>\<open>ia32_pat\<close> is declared twice in the source; it is one member here.\<close>

record guest_msrs =
  ia32_efer :: u64
  ia32_pat :: u64
  ia32_fs_base :: u64
  ia32_gs_base :: u64
  ia32_kernel_gs_base :: u64
  ia32_star :: u64
  ia32_lstar :: u64
  ia32_cstar :: u64
  ia32_sfmask :: u64
  ia32_sysenter_cs :: u64
  ia32_sysenter_esp :: u64
  ia32_sysenter_eip :: u64
  ia32_perf_global_ctrl :: u64
  ia32_debugctl :: u64
  ia32_mtrr_cap :: u64
  ia32_mtrr_def_type :: u64

record cpu_state =
  gprs :: guest_gprs
  cr :: guest_control_regs
  dr :: guest_debug_regs
  msrs :: guest_msrs
  cs :: segment_reg
  ds :: segment_reg
  es :: segment_reg
  fs :: segment_reg
  gs :: segment_reg
  ss :: segment_reg
  tr :: segment_reg
  ldt :: segment_reg
  gdt_base :: segment_reg
  idt_base :: segment_reg
  gdtr_limit :: u64
  idtr_limit :: u64
  pending_exceptions :: u64
  active_events :: u64
  interruptibility_state :: u64

definition zero_gprs :: guest_gprs where
  "zero_gprs = \<lparr>rax = 0, rbx = 0, rcx = 0, rdx = 0, rsi = 0, rdi = 0, rbp = 0, rsp = 0,
     r8 = 0, r9 = 0, r10 = 0, r11 = 0, r12 = 0, r13 = 0, r14 = 0, r15 = 0, rip = 0, rflags = 0\<rparr>"

definition zero_segment :: segment_reg where
  "zero_segment = \<lparr>selector = 0, base = 0, limit = 0, attributes = 0\<rparr>"

definition zero_msrs :: guest_msrs where
  "zero_msrs = \<lparr>ia32_efer = 0, ia32_pat = 0, ia32_fs_base = 0, ia32_gs_base = 0, ia32_kernel_gs_base = 0,
     ia32_star = 0, ia32_lstar = 0, ia32_cstar = 0, ia32_sfmask = 0, ia32_sysenter_cs = 0,
     ia32_sysenter_esp = 0, ia32_sysenter_eip = 0, ia32_perf_global_ctrl = 0, ia32_debugctl = 0,
     ia32_mtrr_cap = 0, ia32_mtrr_def_type = 0\<rparr>"

text \<open>\<open>memset (&state, 0, sizeof (cpu_state_t))\<close>.\<close>

definition zero_cpu_state :: cpu_state where
  "zero_cpu_state = \<lparr>gprs = zero_gprs, cr = \<lparr>cr0 = 0, cr2 = 0, cr3 = 0, cr4 = 0, cr8 = 0\<rparr>,
     dr = \<lparr>dr0 = 0, dr1 = 0, dr2 = 0, dr3 = 0, dr6 = 0, dr7 = 0\<rparr>, msrs = zero_msrs,
     cs = zero_segment, ds = zero_segment, es = zero_segment, fs = zero_segment, gs = zero_segment,
     ss = zero_segment, tr = zero_segment, ldt = zero_segment, gdt_base = zero_segment,
     idt_base = zero_segment, gdtr_limit = 0, idtr_limit = 0, pending_exceptions = 0,
     active_events = 0, interruptibility_state = 0\<rparr>"

section \<open>Hypercalls\<close>

record hypercall_params =
  p_rax :: u64
  p_rbx :: u64
  p_rcx :: u64
  p_rdx :: u64
  p_rsi :: u64
  p_rdi :: u64
  p_r8 :: u64
  p_r9 :: u64
  p_r10 :: u64
  p_r11 :: u64
  p_r12 :: u64

record hypercall_result =
  status :: u64
  ret0 :: u64
  ret1 :: u64
  ret2 :: u64
  ret3 :: u64

section \<open>Scheduling entities and run queues\<close>

record affinity =
  aff_mask :: "u64 list"
  nr_cpus :: u32

record sched_entity =
  se_id :: u64
  se_vm_id :: u32
  se_vcpu_id :: u32
  runtime :: u64
  vruntime :: u64
  deadline :: u64
  period :: u64
  budget :: u64
  policy :: sched_policy
  priority :: vm_priority
  allowed_cpus :: affinity
  weight :: u32
  preemptible :: bool

text \<open>What \<open>calloc\<close> leaves: enumerators with value 0 are \<open>SCHED_FIFO\<close> and \<open>PRIORITY_LOW\<close>.\<close>

definition zero_entity :: sched_entity where
  "zero_entity = \<lparr>se_id = 0, se_vm_id = 0, se_vcpu_id = 0, runtime = 0, vruntime = 0, deadline = 0,
     period = 0, budget = 0, policy = SCHED_FIFO, priority = PRIORITY_LOW,
     allowed_cpus = \<lparr>aff_mask = replicate 16 0, nr_cpus = 0\<rparr>, weight = 0, preemptible = False\<rparr>"

record cpu_stats =
  idle_time :: u64
  busy_time :: u64
  user_time :: u64
  kernel_time :: u64
  irq_time :: u64
  softirq_time :: u64
  steal_time :: u64
  guest_time :: u64
  guest_nice_time :: u64
  context_switches :: u64
  interrupts :: u64
  soft_interrupts :: u64

text \<open>A list node: the head in a run queue (the array object and the index), or the links of an entity.\<close>

datatype lnode = RQ ref nat | SE ref

record cpu_runqueue =
  current :: "ref option"
  cpu_id :: u32
  rq_idle_time :: u64
  rq_busy_time :: u64
  lock :: bool

section \<open>Virtual machines\<close>

record memory_region =
  guest_phys :: guest_addr
  host_phys :: phys_addr
  region_size :: u64
  region_type :: memory_region_type
  flags :: u32
  region_name :: "ref option"

definition zero_region :: memory_region where
  "zero_region = \<lparr>guest_phys = 0, host_phys = 0, region_size = 0, region_type = MEM_REGION_RAM, flags = 0,
     region_name = None\<rparr>"

record eptp =
  eptp_memory_type :: "3 word"
  page_walk_length :: "3 word"
  enable_accessed_dirty :: bool
  enable_dirty_bit :: bool
  enable_pml5 :: bool
  eptp_available :: "5 word"
  pml4_physical_address :: "40 word"
  eptp_available2 :: "12 word"

definition zero_eptp :: eptp where
  "zero_eptp = \<lparr>eptp_memory_type = 0, page_walk_length = 0, enable_accessed_dirty = False,
     enable_dirty_bit = False, enable_pml5 = False, eptp_available = 0, pml4_physical_address = 0,
     eptp_available2 = 0\<rparr>"

record vm_config =
  cfg_name :: string
  cfg_id :: u32
  cfg_vcpu_count :: u32
  cfg_memory_size :: u64
  cfg_memory_region_count :: u32
  kernel_entry :: u64
  initrd_addr :: u64
  initrd_size :: u64
  kernel_cmdline :: string
  cfg_eptp :: u64
  nested_virtualization :: bool
  unrestricted_guest :: bool
  long_mode :: bool
  pae :: bool
  apic :: bool
  x2apic :: bool
  vpid_enabled :: bool
  ept_enabled :: bool
  preemption_timer :: bool

definition zero_config :: vm_config where
  "zero_config = \<lparr>cfg_name = [], cfg_id = 0, cfg_vcpu_count = 0, cfg_memory_size = 0,
     cfg_memory_region_count = 0, kernel_entry = 0, initrd_addr = 0, initrd_size = 0, kernel_cmdline = [],
     cfg_eptp = 0, nested_virtualization = False, unrestricted_guest = False, long_mode = False, pae = False,
     apic = False, x2apic = False, vpid_enabled = False, ept_enabled = False, preemption_timer = False\<rparr>"

record nexusvm =
  vm_id :: u32
  vm_name :: string
  state :: vm_state
  vcpus :: "ref option list option"
  vcpu_count :: u32
  memory_regions :: "memory_region list option"
  memory_region_count :: u32
  memory_size :: u64
  ept_pointer :: "eptp option"
  ept_root :: u64
  nested_vmx :: "ref option"
  nested_svm :: "ref option"
  is_nested_guest :: bool
  config :: vm_config
  uptime_ns :: u64
  total_runtime_ns :: u64
  vm_vmexit_count :: u64
  vm_next :: "ref option"
  vm_prev :: "ref option"

definition zero_vm :: nexusvm where
  "zero_vm = \<lparr>vm_id = 0, vm_name = [], state = VM_STATE_CREATED, vcpus = None, vcpu_count = 0,
     memory_regions = None, memory_region_count = 0, memory_size = 0, ept_pointer = None, ept_root = 0,
     nested_vmx = None, nested_svm = None, is_nested_guest = False, config = zero_config, uptime_ns = 0,
     total_runtime_ns = 0, vm_vmexit_count = 0, vm_next = None, vm_prev = None\<rparr>"

record nexusvcpu =
  vcpu_id :: u32
  apic_id :: u32
  physical_cpu :: u32
  vm :: "ref option"
  cpu_state_of :: cpu_state
  vmx_on_region :: u64
  vmx_vmcs_region :: u64
  vmcb :: u64
  msr_bitmap :: u64
  io_bitmap_a :: u64
  io_bitmap_b :: u64
  entity :: "ref option"
  vmexit_count :: u64
  vmentry_count :: u64
  instruction_count :: u64
  running :: bool
  initialized :: bool
  host_state :: cpu_state

definition zero_vcpu :: nexusvcpu where
  "zero_vcpu = \<lparr>vcpu_id = 0, apic_id = 0, physical_cpu = 0, vm = None, cpu_state_of = zero_cpu_state,
     vmx_on_region = 0, vmx_vmcs_region = 0, vmcb = 0, msr_bitmap = 0, io_bitmap_a = 0,
     io_bitmap_b = 0, entity = None, vmexit_count = 0, vmentry_count = 0, instruction_count = 0,
     running = False, initialized = False, host_state = zero_cpu_state\<rparr>"

text \<open>The capability values of the VMX part of the hypervisor structure.\<close>

record vmx_caps =
  vmx_basic_revision_id :: u32
  vmx_cap_pinbased :: u64
  vmx_cap_procbased :: u64
  vmx_cap_procbased2 :: u64
  vmx_cap_exit :: u64
  vmx_cap_entry :: u64
  vmx_cap_ept_vpid :: u64

record hypervisor =
  cpu_vendor_of :: cpu_vendor
  cpu_count :: u32
  online_cpu_count :: u32
  logical_cpu_count :: u32
  vms :: "ref option"
  vm_count :: u32
  next_vm_id :: u32
  has_vmx :: bool
  has_svm :: bool
  has_ept :: bool
  has_npt :: bool
  has_vpid :: bool
  has_pcid :: bool
  has_fsgsbase :: bool
  has_rdrand :: bool
  has_mpx :: bool
  has_xsaves :: bool
  has_smep :: bool
  has_smap :: bool
  has_umip :: bool
  has_pku :: bool
  vmx :: vmx_caps
  total_vmexits :: u64
  total_vmentries :: u64

definition zero_hypervisor :: hypervisor where
  "zero_hypervisor = \<lparr>cpu_vendor_of = CPU_VENDOR_UNKNOWN, cpu_count = 0, online_cpu_count = 0,
     logical_cpu_count = 0, vms = None, vm_count = 0, next_vm_id = 0, has_vmx = False, has_svm = False,
     has_ept = False, has_npt = False, has_vpid = False, has_pcid = False, has_fsgsbase = False,
     has_rdrand = False, has_mpx = False, has_xsaves = False, has_smep = False, has_smap = False,
     has_umip = False, has_pku = False,
     vmx = \<lparr>vmx_basic_revision_id = 0, vmx_cap_pinbased = 0, vmx_cap_procbased = 0, vmx_cap_procbased2 = 0,
       vmx_cap_exit = 0, vmx_cap_entry = 0, vmx_cap_ept_vpid = 0\<rparr>,
     total_vmexits = 0, total_vmentries = 0\<rparr>"

section \<open>Processor state\<close>

text \<open>
  What the code sees of the processor besides the registers of the guest: the static flags of
  \<^verbatim>\<open>vmx.c\<close> and \<^verbatim>\<open>svm.c\<close>, CR4, XCR0, the machine-specific registers, and the VMCS: the address of the current
  one, if any, and the fields of each; on AMD-V, the global interrupt flag.
\<close>

record backend =
  vmx_detected :: bool
  vmx_enabled :: bool
  svm_detected :: bool
  svm_enabled :: bool
  hw_cr4 :: u64
  hw_xcr0 :: u64
  hw_msr :: "u32 \<Rightarrow> u64"
  vmcs_current :: "u64 option"
  vmcs_mem :: "u64 \<Rightarrow> u32 \<Rightarrow> u64"
  gif :: bool

definition reset_backend :: backend where
  "reset_backend = \<lparr>vmx_detected = False, vmx_enabled = False, svm_detected = False, svm_enabled = False,
     hw_cr4 = 0, hw_xcr0 = 1, hw_msr = (\<lambda>_. 0), vmcs_current = None, vmcs_mem = (\<lambda>_ _. 0), gif = True\<rparr>"

section \<open>The world\<close>

text \<open>
  The heap by kind of object, the list links, the static variables of the scheduler, the state of
  the page tables and of the I/O layer. \<open>bufs\<close> holds the byte buffers (bitmaps, VMX regions, VMCBs) and
  \<open>cpu_states\<close> the register images that hypercalls address. \<open>blobs\<close> are the live heap
  objects of which only the address matters here: the names of memory regions, and the nested structures, whose content is in \<^verbatim>\<open>Nested\<close>.
  \<open>next_ref\<close> is the name of the next object and \<open>callocs\<close> counts the requests to \<open>calloc\<close>: whether the \<open>k\<close>-th one succeeds is a parameter.
\<close>

record world =
  g_hypervisor :: "hypervisor option"
  g_initialized :: bool
  vm_objs :: "ref \<rightharpoonup> nexusvm"
  vcpu_objs :: "ref \<rightharpoonup> nexusvcpu"
  entity_objs :: "ref \<rightharpoonup> sched_entity"
  links :: "lnode links"
  g_runqueues :: "(ref \<times> cpu_runqueue list) option"
  g_cpu_count :: u32
  g_scheduler_initialized :: bool
  ept :: ept_state
  io :: io_state
  bufs :: "u64 \<rightharpoonup> u8 list"
  cpu_states :: "u64 \<rightharpoonup> cpu_state"
  be :: backend
  blobs :: "ref set"
  next_ref :: ref
  callocs :: nat

text \<open>The program before \<open>hypervisor_init\<close>: static variables and an empty heap.\<close>

definition boot_world :: world where
  "boot_world = \<lparr>g_hypervisor = None, g_initialized = False, vm_objs = Map.empty, vcpu_objs = Map.empty,
     entity_objs = Map.empty, links = Map.empty, g_runqueues = None, g_cpu_count = 0,
     g_scheduler_initialized = False, ept = \<lparr>blocks = Map.empty, g_ept_initialized = False, invepts = []\<rparr>,
     io = io_static, bufs = Map.empty, cpu_states = Map.empty, be = reset_backend, blobs = {}, next_ref = 0, callocs = 0\<rparr>"

text \<open>Reading an object through a pointer: \<open>NULL\<close> and freed objects are undefined.\<close>

definition get_vcpu :: "world \<Rightarrow> ref option \<Rightarrow> nexusvcpu run" where
  "get_vcpu w p = do { r \<leftarrow> p; vcpu_objs w r }"

definition get_vm :: "world \<Rightarrow> ref option \<Rightarrow> nexusvm run" where
  "get_vm w p = do { r \<leftarrow> p; vm_objs w r }"

definition get_entity :: "world \<Rightarrow> ref option \<Rightarrow> sched_entity run" where
  "get_entity w p = do { r \<leftarrow> p; entity_objs w r }"

definition upd_vcpu :: "world \<Rightarrow> ref \<Rightarrow> (nexusvcpu \<Rightarrow> nexusvcpu) \<Rightarrow> world" where
  "upd_vcpu w r f = w\<lparr>vcpu_objs := (vcpu_objs w)(r := map_option f (vcpu_objs w r))\<rparr>"

definition upd_vm :: "world \<Rightarrow> ref \<Rightarrow> (nexusvm \<Rightarrow> nexusvm) \<Rightarrow> world" where
  "upd_vm w r f = w\<lparr>vm_objs := (vm_objs w)(r := map_option f (vm_objs w r))\<rparr>"

definition upd_entity :: "world \<Rightarrow> ref \<Rightarrow> (sched_entity \<Rightarrow> sched_entity) \<Rightarrow> world" where
  "upd_entity w r f = w\<lparr>entity_objs := (entity_objs w)(r := map_option f (entity_objs w r))\<rparr>"

end
