(* ===== verification/Ept_Correct.thy ===== *)
theory Ept_Correct
  imports Ept
begin

text \<open>
  Correctness of the page-table component: the invariant of a table tree, its preservation, and
  the refinement of the four-level walk to an abstract map from guest pages to entries.
\<close>

section \<open>Walking the tree\<close>

text \<open>\<open>table_at h p is\<close> is the table reached from \<open>p\<close> along present entries.\<close>

fun table_at :: "ept_heap \<Rightarrow> u64 \<Rightarrow> u32 list \<Rightarrow> u64 option" where
  "table_at h p [] = Some p"
| "table_at h p (i # is) =
     (case get_entry h p i of None \<Rightarrow> None
      | Some e \<Rightarrow> if present e then table_at h (next_table e) is else None)"

definition idx_ok :: "u32 list \<Rightarrow> bool" where
  "idx_ok is \<longleftrightarrow> (\<forall>i\<in>set is. unat i < 256)"

text \<open>
  The invariant: every table within the first four levels is a block of 256 entries, no two paths
  share a table, the upper levels hold no large pages, and an upper entry that is not present
  has never been written.
\<close>

definition ept_wf :: "ept_heap \<Rightarrow> u64 \<Rightarrow> bool" where
  "ept_wf h root \<longleftrightarrow> root \<noteq> 0 \<and> h 0 = None \<and>
     (\<forall>P p. length P \<le> 3 \<longrightarrow> idx_ok P \<longrightarrow> table_at h root P = Some p \<longrightarrow>
        (\<exists>es. h p = Some es \<and> length es = 256)) \<and>
     (\<forall>P Q p. length P \<le> 3 \<longrightarrow> length Q \<le> 3 \<longrightarrow> idx_ok P \<longrightarrow> idx_ok Q \<longrightarrow>
        table_at h root P = Some p \<longrightarrow> table_at h root Q = Some p \<longrightarrow> P = Q) \<and>
     (\<forall>P p i e. length P \<le> 2 \<longrightarrow> idx_ok P \<longrightarrow> table_at h root P = Some p \<longrightarrow>
        unat i < 256 \<longrightarrow> get_entry h p i = Some e \<longrightarrow>
        \<not> big_pagesize e \<and> (present e \<or> e = zero_entry))"

text \<open>What the code relies on of \<open>aligned_alloc (PAGE_SIZE, \<dots>)\<close>: unused, aligned pages, below \<open>2 ^ 40\<close> since no table above is ever found again.\<close>

definition alloc_fresh :: "allocator \<Rightarrow> bool" where
  "alloc_fresh al \<longleftrightarrow> (\<forall>h n. al h n \<noteq> 0 \<longrightarrow>
     h (al h n) = None \<and> al h n AND 0xFFF = 0 \<and> al h n < 2 ^ 40)"

text \<open>\<open>alloc_room al k\<close>: a page can be had as long as at most \<open>k\<close> blocks are live.\<close>

definition alloc_room :: "allocator \<Rightarrow> nat \<Rightarrow> bool" where
  "alloc_room al k \<longleftrightarrow> (\<forall>h. finite (dom h) \<longrightarrow> card (dom h) \<le> k \<longrightarrow> al h PAGE_SIZE \<noteq> 0)"

lemma table_at_snoc:
  "table_at h p (P @ [i]) =
     (case table_at h p P of None \<Rightarrow> None
      | Some q \<Rightarrow> (case get_entry h q i of None \<Rightarrow> None
         | Some e \<Rightarrow> if present e then Some (next_table e) else None))"
  by (induction P arbitrary: p) (auto split: option.splits)

lemma idx_ok_simps [simp]:
  "idx_ok []" "idx_ok (i # is) \<longleftrightarrow> unat i < 256 \<and> idx_ok is"
  "idx_ok (P @ Q) \<longleftrightarrow> idx_ok P \<and> idx_ok Q"
  by (auto simp: idx_ok_def)

lemma ENTRY_SIZE_eq [simp]: "ENTRY_SIZE = 16"
  by code_simp

lemma zero_entry_simps [simp]:
  "\<not> present zero_entry" "\<not> big_pagesize zero_entry" "next_table zero_entry = 0"
  by (simp_all add: zero_entry_def next_table_def)

lemma link_entry_simps [simp]:
  "present (link_entry q e)" "big_pagesize (link_entry q e) = big_pagesize e"
  by (simp_all add: link_entry_def)

text \<open>The address of an aligned page comes back without the bits from 40 on.\<close>

lemma next_table_link_low:
  assumes "q AND 0xFFF = 0"
  shows "next_table (link_entry q e) = take_bit 40 q"
proof (rule bit_word_eqI)
  fix n :: nat
  assume n: "n < LENGTH(64)"
  have m: "(0xFFFFFFFFFF :: u64) = mask 40" "(0xFFF :: u64) = mask 12"
    by (simp_all add: mask_eq_exp_minus_1)
  have lo: "\<not> bit q n" if "n < 12"
    using assms that n by (metis bit_0_eq bit_and_iff bit_mask_iff bot_apply bot_bool_def m(2) possible_bit_word)
  show "bit (next_table (link_entry q e)) n \<longleftrightarrow> bit (take_bit 40 q) n"
    using lo unfolding next_table_def link_entry_def m
    by (cases "n < 12") (auto simp: bit_push_bit_iff bit_ucast_iff bit_and_iff bit_mask_iff bit_drop_bit_eq bit_take_bit_iff not_less)
qed

lemma next_table_link:
  assumes "q AND 0xFFF = 0" "q < 2 ^ 40"
  shows "next_table (link_entry q e) = q"
proof -
  have "unat q < unat (2 ^ 40 :: u64)" using assms(2) by (simp only: word_less_nat_alt)
  then have "take_bit 40 q = q" by (simp add: word_unat_eq_iff unsigned_take_bit_eq take_bit_nat_eq_self)
  then show ?thesis by (simp add: next_table_link_low [OF assms(1)])
qed

lemma get_entry_block: "h p = Some es \<Longrightarrow> unat i < length es \<Longrightarrow> get_entry h p i = Some (es ! unat i)"
  by (simp add: get_entry_def)

lemma get_entry_other: "p \<noteq> q \<Longrightarrow> get_entry (h(q \<mapsto> es)) p i = get_entry h p i"
  by (simp add: get_entry_def)

lemma get_entry_update:
  "h p = Some es \<Longrightarrow> unat i < length es \<Longrightarrow>
   get_entry (h(p \<mapsto> es[unat i := e])) p j = (if j = i then Some e else get_entry h p j)"
  by (auto simp: get_entry_def nth_list_update word_unat_eq_iff)

section \<open>Facts the invariant gives\<close>

lemma ept_wf_block:
  "ept_wf h root \<Longrightarrow> length P \<le> 3 \<Longrightarrow> idx_ok P \<Longrightarrow> table_at h root P = Some p \<Longrightarrow>
   \<exists>es. h p = Some es \<and> length es = 256"
  unfolding ept_wf_def by blast

lemma ept_wf_inj:
  "ept_wf h root \<Longrightarrow> length P \<le> 3 \<Longrightarrow> length Q \<le> 3 \<Longrightarrow> idx_ok P \<Longrightarrow> idx_ok Q \<Longrightarrow>
   table_at h root P = Some p \<Longrightarrow> table_at h root Q = Some p \<Longrightarrow> P = Q"
  unfolding ept_wf_def by blast

lemma ept_wf_upper:
  "ept_wf h root \<Longrightarrow> length P \<le> 2 \<Longrightarrow> idx_ok P \<Longrightarrow> table_at h root P = Some p \<Longrightarrow>
   unat i < 256 \<Longrightarrow> get_entry h p i = Some e \<Longrightarrow> \<not> big_pagesize e \<and> (present e \<or> e = zero_entry)"
  unfolding ept_wf_def by blast

lemma ept_wf_get:
  assumes "ept_wf h root" "length P \<le> 3" "idx_ok P" "table_at h root P = Some p" "unat i < 256"
  obtains e where "get_entry h p i = Some e"
  using ept_wf_block [OF assms(1-4)] assms(5) get_entry_block by fastforce

section \<open>Linking a new table\<close>

text \<open>The heap after one of the three allocation steps succeeded.\<close>

definition link_heap :: "ept_heap \<Rightarrow> u64 \<Rightarrow> u32 \<Rightarrow> u64 \<Rightarrow> ept_entry list \<Rightarrow> ept_heap" where
  "link_heap h p i q es =
     h(q \<mapsto> replicate 256 zero_entry, p \<mapsto> es[unat i := link_entry q (es ! unat i)])"

lemma get_entry_link:
  assumes "h p = Some es" "unat i < length es" "p \<noteq> q"
  shows "get_entry (link_heap h p i q es) r j =
    (if r = p \<and> j = i then Some (link_entry q (es ! unat i))
     else if r = q then (if unat j < 256 then Some zero_entry else None)
     else get_entry h r j)"
proof -
  have "unat j = unat i \<longleftrightarrow> j = i" by (simp add: word_unat_eq_iff)
  then show ?thesis using assms by (auto simp: link_heap_def get_entry_def nth_list_update)
qed

lemma link_table_at:
  assumes wf: "ept_wf h root" and P: "length P \<le> 2" "idx_ok P" "table_at h root P = Some p"
    and i: "unat i < 256" and e: "get_entry h p i = Some e" "\<not> present e"
    and q: "h q = None" "q AND 0xFFF = 0" "q < 2 ^ 40" and es: "h p = Some es"
    and Q: "length Q \<le> 3" "idx_ok Q"
  shows "table_at (link_heap h p i q es) root Q = (if Q = P @ [i] then Some q else table_at h root Q)"
  using Q
proof (induction Q rule: rev_induct)
  case Nil
  then show ?case by simp
next
  case (snoc j Q)
  let ?h = "link_heap h p i q es"
  have len: "length es = 256" using ept_wf_block [OF wf _ P(2,3)] P(1) es by auto
  have pq: "p \<noteq> q" using es q(1) by auto
  have gp: "get_entry ?h p k = (if k = i then Some (link_entry q e) else get_entry h p k)" for k
    using es len i e(1) pq by (simp add: get_entry_link get_entry_block)
  have gq: "get_entry ?h q k = Some zero_entry" if "unat k < 256" for k
    using es len i pq that by (simp add: get_entry_link)
  have stop: "table_at h root (P @ [i]) = None" using P(3) e by (simp add: table_at_snoc)
  from snoc have IH: "table_at ?h root Q = (if Q = P @ [i] then Some q else table_at h root Q)" by simp
  consider "Q = P" | "Q = P @ [i]" | "Q \<noteq> P" "Q \<noteq> P @ [i]" by blast
  then show ?case
  proof cases
    case 1
    then show ?thesis using IH P(3) gp e q by (simp add: table_at_snoc next_table_link)
  next
    case 2
    then have "table_at ?h root Q = Some q" "table_at h root Q = None" using IH stop by simp_all
    then show ?thesis
      using 2 gq [of j] snoc.prems(2) table_at_snoc [of _ root Q j] by simp
  next
    case 3
    show ?thesis
    proof (cases "table_at h root Q")
      case None
      then show ?thesis using 3 IH by (simp add: table_at_snoc)
    next
      case (Some r)
      then have "r \<noteq> p" using ept_wf_inj [OF wf _ _ _ P(2) _ P(3), of Q] P(1) snoc.prems 3(1) by auto
      moreover have "r \<noteq> q" using ept_wf_block [OF wf _ _ Some] snoc.prems q(1) by auto
      ultimately have "get_entry ?h r j = get_entry h r j"
        using es len i pq by (simp add: get_entry_link)
      then show ?thesis using 3 IH Some by (simp add: table_at_snoc)
    qed
  qed
qed

lemma link_wf:
  assumes wf: "ept_wf h root" and P: "length P \<le> 2" "idx_ok P" "table_at h root P = Some p"
    and i: "unat i < 256" and e: "get_entry h p i = Some e" "\<not> present e"
    and q: "h q = None" "q \<noteq> 0" "q AND 0xFFF = 0" "q < 2 ^ 40" and es: "h p = Some es"
  shows "ept_wf (link_heap h p i q es) root"
proof -
  let ?h = "link_heap h p i q es"
  note T = link_table_at [OF wf P i e q(1,3,4) es]
  have len: "length es = 256" using ept_wf_block [OF wf _ P(2,3)] P(1) es by auto
  have pq: "p \<noteq> q" using es q(1) by auto
  have fresh: "table_at h root Q \<noteq> Some q" if "length Q \<le> 3" "idx_ok Q" for Q
    using ept_wf_block [OF wf that] q(1) by auto
  have "\<exists>es. ?h r = Some es \<and> length es = 256"
    if "length Q \<le> 3" "idx_ok Q" "table_at ?h root Q = Some r" for Q r
    using that T [OF that(1,2)] ept_wf_block [OF wf that(1,2), of r] len
    by (auto simp: link_heap_def split: if_splits)
  moreover have "Q = R"
    if "length Q \<le> 3" "length R \<le> 3" "idx_ok Q" "idx_ok R" "table_at ?h root Q = Some r" "table_at ?h root R = Some r"
    for Q R r
    using that T [of Q] T [of R] fresh [of Q] fresh [of R] ept_wf_inj [OF wf that(1-4)]
    by (auto split: if_splits)
  moreover have "\<not> big_pagesize f \<and> (present f \<or> f = zero_entry)"
    if "length Q \<le> 2" "idx_ok Q" "table_at ?h root Q = Some r" "unat j < 256" "get_entry ?h r j = Some f" for Q r j f
  proof (cases "Q = P @ [i]")
    case True
    then have "r = q" using that T [of Q] by simp
    then show ?thesis using that(4,5) es len i pq by (simp add: get_entry_link)
  next
    case False
    then have r: "table_at h root Q = Some r" using that T [of Q] by simp
    then have "r \<noteq> q" using fresh that by auto
    then have "f = link_entry q e \<or> get_entry h r j = Some f"
      using that(5) es len i e(1) pq by (simp add: get_entry_link get_entry_block split: if_splits)
    then show ?thesis using ept_wf_upper [OF wf P i e(1)] ept_wf_upper [OF wf that(1,2) r that(4)] by auto
  qed
  moreover have "root \<noteq> 0" "?h 0 = None"
    using wf q(2) es by (auto simp: ept_wf_def link_heap_def)
  ultimately show ?thesis unfolding ept_wf_def by blast
qed

section \<open>The abstract view: leaves\<close>

definition leaf :: "ept_heap \<Rightarrow> u64 \<Rightarrow> u32 list \<Rightarrow> u32 \<Rightarrow> ept_entry option" where
  "leaf h root P d =
     (case table_at h root P of None \<Rightarrow> None
      | Some p \<Rightarrow> (case get_entry h p d of None \<Rightarrow> None
         | Some e \<Rightarrow> if present e then Some e else None))"

lemma link_leaf:
  assumes wf: "ept_wf h root" and P: "length P \<le> 2" "idx_ok P" "table_at h root P = Some p"
    and i: "unat i < 256" and e: "get_entry h p i = Some e" "\<not> present e"
    and q: "h q = None" "q \<noteq> 0" "q AND 0xFFF = 0" "q < 2 ^ 40" and es: "h p = Some es"
    and Q: "length Q = 3" "idx_ok Q" "unat d < 256"
  shows "leaf (link_heap h p i q es) root Q d = leaf h root Q d"
proof -
  let ?h = "link_heap h p i q es"
  have T: "table_at ?h root Q = (if Q = P @ [i] then Some q else table_at h root Q)"
    using link_table_at [OF wf P i e q(1,3,4) es] Q by simp
  have len: "length es = 256" using ept_wf_block [OF wf _ P(2,3)] P(1) es by auto
  have pq: "p \<noteq> q" using es q(1) by auto
  have "unat i < length es" using i len by simp
  note G = get_entry_link [of h p es i q, OF es this pq]
  show ?thesis
  proof (cases "Q = P @ [i]")
    case True
    then have "table_at h root Q = None" using P(3) e by (simp add: table_at_snoc)
    then show ?thesis using True T Q(3) pq by (simp add: leaf_def G)
  next
    case False
    show ?thesis
    proof (cases "table_at h root Q")
      case None
      then show ?thesis using False T by (simp add: leaf_def)
    next
      case (Some r)
      then have "r \<noteq> p" using ept_wf_inj [OF wf _ _ Q(2) P(2) Some] P Q(1) by auto
      moreover have "r \<noteq> q" using ept_wf_block [OF wf _ Q(2) Some] Q(1) q(1) by auto
      ultimately show ?thesis using False T Some by (simp add: leaf_def G)
    qed
  qed
qed

lemma link_dom:
  assumes "h p = Some es" "finite (dom h)"
  shows "finite (dom (link_heap h p i q es)) \<and> card (dom (link_heap h p i q es)) \<le> Suc (card (dom h))"
proof -
  have "dom (link_heap h p i q es) = insert q (dom h)"
    using assms(1) by (auto simp: link_heap_def)
  then show ?thesis using assms(2) by (simp add: card_insert_if)
qed

text \<open>
  \<open>grows root n s s'\<close>: \<open>s'\<close> extends the tables of \<open>s\<close> by at most \<open>n\<close> pages without changing
  the mapping.
\<close>

definition grows :: "u64 \<Rightarrow> nat \<Rightarrow> ept_state \<Rightarrow> ept_state \<Rightarrow> bool" where
  "grows root n s s' \<longleftrightarrow> ept_wf (blocks s') root \<and>
     (\<forall>Q d. length Q = 3 \<longrightarrow> idx_ok Q \<longrightarrow> unat d < 256 \<longrightarrow>
        leaf (blocks s') root Q d = leaf (blocks s) root Q d) \<and>
     finite (dom (blocks s')) \<and> card (dom (blocks s')) \<le> card (dom (blocks s)) + n"

lemma grows_trans: "grows root m s t \<Longrightarrow> grows root n t u \<Longrightarrow> grows root (m + n) s u"
  by (auto simp: grows_def)

lemma alloc_steps_eq: "ept_alloc_pd = ept_alloc_pdpt" "ept_alloc_pt = ept_alloc_pdpt"
  by (simp_all add: fun_eq_iff ept_alloc_pdpt_def ept_alloc_pd_def ept_alloc_pt_def)

lemma ept_alloc_step:
  assumes "al (blocks s) PAGE_SIZE = q" "q \<noteq> 0" "blocks s q = None"
    and "blocks s p = Some es" "unat i < length es"
  shows "ept_alloc_pdpt al s p i = Some (NEXUSVM_OK, s\<lparr>blocks := link_heap (blocks s) p i q es\<rparr>)"
proof -
  have "p \<noteq> q" using assms by auto
  then show ?thesis using assms
    by (simp add: ept_alloc_pdpt_def ept_alloc_pages_def get_entry_def set_entry_def link_heap_def)
qed

lemma descend:
  assumes wf: "ept_wf (blocks s) root" and P: "length P \<le> 2" "idx_ok P" "table_at (blocks s) root P = Some p"
    and i: "unat i < 256" and fin: "finite (dom (blocks s))"
    and al: "alloc_fresh al" "al (blocks s) PAGE_SIZE \<noteq> 0"
    and e: "get_entry (blocks s) p i = Some e"
  shows "\<exists>s1 e1. (if \<not> present e then ept_alloc_pdpt al s p i else Some (NEXUSVM_OK, s)) = Some (NEXUSVM_OK, s1) \<and>
    get_entry (blocks s1) p i = Some e1 \<and> table_at (blocks s1) root (P @ [i]) = Some (next_table e1) \<and>
    grows root 1 s s1"
proof (cases "present e")
  case True
  then have "table_at (blocks s) root (P @ [i]) = Some (next_table e)" using P(3) e by (simp add: table_at_snoc)
  then show ?thesis using True e wf fin by (auto simp: grows_def)
next
  case False
  define q where "q = al (blocks s) PAGE_SIZE"
  from al have q: "blocks s q = None" "q \<noteq> 0" "q AND 0xFFF = 0" "q < 2 ^ 40"
    by (simp_all add: alloc_fresh_def q_def)
  obtain es where es: "blocks s p = Some es" "length es = 256"
    using ept_wf_block [OF wf _ P(2,3)] P(1) by auto
  let ?h = "link_heap (blocks s) p i q es"
  have step: "ept_alloc_pdpt al s p i = Some (NEXUSVM_OK, s\<lparr>blocks := ?h\<rparr>)"
    using q es i by (intro ept_alloc_step) (simp_all add: q_def)
  have pq: "p \<noteq> q" using es q by auto
  have "get_entry ?h p i = Some (link_entry q e)"
    using es i e pq by (simp add: get_entry_link get_entry_block)
  moreover have "table_at ?h root (P @ [i]) = Some q"
    using link_table_at [OF wf P i e False q(1,3,4) es(1), of "P @ [i]"] P i by simp
  moreover have "grows root 1 s (s\<lparr>blocks := ?h\<rparr>)"
    using link_wf [OF wf P i e False q es(1)] link_leaf [OF wf P i e False q es(1)] link_dom [OF es(1) fin]
    by (simp add: grows_def)
  ultimately show ?thesis using False step q by (auto simp: next_table_link)
qed

section \<open>Writing a leaf\<close>

lemma table_at_leaf_write:
  assumes wf: "ept_wf h root" and P: "length P = 3" "idx_ok P" "table_at h root P = Some p"
    and h': "\<And>r j. r \<noteq> p \<Longrightarrow> get_entry h' r j = get_entry h r j"
    and Q: "length Q \<le> 3" "idx_ok Q"
  shows "table_at h' root Q = table_at h root Q"
  using Q
proof (induction Q rule: rev_induct)
  case Nil
  then show ?case by simp
next
  case (snoc j Q)
  then have IH: "table_at h' root Q = table_at h root Q" by simp
  show ?case
  proof (cases "table_at h root Q")
    case None
    then show ?thesis using IH by (simp add: table_at_snoc)
  next
    case (Some r)
    then have "r \<noteq> p"
      using ept_wf_inj [OF wf _ _ _ P(2) _ P(3), of Q] P(1) snoc.prems by auto
    then show ?thesis using IH Some by (simp add: table_at_snoc h')
  qed
qed

lemma leaf_write:
  fixes pte :: ept_entry
  assumes wf: "ept_wf h root" and P: "length P = 3" "idx_ok P" "table_at h root P = Some p"
    and es: "h p = Some es" "length es = 256" and d: "unat d < 256"
  defines "h' \<equiv> h(p \<mapsto> es[unat d := pte])"
  shows "ept_wf h' root"
    and "length Q = 3 \<Longrightarrow> idx_ok Q \<Longrightarrow> unat f < 256 \<Longrightarrow>
      leaf h' root Q f = (if Q = P \<and> f = d then (if present pte then Some pte else None) else leaf h root Q f)"
proof -
  have T: "table_at h' root Q = table_at h root Q" if "length Q \<le> 3" "idx_ok Q" for Q
    using that by (intro table_at_leaf_write [OF wf P]) (simp_all add: h'_def get_entry_other)
  have same: "get_entry h' r j = get_entry h r j"
    if "length Q \<le> 3" "idx_ok Q" "table_at h root Q = Some r" "Q \<noteq> P" for Q r j
  proof -
    have "r \<noteq> p" using ept_wf_inj [OF wf that(1) _ that(2) P(2) that(3)] P that(4) by auto
    then show ?thesis by (simp add: h'_def get_entry_other)
  qed
  have "\<exists>xs. h' r = Some xs \<and> length xs = 256" if "length Q \<le> 3" "idx_ok Q" "table_at h' root Q = Some r" for Q r
    using that T [OF that(1,2)] ept_wf_block [OF wf that(1,2), of r] es by (auto simp: h'_def)
  moreover have "Q = R"
    if "length Q \<le> 3" "length R \<le> 3" "idx_ok Q" "idx_ok R" "table_at h' root Q = Some r" "table_at h' root R = Some r"
    for Q R r
    using that T [of Q] T [of R] ept_wf_inj [OF wf that(1-4)] by simp
  moreover have "\<not> big_pagesize e \<and> (present e \<or> e = zero_entry)"
    if "length Q \<le> 2" "idx_ok Q" "table_at h' root Q = Some r" "unat j < 256" "get_entry h' r j = Some e" for Q r j e
  proof -
    have r: "table_at h root Q = Some r" using that T [of Q] by simp
    moreover have "Q \<noteq> P" using that(1) P(1) by auto
    ultimately have "get_entry h r j = Some e" using same [of Q r j] that by simp
    then show ?thesis using ept_wf_upper [OF wf that(1,2) r that(4)] by simp
  qed
  moreover have "root \<noteq> 0" "h' 0 = None" using wf es by (auto simp: ept_wf_def h'_def)
  ultimately show "ept_wf h' root" unfolding ept_wf_def by blast
  assume Q: "length Q = 3" "idx_ok Q" "unat f < 256"
  show "leaf h' root Q f = (if Q = P \<and> f = d then (if present pte then Some pte else None) else leaf h root Q f)"
  proof (cases "Q = P")
    case True
    then show ?thesis using T [of Q] Q P es d
      by (simp add: leaf_def h'_def get_entry_update)
  next
    case False
    then show ?thesis using T [of Q] Q same [of Q]
      by (auto simp: leaf_def split: option.splits)
  qed
qed

section \<open>The operations on the abstract view\<close>

definition path_of :: "guest_addr \<Rightarrow> u32 list" where
  "path_of gpa = [EPT_PML4_INDEX gpa, EPT_PDP_INDEX gpa, EPT_PD_INDEX gpa]"

text \<open>The guest addresses whose four indices stay inside a 256-entry table.\<close>

definition in_range :: "guest_addr \<Rightarrow> bool" where
  "in_range gpa \<longleftrightarrow> idx_ok (path_of gpa) \<and> unat (EPT_PT_INDEX gpa) < 256"

lemma length_path_of [simp]: "length (path_of gpa) = 3"
  by (simp add: path_of_def)

definition ept_page :: "ept_state \<Rightarrow> u64 \<Rightarrow> guest_addr \<Rightarrow> ept_entry option" where
  "ept_page s root gpa = leaf (blocks s) root (path_of gpa) (EPT_PT_INDEX gpa)"

lemma ept_lookup_page:
  assumes wf: "ept_wf (blocks s) root" and r: "in_range gpa"
  shows "ept_lookup s root gpa (Some x) =
    (case ept_page s root gpa of None \<Rightarrow> Some (NEXUSVM_ERR_NOT_FOUND, Some x)
     | Some e \<Rightarrow> Some (NEXUSVM_OK, Some e))"
proof -
  let ?h = "blocks s" and ?a = "EPT_PML4_INDEX gpa" and ?b = "EPT_PDP_INDEX gpa" and ?c = "EPT_PD_INDEX gpa"
  have idx: "unat ?a < 256" "unat ?b < 256" "unat ?c < 256" "unat (EPT_PT_INDEX gpa) < 256"
    using r by (simp_all add: in_range_def path_of_def)
  have nz: "root \<noteq> 0" using wf by (simp add: ept_wf_def)
  obtain e1 where e1: "get_entry ?h root ?a = Some e1" using ept_wf_get [OF wf, of "[]"] idx by auto
  show ?thesis
  proof (cases "present e1")
    case False
    then show ?thesis using nz e1 by (simp add: ept_lookup_def ept_page_def path_of_def leaf_def)
  next
    case True
    then have t1: "table_at ?h root [?a] = Some (next_table e1)" using e1 by simp
    obtain e2 where e2: "get_entry ?h (next_table e1) ?b = Some e2"
      using ept_wf_get [OF wf _ _ t1] idx by auto
    show ?thesis
    proof (cases "present e2")
      case False
      then show ?thesis using nz e1 True e2 by (simp add: ept_lookup_def ept_page_def path_of_def leaf_def)
    next
      case p2: True
      then have t2: "table_at ?h root [?a, ?b] = Some (next_table e2)" using e1 True e2 by simp
      obtain e3 where e3: "get_entry ?h (next_table e2) ?c = Some e3"
        using ept_wf_get [OF wf _ _ t2] idx by auto
      then have "\<not> big_pagesize e3" using ept_wf_upper [OF wf _ _ t2] idx by auto
      moreover have "\<exists>e4. get_entry ?h (next_table e3) (EPT_PT_INDEX gpa) = Some e4" if "present e3"
      proof -
        have t3: "table_at ?h root [?a, ?b, ?c] = Some (next_table e3)" using that e1 True e2 p2 e3 by simp
        show ?thesis using ept_wf_get [OF wf _ _ t3 idx(4)] idx by auto
      qed
      ultimately show ?thesis using nz e1 True e2 p2 e3
        by (cases "present e3") (auto simp: ept_lookup_def ept_page_def path_of_def leaf_def)
    qed
  qed
qed

text \<open>One level of \<open>ept_map\<close>, with what the next level needs.\<close>

lemma ept_map_level:
  assumes g: "grows root n s0 s" and n: "n \<le> 2"
    and P: "length P \<le> 2" "idx_ok P" "table_at (blocks s) root P = Some p" and i: "unat i < 256"
    and al: "alloc_fresh al" "alloc_room al (card (dom (blocks s0)) + 2)"
  shows "\<exists>e s1 f. get_entry (blocks s) p i = Some e \<and> \<not> big_pagesize e \<and>
    (if \<not> present e then ept_alloc_pdpt al s p i else Some (NEXUSVM_OK, s)) = Some (NEXUSVM_OK, s1) \<and>
    get_entry (blocks s1) p i = Some f \<and> table_at (blocks s1) root (P @ [i]) = Some (next_table f) \<and>
    grows root (Suc n) s0 s1"
proof -
  have wf: "ept_wf (blocks s) root" and fin: "finite (dom (blocks s))" using g by (simp_all add: grows_def)
  have room: "al (blocks s) PAGE_SIZE \<noteq> 0"
    using g n al(2) by (auto simp: alloc_room_def grows_def simp del: PAGE_SIZE_eq)
  obtain e where e: "get_entry (blocks s) p i = Some e" using ept_wf_get [OF wf _ P(2,3) i] P(1) by auto
  have "\<not> big_pagesize e" using ept_wf_upper [OF wf P i e] by simp
  with e descend [OF wf P i fin al(1) room e] grows_trans [OF g, of 1] show ?thesis
    by (metis add.commute plus_1_eq_Suc)
qed

text \<open>
  The effect of \<open>ept_map\<close> on the tables, with room for the three pages it may need.
\<close>

lemma ept_map_effect:
  assumes wf: "ept_wf (blocks s) root" and r: "in_range gpa"
    and fin: "finite (dom (blocks s))" and al: "alloc_fresh al" "alloc_room al (card (dom (blocks s)) + 2)"
  obtains s' where "ept_map al s root gpa (Some pte) = Some (NEXUSVM_OK, s')"
    and "ept_wf (blocks s') root" "finite (dom (blocks s'))"
    and "card (dom (blocks s')) \<le> card (dom (blocks s)) + 3"
    and "\<And>Q d. length Q = 3 \<Longrightarrow> idx_ok Q \<Longrightarrow> unat d < 256 \<Longrightarrow>
      leaf (blocks s') root Q d =
        (if Q = path_of gpa \<and> d = EPT_PT_INDEX gpa then (if present pte then Some pte else None)
         else leaf (blocks s) root Q d)"
proof -
  let ?a = "EPT_PML4_INDEX gpa" and ?b = "EPT_PDP_INDEX gpa" and ?c = "EPT_PD_INDEX gpa" and ?d = "EPT_PT_INDEX gpa"
  have idx: "unat ?a < 256" "unat ?b < 256" "unat ?c < 256" "unat ?d < 256" and ok: "idx_ok (path_of gpa)"
    using r by (simp_all add: in_range_def path_of_def)
  have nz: "root \<noteq> 0" using wf by (simp add: ept_wf_def)
  have g0: "grows root 0 s s" using wf fin by (simp add: grows_def)
  obtain e1 s1 f1 where s1: "get_entry (blocks s) root ?a = Some e1"
      "(if \<not> present e1 then ept_alloc_pdpt al s root ?a else Some (NEXUSVM_OK, s)) = Some (NEXUSVM_OK, s1)"
      "get_entry (blocks s1) root ?a = Some f1" "table_at (blocks s1) root [?a] = Some (next_table f1)" "grows root 1 s s1"
    using ept_map_level [OF g0 _ _ _ _ idx(1) al, of "[]" root] by auto
  obtain e2 s2 f2 where s2: "get_entry (blocks s1) (next_table f1) ?b = Some e2"
      "(if \<not> present e2 then ept_alloc_pdpt al s1 (next_table f1) ?b else Some (NEXUSVM_OK, s1)) = Some (NEXUSVM_OK, s2)"
      "get_entry (blocks s2) (next_table f1) ?b = Some f2" "table_at (blocks s2) root [?a, ?b] = Some (next_table f2)" "grows root 2 s s2"
    using ept_map_level [OF s1(5) _ _ _ s1(4) idx(2) al] idx by (auto simp: numeral_2_eq_2)
  obtain e3 s3 f3 where s3: "get_entry (blocks s2) (next_table f2) ?c = Some e3" "\<not> big_pagesize e3"
      "(if \<not> present e3 then ept_alloc_pdpt al s2 (next_table f2) ?c else Some (NEXUSVM_OK, s2)) = Some (NEXUSVM_OK, s3)"
      "get_entry (blocks s3) (next_table f2) ?c = Some f3" "table_at (blocks s3) root (path_of gpa) = Some (next_table f3)" "grows root 3 s s3"
    using ept_map_level [OF s2(5) _ _ _ s2(4) idx(3) al] idx by (auto simp: path_of_def numeral_3_eq_3 numeral_2_eq_2)
  have wf3: "ept_wf (blocks s3) root" using s3(6) by (simp add: grows_def)
  obtain es where es: "blocks s3 (next_table f3) = Some es" "length es = 256"
    using ept_wf_block [OF wf3 _ ok s3(5)] by auto
  let ?h = "(blocks s3)(next_table f3 \<mapsto> es[unat ?d := pte])"
  have "set_entry (blocks s3) (next_table f3) ?d pte = Some ?h" using es idx(4) by (simp add: set_entry_def)
  then have "ept_map al s root gpa (Some pte) = Some (NEXUSVM_OK, s3\<lparr>blocks := ?h\<rparr>)"
    using nz s1(1-3) s2(1-3) s3(1-4) unfolding ept_map_def alloc_steps_eq by (simp add: Let_def split del: if_split)
  moreover have "dom ?h = dom (blocks s3)" using es by auto
  ultimately show thesis
    using that [of "s3\<lparr>blocks := ?h\<rparr>"] leaf_write [OF wf3 _ ok s3(5) es idx(4), where pte = pte] s3(6)
    by (simp add: grows_def)
qed

section \<open>Guest pages\<close>

lemma index_bit: "bit (ucast (drop_bit k gpa AND 0x1FF) :: u32) n \<longleftrightarrow> n < 9 \<and> bit (gpa :: u64) (k + n)"
proof -
  have m: "(0x1FF :: u64) = mask 9" by (simp add: mask_eq_exp_minus_1)
  show ?thesis unfolding m
    by (auto simp: bit_ucast_iff bit_and_iff bit_mask_iff bit_drop_bit_eq)
qed

lemma below_256_iff: "n < 512 \<Longrightarrow> n < 256 \<longleftrightarrow> \<not> bit (n :: nat) 8"
proof (cases "n < 256")
  case False
  assume "n < 512"
  with False have "n div 256 = 1" by (intro div_nat_eqI) simp_all
  with False show ?thesis by (simp add: bit_iff_odd)
qed (simp add: bit_iff_odd)

lemma all_less_guard:
  "m \<le> k \<Longrightarrow> (\<forall>n<k. (n < m \<and> P n) = (n < m \<and> Q n)) \<longleftrightarrow> (\<forall>n<m::nat. P n = Q n)"
  by (meson order_less_le_trans)

lemma index_below: "unat (ucast (drop_bit k gpa AND 0x1FF) :: u32) < 256 \<longleftrightarrow> \<not> bit (gpa :: u64) (k + 8)"
proof -
  define x where "x = (ucast (drop_bit k gpa AND 0x1FF) :: u32)"
  have b: "bit (unat x) n \<longleftrightarrow> n < 9 \<and> bit gpa (k + n)" for n
    using index_bit [of k gpa n] by (auto simp: x_def bit_unsigned_iff)
  have "take_bit 9 (unat x) = unat x"
    by (rule bit_eqI) (simp add: bit_take_bit_iff b)
  then have "unat x < 512" using take_bit_nat_less_exp [of 9 "unat x"] by simp
  then have "unat x < 256 \<longleftrightarrow> \<not> bit (unat x) 8" by (rule below_256_iff)
  then show ?thesis by (simp add: b x_def [symmetric])
qed

lemmas ept_index_defs = EPT_PML4_INDEX_def EPT_PDP_INDEX_def EPT_PD_INDEX_def EPT_PT_INDEX_def

lemma in_range_iff:
  "in_range gpa \<longleftrightarrow> \<not> bit gpa 47 \<and> \<not> bit gpa 38 \<and> \<not> bit gpa 29 \<and> \<not> bit gpa 20"
  by (simp add: in_range_def path_of_def ept_index_defs index_below)

lemma index_eq:
  "(ucast (drop_bit k g1 AND 0x1FF) :: u32) = ucast (drop_bit k g2 AND 0x1FF) \<longleftrightarrow>
     (\<forall>n<9. bit (g1 :: u64) (k + n) = bit (g2 :: u64) (k + n))"
  by (simp add: bit_eq_iff index_bit all_less_guard)

text \<open>The number of the guest page: bits 12 to 47 of the address.\<close>

definition page_no :: "guest_addr \<Rightarrow> u64" where
  "page_no gpa = take_bit 36 (drop_bit 12 gpa)"

lemma page_no_eq:
  "page_no g1 = page_no g2 \<longleftrightarrow> path_of g1 = path_of g2 \<and> EPT_PT_INDEX g1 = EPT_PT_INDEX g2"
proof -
  have split: "(\<forall>n<36. Q (12 + n)) \<longleftrightarrow>
      (\<forall>n<9. Q (39 + n)) \<and> (\<forall>n<9. Q (30 + n)) \<and> (\<forall>n<9. Q (21 + n)) \<and> (\<forall>n<9. Q (12 + n))"
    for Q :: "nat \<Rightarrow> bool"
  proof -
    have sh: "(\<forall>n<j. Q (i + n)) \<longleftrightarrow> (\<forall>m\<in>{i..<i + j}. Q m)" for i j
      by (metis atLeastLessThan_iff le_add1 le_add_diff_inverse nat_add_left_cancel_less)
    have "{12..<48} = {39..<48} \<union> {30..<39} \<union> {21..<30} \<union> {12..<21 :: nat}" by auto
    then show ?thesis unfolding sh by (simp add: ball_Un conj_ac)
  qed
  have "page_no g1 = page_no g2 \<longleftrightarrow> (\<forall>n<36. bit g1 (12 + n) = bit g2 (12 + n))"
    by (simp add: page_no_def bit_eq_iff bit_take_bit_iff bit_drop_bit_eq all_less_guard)
  also have "\<dots> \<longleftrightarrow> path_of g1 = path_of g2 \<and> EPT_PT_INDEX g1 = EPT_PT_INDEX g2"
    using split [of "\<lambda>m. bit g1 m = bit g2 m"] by (simp add: path_of_def ept_index_defs index_eq)
  finally show ?thesis .
qed

section \<open>A fresh root\<close>

lemma ept_alloc_root_ok:
  assumes "alloc_fresh al" "al (blocks s) PAGE_SIZE \<noteq> 0"
  shows "ept_alloc_root al s =
    Some (al (blocks s) PAGE_SIZE,
      s\<lparr>blocks := (blocks s)(al (blocks s) PAGE_SIZE \<mapsto> replicate 256 zero_entry)\<rparr>)"
  using assms by (simp add: ept_alloc_root_def ept_alloc_pages_def clear_page_def Let_def)

lemma fresh_root_table_at:
  "h root = Some (replicate 256 zero_entry) \<Longrightarrow> idx_ok P \<Longrightarrow>
   table_at h root P = (if P = [] then Some root else None)"
  by (cases P) (auto simp: get_entry_def)

lemma fresh_root_wf:
  assumes "h root = Some (replicate 256 zero_entry)" "root \<noteq> 0" "h 0 = None"
  shows "ept_wf h root"
  unfolding ept_wf_def using assms
  by (auto simp: fresh_root_table_at [of h root, OF assms(1)] get_entry_def split: if_splits)

lemma fresh_root_page:
  "blocks s root = Some (replicate 256 zero_entry) \<Longrightarrow> in_range gpa \<Longrightarrow> ept_page s root gpa = None"
  using fresh_root_table_at [of "blocks s" root "path_of gpa"]
  by (auto simp: ept_page_def leaf_def in_range_def path_of_def)

section \<open>The mapping interface\<close>

text \<open>
  What a client of the page tables relies on: a state with room for \<open>Suc n\<close> mappings accepts one,
  keeps room for \<open>n\<close>, and the new entry is what a lookup of its page returns, every other page
  being unchanged.
\<close>

locale page_map =
  fixes inv :: "'s \<Rightarrow> nat \<Rightarrow> bool"
    and map1 :: "'s \<Rightarrow> guest_addr \<Rightarrow> ept_entry \<Rightarrow> (nexusvm_result \<times> 's) run"
    and page :: "'s \<Rightarrow> guest_addr \<Rightarrow> ept_entry option"
    and ok :: "guest_addr \<Rightarrow> bool"
    and key :: "guest_addr \<Rightarrow> u64"
  assumes map1_ok: "inv s (Suc n) \<Longrightarrow> ok g \<Longrightarrow> present e \<Longrightarrow>
    \<exists>s'. map1 s g e = Some (NEXUSVM_OK, s') \<and> inv s' n \<and>
      (\<forall>g'. ok g' \<longrightarrow> page s' g' = (if key g' = key g then Some e else page s g'))"
    and inv_less: "inv s (Suc n) \<Longrightarrow> inv s n"

text \<open>The invariant of the page tables as the clients see it: room for \<open>n\<close> more mappings.\<close>

definition ept_inv :: "allocator \<Rightarrow> u64 \<Rightarrow> ept_state \<Rightarrow> nat \<Rightarrow> bool" where
  "ept_inv al root s n \<longleftrightarrow> ept_wf (blocks s) root \<and> finite (dom (blocks s)) \<and> alloc_fresh al \<and>
     alloc_room al (card (dom (blocks s)) + 3 * n)"

lemma alloc_room_mono: "alloc_room al k \<Longrightarrow> j \<le> k \<Longrightarrow> alloc_room al j"
  by (simp add: alloc_room_def)

lemma ept_map_page:
  assumes "ept_inv al root s (Suc n)" "in_range gpa" "present pte"
  shows "\<exists>s'. ept_map al s root gpa (Some pte) = Some (NEXUSVM_OK, s') \<and> ept_inv al root s' n \<and>
    (\<forall>g. in_range g \<longrightarrow> ept_page s' root g = (if page_no g = page_no gpa then Some pte else ept_page s root g))"
proof -
  have inv: "ept_wf (blocks s) root" "finite (dom (blocks s))" "alloc_fresh al"
    "alloc_room al (card (dom (blocks s)) + 3 * Suc n)"
    using assms(1) by (simp_all add: ept_inv_def)
  have "alloc_room al (card (dom (blocks s)) + 2)" using inv(4) by (rule alloc_room_mono) simp
  then obtain s' where s': "ept_map al s root gpa (Some pte) = Some (NEXUSVM_OK, s')"
      "ept_wf (blocks s') root" "finite (dom (blocks s'))"
      "card (dom (blocks s')) \<le> card (dom (blocks s)) + 3"
      and leaf: "\<And>Q d. length Q = 3 \<Longrightarrow> idx_ok Q \<Longrightarrow> unat d < 256 \<Longrightarrow>
        leaf (blocks s') root Q d =
          (if Q = path_of gpa \<and> d = EPT_PT_INDEX gpa then (if present pte then Some pte else None)
           else leaf (blocks s) root Q d)"
    using ept_map_effect [OF inv(1) assms(2) inv(2,3)] by blast
  have "alloc_room al (card (dom (blocks s')) + 3 * n)" using inv(4) s'(4) by (auto elim: alloc_room_mono)
  with s' inv(3) have "ept_inv al root s' n" by (simp add: ept_inv_def)
  moreover have "ept_page s' root g = (if page_no g = page_no gpa then Some pte else ept_page s root g)"
    if "in_range g" for g
    using that leaf [of "path_of g" "EPT_PT_INDEX g"] assms(3)
    by (simp add: ept_page_def in_range_def page_no_eq)
  ultimately show ?thesis using s'(1) by blast
qed

lemma ept_inv_less: "ept_inv al root s (Suc n) \<Longrightarrow> ept_inv al root s n"
  by (auto simp: ept_inv_def elim: alloc_room_mono)

interpretation ept: page_map "ept_inv al root" "\<lambda>s g e. ept_map al s root g (Some e)"
  "\<lambda>s. ept_page s root" in_range page_no for al root
  by unfold_locales (simp_all add: ept_map_page ept_inv_less)

section \<open>A concrete allocator\<close>

text \<open>
  An allocator over a pool of eight pages, used to show that the hypotheses on \<open>aligned_alloc\<close>
  can be met.
\<close>

definition page_pool :: "u64 list" where
  "page_pool = [0x1000, 0x2000, 0x3000, 0x4000, 0x5000, 0x6000, 0x7000, 0x8000]"

definition pool_alloc :: allocator where
  "pool_alloc h n = (case filter (\<lambda>p. h p = None) page_pool of [] \<Rightarrow> 0 | p # _ \<Rightarrow> p)"

lemma page_pool_facts: "p \<in> set page_pool \<Longrightarrow> p \<noteq> 0 \<and> p AND 0xFFF = 0 \<and> p < 2 ^ 40"
  by (auto simp: page_pool_def)

lemma pool_alloc_cases:
  "pool_alloc h n = 0 \<and> set page_pool \<subseteq> dom h \<or>
   pool_alloc h n \<in> set page_pool \<and> h (pool_alloc h n) = None"
proof (cases "filter (\<lambda>p. h p = None) page_pool")
  case Nil
  then show ?thesis by (auto simp: pool_alloc_def filter_empty_conv)
next
  case (Cons p ps)
  then have "p \<in> set (filter (\<lambda>p. h p = None) page_pool)" by simp
  then have "p \<in> set page_pool \<and> h p = None" by (simp only: set_filter mem_Collect_eq)
  then show ?thesis using Cons by (simp add: pool_alloc_def)
qed

lemma pool_alloc_fresh: "alloc_fresh pool_alloc"
  unfolding alloc_fresh_def using pool_alloc_cases page_pool_facts by blast

lemma pool_alloc_room: "alloc_room pool_alloc 7"
  unfolding alloc_room_def
proof (intro allI impI notI)
  fix h :: ept_heap
  assume fin: "finite (dom h)" and card: "card (dom h) \<le> 7" and "pool_alloc h PAGE_SIZE = 0"
  then have "set page_pool \<subseteq> dom h"
    using pool_alloc_cases [of h PAGE_SIZE] page_pool_facts [of "pool_alloc h PAGE_SIZE"] by metis
  from card_mono [OF fin this] card have "card (set page_pool) \<le> 7" by linarith
  moreover have "distinct page_pool" "length page_pool = 8" by code_simp+
  ultimately show False by (simp add: distinct_card)
qed

definition empty_ept :: ept_state where
  "empty_ept = \<lparr>blocks = Map.empty, g_ept_initialized = True, invepts = []\<rparr>"

text \<open>A state with an empty root at \<open>0x1000\<close>.\<close>

definition root_ept :: ept_state where
  "root_ept = empty_ept\<lparr>blocks := [0x1000 \<mapsto> replicate 256 zero_entry]\<rparr>"

lemma root_ept_wf: "ept_wf (blocks root_ept) 0x1000"
  by (rule fresh_root_wf) (simp_all add: root_ept_def)

lemma root_ept_inv: "ept_inv pool_alloc 0x1000 root_ept 2"
proof -
  have "card (dom (blocks root_ept)) = 1" "finite (dom (blocks root_ept))" by (simp_all add: root_ept_def)
  then show ?thesis
    using root_ept_wf pool_alloc_fresh pool_alloc_room by (simp add: ept_inv_def)
qed

section \<open>Properties\<close>

text \<open>The members of the page-table entries do not fit in 64 bits: both entry layouts take 16 bytes,
  so that a 4096-byte table has room for 256 entries only, and \<open>physical_address\<close> starts at bit
  13 where the comment and the hardware format have bit 12. The EPT pointer takes 16 bytes too.
\<close>

theorem ept_entry_layout:
  "sizeof_fields ept_pte_fields = 16 \<and> sizeof_fields ept_pml4e_fields = 16 \<and> sizeof_fields eptp_fields = 16 \<and>
   map_of (fst (bitfield_layout 0 ept_pte_fields)) ''physical_address'' = Some 13 \<and>
   map_of (fst (bitfield_layout 0 ept_pte_fields)) ''available2'' = Some 64"
  by code_simp

text \<open>C9. \<open>ept_map\<close> implements an update of the abstract page map: for an address with all four indices below 256 and an entry marked
  present, from a well-formed tree with room for
  the tables it may need, at addresses below \<open>2 ^ 40\<close>, it returns \<open>NEXUSVM_OK\<close> and a well-formed tree in which a lookup of
  an address of the mapped page yields the new entry and a lookup of any other page yields what
  it did before.
\<close>

theorem ept_map_refines_update:
  assumes "ept_inv al root s (Suc n)" "in_range gpa" "present pte"
  shows "\<exists>s'. ept_map al s root gpa (Some pte) = Some (NEXUSVM_OK, s') \<and> ept_inv al root s' n \<and>
    (\<forall>g x. in_range g \<longrightarrow> ept_lookup s' root g (Some x) =
       (if page_no g = page_no gpa then Some (NEXUSVM_OK, Some pte) else ept_lookup s root g (Some x)))"
proof -
  obtain s' where s': "ept_map al s root gpa (Some pte) = Some (NEXUSVM_OK, s')" "ept_inv al root s' n"
    "\<forall>g. in_range g \<longrightarrow> ept_page s' root g = (if page_no g = page_no gpa then Some pte else ept_page s root g)"
    using ept.map1_ok [OF assms] by blast
  have "ept_wf (blocks s) root" "ept_wf (blocks s') root"
    using assms(1) s'(2) by (simp_all add: ept_inv_def)
  with s' show ?thesis by (intro exI [of _ s']) (simp add: ept_lookup_page)
qed

theorem ept_map_refines_update_witness:
  "ept_inv pool_alloc 0x1000 root_ept 2 \<and> in_range 0x3000 \<and>
   (\<exists>s'. ept_map pool_alloc root_ept 0x1000 0x3000 (Some (zero_entry\<lparr>present := True\<rparr>)) = Some (NEXUSVM_OK, s') \<and>
      ept_lookup s' 0x1000 0x3008 (Some zero_entry) = Some (NEXUSVM_OK, Some (zero_entry\<lparr>present := True\<rparr>)))"
proof -
  have r: "in_range 0x3000" "in_range 0x3008" "page_no 0x3008 = page_no 0x3000" by code_simp+
  have "ept_inv pool_alloc 0x1000 root_ept (Suc 1)" using root_ept_inv by (simp add: numeral_2_eq_2)
  from ept_map_refines_update [OF this r(1), of "zero_entry\<lparr>present := True\<rparr>"] show ?thesis
    using r root_ept_inv by force
qed

text \<open>\<open>ept_map\<close> ignores the failure of its allocation steps: when the first table of a path is
  missing and \<open>aligned_alloc\<close> returns \<open>NULL\<close>, it goes on with the pointer \<open>0\<close> of the empty
  entry and the call is undefined, where the code documents an error return.
\<close>

theorem ept_map_alloc_failure:
  assumes "ept_wf (blocks s) root" "in_range gpa" "al (blocks s) PAGE_SIZE = 0"
    and "get_entry (blocks s) root (EPT_PML4_INDEX gpa) = Some e" "\<not> present e"
  shows "ept_map al s root gpa (Some pte) = None"
proof -
  have nz: "root \<noteq> 0" "blocks s 0 = None" using assms(1) by (simp_all add: ept_wf_def)
  have "unat (EPT_PML4_INDEX gpa) < 256" using assms(2) by (simp add: in_range_def path_of_def)
  then have "e = zero_entry" using ept_wf_upper [OF assms(1), of "[]" root _ e] assms(4,5) by force
  moreover have "ept_alloc_pdpt al s root (EPT_PML4_INDEX gpa) = Some (NEXUSVM_ERR_NO_MEMORY, s)"
    using assms(3) by (simp add: ept_alloc_pdpt_def ept_alloc_pages_def)
  moreover have "get_entry (blocks s) 0 i = None" for i using nz by (simp add: get_entry_def)
  ultimately show ?thesis using nz assms(4,5) by (simp add: ept_map_def Let_def)
qed

theorem ept_map_alloc_failure_witness:
  "ept_map (\<lambda>h n. 0) root_ept 0x1000 0x3000 (Some (zero_entry\<lparr>present := True\<rparr>)) = None"
proof (rule ept_map_alloc_failure [OF root_ept_wf])
  show "in_range 0x3000" by code_simp
  show "get_entry (blocks root_ept) 0x1000 (EPT_PML4_INDEX 0x3000) = Some zero_entry" by code_simp
qed simp_all











text \<open>\<open>ept_unmap\<close> does not unmap: it reports success for a mapped page, and the page is still
  mapped to the same entry afterwards; an unmapped page is reported as not found.
\<close>

theorem ept_unmap_keeps_mapping:
  assumes "ept_wf (blocks s) root" "in_range gpa"
  shows "\<exists>r s'. ept_unmap s root gpa = Some (r, s') \<and> blocks s' = blocks s \<and>
    (r = NEXUSVM_OK \<longleftrightarrow> ept_page s root gpa \<noteq> None) \<and>
    (\<forall>g x. ept_lookup s' root g (Some x) = ept_lookup s root g (Some x))"
proof -
  have "root \<noteq> 0" using assms(1) by (simp add: ept_wf_def)
  moreover have b: "blocks (ept_invalidate s root gpa) = blocks s" by (simp add: ept_invalidate_def)
  moreover have "ept_lookup (ept_invalidate s root gpa) root g (Some x) = ept_lookup s root g (Some x)" for g x
    unfolding ept_lookup_def b ..
  ultimately show ?thesis
    by (cases "ept_page s root gpa") (simp_all add: ept_unmap_def ept_lookup_page [OF assms])
qed

theorem ept_unmap_keeps_mapping_witness:
  "in_range 0x3000 \<and> (\<exists>s'. ept_unmap root_ept 0x1000 0x3000 = Some (NEXUSVM_ERR_NOT_FOUND, s'))"
proof -
  have r: "in_range 0x3000" by code_simp
  have "ept_unmap root_ept 0x1000 0x3000 = Some (NEXUSVM_ERR_NOT_FOUND, root_ept)" by code_simp
  with r ept_unmap_keeps_mapping [OF root_ept_wf r] show ?thesis by auto
qed

lemma big_host_frame:
  assumes "host < (2 ^ 49 :: u64)"
  shows "ucast (push_bit 12 (ucast (drop_bit 21 host AND 0xFFFFFFFFFF) :: 40 word)) = (push_bit 12 (drop_bit 21 host) :: u64)"
proof (rule bit_word_eqI)
  fix n :: nat
  assume "n < LENGTH(64)"
  have m: "(0xFFFFFFFFFF :: u64) = mask 40" by (simp add: mask_eq_exp_minus_1)
  have "unat host < unat (2 ^ 49 :: u64)" using assms by (simp only: word_less_nat_alt)
  then have "take_bit 49 (unat host) = unat host" by (simp add: take_bit_nat_eq_self)
  then have hi: "bit (unat host) k \<Longrightarrow> k < 49" for k by (metis bit_take_bit_iff)
  then have hi: "bit host k \<Longrightarrow> k < 49" for k
    using bit_imp_le_length [of host k] by (simp add: bit_unsigned_iff)
  show "bit (ucast (push_bit 12 (ucast (drop_bit 21 host AND 0xFFFFFFFFFF) :: 40 word)) :: u64) n \<longleftrightarrow>
      bit (push_bit 12 (drop_bit 21 host)) n"
    unfolding m
    by (auto simp: bit_push_bit_iff bit_ucast_iff bit_and_iff bit_mask_iff bit_drop_bit_eq dest: hi)
qed

text \<open>A 2 MiB mapping is read back wrongly: \<open>ept_map_2mb\<close> stores the host address shifted by 21
  and \<open>ept_translate\<close> shifts the stored number by 12 and adds only the offset in a 4 KiB page, so
  that the whole range translates into one 4 KiB page of another frame.
\<close>

theorem ept_map_2mb_translate:
  assumes "ept_wf (blocks s) root" "in_range gpa"
    and "IS_ALIGNED gpa HUGE_PAGE_SIZE" "IS_ALIGNED host HUGE_PAGE_SIZE" "host < 2 ^ 49"
    and "table_at (blocks s) root [EPT_PML4_INDEX gpa, EPT_PDP_INDEX gpa] = Some pd"
    and "path_of g = path_of gpa"
  shows "\<exists>s'. ept_map_2mb s root gpa host = Some (NEXUSVM_OK, s') \<and>
    ept_translate s' root g (Some x) =
      Some (NEXUSVM_OK, Some (push_bit 12 (drop_bit 21 host) OR (g AND 0xFFF)))"
proof -
  let ?h = "blocks s" and ?a = "EPT_PML4_INDEX gpa" and ?b = "EPT_PDP_INDEX gpa" and ?c = "EPT_PD_INDEX gpa"
  have idx: "unat ?a < 256" "unat ?b < 256" "unat ?c < 256"
    using assms(2) by (simp_all add: in_range_def path_of_def)
  have nz: "root \<noteq> 0" using assms(1) by (simp add: ept_wf_def)
  from assms(6) obtain e1 e2 where e: "get_entry ?h root ?a = Some e1" "present e1"
      "get_entry ?h (next_table e1) ?b = Some e2" "present e2" "next_table e2 = pd"
    by (auto split: option.splits if_splits)
  obtain es where es: "?h pd = Some es" "length es = 256"
    using ept_wf_block [OF assms(1) _ _ assms(6)] idx by auto
  have ne: "root \<noteq> pd" "next_table e1 \<noteq> pd"
    using ept_wf_inj [OF assms(1) _ _ _ _ assms(6), of "[]"] ept_wf_inj [OF assms(1) _ _ _ _ assms(6), of "[?a]"]
      e idx by auto
  define f where "f = big_entry (ucast (drop_bit 21 host AND 0xFFFFFFFFFF)) (es ! unat ?c)"
  let ?s = "s\<lparr>blocks := ?h(pd \<mapsto> es[unat ?c := f])\<rparr>"
  have m: "ept_map_2mb s root gpa host = Some (NEXUSVM_OK, ?s)"
    using assms(3,4) e es idx by (simp add: ept_map_2mb_def get_entry_def [of ?h pd] set_entry_def f_def Let_def)
  have f: "present f" "big_pagesize f" "next_table f = push_bit 12 (drop_bit 21 host)"
    using big_host_frame [OF assms(5)] by (simp_all add: f_def big_entry_def next_table_def)
  have "ept_lookup ?s root g (Some zero_entry) = Some (NEXUSVM_OK, Some f)"
    using nz e ne es idx f assms(7)
    by (simp add: ept_lookup_def path_of_def get_entry_other get_entry_update)
  then show ?thesis using m f nz by (simp add: ept_translate_def)
qed

text \<open>\<open>root_ept\<close> after one 4 KiB page was mapped.\<close>

definition mapped_ept :: ept_state where
  "mapped_ept = snd (the (ept_map pool_alloc root_ept 0x1000 0x3000 (Some (zero_entry\<lparr>present := True\<rparr>))))"

lemma mapped_ept_facts:
  "ept_inv pool_alloc 0x1000 mapped_ept 1 \<and>
   ept_page mapped_ept 0x1000 0x3000 = Some (zero_entry\<lparr>present := True\<rparr>)"
proof -
  have r: "in_range 0x3000" by code_simp
  have "ept_inv pool_alloc 0x1000 root_ept (Suc 1)" using root_ept_inv by (simp add: numeral_2_eq_2)
  from ept_map_page [OF this r, of "zero_entry\<lparr>present := True\<rparr>"] r show ?thesis
    by (auto simp: mapped_ept_def)
qed

lemma page_directory_exists:
  "ept_page s root gpa = Some e \<Longrightarrow>
   \<exists>pd. table_at (blocks s) root [EPT_PML4_INDEX gpa, EPT_PDP_INDEX gpa] = Some pd"
  by (auto simp: ept_page_def leaf_def path_of_def split: option.splits if_splits)

theorem ept_map_2mb_translate_witness:
  "\<exists>s'. ept_map_2mb mapped_ept 0x1000 0 0x40000000 = Some (NEXUSVM_OK, s') \<and>
     ept_translate s' 0x1000 0x5123 (Some 0) = Some (NEXUSVM_OK, Some 0x200123)"
proof -
  have w: "ept_wf (blocks mapped_ept) 0x1000" using mapped_ept_facts by (simp add: ept_inv_def)
  have r: "in_range 0" "IS_ALIGNED 0 HUGE_PAGE_SIZE" "IS_ALIGNED 0x40000000 HUGE_PAGE_SIZE"
    "(0x40000000 :: u64) < 2 ^ 49" by code_simp+
  have p: "path_of 0x5123 = path_of 0" by code_simp
  have "EPT_PML4_INDEX 0x3000 = EPT_PML4_INDEX 0" "EPT_PDP_INDEX 0x3000 = EPT_PDP_INDEX 0" by code_simp+
  then obtain pd where "table_at (blocks mapped_ept) 0x1000 [EPT_PML4_INDEX 0, EPT_PDP_INDEX 0] = Some pd"
    using mapped_ept_facts page_directory_exists [of mapped_ept "0x1000" "0x3000"] by fastforce
  note ept_map_2mb_translate [OF w r this p]
  moreover have "push_bit 12 (drop_bit 21 0x40000000) OR (0x5123 AND 0xFFF) = (0x200123 :: u64)" by code_simp
  ultimately show ?thesis by simp
qed

end
