(* ===== verification/Vm_Memory.thy ===== *)
theory Vm_Memory
  imports Nexus_Types Ept_Correct
begin

text \<open>
  The memory management of a virtual machine (\<^verbatim>\<open>src/hypervisor/hypervisor.c\<close>, "Memory Management"):
  allocation of guest memory, mapping and unmapping of ranges, translation of guest addresses. The
  loop over the pages of a range is a client of the interface \<open>page_map\<close> of the page tables.
\<close>

section \<open>Ranges of pages\<close>

text \<open>The entry built in the loop of \<open>vm_ept_map\<close>: \<open>memset\<close> to zero and the assigned members.\<close>

definition page_entry :: "bool \<Rightarrow> bool \<Rightarrow> phys_addr \<Rightarrow> ept_entry" where
  "page_entry wr ex hpa = zero_entry\<lparr>present := True, pte_write := wr, executable := \<not> ex,
     memory_type := EPT_MEMORY_TYPE_WRITE_BACK, physical_address := ucast (drop_bit 12 hpa AND 0xFFFFFFFFFF)\<rparr>"

definition page_addr :: "u64 \<Rightarrow> u64 \<Rightarrow> u64" where
  "page_addr start i = start + push_bit PAGE_SHIFT i"

text \<open>The loop; the function that maps one page is an argument.\<close>

function map_pages ::
  "('s \<Rightarrow> guest_addr \<Rightarrow> ept_entry \<Rightarrow> (nexusvm_result \<times> 's) run) \<Rightarrow> bool \<Rightarrow> bool \<Rightarrow> guest_addr \<Rightarrow> phys_addr
    \<Rightarrow> u64 \<Rightarrow> u64 \<Rightarrow> 's \<Rightarrow> (nexusvm_result \<times> 's) run"
where
  "map_pages map1 wr ex gpa hpa i pages s =
     (if i < pages then do {
        (result, s) \<leftarrow> map1 s (page_addr gpa i) (page_entry wr ex (page_addr hpa i));
        if result \<noteq> NEXUSVM_OK then Some (result, s)
        else map_pages map1 wr ex gpa hpa (i + 1) pages s
      } else Some (NEXUSVM_OK, s))"
  by pat_completeness auto
termination
  by (relation "measure (\<lambda>(f, wr, ex, gpa, hpa, i, pages, s). unat pages - unat i)") (auto simp: loop_measure)

declare map_pages.simps [simp del]

definition range_pages :: "u64 \<Rightarrow> u64" where
  "range_pages sz = drop_bit PAGE_SHIFT (sz + PAGE_SIZE - 1)"

definition vm_ept_map ::
  "allocator \<Rightarrow> world \<Rightarrow> ref option \<Rightarrow> guest_addr \<Rightarrow> phys_addr \<Rightarrow> u64 \<Rightarrow> bool \<Rightarrow> bool \<Rightarrow> bool \<Rightarrow> (nexusvm_result \<times> world) run"
where
  "vm_ept_map al w p gpa hpa sz read wr execute =
     (case p of None \<Rightarrow> Some (NEXUSVM_ERR_INVALID_PARAM, w)
      | Some r \<Rightarrow> do {
          m \<leftarrow> vm_objs w r;
          if ept_root m = 0 then Some (NEXUSVM_ERR_INVALID_PARAM, w)
          else do {
            (result, s) \<leftarrow> map_pages (\<lambda>s g e. ept_map al s (ept_root m) g (Some e)) wr execute
                             gpa hpa 0 (range_pages sz) (ept w);
            Some (result, w\<lparr>ept := s\<rparr>)
          }
        })"

text \<open>The loop of \<open>vm_ept_unmap\<close> ignores the result of \<open>ept_unmap\<close>.\<close>

function unmap_pages :: "u64 \<Rightarrow> guest_addr \<Rightarrow> u64 \<Rightarrow> u64 \<Rightarrow> ept_state \<Rightarrow> ept_state run" where
  "unmap_pages root gpa i pages s =
     (if i < pages then do {
        (_, s) \<leftarrow> ept_unmap s root (page_addr gpa i);
        unmap_pages root gpa (i + 1) pages s
      } else Some s)"
  by pat_completeness auto
termination
  by (relation "measure (\<lambda>(root, gpa, i, pages, s). unat pages - unat i)") (auto simp: loop_measure)

declare unmap_pages.simps [simp del]

definition vm_ept_unmap :: "world \<Rightarrow> ref option \<Rightarrow> guest_addr \<Rightarrow> u64 \<Rightarrow> (nexusvm_result \<times> world) run" where
  "vm_ept_unmap w p gpa sz =
     (case p of None \<Rightarrow> Some (NEXUSVM_ERR_INVALID_PARAM, w)
      | Some r \<Rightarrow> do {
          m \<leftarrow> vm_objs w r;
          if ept_root m = 0 then Some (NEXUSVM_ERR_INVALID_PARAM, w)
          else do {
            s \<leftarrow> unmap_pages (ept_root m) gpa 0 (range_pages sz) (ept w);
            Some (NEXUSVM_OK, w\<lparr>ept := s\<rparr>)
          }
        })"

text \<open>
  \<open>INVALID_PHYS_ADDR\<close> is defined in no file of the repository; its value \<open>inv_pa\<close> is a parameter.
\<close>

definition vm_gpa_to_hpa :: "phys_addr \<Rightarrow> world \<Rightarrow> ref option \<Rightarrow> guest_addr \<Rightarrow> phys_addr run" where
  "vm_gpa_to_hpa inv_pa w p gpa =
     (case p of None \<Rightarrow> Some inv_pa
      | Some r \<Rightarrow> do {
          m \<leftarrow> vm_objs w r;
          if ept_root m = 0 then Some inv_pa
          else do {
            (result, pte) \<leftarrow> ept_lookup (ept w) (ept_root m) gpa (Some zero_entry);
            if result \<noteq> NEXUSVM_OK then Some inv_pa
            else do {
              pte \<leftarrow> pte;
              if \<not> present pte then Some inv_pa
              else Some (next_table pte OR (gpa AND (PAGE_SIZE - 1)))
            }
          }
        })"

definition vm_get_eptp :: "world \<Rightarrow> ref option \<Rightarrow> eptp option run" where
  "vm_get_eptp w p = (case p of None \<Rightarrow> Some None | Some r \<Rightarrow> map_option ept_pointer (vm_objs w r))"

text \<open>
  \<open>vm_alloc_memory\<close>: the element of \<open>memory_regions\<close> at index \<open>memory_region_count\<close> is filled without a
  check against the size of the array; past its end, or without an array, the write is undefined.
\<close>

definition add_region :: "nexusvm \<Rightarrow> memory_region \<Rightarrow> nexusvm run" where
  "add_region m reg = do {
     regs \<leftarrow> memory_regions m;
     let i = unat (memory_region_count m);
     if i < length regs
     then Some (m\<lparr>memory_regions := Some (regs[i := reg\<lparr>region_name := region_name (regs ! i)\<rparr>]),
                 memory_region_count := memory_region_count m + 1\<rparr>)
     else None
   }"

definition vm_alloc_memory ::
  "allocator \<Rightarrow> world \<Rightarrow> ref option \<Rightarrow> guest_addr \<Rightarrow> u64 \<Rightarrow> memory_region_type \<Rightarrow> (nexusvm_result \<times> world) run"
where
  "vm_alloc_memory al w p gpa sz ty =
     (case p of None \<Rightarrow> Some (NEXUSVM_ERR_INVALID_PARAM, w)
      | Some r \<Rightarrow>
          if sz = 0 then Some (NEXUSVM_ERR_INVALID_PARAM, w)
          else (case ept_alloc_pages al (ept w) (sz div PAGE_SIZE + 1) of (host_mem, s) \<Rightarrow>
            if host_mem = 0 then Some (NEXUSVM_ERR_NO_MEMORY, w\<lparr>ept := s\<rparr>)
            else do {
              m \<leftarrow> vm_objs w r;
              m' \<leftarrow> add_region m \<lparr>guest_phys = gpa, host_phys = host_mem, region_size = sz, region_type = ty,
                     flags = MEM_REGION_READABLE OR MEM_REGION_WRITABLE, region_name = None\<rparr>;
              let w = w\<lparr>ept := s, vm_objs := (vm_objs w)(r \<mapsto> m')\<rparr>;
              (result, w) \<leftarrow> vm_ept_map al w (Some r) gpa host_mem sz True True False;
              if result \<noteq> NEXUSVM_OK then do {
                s \<leftarrow> ept_free_pages (ept w) host_mem;
                Some (result, w\<lparr>ept := s\<rparr>)
              } else Some (NEXUSVM_OK, w)
            }))"

section \<open>A range of mappings over the page-table interface\<close>

context page_map
begin

lemma map_pages_ok:
  assumes "inv s (unat pages - unat i + n)" "i \<le> pages"
    and "\<forall>j. i \<le> j \<longrightarrow> j < pages \<longrightarrow> ok (page_addr gpa j)"
    and "\<forall>j k. i \<le> j \<longrightarrow> j < k \<longrightarrow> k < pages \<longrightarrow> key (page_addr gpa j) \<noteq> key (page_addr gpa k)"
  shows "\<exists>s'. map_pages map1 wr ex gpa hpa i pages s = Some (NEXUSVM_OK, s') \<and> inv s' n \<and>
    (\<forall>g j. ok g \<longrightarrow> i \<le> j \<longrightarrow> j < pages \<longrightarrow> key g = key (page_addr gpa j) \<longrightarrow>
       page s' g = Some (page_entry wr ex (page_addr hpa j))) \<and>
    (\<forall>g. ok g \<longrightarrow> (\<forall>j. i \<le> j \<longrightarrow> j < pages \<longrightarrow> key g \<noteq> key (page_addr gpa j)) \<longrightarrow> page s' g = page s g)"
  using assms
proof (induction "unat pages - unat i" arbitrary: i s)
  case 0
  then have "\<not> i < pages" by (simp add: word_less_nat_alt)
  moreover have "unat pages - unat i = 0" using "0.hyps" by simp
  ultimately show ?case using "0.prems"(1) by (subst map_pages.simps) auto
next
  case (Suc d)
  then have i: "i < pages" by (simp add: word_less_nat_alt)
  then have Suc_i: "unat (i + 1) = Suc (unat i)" by (rule unat_Suc_below)
  have left: "unat pages - unat i = Suc (unat pages - unat (i + 1))" "d = unat pages - unat (i + 1)"
    using Suc.hyps(2) Suc_i by linarith+
  have "inv s (Suc (unat pages - unat (i + 1) + n))" using Suc.prems(1) unfolding left(1) by simp
  moreover have "ok (page_addr gpa i)" using Suc.prems(3) i by simp
  ultimately obtain s1 where s1: "map1 s (page_addr gpa i) (page_entry wr ex (page_addr hpa i)) = Some (NEXUSVM_OK, s1)"
      "inv s1 (unat pages - unat (i + 1) + n)"
      "\<forall>g. ok g \<longrightarrow> page s1 g = (if key g = key (page_addr gpa i) then Some (page_entry wr ex (page_addr hpa i)) else page s g)"
    using map1_ok [of s _ "page_addr gpa i" "page_entry wr ex (page_addr hpa i)"] by (auto simp: page_entry_def)
  have next_j: "i + 1 \<le> j \<longleftrightarrow> i < j" if "j < pages" for j
    using Suc_i by (simp add: word_le_nat_alt word_less_nat_alt Suc_le_eq)
  have later: "i \<le> j" if "i + 1 \<le> j" "j < pages" for j
    using that next_j [of j] by simp
  have rest: "\<forall>j. i + 1 \<le> j \<longrightarrow> j < pages \<longrightarrow> ok (page_addr gpa j)"
      "\<forall>j k. i + 1 \<le> j \<longrightarrow> j < k \<longrightarrow> k < pages \<longrightarrow> key (page_addr gpa j) \<noteq> key (page_addr gpa k)"
    using Suc.prems(3,4) later order.strict_trans by blast+
  obtain s' where s': "map_pages map1 wr ex gpa hpa (i + 1) pages s1 = Some (NEXUSVM_OK, s')" "inv s' n"
      "\<forall>g j. ok g \<longrightarrow> i + 1 \<le> j \<longrightarrow> j < pages \<longrightarrow> key g = key (page_addr gpa j) \<longrightarrow>
         page s' g = Some (page_entry wr ex (page_addr hpa j))"
      "\<forall>g. ok g \<longrightarrow> (\<forall>j. i + 1 \<le> j \<longrightarrow> j < pages \<longrightarrow> key g \<noteq> key (page_addr gpa j)) \<longrightarrow> page s' g = page s1 g"
    using Suc.hyps(1) [OF left(2) s1(2) inc_le [OF i] rest] by blast
  have "map_pages map1 wr ex gpa hpa i pages s = Some (NEXUSVM_OK, s')"
    using i s1(1) s'(1) by (subst map_pages.simps) simp
  moreover have "page s' g = Some (page_entry wr ex (page_addr hpa j))"
    if "ok g" "i \<le> j" "j < pages" "key g = key (page_addr gpa j)" for g j
  proof (cases "i = j")
    case True
    have "key g \<noteq> key (page_addr gpa k)" if "i + 1 \<le> k" "k < pages" for k
      using Suc.prems(4) next_j [OF that(2)] that \<open>key g = key (page_addr gpa j)\<close> True by (metis order_refl)
    then have "page s' g = page s1 g" using s'(4) that(1) by blast
    then show ?thesis using s1(3) that True by simp
  next
    case False
    then show ?thesis using s'(3) that next_j by (metis order_le_less)
  qed
  moreover have "page s' g = page s g"
    if "ok g" "\<forall>j. i \<le> j \<longrightarrow> j < pages \<longrightarrow> key g \<noteq> key (page_addr gpa j)" for g
    using that s'(4) s1(3) next_j i by (metis order_le_less)
  ultimately show ?case using s'(2) by blast
qed

end

section \<open>Addresses as numbers\<close>









lemma in_range_same_page: "page_no g = page_no g' \<Longrightarrow> in_range g \<longleftrightarrow> in_range g'"
  by (simp add: page_no_eq in_range_def)



section \<open>A data block beside the tables\<close>




section \<open>Mapping and translation of a range\<close>

lemma vm_gpa_to_hpa_page:
  assumes "vm_objs w r = Some m" "ept_wf (blocks (ept w)) (ept_root m)" "in_range g"
  shows "vm_gpa_to_hpa inv_pa w (Some r) g =
    Some (case ept_page (ept w) (ept_root m) g of None \<Rightarrow> inv_pa | Some e \<Rightarrow> next_table e OR (g AND 0xFFF))"
proof -
  have "ept_root m \<noteq> 0" using assms(2) by (simp add: ept_wf_def)
  moreover have "present e" if "ept_page (ept w) (ept_root m) g = Some e" for e
    using that by (auto simp: ept_page_def leaf_def split: option.splits if_splits)
  ultimately show ?thesis using assms
    by (simp add: vm_gpa_to_hpa_def ept_lookup_page split: option.split)
qed





section \<open>Unmapping\<close>

lemma ept_unmap_blocks:
  assumes "ept_wf (blocks s) root" "in_range g"
  shows "\<exists>res s'. ept_unmap s root g = Some (res, s') \<and> blocks s' = blocks s"
  using assms by (auto simp: ept_unmap_def ept_lookup_page ept_invalidate_def split: option.split)

lemma unmap_pages_blocks:
  assumes "ept_wf (blocks s) root" "\<forall>j. i \<le> j \<longrightarrow> j < pages \<longrightarrow> in_range (page_addr gpa j)"
  shows "\<exists>s'. unmap_pages root gpa i pages s = Some s' \<and> blocks s' = blocks s"
  using assms
proof (induction root gpa i pages s rule: unmap_pages.induct)
  case (1 root gpa i pages s)
  show ?case
  proof (cases "i < pages")
    case True
    then obtain res s1 where s1: "ept_unmap s root (page_addr gpa i) = Some (res, s1)" "blocks s1 = blocks s"
      using ept_unmap_blocks [OF "1.prems"(1)] "1.prems"(2) by blast
    have "i \<le> j" if "i + 1 \<le> j" for j
      using that unat_Suc_below [OF True] by (simp add: word_le_nat_alt)
    then have "\<forall>j. i + 1 \<le> j \<longrightarrow> j < pages \<longrightarrow> in_range (page_addr gpa j)" using "1.prems"(2) by blast
    with "1.IH" [OF True s1(1) refl] s1 "1.prems"(1)
    obtain s' where "unmap_pages root gpa (i + 1) pages s1 = Some s'" "blocks s' = blocks s1" by auto
    then show ?thesis using True s1 by (subst unmap_pages.simps) simp
  qed (subst unmap_pages.simps, simp)
qed

lemma vm_gpa_to_hpa_blocks:
  "blocks s = blocks (ept w) \<Longrightarrow> vm_gpa_to_hpa inv_pa (w\<lparr>ept := s\<rparr>) p g = vm_gpa_to_hpa inv_pa w p g"
proof -
  assume "blocks s = blocks (ept w)"
  then have "ept_lookup s = ept_lookup (ept w)" by (intro ext) (simp only: ept_lookup_def)
  then show ?thesis by (simp add: vm_gpa_to_hpa_def cong: if_cong split: option.split)
qed

section \<open>Allocation\<close>




section \<open>A concrete machine\<close>

lemma in_range_low: "unat g < 2 ^ 20 \<Longrightarrow> in_range g"
proof -
  assume "unat g < 2 ^ 20"
  then have "\<not> bit (unat g) n" if "20 \<le> n" for n
    using that by (metis bit_take_bit_iff not_le take_bit_nat_eq_self)
  then have "\<not> bit g n" if "20 \<le> n" for n
    using that by (auto simp: bit_unsigned_iff bit_imp_le_length)
  then show ?thesis by (simp add: in_range_iff)
qed

text \<open>One machine, named 1, with the empty tree of \<^const>\<open>root_ept\<close> and room for one memory region.\<close>

definition mem_vm :: nexusvm where
  "mem_vm = zero_vm\<lparr>ept_root := 0x1000, memory_regions := Some [zero_region]\<rparr>"

definition mem_world :: "ept_state \<Rightarrow> world" where
  "mem_world s = boot_world\<lparr>g_hypervisor := Some zero_hypervisor, g_initialized := True, vm_objs := [1 \<mapsto> mem_vm],
     ept := s, next_ref := 2\<rparr>"

lemma mem_world_facts [simp]:
  "vm_objs (mem_world s) 1 = Some mem_vm" "ept (mem_world s) = s" "ept_root mem_vm = 0x1000"
  "memory_regions mem_vm = Some [zero_region]" "memory_region_count mem_vm = 0"
  by (simp_all add: mem_world_def mem_vm_def zero_vm_def)


section \<open>Properties\<close>





text \<open>\<open>vm_alloc_memory\<close> does not check the capacity of the array of regions: when all its slots are in use,
  or the machine was configured without regions, a successful host allocation is followed by a write outside the array.
\<close>

theorem vm_alloc_memory_overflow:
  assumes "vm_objs w r = Some m" "sz \<noteq> 0" "al (blocks (ept w)) ((sz div PAGE_SIZE + 1) * PAGE_SIZE) \<noteq> 0"
    and "case memory_regions m of None \<Rightarrow> True | Some regs \<Rightarrow> length regs \<le> unat (memory_region_count m)"
  shows "vm_alloc_memory al w (Some r) gpa sz ty = None"
proof -
  have "add_region m reg = None" for reg
    using assms(4) by (auto simp: add_region_def Let_def split: option.splits)
  then show ?thesis using assms(1-3) unfolding vm_alloc_memory_def ept_alloc_pages_def option.case
    by (simp add: Let_def)
qed

theorem vm_alloc_memory_overflow_witness:
  "vm_alloc_memory pool_alloc ((mem_world root_ept)\<lparr>vm_objs := [1 \<mapsto> zero_vm\<lparr>ept_root := 0x1000\<rparr>]\<rparr>) (Some 1) 0x3000 0x800 MEM_REGION_RAM = None"
proof (rule vm_alloc_memory_overflow)
  show "case memory_regions (zero_vm\<lparr>ept_root := 0x1000\<rparr>) of None \<Rightarrow> True
    | Some regs \<Rightarrow> length regs \<le> unat (memory_region_count (zero_vm\<lparr>ept_root := 0x1000\<rparr>))"
    by (simp add: zero_vm_def)
qed (simp_all add: pool_alloc_def page_pool_def root_ept_def)

text \<open>\<open>vm_ept_unmap\<close> returns \<open>NEXUSVM_OK\<close> and removes nothing: every guest address translates as before.
\<close>

theorem vm_ept_unmap_keeps_translation:
  assumes m: "vm_objs w r = Some m" and wf: "ept_wf (blocks (ept w)) (ept_root m)"
    and rng: "\<forall>j < range_pages sz. in_range (page_addr gpa j)"
  shows "\<exists>w'. vm_ept_unmap w (Some r) gpa sz = Some (NEXUSVM_OK, w') \<and>
    (\<forall>p g. vm_gpa_to_hpa inv_pa w' p g = vm_gpa_to_hpa inv_pa w p g)"
proof -
  have "ept_root m \<noteq> 0" using wf by (simp add: ept_wf_def)
  moreover obtain s where "unmap_pages (ept_root m) gpa 0 (range_pages sz) (ept w) = Some s" "blocks s = blocks (ept w)"
    using unmap_pages_blocks [OF wf, of 0 "range_pages sz" gpa] rng by blast
  ultimately show ?thesis using m by (intro exI [of _ "w\<lparr>ept := s\<rparr>"]) (simp add: vm_ept_unmap_def vm_gpa_to_hpa_blocks)
qed

theorem vm_ept_unmap_keeps_translation_witness:
  "\<exists>w'. vm_ept_unmap (mem_world mapped_ept) (Some 1) 0x3000 0x1000 = Some (NEXUSVM_OK, w') \<and>
    vm_gpa_to_hpa 0xFF w' (Some 1) 0x3004 = Some 4"
proof -
  have wf: "ept_wf (blocks (ept (mem_world mapped_ept))) (ept_root mem_vm)" using mapped_ept_facts by (simp add: ept_inv_def)
  have one: "range_pages 0x1000 = 1" by code_simp
  have j: "\<forall>j < range_pages 0x1000. in_range (page_addr 0x3000 j)"
  proof (intro allI impI)
    fix j assume "j < range_pages 0x1000"
    then have "j = 0" by (simp add: one)
    then show "in_range (page_addr 0x3000 j)" by (simp add: page_addr_def in_range_low)
  qed
  have r: "in_range 0x3004" "page_no 0x3004 = page_no 0x3000" by code_simp+
  then have "ept_page mapped_ept 0x1000 0x3004 = Some (zero_entry\<lparr>present := True\<rparr>)"
    using mapped_ept_facts by (simp add: ept_page_def page_no_eq)
  then have "vm_gpa_to_hpa 0xFF (mem_world mapped_ept) (Some 1) 0x3004 = Some 4"
    using vm_gpa_to_hpa_page [OF mem_world_facts(1) wf r(1), of "0xFF"] by (simp add: next_table_def zero_entry_def)
  with vm_ept_unmap_keeps_translation [OF mem_world_facts(1) wf j, of "0xFF"] show ?thesis by auto
qed

end
