(* ===== verification/Types_Enums.thy ===== *)
theory Types_Enums
  imports Nexus_Prelude
begin

text \<open>
  The enumerations and families of constants of \<^verbatim>\<open>include/hypervisor/types.h\<close> that number hypercalls, exits, VMCS fields,
  interrupts and registers. An enumeration whose names are distinct is a datatype with the function to its numbers. Where the
  header gives a name twice there is no such type (as an enumeration it does not compile; of two macros the second counts), and the
  macros of one family are no type either: these are tables in the order of the header.
\<close>

section \<open>Hypercalls\<close>

datatype (plugins only: code size) hypercall_number =
    HYPERCALL_VM_CREATE | HYPERCALL_VM_DESTROY | HYPERCALL_VM_START | HYPERCALL_VM_STOP | HYPERCALL_VM_PAUSE | HYPERCALL_VM_RESUME |
    HYPERCALL_VM_RESET | HYPERCALL_VM_ALLOC_MEM | HYPERCALL_VM_FREE_MEM | HYPERCALL_VM_MAP_MEM | HYPERCALL_VM_UNMAP_MEM | HYPERCALL_VM_SET_EPTP |
    HYPERCALL_VCPU_CREATE | HYPERCALL_VCPU_DESTROY | HYPERCALL_VCPU_START | HYPERCALL_VCPU_STOP | HYPERCALL_VCPU_AFFINITY | HYPERCALL_VCPU_MIGRATE |
    HYPERCALL_VM_REGISTER_PASSTHROUGH | HYPERCALL_VM_UNREGISTER_PASSTHROUGH | HYPERCALL_VM_CREATE_IRQCHIP | HYPERCALL_VM_CREATE_PIC |
    HYPERCALL_VM_CREATE_IOAPIC | HYPERCALL_VM_CREATE_LAPIC | HYPERCALL_VM_INJECT_INTERRUPT | HYPERCALL_VM_SET_IRQ_LINE |
    HYPERCALL_VM_GET_IRQ_STATUS | HYPERCALL_VM_SET_LAPIC_REG | HYPERCALL_VM_GET_LAPIC_REG | HYPERCALL_VM_SNAPSHOT | HYPERCALL_VM_RESTORE |
    HYPERCALL_VM_LIVE_MIGRATE_START | HYPERCALL_VM_LIVE_MIGRATE_FINISH | HYPERCALL_VM_CHECKPOINT_SAVE | HYPERCALL_VM_CHECKPOINT_LOAD |
    HYPERCALL_VM_GET_INFO | HYPERCALL_VCPU_GET_STATE | HYPERCALL_VCPU_SET_STATE | HYPERCALL_VM_GET_STATISTICS | HYPERCALL_VCPU_GET_STATISTICS |
    HYPERCALL_NVM_VMEXIT_TO_HYPERVISOR | HYPERCALL_NVM_GUEST_VMENTRY | HYPERCALL_NVM_SETUP_VMEXIT_HANDLER | HYPERCALL_DEBUG_READ |
    HYPERCALL_DEBUG_WRITE | HYPERCALL_BENCHMARK_START | HYPERCALL_BENCHMARK_END

fun hypercall_code :: "hypercall_number \<Rightarrow> u64" where
  "hypercall_code HYPERCALL_VM_CREATE = 0x1000"
| "hypercall_code HYPERCALL_VM_DESTROY = 0x1001"
| "hypercall_code HYPERCALL_VM_START = 0x1002"
| "hypercall_code HYPERCALL_VM_STOP = 0x1003"
| "hypercall_code HYPERCALL_VM_PAUSE = 0x1004"
| "hypercall_code HYPERCALL_VM_RESUME = 0x1005"
| "hypercall_code HYPERCALL_VM_RESET = 0x1006"
| "hypercall_code HYPERCALL_VM_ALLOC_MEM = 0x1100"
| "hypercall_code HYPERCALL_VM_FREE_MEM = 0x1101"
| "hypercall_code HYPERCALL_VM_MAP_MEM = 0x1102"
| "hypercall_code HYPERCALL_VM_UNMAP_MEM = 0x1103"
| "hypercall_code HYPERCALL_VM_SET_EPTP = 0x1104"
| "hypercall_code HYPERCALL_VCPU_CREATE = 0x1200"
| "hypercall_code HYPERCALL_VCPU_DESTROY = 0x1201"
| "hypercall_code HYPERCALL_VCPU_START = 0x1202"
| "hypercall_code HYPERCALL_VCPU_STOP = 0x1203"
| "hypercall_code HYPERCALL_VCPU_AFFINITY = 0x1204"
| "hypercall_code HYPERCALL_VCPU_MIGRATE = 0x1205"
| "hypercall_code HYPERCALL_VM_REGISTER_PASSTHROUGH = 0x1300"
| "hypercall_code HYPERCALL_VM_UNREGISTER_PASSTHROUGH = 0x1301"
| "hypercall_code HYPERCALL_VM_CREATE_IRQCHIP = 0x1302"
| "hypercall_code HYPERCALL_VM_CREATE_PIC = 0x1303"
| "hypercall_code HYPERCALL_VM_CREATE_IOAPIC = 0x1304"
| "hypercall_code HYPERCALL_VM_CREATE_LAPIC = 0x1305"
| "hypercall_code HYPERCALL_VM_INJECT_INTERRUPT = 0x1400"
| "hypercall_code HYPERCALL_VM_SET_IRQ_LINE = 0x1401"
| "hypercall_code HYPERCALL_VM_GET_IRQ_STATUS = 0x1402"
| "hypercall_code HYPERCALL_VM_SET_LAPIC_REG = 0x1403"
| "hypercall_code HYPERCALL_VM_GET_LAPIC_REG = 0x1404"
| "hypercall_code HYPERCALL_VM_SNAPSHOT = 0x1500"
| "hypercall_code HYPERCALL_VM_RESTORE = 0x1501"
| "hypercall_code HYPERCALL_VM_LIVE_MIGRATE_START = 0x1502"
| "hypercall_code HYPERCALL_VM_LIVE_MIGRATE_FINISH = 0x1503"
| "hypercall_code HYPERCALL_VM_CHECKPOINT_SAVE = 0x1504"
| "hypercall_code HYPERCALL_VM_CHECKPOINT_LOAD = 0x1505"
| "hypercall_code HYPERCALL_VM_GET_INFO = 0x1600"
| "hypercall_code HYPERCALL_VCPU_GET_STATE = 0x1601"
| "hypercall_code HYPERCALL_VCPU_SET_STATE = 0x1602"
| "hypercall_code HYPERCALL_VM_GET_STATISTICS = 0x1603"
| "hypercall_code HYPERCALL_VCPU_GET_STATISTICS = 0x1604"
| "hypercall_code HYPERCALL_NVM_VMEXIT_TO_HYPERVISOR = 0x1700"
| "hypercall_code HYPERCALL_NVM_GUEST_VMENTRY = 0x1701"
| "hypercall_code HYPERCALL_NVM_SETUP_VMEXIT_HANDLER = 0x1702"
| "hypercall_code HYPERCALL_DEBUG_READ = 0x1f00"
| "hypercall_code HYPERCALL_DEBUG_WRITE = 0x1f01"
| "hypercall_code HYPERCALL_BENCHMARK_START = 0x1f02"
| "hypercall_code HYPERCALL_BENCHMARK_END = 0x1f03"

section \<open>Interrupts\<close>

datatype (plugins only: code size) interrupt_type =
    INT_TYPE_INT | INT_TYPE_NMI | INT_TYPE_SMI | INT_TYPE_EXT_INT | INT_TYPE_HARDWARE

fun interrupt_code :: "interrupt_type \<Rightarrow> u32" where
  "interrupt_code INT_TYPE_INT = 0"
| "interrupt_code INT_TYPE_NMI = 2"
| "interrupt_code INT_TYPE_SMI = 3"
| "interrupt_code INT_TYPE_EXT_INT = 4"
| "interrupt_code INT_TYPE_HARDWARE = 5"

datatype (plugins only: code size) lapic_register =
    LAPIC_ID | LAPIC_VERSION | LAPIC_TPR | LAPIC_APR | LAPIC_PPR | LAPIC_EOI | LAPIC_LDR | LAPIC_DFR | LAPIC_SIVR | LAPIC_ISR0 | LAPIC_ISR1 |
    LAPIC_ISR2 | LAPIC_ISR3 | LAPIC_ISR4 | LAPIC_ISR5 | LAPIC_ISR6 | LAPIC_ISR7 | LAPIC_TMR0 | LAPIC_TMR1 | LAPIC_TMR2 | LAPIC_TMR3 | LAPIC_TMR4 |
    LAPIC_TMR5 | LAPIC_TMR6 | LAPIC_TMR7 | LAPIC_IRR0 | LAPIC_IRR1 | LAPIC_IRR2 | LAPIC_IRR3 | LAPIC_IRR4 | LAPIC_IRR5 | LAPIC_IRR6 | LAPIC_IRR7 |
    LAPIC_ERROR_STATUS | LAPIC_ICR0 | LAPIC_ICR1 | LAPIC_LVT_TIMER | LAPIC_LVT_THERMAL | LAPIC_LVT_PERF | LAPIC_LVT_LINT0 | LAPIC_LVT_LINT1 |
    LAPIC_LVT_ERROR | LAPIC_INITIAL_COUNT | LAPIC_CURRENT_COUNT | LAPIC_DIVIDE_CFG

fun lapic_offset :: "lapic_register \<Rightarrow> u32" where
  "lapic_offset LAPIC_ID = 0x20"
| "lapic_offset LAPIC_VERSION = 0x30"
| "lapic_offset LAPIC_TPR = 0x80"
| "lapic_offset LAPIC_APR = 0x90"
| "lapic_offset LAPIC_PPR = 0xa0"
| "lapic_offset LAPIC_EOI = 0xb0"
| "lapic_offset LAPIC_LDR = 0xd0"
| "lapic_offset LAPIC_DFR = 0xe0"
| "lapic_offset LAPIC_SIVR = 0xf0"
| "lapic_offset LAPIC_ISR0 = 0x100"
| "lapic_offset LAPIC_ISR1 = 0x110"
| "lapic_offset LAPIC_ISR2 = 0x120"
| "lapic_offset LAPIC_ISR3 = 0x130"
| "lapic_offset LAPIC_ISR4 = 0x140"
| "lapic_offset LAPIC_ISR5 = 0x150"
| "lapic_offset LAPIC_ISR6 = 0x160"
| "lapic_offset LAPIC_ISR7 = 0x170"
| "lapic_offset LAPIC_TMR0 = 0x180"
| "lapic_offset LAPIC_TMR1 = 0x190"
| "lapic_offset LAPIC_TMR2 = 0x1a0"
| "lapic_offset LAPIC_TMR3 = 0x1b0"
| "lapic_offset LAPIC_TMR4 = 0x1c0"
| "lapic_offset LAPIC_TMR5 = 0x1d0"
| "lapic_offset LAPIC_TMR6 = 0x1e0"
| "lapic_offset LAPIC_TMR7 = 0x1f0"
| "lapic_offset LAPIC_IRR0 = 0x200"
| "lapic_offset LAPIC_IRR1 = 0x210"
| "lapic_offset LAPIC_IRR2 = 0x220"
| "lapic_offset LAPIC_IRR3 = 0x230"
| "lapic_offset LAPIC_IRR4 = 0x240"
| "lapic_offset LAPIC_IRR5 = 0x250"
| "lapic_offset LAPIC_IRR6 = 0x260"
| "lapic_offset LAPIC_IRR7 = 0x270"
| "lapic_offset LAPIC_ERROR_STATUS = 0x280"
| "lapic_offset LAPIC_ICR0 = 0x300"
| "lapic_offset LAPIC_ICR1 = 0x310"
| "lapic_offset LAPIC_LVT_TIMER = 0x320"
| "lapic_offset LAPIC_LVT_THERMAL = 0x330"
| "lapic_offset LAPIC_LVT_PERF = 0x340"
| "lapic_offset LAPIC_LVT_LINT0 = 0x350"
| "lapic_offset LAPIC_LVT_LINT1 = 0x360"
| "lapic_offset LAPIC_LVT_ERROR = 0x370"
| "lapic_offset LAPIC_INITIAL_COUNT = 0x380"
| "lapic_offset LAPIC_CURRENT_COUNT = 0x390"
| "lapic_offset LAPIC_DIVIDE_CFG = 0x3e0"

section \<open>Sections of a checkpoint and categories of VMCS fields\<close>

datatype (plugins only: code size) checkpoint_section =
    CHECKPOINT_SECTION_HEADER | CHECKPOINT_SECTION_VM_CONFIG | CHECKPOINT_SECTION_VCPU_STATE | CHECKPOINT_SECTION_MEMORY |
    CHECKPOINT_SECTION_DEVICE | CHECKPOINT_SECTION_MSR | CHECKPOINT_SECTION_FPU | CHECKPOINT_SECTION_XSAVE

fun section_code :: "checkpoint_section \<Rightarrow> u32" where
  "section_code CHECKPOINT_SECTION_HEADER = 0"
| "section_code CHECKPOINT_SECTION_VM_CONFIG = 1"
| "section_code CHECKPOINT_SECTION_VCPU_STATE = 2"
| "section_code CHECKPOINT_SECTION_MEMORY = 3"
| "section_code CHECKPOINT_SECTION_DEVICE = 4"
| "section_code CHECKPOINT_SECTION_MSR = 5"
| "section_code CHECKPOINT_SECTION_FPU = 6"
| "section_code CHECKPOINT_SECTION_XSAVE = 7"

datatype (plugins only: code size) vmcs_field_type =
    VMCS_16BIT_CONTROL | VMCS_16BIT_GUEST | VMCS_16BIT_HOST | VMCS_64BIT_CONTROL | VMCS_64BIT_READONLY | VMCS_64BIT_GUEST | VMCS_64BIT_HOST |
    VMCS_32BIT_CONTROL | VMCS_32BIT_READONLY | VMCS_32BIT_GUEST | VMCS_32BIT_HOST | VMCS_NATURAL_WIDTH_CONTROL | VMCS_NATURAL_WIDTH_GUEST |
    VMCS_NATURAL_WIDTH_HOST

fun field_type_code :: "vmcs_field_type \<Rightarrow> u32" where
  "field_type_code VMCS_16BIT_CONTROL = 0"
| "field_type_code VMCS_16BIT_GUEST = 1"
| "field_type_code VMCS_16BIT_HOST = 2"
| "field_type_code VMCS_64BIT_CONTROL = 3"
| "field_type_code VMCS_64BIT_READONLY = 4"
| "field_type_code VMCS_64BIT_GUEST = 5"
| "field_type_code VMCS_64BIT_HOST = 6"
| "field_type_code VMCS_32BIT_CONTROL = 7"
| "field_type_code VMCS_32BIT_READONLY = 8"
| "field_type_code VMCS_32BIT_GUEST = 9"
| "field_type_code VMCS_32BIT_HOST = 10"
| "field_type_code VMCS_NATURAL_WIDTH_CONTROL = 11"
| "field_type_code VMCS_NATURAL_WIDTH_GUEST = 12"
| "field_type_code VMCS_NATURAL_WIDTH_HOST = 13"

section \<open>Exit reasons and VMCS fields\<close>

definition vmx_exit_reasons :: "(string \<times> u64) list" where
  "vmx_exit_reasons =
    [(''VMX_EXIT_EXCEPTION_OR_NMI'', 0x0), (''VMX_EXIT_EXT_INTERRUPT'', 0x1), (''VMX_EXIT_TRIPLE_FAULT'', 0x2), (''VMX_EXIT_INIT_SIGNAL'', 0x3),
     (''VMX_EXIT_SIPI'', 0x4), (''VMX_EXIT_SMI_IO'', 0x5), (''VMX_EXIT_SMI_EXTERNAL'', 0x6), (''VMX_EXIT_PANIC_VMCS'', 0x7),
     (''VMX_EXIT_PANIC_MACHINE_CHECK'', 0x9), (''VMX_EXIT_VMX_TILE_SWITCH'', 0xa), (''VMX_EXIT_APIC_WRITE'', 0xb),
     (''VMX_EXIT_EOI_VIRTUALIZATION'', 0xc), (''VMX_EXIT_GASTOR_TRAP'', 0xd), (''VMX_EXIT_WBINVD'', 0xe), (''VMX_EXIT_XSETBV'', 0xf),
     (''VMX_EXIT_APIC_REG_VIRT'', 0x10), (''VMX_EXIT_VIRTUALIZED_EOI'', 0x11), (''VMX_EXIT_GALLeria_CHAOS'', 0x12),
     (''VMX_EXIT_EPT_VIOLATION'', 0x13), (''VMX_EXIT_EPT_MISCONFIG'', 0x14), (''VMX_EXIT_INVEPT'', 0x15), (''VMX_EXIT_RDTSCP'', 0x16),
     (''VMX_EXIT_VMX_PREEMPT_TIMER'', 0x17), (''VMX_EXIT_INVVPID'', 0x18), (''VMX_EXIT_WBINVD_EXIT'', 0x19), (''VMX_EXIT_XRSTORS'', 0x1a),
     (''VMX_EXIT_XSAVES'', 0x1b), (''VMX_EXIT_UMWAIT'', 0x1c), (''VMX_EXIT_TPAUSE'', 0x1d), (''VMX_EXIT_LOAD_Uret'', 0x1e),
     (''VMX_EXIT_MONITOR_TRAP_FLAG'', 0x1f), (''VMX_EXIT_MONITOR'', 0x20), (''VMX_EXIT_PAUSE'', 0x21), (''VMX_EXIT_EXIT_HLT'', 0x24),
     (''VMX_EXIT_EXIT_INVLPG'', 0x25), (''VMX_EXIT_EXIT_RDPMC'', 0x26), (''VMX_EXIT_EXIT_RDTSC'', 0x27), (''VMX_EXIT_EXIT_RDTSCP'', 0x28),
     (''VMX_EXIT_EXIT_RSM'', 0x29), (''VMX_EXIT_EXIT_VMCALL'', 0x2a), (''VMX_EXIT_EXIT_VMCLEAR'', 0x2b), (''VMX_EXIT_EXIT_VMLAUNCH'', 0x2c),
     (''VMX_EXIT_EXIT_VMPTRLD'', 0x2d), (''VMX_EXIT_EXIT_VMPTRST'', 0x2e), (''VMX_EXIT_EXIT_VMREAD'', 0x2f), (''VMX_EXIT_EXIT_VMRESUME'', 0x30),
     (''VMX_EXIT_EXIT_VMRMW'', 0x31), (''VMX_EXIT_EXIT_VMSAVE'', 0x32), (''VMX_EXIT_EXIT_VMXOFF'', 0x33), (''VMX_EXIT_EXIT_VMXON'', 0x34),
     (''VMX_EXIT_EXIT_CR_ACCESS'', 0x35), (''VMX_EXIT_EXIT_DR_ACCESS'', 0x36), (''VMX_EXIT_EXIT_IO_INSTRUCTION'', 0x37),
     (''VMX_EXIT_EXIT_MSR_READ'', 0x38), (''VMX_EXIT_EXIT_MSR_WRITE'', 0x39), (''VMX_EXIT_EXIT_MCE_DURING_ENTRY'', 0x3a),
     (''VMX_EXIT_EXIT_TPR_BELOW_THRESHOLD'', 0x3b), (''VMX_EXIT_EXIT_SMP_NA'', 0x3c), (''VMX_EXIT_EXIT_SMP_S'', 0x3d),
     (''VMX_EXIT_EXIT_SMP_R'', 0x3e), (''VMX_EXIT_EXIT_FAST_SYSTEM_CALL'', 0x3f), (''VMX_EXIT_EXIT_CPUID'', 0x40), (''VMX_EXIT_EXIT_HLT'', 0x41),
     (''VMX_EXIT_EXIT_INVD'', 0x42), (''VMX_EXIT_EXIT_PAUSE'', 0x43), (''VMX_EXIT_EXIT_POPA'', 0x44), (''VMX_EXIT_EXIT_SYSENTER'', 0x45),
     (''VMX_EXIT_EXIT_SYSCALL'', 0x46), (''VMX_EXIT_EXIT_VERW'', 0x47), (''VMX_EXIT_EXIT_RDTSC'', 0x48), (''VMX_EXIT_EXIT_RDTSCP'', 0x49),
     (''VMX_EXIT_EXIT_IRET'', 0x4a), (''VMX_EXIT_EXIT_SWAPGS'', 0x4b), (''VMX_EXIT_EXIT_WBINVD'', 0x4c), (''VMX_EXIT_EXIT_MONITOR'', 0x4d),
     (''VMX_EXIT_EXIT_MWAIT'', 0x4e), (''VMX_EXIT_EXIT_XSETBV'', 0x4f), (''VMX_EXIT_EXIT_TASK_SWITCH'', 0x50),
     (''VMX_EXIT_EXIT_MCE_DURING_EXIT'', 0x51), (''VMX_EXIT_EXIT_TPR_THRESHOLD'', 0x52), (''VMX_EXIT_EXIT_APIC_ACCESS'', 0x53),
     (''VMX_EXIT_EXIT_EOI'', 0x54), (''VMX_EXIT_EXIT_GDTR_IDTR'', 0x55), (''VMX_EXIT_EXIT_LDTR_TR'', 0x56), (''VMX_EXIT_EXIT_RDTSCP'', 0x57),
     (''VMX_EXIT_EXIT_RDPROCID'', 0x58)]"

definition svm_exit_codes :: "(string \<times> u64) list" where
  "svm_exit_codes =
    [(''SVM_EXIT_READ_CR0'', 0x1), (''SVM_EXIT_WRITE_CR0'', 0x2), (''SVM_EXIT_READ_CR1'', 0x3), (''SVM_EXIT_WRITE_CR1'', 0x4),
     (''SVM_EXIT_READ_CR2'', 0x5), (''SVM_EXIT_WRITE_CR2'', 0x6), (''SVM_EXIT_READ_CR3'', 0x7), (''SVM_EXIT_WRITE_CR3'', 0x8),
     (''SVM_EXIT_READ_CR4'', 0x9), (''SVM_EXIT_WRITE_CR4'', 0xa), (''SVM_EXIT_READ_CR5'', 0xb), (''SVM_EXIT_WRITE_CR5'', 0xc),
     (''SVM_EXIT_READ_CR6'', 0xd), (''SVM_EXIT_WRITE_CR6'', 0xe), (''SVM_EXIT_READ_CR7'', 0xf), (''SVM_EXIT_WRITE_CR7'', 0x10),
     (''SVM_EXIT_READ_CR8'', 0x11), (''SVM_EXIT_WRITE_CR8'', 0x12), (''SVM_EXIT_READ_CR9'', 0x13), (''SVM_EXIT_WRITE_CR9'', 0x14),
     (''SVM_EXIT_READ_CR10'', 0x15), (''SVM_EXIT_WRITE_CR10'', 0x16), (''SVM_EXIT_READ_CR11'', 0x17), (''SVM_EXIT_WRITE_CR11'', 0x18),
     (''SVM_EXIT_READ_CR12'', 0x19), (''SVM_EXIT_WRITE_CR12'', 0x1a), (''SVM_EXIT_READ_CR13'', 0x1b), (''SVM_EXIT_WRITE_CR13'', 0x1c),
     (''SVM_EXIT_READ_CR14'', 0x1d), (''SVM_EXIT_WRITE_CR14'', 0x1e), (''SVM_EXIT_READ_CR15'', 0x1f), (''SVM_EXIT_WRITE_CR15'', 0x20),
     (''SVM_EXIT_READ_DR0'', 0x21), (''SVM_EXIT_WRITE_DR0'', 0x22), (''SVM_EXIT_READ_DR1'', 0x23), (''SVM_EXIT_WRITE_DR1'', 0x24),
     (''SVM_EXIT_READ_DR2'', 0x25), (''SVM_EXIT_WRITE_DR2'', 0x26), (''SVM_EXIT_READ_DR3'', 0x27), (''SVM_EXIT_WRITE_DR3'', 0x28),
     (''SVM_EXIT_READ_DR4'', 0x29), (''SVM_EXIT_WRITE_DR4'', 0x2a), (''SVM_EXIT_READ_DR5'', 0x2b), (''SVM_EXIT_WRITE_DR5'', 0x2c),
     (''SVM_EXIT_READ_DR6'', 0x2d), (''SVM_EXIT_WRITE_DR6'', 0x2e), (''SVM_EXIT_READ_DR7'', 0x2f), (''SVM_EXIT_WRITE_DR7'', 0x30),
     (''SVM_EXIT_EXCP0'', 0x31), (''SVM_EXIT_EXCP1'', 0x32), (''SVM_EXIT_EXCP2'', 0x33), (''SVM_EXIT_EXCP3'', 0x34), (''SVM_EXIT_EXCP4'', 0x35),
     (''SVM_EXIT_EXCP5'', 0x36), (''SVM_EXIT_EXCP6'', 0x37), (''SVM_EXIT_EXCP7'', 0x38), (''SVM_EXIT_EXCP8'', 0x39), (''SVM_EXIT_EXCP9'', 0x3a),
     (''SVM_EXIT_EXCP10'', 0x3b), (''SVM_EXIT_EXCP11'', 0x3c), (''SVM_EXIT_EXCP12'', 0x3d), (''SVM_EXIT_EXCP13'', 0x3e), (''SVM_EXIT_EXCP14'', 0x3f),
     (''SVM_EXIT_EXCP15'', 0x40), (''SVM_EXIT_INTR'', 0x60), (''SVM_EXIT_NMI'', 0x61), (''SVM_EXIT_SMI'', 0x62), (''SVM_EXIT_INIT'', 0x63),
     (''SVM_EXIT_VINTR'', 0x64), (''SVM_EXIT_CPUID'', 0x72), (''SVM_EXIT_HPRED'', 0x73), (''SVM_EXIT_LDTR'', 0x74), (''SVM_EXIT_LTR'', 0x75),
     (''SVM_EXIT_INVEPT'', 0x20), (''SVM_EXIT_INVVPID'', 0x21), (''SVM_EXIT_INVLPG'', 0x76), (''SVM_EXIT_WBINVD'', 0x77),
     (''SVM_EXIT_MONITOR'', 0x78), (''SVM_EXIT_MWAIT'', 0x79), (''SVM_EXIT_RDTSC'', 0x7c), (''SVM_EXIT_RDTSCP'', 0x7d), (''SVM_EXIT_POPA'', 0x7e),
     (''SVM_EXIT_GETSEC'', 0x80), (''SVM_EXIT_RDPMC'', 0x81), (''SVM_EXIT_RDTSCP'', 0x82), (''SVM_EXIT_SMCI'', 0x83), (''SVM_EXIT_SMCM'', 0x84),
     (''SVM_EXIT_RSM'', 0x85), (''SVM_EXIT_RDMSR'', 0x86), (''SVM_EXIT_WRMSR'', 0x87), (''SVM_EXIT_FERR_FREEZE'', 0x88), (''SVM_EXIT_PAUSE'', 0x89),
     (''SVM_EXIT_HLT'', 0x8a), (''SVM_EXIT_INVD'', 0x8b), (''SVM_EXIT_WBINVD'', 0x8c), (''SVM_EXIT_MONITOR'', 0x8d), (''SVM_EXIT_MWAIT'', 0x8e),
     (''SVM_EXIT_XSETBV'', 0x8f), (''SVM_EXIT_EFER_WRITE'', 0x90), (''SVM_EXIT_CR0_WRITE'', 0x91), (''SVM_EXIT_CR1_WRITE'', 0x92),
     (''SVM_EXIT_CR2_WRITE'', 0x93), (''SVM_EXIT_CR3_WRITE'', 0x94), (''SVM_EXIT_CR4_WRITE'', 0x95), (''SVM_EXIT_CR5_WRITE'', 0x96),
     (''SVM_EXIT_CR6_WRITE'', 0x97), (''SVM_EXIT_CR7_WRITE'', 0x98), (''SVM_EXIT_CR8_WRITE'', 0x99), (''SVM_EXIT_CR9_WRITE'', 0x9a),
     (''SVM_EXIT_CR10_WRITE'', 0x9b), (''SVM_EXIT_CR11_WRITE'', 0x9c), (''SVM_EXIT_CR12_WRITE'', 0x9d), (''SVM_EXIT_CR13_WRITE'', 0x9e),
     (''SVM_EXIT_CR14_WRITE'', 0x9f), (''SVM_EXIT_CR15_WRITE'', 0xa0), (''SVM_EXIT_INVLPGA'', 0xc1), (''SVM_EXIT_SKINIT'', 0xc2),
     (''SVM_EXIT_INVLPGA'', 0xc3), (''SVM_EXIT_NPF'', 0x400), (''SVM_EXIT_AVIC_INCOMPLETE_IPI'', 0x401), (''SVM_EXIT_AVIC_NOaccELERATION'', 0x402),
     (''SVM_EXIT_VMGEXIT'', 0x403)]"

definition vmcs_fields :: "(string \<times> u64) list" where
  "vmcs_fields =
    [(''VMCS_VPID'', 0x0), (''VMCS_POSTED_INTERRUPT_VECTOR'', 0x2), (''VMCS_POSTED_INTERRUPT_NPIE'', 0x4), (''VMCS_EPTP_INDEX'', 0x6),
     (''VMCS_VMCS_LINK_POINTER'', 0x2800), (''VMCS_VMCS_LINK_POINTER_HIGH'', 0x2801), (''VMCS_GUEST_IA32_DEBUGCTL'', 0x2802),
     (''VMCS_GUEST_IA32_DEBUGCTL_HIGH'', 0x2803), (''VMCS_GUEST_IA32_PAT'', 0x2804), (''VMCS_GUEST_IA32_PAT_HIGH'', 0x2805),
     (''VMCS_GUEST_IA32_EFER'', 0x2806), (''VMCS_GUEST_IA32_EFER_HIGH'', 0x2807), (''VMCS_GUEST_IA32_PERF_GLOBAL_CTRL'', 0x2808),
     (''VMCS_GUEST_IA32_PERF_GLOBAL_HIGH'', 0x2809), (''VMCS_GUEST_PDPTE0'', 0x280a), (''VMCS_GUEST_PDPTE0_HIGH'', 0x280b),
     (''VMCS_GUEST_PDPTE1'', 0x280c), (''VMCS_GUEST_PDPTE1_HIGH'', 0x280d), (''VMCS_GUEST_PDPTE2'', 0x280e), (''VMCS_GUEST_PDPTE2_HIGH'', 0x280f),
     (''VMCS_GUEST_PDPTE3'', 0x2810), (''VMCS_GUEST_PDPTE3_HIGH'', 0x2811), (''VMCS_GUEST_IA32_BNDCFGS'', 0x2812),
     (''VMCS_GUEST_IA32_BNDCFGS_HIGH'', 0x2813), (''VMCS_HOST_IA32_PAT'', 0x2c00), (''VMCS_HOST_IA32_PAT_HIGH'', 0x2c01),
     (''VMCS_HOST_IA32_EFER'', 0x2c02), (''VMCS_HOST_IA32_EFER_HIGH'', 0x2c03), (''VMCS_HOST_IA32_PERF_GLOBAL_CTRL'', 0x2c04),
     (''VMCS_HOST_IA32_PERF_GLOBAL_HIGH'', 0x2c05), (''VMCS_HOST_CR0'', 0x6c00), (''VMCS_HOST_CR3'', 0x6c02), (''VMCS_HOST_CR4'', 0x6c04),
     (''VMCS_HOST_FS_BASE'', 0x6c06), (''VMCS_HOST_GS_BASE'', 0x6c08), (''VMCS_HOST_TR_BASE'', 0x6c0a), (''VMCS_HOST_GDTR_BASE'', 0x6c0c),
     (''VMCS_HOST_IDTR_BASE'', 0x6c0e), (''VMCS_HOST_RFLAGS'', 0x6c12), (''VMCS_HOST_RIP'', 0x6c14), (''VMCS_HOST_RSP'', 0x6c16),
     (''VMCS_PIN_BASED_VM_EXECUTION_CONTROLS'', 0x4000), (''VMCS_PRIMARY_PROC_BASED_VM_EXEC_CONTROLS'', 0x4002), (''VMCS_EXCEPTION_BITMAP'', 0x4004),
     (''VMCS_PAGE_FAULT_ERROR_CODE_MASK'', 0x4006), (''VMCS_PAGE_FAULT_ERROR_CODE_MATCH'', 0x4008), (''VMCS_CR3_TARGET_COUNT'', 0x400a),
     (''VMCS_VM_EXIT_CONTROLS'', 0x400c), (''VMCS_VM_EXIT_CONTROLS_HIGH'', 0x400d), (''VMCS_VM_ENTRY_CONTROLS'', 0x4010),
     (''VMCS_VM_ENTRY_CONTROLS_HIGH'', 0x4011), (''VMCS_VM_ENTRY_INTERRUPTION_INFO'', 0x4012), (''VMCS_VM_ENTRY_EXCEPTION_ERROR_CODE'', 0x4014),
     (''VMCS_VM_ENTRY_INSTRUCTION_LENGTH'', 0x4016), (''VMCS_TPR_THRESHOLD'', 0x4018), (''VMCS_TPR_THRESHOLD_HIGH'', 0x4019),
     (''VMCS_SECONDARY_PROC_BASED_VM_EXEC_CONTROLS'', 0x401e), (''VMCS_SECONDARY_PROC_BASED_VM_EXEC_CONTROLS_HIGH'', 0x401f),
     (''VMCS_PLE_GAP'', 0x4020), (''VMCS_PLE_GAP_HIGH'', 0x4021), (''VMCS_PLE_WINDOW'', 0x4022), (''VMCS_PLE_WINDOW_HIGH'', 0x4023),
     (''VMCS_VM_EXIT_REASON'', 0x4400), (''VMCS_VM_EXIT_QUALIFICATION'', 0x4402), (''VMCS_VM_EXIT_INSTRUCTION_LENGTH'', 0x4404),
     (''VMCS_VM_EXIT_INSTRUCTION_INFO'', 0x4406), (''VMCS_VM_EXIT_INTERRUPTION_INFO'', 0x4408), (''VMCS_VM_EXIT_INTERRUPTION_ERROR_CODE'', 0x440a),
     (''VMCS_IDT_VECTORING_INFO'', 0x440c), (''VMCS_IDT_VECTORING_ERROR_CODE'', 0x440e), (''VMCS_VM_EXIT_INSTRUCTION_START'', 0x4410),
     (''VMCS_VM_EXIT_INSTRUCTION_START_HIGH'', 0x4411), (''VMCS_GUEST_CR0'', 0x8000), (''VMCS_GUEST_CR3'', 0x8002), (''VMCS_GUEST_CR4'', 0x8004),
     (''VMCS_GUEST_ES_BASE'', 0x8006), (''VMCS_GUEST_CS_BASE'', 0x8008), (''VMCS_SS_BASE'', 0x800a), (''VMCS_DS_BASE'', 0x800c),
     (''VMCS_FS_BASE'', 0x800e), (''VMCS_GS_BASE'', 0x8010), (''VMCS_LDTR_BASE'', 0x8012), (''VMCS_TR_BASE'', 0x8014),
     (''VMCS_GUEST_GDTR_BASE'', 0x8016), (''VMCS_GUEST_IDTR_BASE'', 0x8018), (''VMCS_GUEST_DR7'', 0x801a), (''VMCS_GUEST_RSP'', 0x801c),
     (''VMCS_GUEST_RIP'', 0x801e), (''VMCS_GUEST_RFLAGS'', 0x8020), (''VMCS_GUEST_PENDING_DEBUG_EXCEPTIONS'', 0x8022),
     (''VMCS_GUEST_IA32_SYSENTER_CS'', 0x8024), (''VMCS_GUEST_IA32_SYSENTER_ESP'', 0x8026), (''VMCS_GUEST_IA32_SYSENTER_EIP'', 0x8028),
     (''VMCS_GUEST_IA32_S_CET'', 0x802a), (''VMCS_GUEST_SSP'', 0x802c), (''VMCS_GUEST_IA32_INTERRUPT_SSP_TABLE_ADDR'', 0x802e),
     (''VMCS_GUEST_ES_LIMIT'', 0x8030), (''VMCS_GUEST_CS_LIMIT'', 0x8032), (''VMCS_GUEST_SS_LIMIT'', 0x8034), (''VMCS_GUEST_DS_LIMIT'', 0x8036),
     (''VMCS_GUEST_FS_LIMIT'', 0x8038), (''VMCS_GS_LIMIT'', 0x803a), (''VMCS_GUEST_LDTR_LIMIT'', 0x803c), (''VMCS_GUEST_TR_LIMIT'', 0x803e),
     (''VMCS_GUEST_GDTR_LIMIT'', 0x8040), (''VMCS_GUEST_IDTR_LIMIT'', 0x8042), (''VMCS_GUEST_ES_ACCESS_RIGHTS'', 0x8044),
     (''VMCS_GUEST_CS_ACCESS_RIGHTS'', 0x8046), (''VMCS_GUEST_SS_ACCESS_RIGHTS'', 0x8048), (''VMCS_GUEST_DS_ACCESS_RIGHTS'', 0x804a),
     (''VMCS_GUEST_FS_ACCESS_RIGHTS'', 0x804c), (''VMCS_GUEST_GS_ACCESS_RIGHTS'', 0x804e), (''VMCS_GUEST_LDTR_ACCESS_RIGHTS'', 0x8050),
     (''VMCS_GUEST_TR_ACCESS_RIGHTS'', 0x8052), (''VMCS_GUEST_INTERRUPTIBILITY_STATE'', 0x8054), (''VMCS_GUEST_ACTIVITY_STATE'', 0x8056),
     (''VMCS_GUEST_SM_BASE'', 0x8058), (''VMCS_GUEST_SM_BASE_HIGH'', 0x8059)]"

section \<open>Names given twice\<close>

text \<open>The enumeration of exit reasons is not a C type: three of its enumerators are declared twice, one of them three times.\<close>

lemma vmx_exit_reasons_declared_twice:
  "fst (vmx_exit_reasons ! 33) = fst (vmx_exit_reasons ! 62)" "fst (vmx_exit_reasons ! 36) = fst (vmx_exit_reasons ! 69)"
  "fst (vmx_exit_reasons ! 37) = fst (vmx_exit_reasons ! 70)" "fst (vmx_exit_reasons ! 37) = fst (vmx_exit_reasons ! 84)"
  by (simp_all add: vmx_exit_reasons_def)

lemma vmx_exit_reasons_not_distinct: "\<not> distinct (map fst vmx_exit_reasons)"
proof
  assume "distinct (map fst vmx_exit_reasons)"
  moreover have "length vmx_exit_reasons = 86" by (simp add: vmx_exit_reasons_def)
  ultimately have "fst (vmx_exit_reasons ! 33) \<noteq> fst (vmx_exit_reasons ! 62)"
    using nth_eq_iff_index_eq [of "map fst vmx_exit_reasons" 33 62] by simp
  then show False using vmx_exit_reasons_declared_twice(1) by simp
qed

text \<open>Exit codes of AMD-V with different names share a number, and of two macros of one name the second counts.\<close>

lemma svm_exit_codes_shared:
  "snd (svm_exit_codes ! 73) = snd (svm_exit_codes ! 31)" "fst (svm_exit_codes ! 73) \<noteq> fst (svm_exit_codes ! 31)"
  "fst (svm_exit_codes ! 76) = fst (svm_exit_codes ! 94)" "snd (svm_exit_codes ! 76) \<noteq> snd (svm_exit_codes ! 94)"
  by (simp_all add: svm_exit_codes_def)

end
