(* ===== verification/Vcpu_Ops.thy ===== *)
theory Vcpu_Ops
  imports Nexus_Types Types_Enums
begin

text \<open>
  The operations on one virtual CPU and the hypercall handler of \<^verbatim>\<open>src/hypervisor/hypervisor.c\<close>. A pointer
  argument is \<^const>\<open>None\<close> for \<open>NULL\<close>; an argument that points to a structure of the caller is the content
  of that structure, and the function returns its content afterwards.
\<close>

section \<open>Reading and writing the register state\<close>

definition vcpu_get_state :: "world \<Rightarrow> ref option \<Rightarrow> cpu_state option \<Rightarrow> (nexusvm_result \<times> cpu_state option) run" where
  "vcpu_get_state w vcpu st =
     (if vcpu = None \<or> st = None then Some (NEXUSVM_ERR_INVALID_PARAM, st)
      else do { v \<leftarrow> get_vcpu w vcpu; Some (NEXUSVM_OK, Some (cpu_state_of v)) })"

definition vcpu_set_state :: "world \<Rightarrow> ref option \<Rightarrow> cpu_state option \<Rightarrow> (nexusvm_result \<times> world) run" where
  "vcpu_set_state w vcpu st =
     (case (vcpu, st) of
        (Some r, Some x) \<Rightarrow> do { _ \<leftarrow> vcpu_objs w r; Some (NEXUSVM_OK, upd_vcpu w r (\<lambda>v. v\<lparr>cpu_state_of := x\<rparr>)) }
      | _ \<Rightarrow> Some (NEXUSVM_ERR_INVALID_PARAM, w))"

text \<open>A virtual CPU that was never started has no scheduling entity; the write is then undefined.\<close>

definition vcpu_set_affinity :: "world \<Rightarrow> ref option \<Rightarrow> affinity option \<Rightarrow> (nexusvm_result \<times> world) run" where
  "vcpu_set_affinity w vcpu aff =
     (case (vcpu, aff) of
        (Some r, Some a) \<Rightarrow> do {
          v \<leftarrow> vcpu_objs w r;
          e \<leftarrow> entity v;
          _ \<leftarrow> entity_objs w e;
          Some (NEXUSVM_OK, upd_entity w e (\<lambda>se. se\<lparr>allowed_cpus := a\<rparr>))
        }
      | _ \<Rightarrow> Some (NEXUSVM_ERR_INVALID_PARAM, w))"

definition vcpu_migrate :: "world \<Rightarrow> ref option \<Rightarrow> u32 \<Rightarrow> (nexusvm_result \<times> world) run" where
  "vcpu_migrate w vcpu target_cpu =
     (case vcpu of None \<Rightarrow> Some (NEXUSVM_ERR_INVALID_PARAM, w)
      | Some r \<Rightarrow> do {
          hv \<leftarrow> g_hypervisor w;
          if target_cpu \<ge> online_cpu_count hv then Some (NEXUSVM_ERR_INVALID_PARAM, w)
          else do { _ \<leftarrow> vcpu_objs w r; Some (NEXUSVM_OK, upd_vcpu w r (\<lambda>v. v\<lparr>physical_cpu := target_cpu\<rparr>)) }
        })"

section \<open>Hypercalls\<close>

text \<open>The value of an enumerator stored in the 64-bit \<open>status\<close>.\<close>

definition result_word :: "nexusvm_result \<Rightarrow> u64" where
  "result_word r = of_int (result_code r)"

definition cleared_result :: hypercall_result where
  "cleared_result = \<lparr>status = result_word NEXUSVM_OK, ret0 = 0, ret1 = 0, ret2 = 0, ret3 = 0\<rparr>"

text \<open>
  The guest's \<open>rbx\<close> is used as a host pointer to a register image; \<open>memcpy\<close> through a pointer to
  anything else is undefined.
\<close>

definition hypercall_handle ::
  "world \<Rightarrow> ref option \<Rightarrow> hypercall_params option \<Rightarrow> hypercall_result option
    \<Rightarrow> (nexusvm_result \<times> hypercall_result option \<times> world) run"
where
  "hypercall_handle w vcpu params res =
     (case (vcpu, params, res) of
        (Some r, Some p, Some _) \<Rightarrow> do {
          v \<leftarrow> vcpu_objs w r;
          let n = p_rax p;
          let ok = cleared_result;
          if n = hypercall_code HYPERCALL_VM_GET_INFO then do {
            m \<leftarrow> get_vm w (vm v);
            Some (NEXUSVM_OK, Some (ok\<lparr>ret0 := ucast (vm_id m), ret1 := ucast (vcpu_count m),
              ret2 := memory_size m, ret3 := vm_state_code (state m)\<rparr>), w)
          }
          else if n = hypercall_code HYPERCALL_VCPU_GET_STATE then
            (if p_rbx p \<noteq> 0 then do {
               _ \<leftarrow> cpu_states w (p_rbx p);
               Some (NEXUSVM_OK, Some ok, w\<lparr>cpu_states := (cpu_states w)(p_rbx p \<mapsto> cpu_state_of v)\<rparr>)
             } else Some (NEXUSVM_OK, Some ok, w))
          else if n = hypercall_code HYPERCALL_VCPU_SET_STATE then
            (if p_rbx p \<noteq> 0 then do {
               x \<leftarrow> cpu_states w (p_rbx p);
               Some (NEXUSVM_OK, Some ok, upd_vcpu w r (\<lambda>v. v\<lparr>cpu_state_of := x\<rparr>))
             } else Some (NEXUSVM_OK, Some ok, w))
          else if n = hypercall_code HYPERCALL_VM_GET_STATISTICS then do {
            m \<leftarrow> get_vm w (vm v);
            Some (NEXUSVM_OK, Some (ok\<lparr>ret0 := uptime_ns m, ret1 := vm_vmexit_count m, ret2 := total_runtime_ns m\<rparr>), w)
          }
          else if n = hypercall_code HYPERCALL_VCPU_GET_STATISTICS then
            Some (NEXUSVM_OK, Some (ok\<lparr>ret0 := vmexit_count v, ret1 := vmentry_count v, ret2 := instruction_count v\<rparr>), w)
          else Some (NEXUSVM_ERR_NOT_SUPPORTED, Some (ok\<lparr>status := result_word NEXUSVM_ERR_NOT_SUPPORTED\<rparr>), w)
        }
      | _ \<Rightarrow> Some (NEXUSVM_ERR_INVALID_PARAM, res, w))"

end
