(* ===== verification/Byte_Buffers.thy ===== *)
theory Byte_Buffers
  imports Nexus_Types
begin

text \<open>
  Byte buffers on the C heap, as the bitmaps, the VMX regions and the VMCB use them: allocation, release,
  accesses to one byte and little-endian accesses to 64 bits at a byte offset. An access outside a live
  buffer is undefined.
\<close>

type_synonym buffers = "u64 \<rightharpoonup> u8 list"

text \<open>\<open>calloc\<close> and \<open>aligned_alloc\<close> are a parameter: the address for a request, \<open>0\<close> for failure.\<close>

type_synonym buf_alloc = "buffers \<Rightarrow> u64 \<Rightarrow> u64"

definition buf_fresh :: "buf_alloc \<Rightarrow> bool" where
  "buf_fresh al \<longleftrightarrow> (\<forall>h n. al h n \<noteq> 0 \<longrightarrow> h (al h n) = None)"

definition buf_new :: "buf_alloc \<Rightarrow> buffers \<Rightarrow> u64 \<Rightarrow> u64 \<times> buffers" where
  "buf_new al h n = (let p = al h n in if p = 0 then (0, h) else (p, h(p \<mapsto> replicate (unat n) 0)))"

definition buf_free :: "buffers \<Rightarrow> u64 \<Rightarrow> buffers run" where
  "buf_free h p = (if p = 0 then Some h else if h p = None then None else Some (h(p := None)))"

definition upd8 :: "buffers \<Rightarrow> u64 \<Rightarrow> nat \<Rightarrow> (u8 \<Rightarrow> u8) \<Rightarrow> buffers run" where
  "upd8 h p i f = do { bs \<leftarrow> h p; if i < length bs then Some (h(p \<mapsto> bs[i := f (bs ! i)])) else None }"

definition set_bit8 :: "u32 \<Rightarrow> u8 \<Rightarrow> u8" where
  "set_bit8 b x = x OR push_bit (unat b) 1"

definition clear_bit8 :: "u32 \<Rightarrow> u8 \<Rightarrow> u8" where
  "clear_bit8 b x = x AND NOT (push_bit (unat b) 1)"

fun le_bytes :: "nat \<Rightarrow> u64 \<Rightarrow> u8 list" where
  "le_bytes 0 v = []"
| "le_bytes (Suc n) v = ucast v # le_bytes n (drop_bit 8 v)"

fun of_le :: "u8 list \<Rightarrow> u64" where
  "of_le [] = 0"
| "of_le (b # bs) = ucast b OR push_bit 8 (of_le bs)"

definition rd64 :: "buffers \<Rightarrow> u64 \<Rightarrow> nat \<Rightarrow> u64 run" where
  "rd64 h p off = do { bs \<leftarrow> h p; if off + 8 \<le> length bs then Some (of_le (take 8 (drop off bs))) else None }"

definition wr64 :: "buffers \<Rightarrow> u64 \<Rightarrow> nat \<Rightarrow> u64 \<Rightarrow> buffers run" where
  "wr64 h p off v = do {
     bs \<leftarrow> h p;
     if off + 8 \<le> length bs then Some (h(p \<mapsto> take off bs @ le_bytes 8 v @ drop (off + 8) bs)) else None
   }"

text \<open>A sequence of stores through one pointer.\<close>

fun wr64s :: "buffers \<Rightarrow> u64 \<Rightarrow> (nat \<times> u64) list \<Rightarrow> buffers run" where
  "wr64s h p [] = Some h"
| "wr64s h p ((off, v) # ws) = do { h \<leftarrow> wr64 h p off v; wr64s h p ws }"

section \<open>Bits of a byte\<close>

lemma bit_push_one8: "n < 8 \<Longrightarrow> bit (push_bit k 1 :: u8) n \<longleftrightarrow> n = k"
  by (auto simp: bit_push_bit_iff bit_1_iff simp del: push_bit_of_1)

lemma bit_set_bit8: "b < 8 \<Longrightarrow> n < 8 \<Longrightarrow> bit (set_bit8 b x) n \<longleftrightarrow> n = unat b \<or> bit x n"
  by (auto simp: set_bit8_def bit_or_iff bit_push_one8 simp del: push_bit_of_1)

lemma bit_clear_bit8: "b < 8 \<Longrightarrow> n < 8 \<Longrightarrow> bit (clear_bit8 b x) n \<longleftrightarrow> n \<noteq> unat b \<and> bit x n"
  by (auto simp: clear_bit8_def bit_and_iff bit_not_iff bit_push_one8 simp del: push_bit_of_1)

section \<open>Little-endian encoding\<close>

lemma length_le_bytes [simp]: "length (le_bytes n v) = n"
  by (induction n v rule: le_bytes.induct) simp_all

lemma of_le_le_bytes: "of_le (le_bytes n v) = take_bit (8 * n) v"
proof (induction n v rule: le_bytes.induct)
  case (2 n v)
  have "(ucast (ucast v :: u8) :: u64) OR push_bit 8 (take_bit (8 * n) (drop_bit 8 v)) = take_bit (8 * Suc n) v"
    by (rule bit_word_eqI) (auto simp: bit_or_iff bit_ucast_iff bit_push_bit_iff bit_take_bit_iff bit_drop_bit_eq)
  with 2 show ?case by simp
qed simp

lemma of_le_le_bytes_8 [simp]: "of_le (le_bytes 8 v) = v"
  by (simp add: of_le_le_bytes take_bit_word_eq_self)

section \<open>Reading what was written\<close>

lemma wr64_length: "wr64 h p off v = Some h' \<Longrightarrow> h p = Some bs \<Longrightarrow> \<exists>bs'. h' = h(p \<mapsto> bs') \<and> length bs' = length bs"
  by (auto simp: wr64_def split: if_splits)

lemma rd64_wr64: "wr64 h p off v = Some h' \<Longrightarrow> rd64 h' p off = Some v"
  by (auto simp: wr64_def rd64_def bind_eq_Some_conv split: if_splits)

lemma take_drop_disjoint:
  assumes "off + 8 \<le> length bs" "a + 8 \<le> off \<or> off + 8 \<le> a" "a + 8 \<le> length bs"
  shows "take 8 (drop a (take off bs @ le_bytes 8 v @ drop (off + 8) bs)) = take 8 (drop a bs)"
  using assms by (intro nth_equalityI) (auto simp: nth_append)

lemma rd64_wr64_other:
  "wr64 h p off v = Some h' \<Longrightarrow> a + 8 \<le> off \<or> off + 8 \<le> a \<Longrightarrow> rd64 h' p a = rd64 h p a"
proof -
  assume w: "wr64 h p off v = Some h'" and d: "a + 8 \<le> off \<or> off + 8 \<le> a"
  then obtain bs where bs: "h p = Some bs" "off + 8 \<le> length bs"
      "h' = h(p \<mapsto> take off bs @ le_bytes 8 v @ drop (off + 8) bs)"
    by (auto simp: wr64_def bind_eq_Some_conv split: if_splits)
  then show ?thesis using take_drop_disjoint [OF bs(2) d, of v] by (simp add: rd64_def)
qed

lemma rd64_other_buffer: "wr64 h p off v = Some h' \<Longrightarrow> q \<noteq> p \<Longrightarrow> h' q = h q"
  by (auto simp: wr64_def bind_eq_Some_conv split: if_splits)

section \<open>Sequences of stores\<close>

lemma wr64_defined: "h p = Some bs \<Longrightarrow> off + 8 \<le> length bs \<Longrightarrow> \<exists>bs'. wr64 h p off v = Some (h(p \<mapsto> bs')) \<and> length bs' = length bs"
  by (auto simp: wr64_def)

lemma wr64s_defined:
  "h p = Some bs \<Longrightarrow> list_all (\<lambda>(off, v). off + 8 \<le> length bs) ws \<Longrightarrow>
    \<exists>bs'. wr64s h p ws = Some (h(p \<mapsto> bs')) \<and> length bs' = length bs"
proof (induction ws arbitrary: h bs)
  case Nil
  then show ?case by (auto intro!: exI [of _ bs] simp: fun_upd_idem)
next
  case (Cons w ws)
  obtain off v where w: "w = (off, v)" by (cases w)
  from Cons.prems w wr64_defined [of h p bs off v] obtain cs where
    cs: "wr64 h p off v = Some (h(p \<mapsto> cs))" "length cs = length bs" by auto
  define g where "g = h(p \<mapsto> cs)"
  then have "g p = Some cs" by simp
  with Cons.IH [of g cs] Cons.prems(2) cs(2) w
  have "\<exists>ds. wr64s g p ws = Some (g(p \<mapsto> ds)) \<and> length ds = length bs" by (simp add: fun_upd_def)
  then show ?case by (simp add: w cs(1) g_def del: fun_upd_apply)
qed

text \<open>After stores at multiples of 8, a word read at a multiple of 8 is the one stored last, or the old one.\<close>

lemma rd64_wr64s:
  "wr64s h p ws = Some h' \<Longrightarrow> list_all (\<lambda>(off, v). 8 dvd off) ws \<Longrightarrow> 8 dvd a \<Longrightarrow>
    rd64 h' p a = (case map_of (rev ws) a of Some v \<Rightarrow> Some v | None \<Rightarrow> rd64 h p a)"
proof (induction ws arbitrary: h)
  case (Cons w ws)
  obtain off v where w: "w = (off, v)" by (cases w)
  from Cons.prems(1) obtain g where g: "wr64 h p off v = Some g" "wr64s g p ws = Some h'"
    by (auto simp: w bind_eq_Some_conv)
  have "a = off \<or> a + 8 \<le> off \<or> off + 8 \<le> a" using Cons.prems(2,3) w by (auto elim!: dvdE)
  then have "rd64 g p a = (if a = off then Some v else rd64 h p a)"
    using rd64_wr64 [OF g(1)] rd64_wr64_other [OF g(1), of a] by auto
  moreover have "rd64 h' p a = (case map_of (rev ws) a of Some v \<Rightarrow> Some v | None \<Rightarrow> rd64 g p a)"
    using Cons.IH [OF g(2)] Cons.prems w by simp
  ultimately show ?case by (simp add: w map_add_def split: option.split)
qed simp

lemma wr64s_other_buffer: "wr64s h p ws = Some h' \<Longrightarrow> q \<noteq> p \<Longrightarrow> h' q = h q"
  by (induction ws arbitrary: h) (auto simp: bind_eq_Some_conv rd64_other_buffer)

end
