(* ===== verification/Vmx.thy ===== *)
theory Vmx
  imports Vcpu_Ops Byte_Buffers
begin

text \<open>
  The Intel VT-x backend of \<^verbatim>\<open>src/hypervisor/vmx/vmx.c\<close>. Inline assembly is given by the effect of the instructions
  on the processor state \<^typ>\<open>backend\<close>; what the processor decides (the CPUID leaves, the outcome of \<open>vmxon\<close> and
  \<open>vmclear\<close>, the host registers, the time stamp read after the n-th exit, the execution of the guest from the n-th
  entry, a \<open>vmlaunch\<close> or a \<open>vmresume\<close>, up to the next exit) is the parameter \<open>cpu_env\<close>. The code runs at privilege level 0. A handler
  executes \<open>rdmsr\<close>, \<open>wrmsr\<close> and \<open>xsetbv\<close> with operands that the guest chose: where the processor does not accept them (\<open>rdmsr_ok\<close>,
  \<open>wrmsr_ok\<close>, \<open>xsetbv_ok\<close>) it raises a general-protection fault in the host, for which the program has no handler, and the result is
  \<^const>\<open>None\<close>. The model-specific registers with fixed numbers, which the code accesses after it has found the feature, are taken to exist. Names of VMCS fields and of exit reasons that no header of the repository defines have the values
  of the parameters \<open>field\<close> and \<open>exit\<close>.
\<close>

section \<open>Fields and exit reasons\<close>

datatype (plugins only: code size) vmcs_field =
    VMCS_PIN_BASED_VM_EXECUTION_CONTROLS | VMCS_PRIMARY_PROC_BASED_VM_EXEC_CONTROLS
  | VMCS_SECONDARY_PROC_BASED_VM_EXEC_CONTROLS | VMCS_VM_EXIT_CONTROLS | VMCS_VM_ENTRY_CONTROLS
  | VMCS_VM_EXIT_REASON | VMCS_VM_EXIT_QUALIFICATION | VMCS_VM_EXIT_INSTRUCTION_LENGTH | VMCS_VM_EXIT_INTERRUPTION_INFO
  | VMCS_HOST_CR0 | VMCS_HOST_CR3 | VMCS_HOST_CR4 | VMCS_HOST_FS_BASE | VMCS_HOST_GS_BASE
  | VMCS_HOST_TR_BASE | VMCS_HOST_GDTR_BASE | VMCS_HOST_IDTR_BASE
  | VMCS_GUEST_CR0 | VMCS_GUEST_CR3 | VMCS_GUEST_CR4 | VMCS_GUEST_ES_BASE | VMCS_GUEST_CS_BASE
  | VMCS_GUEST_RSP | VMCS_GUEST_RIP | VMCS_GUEST_RFLAGS | VMCS_GUEST_ACTIVITY_STATE
  | VMCS_MSR_BITMAP_ADDRESS | VMCS_IO_BITMAP_A_ADDRESS | VMCS_IO_BITMAP_B_ADDRESS | VMCS_EPT_POINTER
  | VMCS_GUEST_ES_SELECTOR | VMCS_GUEST_CS_SELECTOR | VMCS_GUEST_SS_SELECTOR | VMCS_GUEST_DS_SELECTOR
  | VMCS_GUEST_FS_SELECTOR | VMCS_GUEST_GS_SELECTOR | VMCS_GUEST_SS_BASE | VMCS_GUEST_DS_BASE
  | VMCS_GUEST_FS_BASE | VMCS_GUEST_GS_BASE | VMCS_GUEST_LINEAR_ADDRESS

fun vmcs_encoding :: "(vmcs_field \<Rightarrow> u32) \<Rightarrow> vmcs_field \<Rightarrow> u32" where
  "vmcs_encoding field VMCS_PIN_BASED_VM_EXECUTION_CONTROLS = 0x4000"
| "vmcs_encoding field VMCS_PRIMARY_PROC_BASED_VM_EXEC_CONTROLS = 0x4002"
| "vmcs_encoding field VMCS_SECONDARY_PROC_BASED_VM_EXEC_CONTROLS = 0x401E"
| "vmcs_encoding field VMCS_VM_EXIT_CONTROLS = 0x400C"
| "vmcs_encoding field VMCS_VM_ENTRY_CONTROLS = 0x4010"
| "vmcs_encoding field VMCS_VM_EXIT_REASON = 0x4400"
| "vmcs_encoding field VMCS_VM_EXIT_QUALIFICATION = 0x4402"
| "vmcs_encoding field VMCS_VM_EXIT_INSTRUCTION_LENGTH = 0x4404"
| "vmcs_encoding field VMCS_VM_EXIT_INTERRUPTION_INFO = 0x4408"
| "vmcs_encoding field VMCS_HOST_CR0 = 0x6C00"
| "vmcs_encoding field VMCS_HOST_CR3 = 0x6C02"
| "vmcs_encoding field VMCS_HOST_CR4 = 0x6C04"
| "vmcs_encoding field VMCS_HOST_FS_BASE = 0x6C06"
| "vmcs_encoding field VMCS_HOST_GS_BASE = 0x6C08"
| "vmcs_encoding field VMCS_HOST_TR_BASE = 0x6C0A"
| "vmcs_encoding field VMCS_HOST_GDTR_BASE = 0x6C0C"
| "vmcs_encoding field VMCS_HOST_IDTR_BASE = 0x6C0E"
| "vmcs_encoding field VMCS_GUEST_CR0 = 0x8000"
| "vmcs_encoding field VMCS_GUEST_CR3 = 0x8002"
| "vmcs_encoding field VMCS_GUEST_CR4 = 0x8004"
| "vmcs_encoding field VMCS_GUEST_ES_BASE = 0x8006"
| "vmcs_encoding field VMCS_GUEST_CS_BASE = 0x8008"
| "vmcs_encoding field VMCS_GUEST_RSP = 0x801C"
| "vmcs_encoding field VMCS_GUEST_RIP = 0x801E"
| "vmcs_encoding field VMCS_GUEST_RFLAGS = 0x8020"
| "vmcs_encoding field VMCS_GUEST_ACTIVITY_STATE = 0x8056"
| "vmcs_encoding field f = field f"

datatype (plugins only: code size) vmx_exit =
    VMX_EXIT_EXCEPTION_OR_NMI | VMX_EXIT_EXT_INTERRUPT | VMX_EXIT_XSETBV | VMX_EXIT_EPT_VIOLATION | VMX_EXIT_RDTSCP
  | VMX_EXIT_CPUID | VMX_EXIT_HLT | VMX_EXIT_CR_ACCESS | VMX_EXIT_MSR_READ | VMX_EXIT_MSR_WRITE
  | VMX_EXIT_IO_INSTRUCTION | VMX_EXIT_VMCALL | VMX_EXIT_VMXOFF | VMX_EXIT_RDTSC | VMX_EXIT_INVLPG
  | VMX_EXIT_MCE_DURING_ENTRY | VMX_EXIT_MCE_DURING_EXIT | VMX_EXIT_TASK_SWITCH

fun exit_number :: "(vmx_exit \<Rightarrow> u16) \<Rightarrow> vmx_exit \<Rightarrow> u16" where
  "exit_number exit VMX_EXIT_EXCEPTION_OR_NMI = 0"
| "exit_number exit VMX_EXIT_EXT_INTERRUPT = 1"
| "exit_number exit VMX_EXIT_XSETBV = 15"
| "exit_number exit VMX_EXIT_EPT_VIOLATION = 19"
| "exit_number exit VMX_EXIT_RDTSCP = 22"
| "exit_number exit e = exit e"

record cpu_env =
  cpuid :: "u32 \<Rightarrow> u32 \<Rightarrow> u32 \<times> u32 \<times> u32 \<times> u32"
  vmxon_ok :: bool
  vmclear_zf :: "u64 \<Rightarrow> bool"
  host_value :: "vmcs_field \<Rightarrow> u64"
  timestamp :: "u64 \<Rightarrow> u64"
  rdmsr_ok :: "u32 \<Rightarrow> bool"
  wrmsr_ok :: "u32 \<Rightarrow> u64 \<Rightarrow> bool"
  xsetbv_ok :: "u64 \<Rightarrow> bool"
  vm_entry :: "bool \<Rightarrow> u64 \<Rightarrow> backend \<Rightarrow> backend"
  field :: "vmcs_field \<Rightarrow> u32"
  exit :: "vmx_exit \<Rightarrow> u16"

abbreviation enc :: "cpu_env \<Rightarrow> vmcs_field \<Rightarrow> u32" where
  "enc env \<equiv> vmcs_encoding (field env)"

text \<open>The bits \<open>BIT(n)\<close> of the control words.\<close>

definition BIT :: "nat \<Rightarrow> u32" where
  "BIT nr = push_bit nr 1"

section \<open>Detection and enabling\<close>

definition vmx_read_capability :: "backend \<Rightarrow> u32 \<Rightarrow> u64" where
  "vmx_read_capability b msr = hw_msr b msr"

text \<open>\<open>has_vpid\<close> is assigned twice; the second value, the unrestricted-guest bit, stays.\<close>

definition detect_vmx_features :: "cpu_env \<Rightarrow> hypervisor \<Rightarrow> backend \<Rightarrow> hypervisor \<times> backend" where
  "detect_vmx_features env hv b =
     (case cpuid env 1 0 of (eax, ebx, ecx, edx) \<Rightarrow>
        let hv = hv\<lparr>has_vmx := bit ecx 5\<rparr> in
        if \<not> has_vmx hv then (hv, b)
        else
          let c = \<lparr>vmx_basic_revision_id = ucast (vmx_read_capability b 0x480),
                vmx_cap_pinbased = vmx_read_capability b 0x481,
                vmx_cap_procbased = vmx_read_capability b 0x482,
                vmx_cap_procbased2 = vmx_read_capability b 0x48B,
                vmx_cap_exit = vmx_read_capability b 0x483,
                vmx_cap_entry = vmx_read_capability b 0x484,
                vmx_cap_ept_vpid = vmx_read_capability b 0x48C\<rparr>;
              hv = hv\<lparr>vmx := c\<rparr>;
              hv = hv\<lparr>has_ept := bit (vmx_cap_procbased2 c) 1\<rparr>;
              hv = hv\<lparr>has_vpid := bit (vmx_cap_procbased2 c) 5\<rparr>;
              hv = hv\<lparr>has_vpid := bit (vmx_cap_procbased2 c) 7\<rparr>
          in (hv, b\<lparr>vmx_detected := True\<rparr>))"

record vmx_basic_msr =
  revision_id :: u32
  vmx_on_info :: u32
  vmcs_physical_addr_width :: u64

definition vmx_get_basic_info :: "backend \<Rightarrow> vmx_basic_msr" where
  "vmx_get_basic_info b =
     (let v = vmx_read_capability b 0x480 in
      \<lparr>revision_id = ucast v, vmx_on_info = ucast (drop_bit 32 v), vmcs_physical_addr_width = drop_bit 48 v AND 0xFF\<rparr>)"

definition vmx_enable :: "backend \<Rightarrow> nexusvm_result \<times> backend" where
  "vmx_enable b =
     (if \<not> vmx_detected b then (NEXUSVM_ERR_CPU_NOT_SUPPORTED, b)
      else (NEXUSVM_OK, b\<lparr>hw_cr4 := hw_cr4 b OR push_bit 13 1, vmx_enabled := True\<rparr>))"

definition vmx_disable :: "backend \<Rightarrow> backend" where
  "vmx_disable b = b\<lparr>hw_cr4 := hw_cr4 b AND NOT (push_bit 13 1), vmx_enabled := False\<rparr>"

definition vmx_is_enabled :: "backend \<Rightarrow> bool" where
  "vmx_is_enabled b = bit (hw_cr4 b) 13"

definition vmx_is_supported :: "cpu_env \<Rightarrow> bool" where
  "vmx_is_supported env = (case cpuid env 1 0 of (eax, ebx, ecx, edx) \<Rightarrow> bit ecx 5)"

section \<open>Regions\<close>

text \<open>The size of a region: the low 13 bits of the upper half of the basic MSR, at least one page.\<close>

definition region_bytes :: "vmx_basic_msr \<Rightarrow> u64" where
  "region_bytes basic = (let n = vmx_on_info basic AND 0x1FFF in ucast (if n < 4096 then 4096 else n))"

definition set_revision :: "u32 \<Rightarrow> u8 list \<Rightarrow> u8 list" where
  "set_revision rid bs = le_bytes 4 (ucast rid) @ drop 4 bs"

definition vmx_alloc_vmxon_region :: "buf_alloc \<Rightarrow> world \<Rightarrow> nexusvm_result \<times> u64 \<times> world" where
  "vmx_alloc_vmxon_region al w =
     (let basic = vmx_get_basic_info (be w) in
      case buf_new al (bufs w) (region_bytes basic) of (r, h) \<Rightarrow>
        if r = 0 then (NEXUSVM_ERR_NO_MEMORY, 0, w)
        else (NEXUSVM_OK, r, w\<lparr>bufs := h(r := map_option (set_revision (revision_id basic)) (h r))\<rparr>))"

definition vmx_alloc_vmcs_region :: "buf_alloc \<Rightarrow> world \<Rightarrow> nexusvm_result \<times> u64 \<times> world" where
  "vmx_alloc_vmcs_region al w =
     (let basic = vmx_get_basic_info (be w) in
      case buf_new al (bufs w) (region_bytes basic) of (r, h) \<Rightarrow>
        if r = 0 then (NEXUSVM_ERR_NO_MEMORY, 0, w)
        else (NEXUSVM_OK, r, w\<lparr>bufs := h(r := map_option (set_revision (revision_id basic)) (h r))\<rparr>))"

definition vmx_free_vmxon_region :: "world \<Rightarrow> u64 \<Rightarrow> world run" where
  "vmx_free_vmxon_region w r = do { h \<leftarrow> buf_free (bufs w) r; Some (w\<lparr>bufs := h\<rparr>) }"

definition vmx_free_vmcs_region :: "world \<Rightarrow> u64 \<Rightarrow> world run" where
  "vmx_free_vmcs_region w r = do { h \<leftarrow> buf_free (bufs w) r; Some (w\<lparr>bufs := h\<rparr>) }"

section \<open>VMXON and the VMCS\<close>

text \<open>The output operand of the assembly block of \<open>vmx_on\<close> is the number of the virtual CPU: 0 or -1.\<close>

definition vmx_on :: "cpu_env \<Rightarrow> world \<Rightarrow> ref option \<Rightarrow> (nexusvm_result \<times> world) run" where
  "vmx_on env w vcpu =
     (case vcpu of None \<Rightarrow> Some (NEXUSVM_ERR_INVALID_PARAM, w)
      | Some r \<Rightarrow> do {
          v \<leftarrow> vcpu_objs w r;
          if vmx_on_region v = 0 then Some (NEXUSVM_ERR_INVALID_PARAM, w)
          else Some (NEXUSVM_OK, upd_vcpu w r (\<lambda>v. v\<lparr>vcpu_id := (if vmxon_ok env then 0 else -1)\<rparr>))
        })"

text \<open>
  \<open>vmclear\<close> of the current VMCS leaves no VMCS current. The function maps the zero flag, which the
  instruction sets when it fails, to success.
\<close>

definition vmx_vmcs_clear :: "cpu_env \<Rightarrow> world \<Rightarrow> ref option \<Rightarrow> (nexusvm_result \<times> world) run" where
  "vmx_vmcs_clear env w vcpu =
     (case vcpu of None \<Rightarrow> Some (NEXUSVM_ERR_INVALID_PARAM, w)
      | Some r \<Rightarrow> do {
          v \<leftarrow> vcpu_objs w r;
          let p = vmx_vmcs_region v;
          if p = 0 then Some (NEXUSVM_ERR_INVALID_PARAM, w)
          else Some (if vmclear_zf env p then NEXUSVM_OK else NEXUSVM_ERR_VMX_FAILED,
                     w\<lparr>be := (be w)\<lparr>vmcs_current := (if vmcs_current (be w) = Some p then None else vmcs_current (be w))\<rparr>\<rparr>)
        })"

text \<open>
  \<open>vmx_off\<close> and \<open>vmx_vmcs_init\<close> name an instruction and an operand that the assembler does not have; what they do to the processor, and
  whether the second reports a failure, are parameters. The output operand of the second is the number of the virtual CPU.
\<close>

definition vmx_off :: "(backend \<Rightarrow> backend) \<Rightarrow> world \<Rightarrow> ref option \<Rightarrow> nexusvm_result \<times> world" where
  "vmx_off off w vcpu = (NEXUSVM_OK, w\<lparr>be := off (be w)\<rparr>)"

definition vmx_vmcs_init :: "(u64 \<Rightarrow> bool) \<Rightarrow> world \<Rightarrow> ref option \<Rightarrow> (nexusvm_result \<times> world) run" where
  "vmx_vmcs_init fails w vcpu =
     (case vcpu of None \<Rightarrow> Some (NEXUSVM_ERR_INVALID_PARAM, w)
      | Some r \<Rightarrow> do {
          v \<leftarrow> vcpu_objs w r;
          let p = vmx_vmcs_region v;
          if p = 0 then Some (NEXUSVM_ERR_INVALID_PARAM, w)
          else Some (NEXUSVM_OK, upd_vcpu w r (\<lambda>v. v\<lparr>vcpu_id := (if fails p then -1 else 0)\<rparr>))
        })"

text \<open>
  \<open>vmread\<close> and \<open>vmwrite\<close> fail without a current VMCS: the write is lost, and the read leaves the encoding
  in the register that holds the result.
\<close>

definition vmx_vmread :: "backend \<Rightarrow> u32 \<Rightarrow> u64" where
  "vmx_vmread b e = (case vmcs_current b of None \<Rightarrow> ucast e | Some p \<Rightarrow> vmcs_mem b p e)"

definition vmx_vmwrite :: "u32 \<Rightarrow> u64 \<Rightarrow> backend \<Rightarrow> backend" where
  "vmx_vmwrite e x b =
     (case vmcs_current b of None \<Rightarrow> b
      | Some p \<Rightarrow> b\<lparr>vmcs_mem := (vmcs_mem b)(p := (vmcs_mem b p)(e := x))\<rparr>)"

text \<open>\<open>vmptrst\<close> stores all ones when no VMCS is current.\<close>

definition vmx_vmcs_current :: "backend \<Rightarrow> u64" where
  "vmx_vmcs_current b = (case vmcs_current b of None \<Rightarrow> -1 | Some p \<Rightarrow> p)"

section \<open>Virtual CPUs\<close>

definition vmx_vcpu_init :: "buf_alloc \<Rightarrow> world \<Rightarrow> ref option \<Rightarrow> (nexusvm_result \<times> world) run" where
  "vmx_vcpu_init al w vcpu =
     (case vcpu of None \<Rightarrow> Some (NEXUSVM_ERR_INVALID_PARAM, w)
      | Some r \<Rightarrow>
          (case vmx_alloc_vmxon_region al w of (result, p, w) \<Rightarrow>
            if result \<noteq> NEXUSVM_OK then Some (result, w)
            else do {
              _ \<leftarrow> vcpu_objs w r;
              let w = upd_vcpu w r (\<lambda>v. v\<lparr>vmx_on_region := p\<rparr>);
              case vmx_alloc_vmcs_region al w of (result, q, w) \<Rightarrow>
                if result \<noteq> NEXUSVM_OK then do { w \<leftarrow> vmx_free_vmxon_region w p; Some (result, w) }
                else Some (NEXUSVM_OK, upd_vcpu w r (\<lambda>v. v\<lparr>vmx_vmcs_region := q\<rparr>))
            }))"

definition pin_ctls :: "hypervisor \<Rightarrow> u32" where
  "pin_ctls hv = BIT 0 OR BIT 3 OR (if bit (vmx_cap_pinbased (vmx hv)) 5 then BIT 5 else 0)"

definition proc_ctls :: u32 where
  "proc_ctls = BIT 15 OR BIT 16 OR BIT 21 OR BIT 25 OR BIT 28 OR BIT 30 OR BIT 31"

definition proc2_ctls :: "hypervisor \<Rightarrow> u32" where
  "proc2_ctls hv = (if has_ept hv then BIT 1 else 0) OR (if has_vpid hv then BIT 5 else 0) OR BIT 7"

definition exit_ctls :: "hypervisor \<Rightarrow> u32" where
  "exit_ctls hv =
     (let c = vmx_cap_exit (vmx hv) in
      BIT 2 OR BIT 15 OR BIT 9 OR (if bit c 18 then BIT 18 else 0) OR (if bit c 19 then BIT 19 else 0) OR
      (if bit c 20 then BIT 20 else 0) OR (if bit c 21 then BIT 21 else 0))"

definition entry_ctls :: u32 where
  "entry_ctls = BIT 2 OR BIT 14 OR BIT 15"

definition eptp_value :: "eptp \<Rightarrow> u64" where
  "eptp_value e = push_bit 3 (ucast (eptp_memory_type e)) OR push_bit 6 (ucast (page_walk_length e) - 1) OR
     push_bit 6 (of_bool (enable_accessed_dirty e)) OR (ucast (pml4_physical_address e) AND 0xFFFFFFFFFF)"

definition vmx_set_eptp :: "cpu_env \<Rightarrow> eptp option \<Rightarrow> backend \<Rightarrow> backend" where
  "vmx_set_eptp env e b = (case e of None \<Rightarrow> b | Some e \<Rightarrow> vmx_vmwrite (enc env VMCS_EPT_POINTER) (eptp_value e) b)"

text \<open>The writes of \<open>vmx_vcpu_setup\<close> before and after the EPT pointer, in the order of the source.\<close>

definition control_writes :: "hypervisor \<Rightarrow> nexusvcpu \<Rightarrow> (vmcs_field \<times> u64) list" where
  "control_writes hv v =
     [(VMCS_PIN_BASED_VM_EXECUTION_CONTROLS, ucast (pin_ctls hv)),
      (VMCS_PRIMARY_PROC_BASED_VM_EXEC_CONTROLS, ucast proc_ctls),
      (VMCS_SECONDARY_PROC_BASED_VM_EXEC_CONTROLS, ucast (proc2_ctls hv)),
      (VMCS_VM_EXIT_CONTROLS, ucast (exit_ctls hv)),
      (VMCS_VM_ENTRY_CONTROLS, ucast entry_ctls),
      (VMCS_MSR_BITMAP_ADDRESS, msr_bitmap v),
      (VMCS_IO_BITMAP_A_ADDRESS, io_bitmap_a v),
      (VMCS_IO_BITMAP_B_ADDRESS, io_bitmap_b v)]"

definition state_writes :: "cpu_env \<Rightarrow> nexusvcpu \<Rightarrow> (vmcs_field \<times> u64) list" where
  "state_writes env v =
     (let s = cpu_state_of v in
      map (\<lambda>f. (f, host_value env f)) [VMCS_HOST_CR0, VMCS_HOST_CR3, VMCS_HOST_CR4, VMCS_HOST_FS_BASE, VMCS_HOST_GS_BASE,
        VMCS_HOST_GDTR_BASE, VMCS_HOST_IDTR_BASE, VMCS_HOST_TR_BASE] @
      [(VMCS_GUEST_CR0, cr0 (cr s)), (VMCS_GUEST_CR3, cr3 (cr s)), (VMCS_GUEST_CR4, cr4 (cr s)),
       (VMCS_GUEST_RSP, rsp (gprs s)), (VMCS_GUEST_RIP, rip (gprs s)), (VMCS_GUEST_RFLAGS, rflags (gprs s)),
       (VMCS_GUEST_ES_SELECTOR, ucast (selector (es s))), (VMCS_GUEST_CS_SELECTOR, ucast (selector (cs s))),
       (VMCS_GUEST_SS_SELECTOR, ucast (selector (ss s))), (VMCS_GUEST_DS_SELECTOR, ucast (selector (ds s))),
       (VMCS_GUEST_FS_SELECTOR, ucast (selector (fs s))), (VMCS_GUEST_GS_SELECTOR, ucast (selector (gs s))),
       (VMCS_GUEST_ES_BASE, base (es s)), (VMCS_GUEST_CS_BASE, base (cs s)), (VMCS_GUEST_SS_BASE, base (ss s)),
       (VMCS_GUEST_DS_BASE, base (ds s)), (VMCS_GUEST_FS_BASE, base (fs s)), (VMCS_GUEST_GS_BASE, base (gs s)),
       (VMCS_GUEST_ACTIVITY_STATE, 0)])"

definition write_fields :: "cpu_env \<Rightarrow> (vmcs_field \<times> u64) list \<Rightarrow> backend \<Rightarrow> backend" where
  "write_fields env ws b = fold (\<lambda>(f, x). vmx_vmwrite (enc env f) x) ws b"

definition vmx_vcpu_setup :: "cpu_env \<Rightarrow> world \<Rightarrow> ref option \<Rightarrow> (nexusvm_result \<times> world) run" where
  "vmx_vcpu_setup env w vcpu =
     (case vcpu of None \<Rightarrow> Some (NEXUSVM_ERR_INVALID_PARAM, w)
      | Some r \<Rightarrow> do {
          v \<leftarrow> vcpu_objs w r;
          if vmx_on_region v = 0 \<or> vmx_vmcs_region v = 0 then Some (NEXUSVM_ERR_INVALID_PARAM, w)
          else do {
            (_, w) \<leftarrow> vmx_on env w vcpu;
            (_, w) \<leftarrow> vmx_vmcs_clear env w vcpu;
            hv \<leftarrow> g_hypervisor w;
            let b = write_fields env (control_writes hv v) (be w);
            b \<leftarrow> (if has_ept hv then do { m \<leftarrow> get_vm w (vm v); Some (vmx_set_eptp env (ept_pointer m) b) } else Some b);
            let b = write_fields env (state_writes env v) b;
            (_, w) \<leftarrow> vmx_vmcs_clear env (w\<lparr>be := b\<rparr>) vcpu;
            Some (NEXUSVM_OK, w)
          }
        })"

definition vmx_vcpu_cleanup :: "world \<Rightarrow> ref option \<Rightarrow> world run" where
  "vmx_vcpu_cleanup w vcpu =
     (case vcpu of None \<Rightarrow> Some w
      | Some r \<Rightarrow> do {
          v \<leftarrow> vcpu_objs w r;
          w \<leftarrow> (if vmx_vmcs_region v \<noteq> 0
                then do { w \<leftarrow> vmx_free_vmcs_region w (vmx_vmcs_region v); Some (upd_vcpu w r (\<lambda>v. v\<lparr>vmx_vmcs_region := 0\<rparr>)) }
                else Some w);
          if vmx_on_region v \<noteq> 0
          then do { w \<leftarrow> vmx_free_vmxon_region w (vmx_on_region v); Some (upd_vcpu w r (\<lambda>v. v\<lparr>vmx_on_region := 0\<rparr>)) }
          else Some w
        })"

section \<open>Exit handlers\<close>

text \<open>The three statements at the end of most handlers.\<close>

definition advance_rip :: "cpu_env \<Rightarrow> world \<Rightarrow> world" where
  "advance_rip env w =
     (let rip = vmx_vmread (be w) (enc env VMCS_GUEST_RIP);
          len = vmx_vmread (be w) (enc env VMCS_VM_EXIT_INSTRUCTION_LENGTH)
      in w\<lparr>be := vmx_vmwrite (enc env VMCS_GUEST_RIP) (rip + len) (be w)\<rparr>)"

definition upd_gprs :: "world \<Rightarrow> ref \<Rightarrow> (guest_gprs \<Rightarrow> guest_gprs) \<Rightarrow> world" where
  "upd_gprs w r f = upd_vcpu w r (\<lambda>v. v\<lparr>cpu_state_of := (cpu_state_of v)\<lparr>gprs := f (gprs (cpu_state_of v))\<rparr>\<rparr>)"

definition regs :: "nexusvcpu \<Rightarrow> guest_gprs" where
  "regs v = gprs (cpu_state_of v)"

definition vmx_handle_interrupt :: "cpu_env \<Rightarrow> world \<Rightarrow> ref \<Rightarrow> (nexusvm_result \<times> world) run" where
  "vmx_handle_interrupt env w r = Some (NEXUSVM_OK, w)"

text \<open>The subleaf of the executed \<open>cpuid\<close> is the local variable \<open>ecx\<close>, which is 0.\<close>

definition vmx_handle_cpuid :: "cpu_env \<Rightarrow> world \<Rightarrow> ref \<Rightarrow> (nexusvm_result \<times> world) run" where
  "vmx_handle_cpuid env w r = do {
     v \<leftarrow> vcpu_objs w r;
     case cpuid env (ucast (rax (regs v) AND 0xFFFFFFFF)) 0 of (a, b, c, d) \<Rightarrow>
       Some (NEXUSVM_OK, advance_rip env
         (upd_gprs w r (\<lambda>g. g\<lparr>rax := ucast a, rbx := ucast b, rcx := ucast c, rdx := ucast d\<rparr>)))
   }"

definition vmx_handle_hlt :: "cpu_env \<Rightarrow> world \<Rightarrow> ref \<Rightarrow> (nexusvm_result \<times> world) run" where
  "vmx_handle_hlt env w r = Some (NEXUSVM_OK, advance_rip env w)"

definition vmx_handle_cr_access :: "cpu_env \<Rightarrow> world \<Rightarrow> ref \<Rightarrow> u64 \<Rightarrow> (nexusvm_result \<times> world) run" where
  "vmx_handle_cr_access env w r qual = Some (NEXUSVM_OK, w)"

text \<open>
  \<open>rdmsr\<close> leaves the lower half of the register in \<open>rax\<close>, the only output that is used as the value. A register that the processor
  refuses is a fault of the host.
\<close>

definition vmx_handle_msr_read :: "cpu_env \<Rightarrow> world \<Rightarrow> ref \<Rightarrow> (nexusvm_result \<times> world) run" where
  "vmx_handle_msr_read env w r = do {
     v \<leftarrow> vcpu_objs w r;
     let msr = ucast (rcx (regs v));
     if \<not> rdmsr_ok env msr then None
     else do {
       let x = take_bit 32 (hw_msr (be w) msr);
       Some (NEXUSVM_OK, advance_rip env
         (upd_gprs w r (\<lambda>g. g\<lparr>rax := x AND 0xFFFFFFFF, rdx := drop_bit 32 x AND 0xFFFFFFFF\<rparr>)))
     }
   }"

definition vmx_handle_msr_write :: "cpu_env \<Rightarrow> world \<Rightarrow> ref \<Rightarrow> (nexusvm_result \<times> world) run" where
  "vmx_handle_msr_write env w r = do {
     v \<leftarrow> vcpu_objs w r;
     let msr = ucast (rcx (regs v));
     let x = rax (regs v) OR push_bit 32 (rdx (regs v));
     if \<not> wrmsr_ok env msr x then None
     else Some (NEXUSVM_OK, advance_rip env (w\<lparr>be := (be w)\<lparr>hw_msr := (hw_msr (be w))(msr := x)\<rparr>\<rparr>))
   }"

text \<open>The handler decodes the qualification and performs no access.\<close>

definition vmx_handle_io :: "cpu_env \<Rightarrow> world \<Rightarrow> ref \<Rightarrow> u64 \<Rightarrow> (nexusvm_result \<times> world) run" where
  "vmx_handle_io env w r qual = Some (NEXUSVM_OK, advance_rip env w)"

definition vmx_handle_ept_violation :: "cpu_env \<Rightarrow> world \<Rightarrow> ref \<Rightarrow> u64 \<Rightarrow> (nexusvm_result \<times> world) run" where
  "vmx_handle_ept_violation env w r qual =
     (if bit qual 3 then Some (NEXUSVM_ERR_GENERIC, w)
      else if \<not> bit qual 7 then Some (NEXUSVM_ERR_GENERIC, w)
      else Some (NEXUSVM_OK, w))"

definition hypercall_args :: "guest_gprs \<Rightarrow> hypercall_params" where
  "hypercall_args g = \<lparr>p_rax = rax g, p_rbx = rbx g, p_rcx = rcx g, p_rdx = rdx g, p_rsi = rsi g, p_rdi = rdi g,
     p_r8 = r8 g, p_r9 = r9 g, p_r10 = r10 g, p_r11 = r11 g, p_r12 = r12 g\<rparr>"

definition vmx_handle_vmcall :: "cpu_env \<Rightarrow> world \<Rightarrow> ref \<Rightarrow> (nexusvm_result \<times> world) run" where
  "vmx_handle_vmcall env w r = do {
     v \<leftarrow> vcpu_objs w r;
     (st, res, w) \<leftarrow> hypercall_handle w (Some r) (Some (hypercall_args (regs v))) (Some cleared_result);
     res \<leftarrow> res;
     Some (st, advance_rip env
       (upd_gprs w r (\<lambda>g. g\<lparr>rax := ret0 res, rbx := ret1 res, rcx := ret2 res, rdx := ret3 res\<rparr>)))
   }"

definition vmx_handle_rdtsc :: "cpu_env \<Rightarrow> world \<Rightarrow> ref \<Rightarrow> (nexusvm_result \<times> world) run" where
  "vmx_handle_rdtsc env w r = do {
     v \<leftarrow> vcpu_objs w r;
     let tsc = timestamp env (vmexit_count v);
     Some (NEXUSVM_OK, advance_rip env
       (upd_gprs w r (\<lambda>g. g\<lparr>rax := tsc AND 0xFFFFFFFF, rdx := drop_bit 32 tsc AND 0xFFFFFFFF\<rparr>)))
   }"

definition vmx_handle_invlpg :: "cpu_env \<Rightarrow> world \<Rightarrow> ref \<Rightarrow> u64 \<Rightarrow> (nexusvm_result \<times> world) run" where
  "vmx_handle_invlpg env w r qual = Some (NEXUSVM_OK, advance_rip env w)"

definition vmx_handle_xsetbv :: "cpu_env \<Rightarrow> world \<Rightarrow> ref \<Rightarrow> (nexusvm_result \<times> world) run" where
  "vmx_handle_xsetbv env w r = do {
     v \<leftarrow> vcpu_objs w r;
     let x = rax (regs v) OR push_bit 32 (rdx (regs v));
     if rcx (regs v) AND 0xFFFFFFFF = 0 \<and> \<not> xsetbv_ok env x then None
     else Some (NEXUSVM_OK, advance_rip env
       (if rcx (regs v) AND 0xFFFFFFFF = 0 then w\<lparr>be := (be w)\<lparr>hw_xcr0 := x\<rparr>\<rparr> else w))
   }"

definition vmx_handle_machine_check :: "cpu_env \<Rightarrow> world \<Rightarrow> ref \<Rightarrow> (nexusvm_result \<times> world) run" where
  "vmx_handle_machine_check env w r =
     do { _ \<leftarrow> vcpu_objs w r; Some (NEXUSVM_ERR_GENERIC, upd_vcpu w r (\<lambda>v. v\<lparr>running := False\<rparr>)) }"

definition vmx_handle_task_switch :: "cpu_env \<Rightarrow> world \<Rightarrow> ref \<Rightarrow> (nexusvm_result \<times> world) run" where
  "vmx_handle_task_switch env w r = Some (NEXUSVM_ERR_NOT_SUPPORTED, w)"

text \<open>The \<open>switch\<close> on the low 16 bits of the exit reason, in the order of its labels.\<close>

definition vmx_handle_vmexit :: "cpu_env \<Rightarrow> world \<Rightarrow> ref \<Rightarrow> u64 \<Rightarrow> u64 \<Rightarrow> (nexusvm_result \<times> world) run" where
  "vmx_handle_vmexit env w r exit_reason exit_qual =
     (let code = (ucast (exit_reason AND 0xFFFF) :: u16); is = (\<lambda>e. code = exit_number (exit env) e) in
      if is VMX_EXIT_EXT_INTERRUPT \<or> is VMX_EXIT_EXCEPTION_OR_NMI then vmx_handle_interrupt env w r
      else if is VMX_EXIT_CPUID then vmx_handle_cpuid env w r
      else if is VMX_EXIT_HLT then vmx_handle_hlt env w r
      else if is VMX_EXIT_CR_ACCESS then vmx_handle_cr_access env w r exit_qual
      else if is VMX_EXIT_MSR_READ then vmx_handle_msr_read env w r
      else if is VMX_EXIT_MSR_WRITE then vmx_handle_msr_write env w r
      else if is VMX_EXIT_IO_INSTRUCTION then vmx_handle_io env w r exit_qual
      else if is VMX_EXIT_EPT_VIOLATION then vmx_handle_ept_violation env w r exit_qual
      else if is VMX_EXIT_VMCALL then vmx_handle_vmcall env w r
      else if is VMX_EXIT_VMXOFF then
        do { _ \<leftarrow> vcpu_objs w r; Some (NEXUSVM_OK, upd_vcpu w r (\<lambda>v. v\<lparr>running := False\<rparr>)) }
      else if is VMX_EXIT_RDTSC \<or> is VMX_EXIT_RDTSCP then vmx_handle_rdtsc env w r
      else if is VMX_EXIT_INVLPG then vmx_handle_invlpg env w r exit_qual
      else if is VMX_EXIT_XSETBV then vmx_handle_xsetbv env w r
      else if is VMX_EXIT_MCE_DURING_ENTRY \<or> is VMX_EXIT_MCE_DURING_EXIT then vmx_handle_machine_check env w r
      else if is VMX_EXIT_TASK_SWITCH then vmx_handle_task_switch env w r
      else Some (NEXUSVM_ERR_GENERIC, w))"

section \<open>The run loop\<close>

text \<open>One round: \<open>vmlaunch\<close> for virtual CPU 0 and \<open>vmresume\<close> for the others, the exit, and the handler.\<close>

definition vmx_round :: "cpu_env \<Rightarrow> world \<Rightarrow> ref \<Rightarrow> (nexusvm_result \<times> world) run" where
  "vmx_round env w r = do {
     v \<leftarrow> vcpu_objs w r;
     let n = vmentry_count v + 1;
     let w = upd_vcpu w r (\<lambda>v. v\<lparr>vmentry_count := n\<rparr>);
     let w = w\<lparr>be := vm_entry env (vcpu_id v = 0) n (be w)\<rparr>;
     let w = upd_vcpu w r (\<lambda>v. v\<lparr>vmexit_count := vmexit_count v + 1\<rparr>);
     vmx_handle_vmexit env w r (vmx_vmread (be w) (enc env VMCS_VM_EXIT_REASON))
       (vmx_vmread (be w) (enc env VMCS_VM_EXIT_QUALIFICATION))
   }"

partial_function (option) vmx_run_loop :: "cpu_env \<Rightarrow> world \<Rightarrow> ref \<Rightarrow> (nexusvm_result \<times> world) option" where
  "vmx_run_loop env w r = do {
     v \<leftarrow> vcpu_objs w r;
     if running v then do {
       (result, w) \<leftarrow> vmx_round env w r;
       if result \<noteq> NEXUSVM_OK then Some (result, w) else vmx_run_loop env w r
     } else Some (NEXUSVM_OK, w)
   }"

definition vmx_vcpu_run :: "cpu_env \<Rightarrow> world \<Rightarrow> ref option \<Rightarrow> (nexusvm_result \<times> world) run" where
  "vmx_vcpu_run env w vcpu =
     (case vcpu of None \<Rightarrow> Some (NEXUSVM_ERR_INVALID_PARAM, w)
      | Some r \<Rightarrow> do {
          v \<leftarrow> vcpu_objs w r;
          if vmx_vmcs_region v = 0 then Some (NEXUSVM_ERR_INVALID_PARAM, w)
          else do {
            (_, w) \<leftarrow> vmx_vmcs_clear env w vcpu;
            vmx_run_loop env w r
          }
        })"

definition vmx_vmexit :: "cpu_env \<Rightarrow> world \<Rightarrow> ref option \<Rightarrow> (nexusvm_result \<times> world) run" where
  "vmx_vmexit = vmx_vcpu_run"

definition vmx_vmentry :: "cpu_env \<Rightarrow> world \<Rightarrow> ref option \<Rightarrow> nexusvm_result \<times> world" where
  "vmx_vmentry env w vcpu =
     (if vcpu = None then (NEXUSVM_ERR_INVALID_PARAM, w) else (NEXUSVM_OK, w\<lparr>be := vm_entry env True 0 (be w)\<rparr>))"

section \<open>Bitmaps\<close>

text \<open>The body shared by the four functions on the MSR bitmap; \<open>off\<close> is the addend of the index.\<close>

definition msr_intercept :: "(u32 \<Rightarrow> u8 \<Rightarrow> u8) \<Rightarrow> u32 \<Rightarrow> world \<Rightarrow> ref option \<Rightarrow> u32 \<Rightarrow> world run" where
  "msr_intercept f off w vcpu msr =
     (case vcpu of None \<Rightarrow> Some w
      | Some r \<Rightarrow> do {
          v \<leftarrow> vcpu_objs w r;
          if msr_bitmap v = 0 then Some w
          else
            let index = msr div 8 + off; b = msr mod 8 in
            if index < 8192 then do { h \<leftarrow> upd8 (bufs w) (msr_bitmap v) (unat index) (f b); Some (w\<lparr>bufs := h\<rparr>) }
            else Some w
        })"

definition vmx_enable_msr_read_intercept :: "world \<Rightarrow> ref option \<Rightarrow> u32 \<Rightarrow> world run" where
  "vmx_enable_msr_read_intercept = msr_intercept set_bit8 0"

definition vmx_disable_msr_read_intercept :: "world \<Rightarrow> ref option \<Rightarrow> u32 \<Rightarrow> world run" where
  "vmx_disable_msr_read_intercept = msr_intercept clear_bit8 0"

definition vmx_enable_msr_write_intercept :: "world \<Rightarrow> ref option \<Rightarrow> u32 \<Rightarrow> world run" where
  "vmx_enable_msr_write_intercept = msr_intercept set_bit8 2048"

definition vmx_disable_msr_write_intercept :: "world \<Rightarrow> ref option \<Rightarrow> u32 \<Rightarrow> world run" where
  "vmx_disable_msr_write_intercept = msr_intercept clear_bit8 2048"

definition io_intercept :: "(u32 \<Rightarrow> u8 \<Rightarrow> u8) \<Rightarrow> world \<Rightarrow> ref option \<Rightarrow> u16 \<Rightarrow> world run" where
  "io_intercept f w vcpu pt =
     (case vcpu of None \<Rightarrow> Some w
      | Some r \<Rightarrow> do {
          v \<leftarrow> vcpu_objs w r;
          let index = (ucast pt :: u32) div 8;
          let b = (ucast pt :: u32) mod 8;
          if index < 4096 then do {
            h \<leftarrow> upd8 (bufs w) (io_bitmap_a v) (unat index) (f b);
            h \<leftarrow> upd8 h (io_bitmap_b v) (unat index) (f b);
            Some (w\<lparr>bufs := h\<rparr>)
          } else Some w
        })"

definition vmx_enable_io_port_intercept :: "world \<Rightarrow> ref option \<Rightarrow> u16 \<Rightarrow> world run" where
  "vmx_enable_io_port_intercept = io_intercept set_bit8"

definition vmx_disable_io_port_intercept :: "world \<Rightarrow> ref option \<Rightarrow> u16 \<Rightarrow> world run" where
  "vmx_disable_io_port_intercept = io_intercept clear_bit8"

end
