(* ===== verification/Svm.thy ===== *)
theory Svm
  imports Vmx
begin

text \<open>
  The AMD-V backend of \<^verbatim>\<open>src/hypervisor/amd-v/svm.c\<close>. The VMCB is a byte buffer of 4096 bytes that the code
  accesses as an array of bytes or through 64-bit pointers into it. What the processor does with it is
  the parameter \<open>svm_env\<close>: the effect of \<open>vmsave\<close> and of the n-th \<open>vmrun\<close> on its bytes, and the time stamp
  read while it has given bytes. The parameter also gives the values of names that no header of the
  repository defines, the members \<open>gdtr_base\<close> and \<open>idtr_base\<close> that the register structure does not have, and the
  content of the uninitialised local variable of \<open>svm_handle_vmmcall\<close>.
\<close>

record svm_env =
  cpu :: cpu_env
  vmsave :: "u8 list \<Rightarrow> u8 list"
  vmrun :: "u64 \<Rightarrow> u8 list \<Rightarrow> u8 list"
  vmcb_tsc :: "u8 list \<Rightarrow> u64"
  SVM_EXIT_VMMCALL :: u64
  SVM_EXIT_VMRUN :: u64
  gdtr_base :: "cpu_state \<Rightarrow> u64"
  idtr_base :: "cpu_state \<Rightarrow> u64"
  uninitialised :: hypercall_result

definition with_bufs :: "world \<Rightarrow> (buffers \<Rightarrow> buffers run) \<Rightarrow> world run" where
  "with_bufs w f = do { h \<leftarrow> f (bufs w); Some (w\<lparr>bufs := h\<rparr>) }"

section \<open>Detection and enabling\<close>

definition detect_svm_features :: "cpu_env \<Rightarrow> hypervisor \<Rightarrow> backend \<Rightarrow> hypervisor \<times> backend" where
  "detect_svm_features env hv b =
     (case cpuid env 0x80000001 0 of (eax, ebx, ecx, edx) \<Rightarrow>
        let hv = hv\<lparr>has_svm := bit edx 2\<rparr> in
        if \<not> has_svm hv then (hv, b)
        else
          (case cpuid env 0x8000000A 0 of (eax, ebx, ecx, edx) \<Rightarrow>
            (hv\<lparr>has_npt := bit edx 0\<rparr>, b\<lparr>svm_detected := True\<rparr>)))"

definition svm_read_msr :: "backend \<Rightarrow> u32 \<Rightarrow> u64" where
  "svm_read_msr b msr = hw_msr b msr"

definition svm_write_msr :: "u32 \<Rightarrow> u64 \<Rightarrow> backend \<Rightarrow> backend" where
  "svm_write_msr msr x b = b\<lparr>hw_msr := (hw_msr b)(msr := x)\<rparr>"

definition svm_enable :: "backend \<Rightarrow> nexusvm_result \<times> backend" where
  "svm_enable b =
     (if \<not> svm_detected b then (NEXUSVM_ERR_CPU_NOT_SUPPORTED, b)
      else
        let efer = svm_read_msr b 0xC0000080; efer = efer OR push_bit 12 1 in
        (NEXUSVM_OK, (svm_write_msr 0xC0000080 efer b)\<lparr>svm_enabled := True\<rparr>))"

definition svm_disable :: "backend \<Rightarrow> backend" where
  "svm_disable b =
     (let efer = svm_read_msr b 0xC0000080; efer = efer AND NOT (push_bit 12 1) in
      (svm_write_msr 0xC0000080 efer b)\<lparr>svm_enabled := False\<rparr>)"

definition svm_is_enabled :: "backend \<Rightarrow> bool" where
  "svm_is_enabled b = bit (svm_read_msr b 0xC0000080) 12"

definition svm_is_supported :: "cpu_env \<Rightarrow> bool" where
  "svm_is_supported env = (case cpuid env 0x80000001 0 of (eax, ebx, ecx, edx) \<Rightarrow> bit edx 2)"

section \<open>VMCB management\<close>

definition svm_alloc_vmcb :: "buf_alloc \<Rightarrow> world \<Rightarrow> nexusvm_result \<times> u64 \<times> world" where
  "svm_alloc_vmcb al w =
     (case buf_new al (bufs w) 4096 of (r, h) \<Rightarrow>
        if r = 0 then (NEXUSVM_ERR_NO_MEMORY, 0, w) else (NEXUSVM_OK, r, w\<lparr>bufs := h\<rparr>))"

definition svm_free_vmcb :: "world \<Rightarrow> u64 \<Rightarrow> world run" where
  "svm_free_vmcb w p = with_bufs w (\<lambda>h. buf_free h p)"

definition svm_alloc_hsave :: "buf_alloc \<Rightarrow> world \<Rightarrow> nexusvm_result \<times> u64 \<times> world" where
  "svm_alloc_hsave al w =
     (case buf_new al (bufs w) 4096 of (r, h) \<Rightarrow>
        if r = 0 then (NEXUSVM_ERR_NO_MEMORY, 0, w) else (NEXUSVM_OK, r, w\<lparr>bufs := h\<rparr>))"

definition svm_free_hsave :: "world \<Rightarrow> u64 \<Rightarrow> world run" where
  "svm_free_hsave w p = with_bufs w (\<lambda>h. buf_free h p)"

text \<open>An instruction on the VMCB at an address: undefined where no buffer is.\<close>

definition on_vmcb :: "(u8 list \<Rightarrow> u8 list) \<Rightarrow> world \<Rightarrow> u64 \<Rightarrow> world run" where
  "on_vmcb f w p = do { bs \<leftarrow> bufs w p; Some (w\<lparr>bufs := (bufs w)(p \<mapsto> f bs)\<rparr>) }"

definition svm_vmsave :: "svm_env \<Rightarrow> world \<Rightarrow> u64 \<Rightarrow> world run" where
  "svm_vmsave env = on_vmcb (vmsave env)"

text \<open>
  \<open>vmload\<close> reads the VMCB into registers that only the guest uses; what they hold is part of the parameter \<open>vmrun\<close>. \<open>stgi\<close> and \<open>clgi\<close> set and
  clear the global interrupt flag, without which no interrupt reaches the processor.
\<close>

definition svm_vmload :: "world \<Rightarrow> u64 \<Rightarrow> world run" where
  "svm_vmload w p = do { _ \<leftarrow> bufs w p; Some w }"

definition svm_clgi :: "world \<Rightarrow> world" where
  "svm_clgi w = w\<lparr>be := (be w)\<lparr>gif := False\<rparr>\<rparr>"

definition svm_stgi :: "world \<Rightarrow> world" where
  "svm_stgi w = w\<lparr>be := (be w)\<lparr>gif := True\<rparr>\<rparr>"

definition svm_vmrun :: "svm_env \<Rightarrow> world \<Rightarrow> u64 \<Rightarrow> (nexusvm_result \<times> world) run" where
  "svm_vmrun env w p =
     (if p = 0 then Some (NEXUSVM_ERR_INVALID_PARAM, w)
      else do { w \<leftarrow> on_vmcb (vmrun env 0) w p; Some (NEXUSVM_OK, w) })"

section \<open>Intercept control\<close>

definition VMCB_CONTROL_AREA :: nat where "VMCB_CONTROL_AREA = 0x400"
definition VMCB_OFFSET_INTERCEPT :: nat where "VMCB_OFFSET_INTERCEPT = 0"
definition VMCB_OFFSET_IOIO_MAP :: nat where "VMCB_OFFSET_IOIO_MAP = 0x18"
definition VMCB_OFFSET_MSR_MAP :: nat where "VMCB_OFFSET_MSR_MAP = 0x20"
definition VMCB_OFFSET_EXITCODE :: nat where "VMCB_OFFSET_EXITCODE = 0x44"
definition VMCB_OFFSET_EXITINFO1 :: nat where "VMCB_OFFSET_EXITINFO1 = 0x48"
definition VMCB_OFFSET_EXITINFO2 :: nat where "VMCB_OFFSET_EXITINFO2 = 0x50"
definition VMCB_OFFSET_NESTED_PAGING_ROOT :: nat where "VMCB_OFFSET_NESTED_PAGING_ROOT = 0x60"

lemmas vmcb_offsets = VMCB_OFFSET_INTERCEPT_def VMCB_OFFSET_IOIO_MAP_def VMCB_OFFSET_MSR_MAP_def VMCB_OFFSET_EXITCODE_def
  VMCB_OFFSET_EXITINFO1_def VMCB_OFFSET_EXITINFO2_def VMCB_OFFSET_NESTED_PAGING_ROOT_def

text \<open>A shift of the \<open>int\<close> 1 by 32 or more is undefined.\<close>

definition svm_set_intercept :: "world \<Rightarrow> u64 \<Rightarrow> u32 \<Rightarrow> u32 \<Rightarrow> bool \<Rightarrow> world run" where
  "svm_set_intercept w p off b enable =
     (if p = 0 \<or> off \<ge> 0x400 then Some w
      else if b \<ge> 32 then None
      else with_bufs w (\<lambda>h. upd8 h p (VMCB_CONTROL_AREA + unat off) ((if enable then set_bit8 else clear_bit8) b)))"

definition svm_set_io_bitmap :: "world \<Rightarrow> u64 \<Rightarrow> u64 \<Rightarrow> world run" where
  "svm_set_io_bitmap w p pa = (if p = 0 then Some w else with_bufs w (\<lambda>h. wr64 h p VMCB_OFFSET_IOIO_MAP pa))"

definition svm_set_msr_bitmap :: "world \<Rightarrow> u64 \<Rightarrow> u64 \<Rightarrow> world run" where
  "svm_set_msr_bitmap w p pa = (if p = 0 then Some w else with_bufs w (\<lambda>h. wr64 h p VMCB_OFFSET_MSR_MAP pa))"

definition svm_set_npt :: "world \<Rightarrow> u64 \<Rightarrow> u64 \<Rightarrow> world run" where
  "svm_set_npt w p ncr3 = (if p = 0 then Some w else with_bufs w (\<lambda>h. wr64 h p VMCB_OFFSET_NESTED_PAGING_ROOT ncr3))"

section \<open>Virtual CPUs\<close>

definition svm_vcpu_init :: "buf_alloc \<Rightarrow> world \<Rightarrow> ref option \<Rightarrow> (nexusvm_result \<times> world) run" where
  "svm_vcpu_init al w vcpu =
     (case vcpu of None \<Rightarrow> Some (NEXUSVM_ERR_INVALID_PARAM, w)
      | Some r \<Rightarrow>
          (case svm_alloc_vmcb al w of (result, p, w) \<Rightarrow>
            if result \<noteq> NEXUSVM_OK then Some (result, w)
            else do { _ \<leftarrow> vcpu_objs w r; Some (NEXUSVM_OK, upd_vcpu w r (\<lambda>v. v\<lparr>vmcb := p\<rparr>)) }))"

text \<open>The numbers of the intercepts, in the order of the source; bit \<open>n\<close> is bit \<open>n mod 8\<close> of the byte \<open>n div 8\<close>.\<close>

definition intercepts :: "nat list" where
  "intercepts = [0x78, 0x7C, 0x7D, 0x00, 0x02, 0x03, 0x04, 0x10, 0x12, 0x13, 0x14, 0x60, 0x61,
     0x76, 0x7A, 0x7B, 0x7F, 0xC0, 0xC1, 0xC2, 0xC3, 0xC4, 0xC5]"

fun set_intercepts :: "u64 \<Rightarrow> nat list \<Rightarrow> buffers \<Rightarrow> buffers run" where
  "set_intercepts p [] h = Some h"
| "set_intercepts p (n # ns) h =
     do { h \<leftarrow> upd8 h p (VMCB_OFFSET_INTERCEPT + n div 8) (set_bit8 (of_nat (n mod 8))); set_intercepts p ns h }"

text \<open>The stores through \<open>state\<close>, in the order of the source.\<close>

definition save_state :: "svm_env \<Rightarrow> cpu_state \<Rightarrow> (nat \<times> u64) list" where
  "save_state env s =
     [(0x00, rax (gprs s)), (0x08, rbx (gprs s)), (0x10, rcx (gprs s)), (0x18, rdx (gprs s)),
      (0x20, rsi (gprs s)), (0x28, rdi (gprs s)), (0x30, rbp (gprs s)), (0x38, rsp (gprs s)),
      (0x78, rip (gprs s)), (0x80, rflags (gprs s)),
      (0x88, cr0 (cr s)), (0x90, cr2 (cr s)), (0x98, cr3 (cr s)), (0xA0, cr4 (cr s)),
      (0xA8, ucast (selector (cs s))), (0xB0, ucast (selector (ss s))), (0xB8, ucast (selector (ds s))),
      (0xC0, ucast (selector (es s))), (0xC8, ucast (selector (fs s))), (0xD0, ucast (selector (gs s))),
      (0xD8, base (cs s)), (0xE0, base (ss s)), (0xE8, base (ds s)), (0xF0, base (es s)), (0xF8, base (fs s)), (0x100, base (gs s)),
      (0x108, gdtr_limit s), (0x110, gdtr_base env s), (0x118, idtr_limit s), (0x120, idtr_base env s),
      (0x1E0, ia32_efer (msrs s)), (0x1E8, 0xFEE00000)]"

definition svm_vcpu_setup :: "svm_env \<Rightarrow> world \<Rightarrow> ref option \<Rightarrow> (nexusvm_result \<times> world) run" where
  "svm_vcpu_setup env w vcpu =
     (case vcpu of None \<Rightarrow> Some (NEXUSVM_ERR_INVALID_PARAM, w)
      | Some r \<Rightarrow> do {
          v \<leftarrow> vcpu_objs w r;
          let p = vmcb v;
          if p = 0 then Some (NEXUSVM_ERR_INVALID_PARAM, w)
          else do {
            w \<leftarrow> with_bufs w (set_intercepts p intercepts);
            w \<leftarrow> (if msr_bitmap v \<noteq> 0 then svm_set_msr_bitmap w p (msr_bitmap v) else Some w);
            hv \<leftarrow> g_hypervisor w;
            w \<leftarrow> (if has_npt hv
                  then do { m \<leftarrow> get_vm w (vm v); if ept_root m \<noteq> 0 then svm_set_npt w p (ept_root m) else Some w }
                  else Some w);
            w \<leftarrow> with_bufs w (\<lambda>h. wr64s h p (save_state env (cpu_state_of v)));
            Some (NEXUSVM_OK, w)
          }
        })"

definition svm_vcpu_cleanup :: "world \<Rightarrow> ref option \<Rightarrow> world run" where
  "svm_vcpu_cleanup w vcpu =
     (case vcpu of None \<Rightarrow> Some w
      | Some r \<Rightarrow> do {
          v \<leftarrow> vcpu_objs w r;
          if vmcb v \<noteq> 0 then do { w \<leftarrow> svm_free_vmcb w (vmcb v); Some (upd_vcpu w r (\<lambda>v. v\<lparr>vmcb := 0\<rparr>)) }
          else Some w
        })"

section \<open>Exit handlers\<close>

definition svm_get_exit_code :: "world \<Rightarrow> u64 \<Rightarrow> u64 run" where
  "svm_get_exit_code w p = rd64 (bufs w) p VMCB_OFFSET_EXITCODE"

definition svm_get_exit_info1 :: "world \<Rightarrow> u64 \<Rightarrow> u64 run" where
  "svm_get_exit_info1 w p = rd64 (bufs w) p VMCB_OFFSET_EXITINFO1"

definition svm_get_exit_info2 :: "world \<Rightarrow> u64 \<Rightarrow> u64 run" where
  "svm_get_exit_info2 w p = rd64 (bufs w) p VMCB_OFFSET_EXITINFO2"

definition put_state :: "world \<Rightarrow> u64 \<Rightarrow> (nat \<times> u64) list \<Rightarrow> nexusvm_result \<Rightarrow> (nexusvm_result \<times> world) run" where
  "put_state w p ws res = do { w \<leftarrow> with_bufs w (\<lambda>h. wr64s h p ws); Some (res, w) }"

definition svm_handle_cpuid :: "svm_env \<Rightarrow> world \<Rightarrow> u64 \<Rightarrow> (nexusvm_result \<times> world) run" where
  "svm_handle_cpuid env w p = do {
     eax \<leftarrow> rd64 (bufs w) p 0x00;
     ecx \<leftarrow> rd64 (bufs w) p 0x18;
     case cpuid (cpu env) (ucast (eax AND 0xFFFFFFFF)) (ucast (ecx AND 0xFFFFFFFF)) of (a, b, c, d) \<Rightarrow>
       put_state w p [(0x00, ucast a), (0x08, ucast b), (0x10, ucast c), (0x18, ucast d)] NEXUSVM_OK
   }"

text \<open>As in the VT-x backend, \<open>rdmsr\<close> gives the value its lower half only, and what the processor refuses is a fault of the host.\<close>

definition svm_handle_rdmsr :: "svm_env \<Rightarrow> world \<Rightarrow> u64 \<Rightarrow> (nexusvm_result \<times> world) run" where
  "svm_handle_rdmsr env w p = do {
     ecx \<leftarrow> rd64 (bufs w) p 0x18;
     let msr = ucast (ecx AND 0xFFFFFFFF);
     let x = take_bit 32 (hw_msr (be w) msr);
     if \<not> rdmsr_ok (cpu env) msr then None
     else put_state w p [(0x00, x AND 0xFFFFFFFF), (0x10, drop_bit 32 x AND 0xFFFFFFFF)] NEXUSVM_OK
   }"

definition svm_handle_wrmsr :: "svm_env \<Rightarrow> world \<Rightarrow> u64 \<Rightarrow> (nexusvm_result \<times> world) run" where
  "svm_handle_wrmsr env w p = do {
     ecx \<leftarrow> rd64 (bufs w) p 0x18;
     lo \<leftarrow> rd64 (bufs w) p 0x00;
     hi \<leftarrow> rd64 (bufs w) p 0x10;
     let msr = ucast (ecx AND 0xFFFFFFFF);
     let x = lo OR push_bit 32 hi;
     if \<not> wrmsr_ok (cpu env) msr x then None
     else Some (NEXUSVM_OK, w\<lparr>be := svm_write_msr msr x (be w)\<rparr>)
   }"

definition svm_handle_cr_read :: "world \<Rightarrow> u64 \<Rightarrow> u64 \<Rightarrow> (nexusvm_result \<times> world) run" where
  "svm_handle_cr_read w p exit_code = Some (NEXUSVM_OK, w)"

definition svm_handle_cr_write :: "world \<Rightarrow> u64 \<Rightarrow> u64 \<Rightarrow> (nexusvm_result \<times> world) run" where
  "svm_handle_cr_write w p exit_code = Some (NEXUSVM_OK, w)"

definition svm_handle_invlpg :: "world \<Rightarrow> u64 \<Rightarrow> u64 \<Rightarrow> (nexusvm_result \<times> world) run" where
  "svm_handle_invlpg w p addr = Some (NEXUSVM_OK, w)"

definition svm_handle_hlt :: "world \<Rightarrow> u64 \<Rightarrow> (nexusvm_result \<times> world) run" where
  "svm_handle_hlt w p = Some (NEXUSVM_OK, w)"

text \<open>The hypercall is not called; the registers get the members of the variable that was never assigned.\<close>

definition svm_handle_vmmcall :: "svm_env \<Rightarrow> world \<Rightarrow> u64 \<Rightarrow> (nexusvm_result \<times> world) run" where
  "svm_handle_vmmcall env w p =
     put_state w p [(0x00, ret0 (uninitialised env)), (0x08, ret1 (uninitialised env)),
       (0x10, ret2 (uninitialised env)), (0x18, ret3 (uninitialised env))] NEXUSVM_ERR_NOT_SUPPORTED"

definition svm_handle_npf :: "world \<Rightarrow> u64 \<Rightarrow> u64 \<Rightarrow> u64 \<Rightarrow> (nexusvm_result \<times> world) run" where
  "svm_handle_npf w p exit_info1 exit_info2 = Some (NEXUSVM_OK, w)"

definition svm_handle_rdtsc :: "svm_env \<Rightarrow> world \<Rightarrow> u64 \<Rightarrow> (nexusvm_result \<times> world) run" where
  "svm_handle_rdtsc env w p = do {
     bs \<leftarrow> bufs w p;
     let tsc = vmcb_tsc env bs;
     put_state w p [(0x00, tsc AND 0xFFFFFFFF), (0x10, drop_bit 32 tsc AND 0xFFFFFFFF)] NEXUSVM_OK
   }"

definition svm_handle_interrupt :: "world \<Rightarrow> u64 \<Rightarrow> (nexusvm_result \<times> world) run" where
  "svm_handle_interrupt w p = Some (NEXUSVM_OK, w)"

definition svm_handle_vmrun :: "world \<Rightarrow> u64 \<Rightarrow> (nexusvm_result \<times> world) run" where
  "svm_handle_vmrun w p = Some (NEXUSVM_ERR_NOT_SUPPORTED, w)"

text \<open>The \<open>switch\<close> on the exit code; the labels are the last definitions of their names in \<^verbatim>\<open>types.h\<close>.\<close>

definition svm_handle_exit :: "svm_env \<Rightarrow> world \<Rightarrow> u64 \<Rightarrow> (nexusvm_result \<times> world) run" where
  "svm_handle_exit env w p =
     (if p = 0 then Some (NEXUSVM_ERR_INVALID_PARAM, w)
      else do {
        exit_code \<leftarrow> svm_get_exit_code w p;
        exit_info1 \<leftarrow> svm_get_exit_info1 w p;
        exit_info2 \<leftarrow> svm_get_exit_info2 w p;
        if exit_code = 0x072 then svm_handle_cpuid env w p
        else if exit_code = 0x086 then svm_handle_rdmsr env w p
        else if exit_code = 0x087 then svm_handle_wrmsr env w p
        else if exit_code \<in> {0x001, 0x005, 0x007, 0x009} then svm_handle_cr_read w p exit_code
        else if exit_code \<in> {0x002, 0x006, 0x008, 0x00A} then svm_handle_cr_write w p exit_code
        else if exit_code = 0x076 then svm_handle_invlpg w p exit_info2
        else if exit_code = 0x08A then svm_handle_hlt w p
        else if exit_code = SVM_EXIT_VMMCALL env then svm_handle_vmmcall env w p
        else if exit_code = 0x400 then svm_handle_npf w p exit_info1 exit_info2
        else if exit_code \<in> {0x07C, 0x082} then svm_handle_rdtsc env w p
        else if exit_code \<in> {0x060, 0x061} then svm_handle_interrupt w p
        else if exit_code = SVM_EXIT_VMRUN env then svm_handle_vmrun w p
        else Some (NEXUSVM_ERR_GENERIC, w)
      })"

section \<open>The run loop\<close>

text \<open>One round: \<open>vmload\<close> and \<open>vmrun\<close> with interrupts enabled, \<open>vmsave\<close>, and the handler of the exit.\<close>

definition svm_round :: "svm_env \<Rightarrow> world \<Rightarrow> ref \<Rightarrow> u64 \<Rightarrow> (nexusvm_result \<times> world) run" where
  "svm_round env w r p = do {
     v \<leftarrow> vcpu_objs w r;
     let n = vmentry_count v + 1;
     let w = upd_vcpu w r (\<lambda>v. v\<lparr>vmentry_count := n\<rparr>);
     w \<leftarrow> svm_vmload w p;
     let w = svm_stgi w;
     w \<leftarrow> on_vmcb (vmrun env n) w p;
     let w = svm_clgi w;
     w \<leftarrow> svm_vmsave env w p;
     let w = upd_vcpu w r (\<lambda>v. v\<lparr>vmexit_count := vmexit_count v + 1\<rparr>);
     svm_handle_exit env w p
   }"

partial_function (option) svm_run_loop :: "svm_env \<Rightarrow> world \<Rightarrow> ref \<Rightarrow> u64 \<Rightarrow> (nexusvm_result \<times> world) option" where
  "svm_run_loop env w r p = do {
     v \<leftarrow> vcpu_objs w r;
     if running v then do {
       (result, w) \<leftarrow> svm_round env w r p;
       if result \<noteq> NEXUSVM_OK then Some (result, w) else svm_run_loop env w r p
     } else Some (NEXUSVM_OK, w)
   }"

definition svm_vcpu_run :: "svm_env \<Rightarrow> world \<Rightarrow> ref option \<Rightarrow> (nexusvm_result \<times> world) run" where
  "svm_vcpu_run env w vcpu =
     (case vcpu of None \<Rightarrow> Some (NEXUSVM_ERR_INVALID_PARAM, w)
      | Some r \<Rightarrow> do {
          v \<leftarrow> vcpu_objs w r;
          let p = vmcb v;
          if p = 0 then Some (NEXUSVM_ERR_INVALID_PARAM, w)
          else do { w \<leftarrow> svm_vmsave env w p; svm_run_loop env w r p }
        })"

end
