(* ===== verification/Scheduler.thy ===== *)
theory Scheduler
  imports Nexus_Types
begin

text \<open>
  The scheduler of \<^verbatim>\<open>src/hypervisor/sched/scheduler.c\<close>: per-CPU run queues over the intrusive
  list, the pick functions, and load balancing.

  One thread of control is modelled: \<open>spinlock_lock\<close> on a lock that is already held never returns
  (\<^const>\<open>None\<close>). \<open>list_entry\<close> of a queue head is a pointer before the run queue and not an
  entity; reading through it is undefined. The product \<open>SCHED_TICK_NS * 1024\<close> overflows \<open>int\<close>; it
  is given the value two's complement arithmetic has. \<open>av\<close> says which requests to \<open>calloc\<close> succeed.
\<close>

section \<open>Run queues and locks\<close>

definition SCHED_TICK_NS :: u32 where "SCHED_TICK_NS = 10000000"
definition SCHED_MAX_TIMESLICE :: u64 where "SCHED_MAX_TIMESLICE = 100000000"

definition get_rq :: "world \<Rightarrow> u32 \<Rightarrow> (ref \<times> cpu_runqueue) run" where
  "get_rq w i = do {
     (arr, rqs) \<leftarrow> g_runqueues w;
     if unat i < length rqs then Some (arr, rqs ! unat i) else None
   }"

definition upd_rq :: "world \<Rightarrow> u32 \<Rightarrow> (cpu_runqueue \<Rightarrow> cpu_runqueue) \<Rightarrow> world" where
  "upd_rq w i f =
     w\<lparr>g_runqueues := map_option (\<lambda>(arr, rqs). (arr, rqs[unat i := f (rqs ! unat i)])) (g_runqueues w)\<rparr>"

definition rq_lock :: "world \<Rightarrow> u32 \<Rightarrow> world run" where
  "rq_lock w i = do {
     (_, q) \<leftarrow> get_rq w i;
     if lock q then None else Some (upd_rq w i (\<lambda>q. q\<lparr>lock := True\<rparr>))
   }"

definition rq_unlock :: "world \<Rightarrow> u32 \<Rightarrow> world run" where
  "rq_unlock w i = do {
     (_, q) \<leftarrow> get_rq w i;
     Some (upd_rq w i (\<lambda>q. q\<lparr>lock := False\<rparr>))
   }"

definition rq_head :: "world \<Rightarrow> u32 \<Rightarrow> lnode run" where
  "rq_head w i = do { (arr, _) \<leftarrow> get_rq w i; Some (RQ arr (unat i)) }"

definition with_links :: "world \<Rightarrow> (lnode links \<Rightarrow> lnode links run) \<Rightarrow> world run" where
  "with_links w f = do { l \<leftarrow> f (links w); Some (w\<lparr>links := l\<rparr>) }"

section \<open>Initialisation\<close>

function scheduler_init_loop :: "u32 \<Rightarrow> u32 \<Rightarrow> world \<Rightarrow> world run" where
  "scheduler_init_loop n i w =
     (if i < n then do {
        (arr, q) \<leftarrow> get_rq w i;
        let w1 = upd_rq w i (\<lambda>q. q\<lparr>cpu_id := i, current := None\<rparr>);
        w2 \<leftarrow> with_links w1 (INIT_LIST_HEAD (RQ arr (unat i)));
        let w3 = upd_rq w2 i (\<lambda>q. q\<lparr>lock := False\<rparr>);
        scheduler_init_loop n (i + 1) w3
      } else Some w)"
  by pat_completeness auto
termination
  by (relation "measure (\<lambda>(n, i, w). unat n - unat i)") (auto simp: loop_measure)

definition zero_rq :: cpu_runqueue where
  "zero_rq = \<lparr>current = None, cpu_id = 0, rq_idle_time = 0, rq_busy_time = 0, lock = False\<rparr>"

text \<open>\<open>calloc\<close> of the array: a new object whose list heads hold \<open>NULL\<close> pointers.\<close>

definition fresh_heads :: "ref \<Rightarrow> nat \<Rightarrow> lnode links \<Rightarrow> lnode links" where
  "fresh_heads arr n l x =
     (case x of RQ a i \<Rightarrow> if a = arr \<and> i < n then Some \<lparr>lnext = None, lprev = None\<rparr> else l x | SE r \<Rightarrow> l x)"

definition scheduler_init :: "(nat \<Rightarrow> bool) \<Rightarrow> world \<Rightarrow> (nexusvm_result \<times> world) run" where
  "scheduler_init av w =
     (case g_hypervisor w of None \<Rightarrow> Some (NEXUSVM_ERR_GENERIC, w)
      | Some hv \<Rightarrow>
          (let n = online_cpu_count hv; k = callocs w; arr = next_ref w;
               w = w\<lparr>g_cpu_count := n, callocs := Suc k\<rparr>
           in if \<not> av k then Some (NEXUSVM_ERR_NO_MEMORY, w\<lparr>g_runqueues := None\<rparr>)
              else do {
                let w = w\<lparr>g_runqueues := Some (arr, replicate (unat n) zero_rq), next_ref := Suc arr,
                  links := fresh_heads arr (unat n) (links w)\<rparr>;
                w \<leftarrow> scheduler_init_loop n 0 w;
                Some (NEXUSVM_OK, w\<lparr>g_scheduler_initialized := True\<rparr>)
              }))"

text \<open>\<open>free\<close> of the array kills its list heads.\<close>

definition scheduler_shutdown :: "world \<Rightarrow> world" where
  "scheduler_shutdown w =
     (case g_runqueues w of None \<Rightarrow> w\<lparr>g_scheduler_initialized := False\<rparr>
      | Some (arr, rqs) \<Rightarrow>
          w\<lparr>g_runqueues := None, g_scheduler_initialized := False,
            links := (\<lambda>x. case x of RQ a i \<Rightarrow> if a = arr then None else links w x | SE r \<Rightarrow> links w x)\<rparr>)"

section \<open>Adding and removing\<close>

definition vcpu_cpu :: "world \<Rightarrow> nexusvcpu \<Rightarrow> u32 run" where
  "vcpu_cpu w v =
     (if physical_cpu v \<ge> g_cpu_count w
      then (if g_cpu_count w = 0 then None else Some (vcpu_id v mod g_cpu_count w))
      else Some (physical_cpu v))"

text \<open>The creation of the entity; the first component is \<^const>\<open>None\<close> when there is no memory.\<close>

definition create_entity :: "(nat \<Rightarrow> bool) \<Rightarrow> world \<Rightarrow> ref \<Rightarrow> (ref option \<times> world) run" where
  "create_entity av w r =
     (let k = callocs w; w = w\<lparr>callocs := Suc k\<rparr> in
      if \<not> av k then Some (None, upd_vcpu w r (\<lambda>v. v\<lparr>entity := None\<rparr>))
      else do {
        v \<leftarrow> vcpu_objs w r;
        m \<leftarrow> get_vm w (vm v);
        let e = next_ref w;
        let w = w\<lparr>next_ref := Suc e, links := (links w)(SE e \<mapsto> \<lparr>lnext = None, lprev = None\<rparr>),
          entity_objs := (entity_objs w)(e \<mapsto> zero_entity\<lparr>se_vcpu_id := vcpu_id v, se_vm_id := vm_id m,
            policy := SCHED_CFS, priority := PRIORITY_NORMAL, weight := 1024, runtime := 0, vruntime := 0\<rparr>)\<rparr>;
        Some (Some e, upd_vcpu w r (\<lambda>v. v\<lparr>entity := Some e\<rparr>))
      })"

definition scheduler_add_vcpu :: "(nat \<Rightarrow> bool) \<Rightarrow> world \<Rightarrow> ref option \<Rightarrow> (nexusvm_result \<times> world) run" where
  "scheduler_add_vcpu av w vcpu =
     (case vcpu of None \<Rightarrow> Some (NEXUSVM_ERR_INVALID_PARAM, w)
      | Some r \<Rightarrow> do {
          v \<leftarrow> vcpu_objs w r;
          cpu \<leftarrow> vcpu_cpu w v;
          w \<leftarrow> rq_lock w cpu;
          (se, w) \<leftarrow> (case entity v of Some e \<Rightarrow> Some (Some e, w) | None \<Rightarrow> create_entity av w r);
          case se of None \<Rightarrow> do { w \<leftarrow> rq_unlock w cpu; Some (NEXUSVM_ERR_NO_MEMORY, w) }
          | Some e \<Rightarrow> do {
              head \<leftarrow> rq_head w cpu;
              w \<leftarrow> with_links w (list_add_tail (SE e) head);
              w \<leftarrow> rq_unlock w cpu;
              Some (NEXUSVM_OK, w)
            }
        })"

definition scheduler_remove_vcpu :: "world \<Rightarrow> ref option \<Rightarrow> (nexusvm_result \<times> world) run" where
  "scheduler_remove_vcpu w vcpu =
     (case vcpu of None \<Rightarrow> Some (NEXUSVM_ERR_INVALID_PARAM, w)
      | Some r \<Rightarrow> do {
          v \<leftarrow> vcpu_objs w r;
          case entity v of None \<Rightarrow> Some (NEXUSVM_ERR_INVALID_PARAM, w)
          | Some e \<Rightarrow> do {
              cpu \<leftarrow> vcpu_cpu w v;
              w \<leftarrow> rq_lock w cpu;
              w \<leftarrow> with_links w (list_del (SE e));
              w \<leftarrow> rq_unlock w cpu;
              Some (NEXUSVM_OK, w)
            }
        })"

section \<open>Picking the next virtual CPU\<close>

definition list_entry :: "world \<Rightarrow> lnode \<Rightarrow> (ref \<times> sched_entity) run" where
  "list_entry w pos =
     (case pos of SE r \<Rightarrow> (case entity_objs w r of None \<Rightarrow> None | Some e \<Rightarrow> Some (r, e)) | RQ a i \<Rightarrow> None)"

text \<open>The search for the virtual CPU of an entity: over the array of one machine, then over the machines.\<close>

fun find_vcpu_in :: "world \<Rightarrow> ref \<Rightarrow> ref option list \<Rightarrow> nat list \<Rightarrow> ref option run" where
  "find_vcpu_in w e arr [] = Some None"
| "find_vcpu_in w e arr (i # is) =
     (if i < length arr then
        (case arr ! i of None \<Rightarrow> find_vcpu_in w e arr is
         | Some c \<Rightarrow> do {
             v \<leftarrow> vcpu_objs w c;
             if entity v = Some e then Some (Some c) else find_vcpu_in w e arr is
           })
      else None)"

definition vcpu_array :: "nexusvm \<Rightarrow> ref option list" where
  "vcpu_array m = (case vcpus m of None \<Rightarrow> [] | Some a \<Rightarrow> a)"

partial_function (option) find_vcpu :: "world \<Rightarrow> ref \<Rightarrow> ref option \<Rightarrow> ref option option" where
  "find_vcpu w e p =
     (if p = None then Some None
      else do {
        m \<leftarrow> get_vm w p;
        found \<leftarrow> find_vcpu_in w e (vcpu_array m) [0..<unat (vcpu_count m)];
        if found \<noteq> None then Some found else find_vcpu w e (vm_next m)
      })"

definition find_entity_vcpu :: "world \<Rightarrow> ref \<Rightarrow> ref option run" where
  "find_entity_vcpu w e = do { hv \<leftarrow> g_hypervisor w; find_vcpu w e (vms hv) }"

definition cfs_body :: "world \<Rightarrow> ref option \<times> u64 \<Rightarrow> lnode \<Rightarrow> (ref option \<times> u64) run" where
  "cfs_body w acc pos = do {
     (r, se) \<leftarrow> list_entry w pos;
     Some (if vruntime se < snd acc then (Some r, vruntime se) else acc)
   }"

definition scheduler_cfs_pick_next :: "world \<Rightarrow> u32 \<Rightarrow> ref option run" where
  "scheduler_cfs_pick_next w cpu = do {
     head \<leftarrow> rq_head w cpu;
     (best, _) \<leftarrow> list_for_each (links w) head (cfs_body w) (None, -1);
     case best of None \<Rightarrow> Some None | Some e \<Rightarrow> find_entity_vcpu w e
   }"

definition scheduler_rr_pick_next :: "world \<Rightarrow> u32 \<Rightarrow> ref option run" where
  "scheduler_rr_pick_next w cpu = do {
     head \<leftarrow> rq_head w cpu;
     empty \<leftarrow> list_empty head (links w);
     if empty then Some None
     else do {
       nx \<leftarrow> get_next (links w) head;
       nx \<leftarrow> nx;
       (e, _) \<leftarrow> list_entry w nx;
       find_entity_vcpu w e
     }
   }"

definition fifo_body :: "world \<Rightarrow> ref option \<times> u64 \<Rightarrow> lnode \<Rightarrow> (ref option \<times> u64) run" where
  "fifo_body w acc pos = do {
     (r, se) \<leftarrow> list_entry w pos;
     Some (if policy se = SCHED_FIFO \<and> deadline se < snd acc then (Some r, deadline se) else acc)
   }"

definition scheduler_fifo_pick_next :: "world \<Rightarrow> u32 \<Rightarrow> ref option run" where
  "scheduler_fifo_pick_next w cpu = do {
     head \<leftarrow> rq_head w cpu;
     (earliest, _) \<leftarrow> list_for_each (links w) head (fifo_body w) (None, -1);
     case earliest of None \<Rightarrow> scheduler_cfs_pick_next w cpu | Some e \<Rightarrow> find_entity_vcpu w e
   }"

text \<open>
  The choice at the end of \<open>scheduler_schedule\<close>: the policy of the first entity of the queue decides.
\<close>

definition schedule_pick :: "world \<Rightarrow> u32 \<Rightarrow> ref option run" where
  "schedule_pick w cpu = do {
     head \<leftarrow> rq_head w cpu;
     nx \<leftarrow> get_next (links w) head;
     nx \<leftarrow> nx;
     (_, first) \<leftarrow> list_entry w nx;
     case policy first of
       SCHED_FIFO \<Rightarrow> scheduler_fifo_pick_next w cpu
     | SCHED_RR \<Rightarrow> scheduler_fifo_pick_next w cpu
     | _ \<Rightarrow> scheduler_cfs_pick_next w cpu
   }"

text \<open>
  \<open>charge\<close> is the update of the running entity: the tick, and the weighted tick computed in
  32-bit unsigned arithmetic.
\<close>

definition charge :: "sched_entity \<Rightarrow> sched_entity" where
  "charge e = e\<lparr>runtime := runtime e + ucast SCHED_TICK_NS,
     vruntime := vruntime e + ucast (SCHED_TICK_NS * 1024 div weight e)\<rparr>"

definition scheduler_schedule :: "world \<Rightarrow> (ref option \<times> world) run" where
  "scheduler_schedule w =
     (if \<not> g_scheduler_initialized w \<or> g_cpu_count w = 0 then Some (None, w)
      else do {
        let cpu = 0;
        w \<leftarrow> rq_lock w cpu;
        (_, q) \<leftarrow> get_rq w cpu;
        (keep, w) \<leftarrow>
          (case current q of None \<Rightarrow> Some (False, w)
           | Some c \<Rightarrow> do {
               v \<leftarrow> vcpu_objs w c;
               case entity v of None \<Rightarrow> Some (False, w)
               | Some e \<Rightarrow> do {
                   se \<leftarrow> entity_objs w e;
                   if weight se = 0 then None
                   else do {
                     let w = upd_entity w e charge;
                     if running v \<and> vruntime (charge se) < SCHED_MAX_TIMESLICE then Some (True, w)
                     else do {
                       w \<leftarrow> with_links w (list_del (SE e));
                       head \<leftarrow> rq_head w cpu;
                       w \<leftarrow> with_links w (list_add_tail (SE e) head);
                       Some (False, w)
                     }
                   }
                 }
             });
        if keep then do { w \<leftarrow> rq_unlock w cpu; Some (current q, w) }
        else do {
          nxt \<leftarrow> schedule_pick w cpu;
          w \<leftarrow> rq_unlock w cpu;
          Some (nxt, w)
        }
      })"

section \<open>Yield, wake and attributes\<close>

definition requeue :: "(lnode \<Rightarrow> lnode \<Rightarrow> lnode links \<Rightarrow> lnode links run) \<Rightarrow> world \<Rightarrow> ref option \<Rightarrow> world run" where
  "requeue add w vcpu =
     (case vcpu of None \<Rightarrow> Some w
      | Some r \<Rightarrow> do {
          v \<leftarrow> vcpu_objs w r;
          case entity v of None \<Rightarrow> Some w
          | Some e \<Rightarrow> do {
              cpu \<leftarrow> vcpu_cpu w v;
              w \<leftarrow> rq_lock w cpu;
              head \<leftarrow> rq_head w cpu;
              w \<leftarrow> with_links w (\<lambda>l. do { l \<leftarrow> list_del (SE e) l; add (SE e) head l });
              rq_unlock w cpu
            }
        })"

definition scheduler_yield :: "world \<Rightarrow> ref option \<Rightarrow> world run" where
  "scheduler_yield = requeue list_add_tail"

definition scheduler_wake :: "world \<Rightarrow> ref option \<Rightarrow> world run" where
  "scheduler_wake = requeue list_add"

fun priority_weight :: "vm_priority \<Rightarrow> u32" where
  "priority_weight PRIORITY_REALTIME = 4096"
| "priority_weight PRIORITY_HIGH = 2048"
| "priority_weight PRIORITY_NORMAL = 1024"
| "priority_weight PRIORITY_LOW = 512"

text \<open>The update of the entity of a virtual CPU; nothing happens when either pointer is \<open>NULL\<close>.\<close>

definition with_entity :: "world \<Rightarrow> ref option \<Rightarrow> (sched_entity \<Rightarrow> sched_entity) \<Rightarrow> world run" where
  "with_entity w vcpu f =
     (case vcpu of None \<Rightarrow> Some w
      | Some r \<Rightarrow> do {
          v \<leftarrow> vcpu_objs w r;
          case entity v of None \<Rightarrow> Some w
          | Some e \<Rightarrow> if entity_objs w e = None then None else Some (upd_entity w e f)
        })"

definition scheduler_set_priority :: "world \<Rightarrow> ref option \<Rightarrow> vm_priority \<Rightarrow> world run" where
  "scheduler_set_priority w vcpu p = with_entity w vcpu (\<lambda>e. e\<lparr>priority := p, weight := priority_weight p\<rparr>)"

definition scheduler_set_policy :: "world \<Rightarrow> ref option \<Rightarrow> sched_policy \<Rightarrow> world run" where
  "scheduler_set_policy w vcpu p = with_entity w vcpu (\<lambda>e. e\<lparr>policy := p\<rparr>)"

section \<open>Load balancing and statistics\<close>

text \<open>The loop that counts the nodes of one queue, with its lock taken and released.\<close>

definition count_queue :: "world \<Rightarrow> u32 \<Rightarrow> u32 run" where
  "count_queue w i = do {
     w \<leftarrow> rq_lock w i;
     head \<leftarrow> rq_head w i;
     n \<leftarrow> list_for_each (links w) head (\<lambda>n pos. Some (n + 1)) 0;
     w \<leftarrow> rq_unlock w i;
     Some n
   }"

function least_loaded :: "world \<Rightarrow> u32 \<Rightarrow> u32 \<Rightarrow> u32 \<Rightarrow> u32 \<Rightarrow> (u32 \<times> u32) run" where
  "least_loaded w cpu i min_load tgt =
     (if i < g_cpu_count w then
        (if i = cpu then least_loaded w cpu (i + 1) min_load tgt
         else do {
           load \<leftarrow> count_queue w i;
           if load < min_load then least_loaded w cpu (i + 1) load i
           else least_loaded w cpu (i + 1) min_load tgt
         })
      else Some (min_load, tgt))"
  by pat_completeness auto
termination
  by (relation "measure (\<lambda>(w, cpu, i, m, t). unat (g_cpu_count w) - unat i)") (auto simp: loop_measure)

text \<open>The migration of the first entity of the queue of \<open>cpu\<close>, with the lock of one queue at a time.\<close>

definition migrate_first :: "world \<Rightarrow> u32 \<Rightarrow> u32 \<Rightarrow> world run" where
  "migrate_first w cpu tgt = do {
     w \<leftarrow> rq_lock w cpu;
     head \<leftarrow> rq_head w cpu;
     empty \<leftarrow> list_empty head (links w);
     if \<not> empty then do {
       nx \<leftarrow> get_next (links w) head;
       nx \<leftarrow> nx;
       (e, _) \<leftarrow> list_entry w nx;
       w \<leftarrow> with_links w (list_del (SE e));
       w \<leftarrow> rq_unlock w cpu;
       w \<leftarrow> rq_lock w tgt;
       thead \<leftarrow> rq_head w tgt;
       w \<leftarrow> with_links w (list_add_tail (SE e) thead);
       rq_unlock w tgt
     } else rq_unlock w cpu
   }"

definition scheduler_load_balance :: "world \<Rightarrow> u32 \<Rightarrow> world run" where
  "scheduler_load_balance w cpu =
     (if cpu \<ge> g_cpu_count w then Some w
      else do {
        (min_load, tgt) \<leftarrow> least_loaded w cpu 0 (-1) 0;
        src_load \<leftarrow> count_queue w cpu;
        if src_load > min_load + 2 then migrate_first w cpu tgt else Some w
      })"

definition scheduler_get_cpu_load :: "world \<Rightarrow> u32 \<Rightarrow> u32 run" where
  "scheduler_get_cpu_load w cpu =
     (if cpu \<ge> g_cpu_count w then Some 0
      else do {
        n \<leftarrow> count_queue w cpu;
        if g_cpu_count w + 1 = 0 then None else Some (n * 100 div (g_cpu_count w + 1))
      })"

text \<open>
  \<open>scheduler_get_stats\<close> fills the first \<open>min (count, g_cpu_count)\<close> elements of the caller's array; the
  length of the list is the size of that array.
\<close>

function get_stats_loop :: "world \<Rightarrow> u32 \<Rightarrow> u32 \<Rightarrow> cpu_stats list \<Rightarrow> cpu_stats list run" where
  "get_stats_loop w n i st =
     (if i < n then do {
        (_, q) \<leftarrow> get_rq w i;
        _ \<leftarrow> count_queue w i;
        if unat i < length st
        then get_stats_loop w n (i + 1)
               (st[unat i := (st ! unat i)\<lparr>idle_time := rq_idle_time q, busy_time := rq_busy_time q,
                  context_switches := rq_busy_time q div ucast SCHED_TICK_NS\<rparr>])
        else None
      } else Some st)"
  by pat_completeness auto
termination
  by (relation "measure (\<lambda>(w, n, i, st). unat n - unat i)") (auto simp: loop_measure)

definition scheduler_get_stats :: "world \<Rightarrow> cpu_stats list option \<Rightarrow> u32 \<Rightarrow> cpu_stats list option run" where
  "scheduler_get_stats w st cnt =
     (if cnt = 0 then Some st
      else case st of None \<Rightarrow> Some None
      | Some a \<Rightarrow> map_option Some (get_stats_loop w (min cnt (g_cpu_count w)) 0 a))"

declare scheduler_init_loop.simps [simp del] least_loaded.simps [simp del] get_stats_loop.simps [simp del]

end
