(* ===== verification/Hypervisor.thy ===== *)
theory Hypervisor
  imports Svm Scheduler Io_Emul
begin

text \<open>
  Initialisation and shutdown of the hypervisor, and the life cycle of virtual machines and virtual CPUs, of
  \<^verbatim>\<open>src/hypervisor/hypervisor.c\<close>.

  The record \<open>platform\<close> collects the parameters: the processor, which requests for objects succeed, the
  allocators of byte buffers and of page tables, and the result of \<open>hypercall_init\<close>, a function that the
  repository calls and does not have. \<open>vcpus\<close> is an array of pointers, the way the code uses it. The arrays and
  the page-table pointer of a machine live and die with it; strings hold no NUL. \<open>strncpy\<close> into a name of
  64 bytes from a name of 63 characters or more is undefined, because it runs over the whole memory.
\<close>

record platform =
  hw :: svm_env
  objs_av :: "nat \<Rightarrow> bool"
  io_av :: "nat \<Rightarrow> bool"
  buf_al :: buf_alloc
  ept_al :: allocator
  hypercall_init :: nexusvm_result

section \<open>Feature detection\<close>

definition vendor_string :: "u32 \<Rightarrow> u32 \<Rightarrow> u32 \<Rightarrow> u8 list" where
  "vendor_string ebx ecx edx = le_bytes 4 (ucast ebx) @ le_bytes 4 (ucast ecx) @ le_bytes 4 (ucast edx)"

definition ascii :: "string \<Rightarrow> u8 list" where
  "ascii = map of_char"

definition detect_vendor :: "cpu_env \<Rightarrow> hypervisor \<Rightarrow> backend \<Rightarrow> hypervisor \<times> backend" where
  "detect_vendor env hv b =
     (case cpuid env 0 0 of (eax, ebx, ecx, edx) \<Rightarrow>
        let vendor = vendor_string ebx ecx edx in
        if vendor = ascii ''GenuineIntel'' then detect_vmx_features env (hv\<lparr>cpu_vendor_of := CPU_VENDOR_INTEL\<rparr>) b
        else if vendor = ascii ''AuthenticAMD'' then detect_svm_features env (hv\<lparr>cpu_vendor_of := CPU_VENDOR_AMD\<rparr>) b
        else (hv\<lparr>cpu_vendor_of := CPU_VENDOR_UNKNOWN\<rparr>, b))"

definition detect_cpu_features :: "cpu_env \<Rightarrow> hypervisor \<Rightarrow> backend \<Rightarrow> hypervisor \<times> backend" where
  "detect_cpu_features env hv b =
     (case detect_vendor env hv b of (hv, b) \<Rightarrow>
      case cpuid env 1 0 of (eax, ebx, ecx, edx) \<Rightarrow>
        let hv = hv\<lparr>has_rdrand := bit edx 30\<rparr> in
        case cpuid env 7 0 of (eax, ebx7, ecx7, edx7) \<Rightarrow>
          (hv\<lparr>has_smep := bit ebx7 7, has_smap := bit ebx7 20, has_fsgsbase := bit ebx7 0, has_mpx := bit ebx7 3,
             has_pcid := bit ebx7 17, has_umip := bit ebx7 2, has_pku := bit ebx7 3, has_xsaves := bit ecx7 3,
             logical_cpu_count := drop_bit 16 ebx AND 0xFF\<rparr>, b))"

section \<open>Initialisation\<close>

definition drop_hypervisor :: "world \<Rightarrow> world" where
  "drop_hypervisor w = w\<lparr>g_hypervisor := None\<rparr>"

definition hypervisor_init :: "platform \<Rightarrow> world \<Rightarrow> (nexusvm_result \<times> world) run" where
  "hypervisor_init pf w =
     (if g_initialized w then Some (NEXUSVM_OK, w)
      else
        let k = callocs w; w = w\<lparr>callocs := Suc k\<rparr> in
        if \<not> objs_av pf k then Some (NEXUSVM_ERR_NO_MEMORY, drop_hypervisor w)
        else
          (case detect_cpu_features (cpu (hw pf)) zero_hypervisor (be w) of (hv, b) \<Rightarrow>
            let w = w\<lparr>g_hypervisor := Some hv, be := b\<rparr> in
            if \<not> has_vmx hv \<and> \<not> has_svm hv then Some (NEXUSVM_ERR_CPU_NOT_SUPPORTED, drop_hypervisor w)
            else do {
              (result, w) \<leftarrow> scheduler_init (objs_av pf) w;
              if result \<noteq> NEXUSVM_OK then Some (result, drop_hypervisor w)
              else if hypercall_init pf \<noteq> NEXUSVM_OK then Some (hypercall_init pf, drop_hypervisor (scheduler_shutdown w))
              else (case ept_init (map_option has_ept (g_hypervisor w)) (ept w) of (result, e) \<Rightarrow>
                let w = w\<lparr>ept := e\<rparr> in
                if result \<noteq> NEXUSVM_OK then Some (result, drop_hypervisor (scheduler_shutdown w))
                else (case io_emul_init (io_av pf) (io w) of (result, i) \<Rightarrow>
                  let w = w\<lparr>io := i\<rparr> in
                  if result \<noteq> NEXUSVM_OK
                  then Some (result, drop_hypervisor (scheduler_shutdown (w\<lparr>ept := ept_shutdown (ept w)\<rparr>)))
                  else Some (NEXUSVM_OK,
                    w\<lparr>g_hypervisor := map_option (\<lambda>hv. hv\<lparr>vms := None, vm_count := 0, next_vm_id := 1\<rparr>) (g_hypervisor w),
                      g_initialized := True\<rparr>)))
            }))"

definition hypervisor_get_instance :: "world \<Rightarrow> hypervisor option" where
  "hypervisor_get_instance w = g_hypervisor w"

definition hypervisor_is_running :: "world \<Rightarrow> bool" where
  "hypervisor_is_running w \<longleftrightarrow> g_initialized w \<and> g_hypervisor w \<noteq> None"

definition hypervisor_get_cpu_vendor :: "world \<Rightarrow> cpu_vendor" where
  "hypervisor_get_cpu_vendor w = (case g_hypervisor w of None \<Rightarrow> CPU_VENDOR_UNKNOWN | Some hv \<Rightarrow> cpu_vendor_of hv)"

definition hypervisor_get_cpu_count :: "world \<Rightarrow> u32" where
  "hypervisor_get_cpu_count w = (case g_hypervisor w of None \<Rightarrow> 0 | Some hv \<Rightarrow> online_cpu_count hv)"

section \<open>Virtual CPUs\<close>

text \<open>\<open>free\<close> of the three bitmaps and of the structure.\<close>

definition free_vcpu :: "world \<Rightarrow> ref \<Rightarrow> world run" where
  "free_vcpu w r = do {
     v \<leftarrow> vcpu_objs w r;
     h \<leftarrow> buf_free (bufs w) (msr_bitmap v);
     h \<leftarrow> buf_free h (io_bitmap_a v);
     h \<leftarrow> buf_free h (io_bitmap_b v);
     Some (w\<lparr>bufs := h, vcpu_objs := (vcpu_objs w)(r := None)\<rparr>)
   }"

definition init_backend :: "platform \<Rightarrow> hypervisor \<Rightarrow> world \<Rightarrow> ref \<Rightarrow> (nexusvm_result \<times> world) run" where
  "init_backend pf hv w r =
     (case cpu_vendor_of hv of
        CPU_VENDOR_INTEL \<Rightarrow> vmx_vcpu_init (buf_al pf) w (Some r)
      | CPU_VENDOR_AMD \<Rightarrow> svm_vcpu_init (buf_al pf) w (Some r)
      | CPU_VENDOR_UNKNOWN \<Rightarrow> Some (NEXUSVM_OK, w))"

text \<open>
  The third component is what \<open>*vcpu_out\<close> is assigned, if it is. With no online CPU the remainder that gives
  the physical CPU is a division by zero.
\<close>

definition vcpu_create :: "platform \<Rightarrow> world \<Rightarrow> ref option \<Rightarrow> u32 \<Rightarrow> (nexusvm_result \<times> ref option \<times> world) run" where
  "vcpu_create pf w m n =
     (if m = None then Some (NEXUSVM_ERR_INVALID_PARAM, None, w)
      else
        let k = callocs w; w = w\<lparr>callocs := Suc k\<rparr> in
        if \<not> objs_av pf k then Some (NEXUSVM_ERR_NO_MEMORY, None, w)
        else do {
          hv \<leftarrow> g_hypervisor w;
          if online_cpu_count hv = 0 then None
          else do {
            let r = next_ref w;
            let v = zero_vcpu\<lparr>vcpu_id := n, vm := m, physical_cpu := n mod online_cpu_count hv\<rparr>;
            case buf_new (buf_al pf) (bufs w) (4096 * 2) of (pm, h) \<Rightarrow>
              if pm = 0 then Some (NEXUSVM_ERR_NO_MEMORY, None, w\<lparr>next_ref := Suc r\<rparr>)
              else
                (case buf_new (buf_al pf) h 4096 of (pa, h) \<Rightarrow>
                 case buf_new (buf_al pf) h 4096 of (pb, h) \<Rightarrow> do {
                  let w = w\<lparr>next_ref := Suc r, bufs := h,
                    vcpu_objs := (vcpu_objs w)(r \<mapsto> v\<lparr>msr_bitmap := pm, io_bitmap_a := pa, io_bitmap_b := pb\<rparr>)\<rparr>;
                  if pa = 0 \<or> pb = 0 then do { w \<leftarrow> free_vcpu w r; Some (NEXUSVM_ERR_NO_MEMORY, None, w) }
                  else do {
                    (result, w) \<leftarrow> init_backend pf hv w r;
                    if result \<noteq> NEXUSVM_OK then do { w \<leftarrow> free_vcpu w r; Some (result, None, w) }
                    else Some (NEXUSVM_OK, Some r, w)
                  }
                })
          }
        })"

definition vcpu_stop :: "world \<Rightarrow> ref option \<Rightarrow> (nexusvm_result \<times> world) run" where
  "vcpu_stop w vcpu =
     (case vcpu of None \<Rightarrow> Some (NEXUSVM_ERR_INVALID_PARAM, w)
      | Some r \<Rightarrow> do {
          _ \<leftarrow> vcpu_objs w r;
          let w = upd_vcpu w r (\<lambda>v. v\<lparr>running := False\<rparr>);
          (_, w) \<leftarrow> scheduler_remove_vcpu w vcpu;
          Some (NEXUSVM_OK, w)
        })"

definition vcpu_destroy :: "world \<Rightarrow> ref option \<Rightarrow> (nexusvm_result \<times> world) run" where
  "vcpu_destroy w vcpu =
     (case vcpu of None \<Rightarrow> Some (NEXUSVM_ERR_INVALID_PARAM, w)
      | Some r \<Rightarrow> do {
          v \<leftarrow> vcpu_objs w r;
          w \<leftarrow> (if running v then map_option snd (vcpu_stop w vcpu) else Some w);
          hv \<leftarrow> g_hypervisor w;
          w \<leftarrow> (case cpu_vendor_of hv of CPU_VENDOR_INTEL \<Rightarrow> vmx_vcpu_cleanup w vcpu
                | CPU_VENDOR_AMD \<Rightarrow> svm_vcpu_cleanup w vcpu
                | CPU_VENDOR_UNKNOWN \<Rightarrow> Some w);
          w \<leftarrow> free_vcpu w r;
          Some (NEXUSVM_OK, w)
        })"

definition setup_backend :: "platform \<Rightarrow> world \<Rightarrow> ref option \<Rightarrow> (nexusvm_result \<times> world) run" where
  "setup_backend pf w vcpu = do {
     hv \<leftarrow> g_hypervisor w;
     case cpu_vendor_of hv of CPU_VENDOR_INTEL \<Rightarrow> vmx_vcpu_setup (cpu (hw pf)) w vcpu
     | CPU_VENDOR_AMD \<Rightarrow> svm_vcpu_setup (hw pf) w vcpu
     | CPU_VENDOR_UNKNOWN \<Rightarrow> Some (NEXUSVM_ERR_NOT_SUPPORTED, w)
   }"

definition vcpu_start :: "platform \<Rightarrow> world \<Rightarrow> ref option \<Rightarrow> (nexusvm_result \<times> world) run" where
  "vcpu_start pf w vcpu =
     (case vcpu of None \<Rightarrow> Some (NEXUSVM_ERR_INVALID_PARAM, w)
      | Some r \<Rightarrow> do {
          v \<leftarrow> vcpu_objs w r;
          if vm v = None then Some (NEXUSVM_ERR_INVALID_PARAM, w)
          else if running v then Some (NEXUSVM_OK, w)
          else do {
            (result, w) \<leftarrow> (if \<not> initialized v then do {
                (result, w) \<leftarrow> setup_backend pf w vcpu;
                Some (result, if result = NEXUSVM_OK then upd_vcpu w r (\<lambda>v. v\<lparr>initialized := True\<rparr>) else w)
              } else Some (NEXUSVM_OK, w));
            if result \<noteq> NEXUSVM_OK then Some (result, w)
            else do {
              let w = upd_vcpu w r (\<lambda>v. v\<lparr>running := True\<rparr>);
              (_, w) \<leftarrow> scheduler_add_vcpu (objs_av pf) w vcpu;
              Some (NEXUSVM_OK, w)
            }
          }
        })"

definition vcpu_run :: "platform \<Rightarrow> world \<Rightarrow> ref option \<Rightarrow> (nexusvm_result \<times> world) run" where
  "vcpu_run pf w vcpu =
     (case vcpu of None \<Rightarrow> Some (NEXUSVM_ERR_INVALID_PARAM, w)
      | Some r \<Rightarrow> do {
          v \<leftarrow> vcpu_objs w r;
          if \<not> initialized v then Some (NEXUSVM_ERR_INVALID_PARAM, w)
          else do {
            let w = upd_vcpu w r (\<lambda>v. v\<lparr>vmentry_count := vmentry_count v + 1\<rparr>);
            hv \<leftarrow> g_hypervisor w;
            case cpu_vendor_of hv of CPU_VENDOR_INTEL \<Rightarrow> vmx_vcpu_run (cpu (hw pf)) w vcpu
            | CPU_VENDOR_AMD \<Rightarrow> svm_vcpu_run (hw pf) w vcpu
            | CPU_VENDOR_UNKNOWN \<Rightarrow> Some (NEXUSVM_ERR_NOT_SUPPORTED, w)
          }
        })"

section \<open>Loops over the virtual CPUs of a machine\<close>

definition vcpu_at :: "world \<Rightarrow> ref \<Rightarrow> nat \<Rightarrow> ref option run" where
  "vcpu_at w r i = do { m \<leftarrow> vm_objs w r; arr \<leftarrow> vcpus m; if i < length arr then Some (arr ! i) else None }"

definition vcpu_numbers :: "nexusvm \<Rightarrow> nat list" where
  "vcpu_numbers m = [0..<unat (vcpu_count m)]"

text \<open>\<open>f\<close> on \<open>vm->vcpus[i]\<close> for each number \<open>i\<close>.\<close>

fun each_vcpu :: "(world \<Rightarrow> ref option \<Rightarrow> world run) \<Rightarrow> world \<Rightarrow> ref \<Rightarrow> nat list \<Rightarrow> world run" where
  "each_vcpu f w r [] = Some w"
| "each_vcpu f w r (i # is) = do { c \<leftarrow> vcpu_at w r i; w \<leftarrow> f w c; each_vcpu f w r is }"

definition stop_one :: "world \<Rightarrow> ref option \<Rightarrow> world run" where
  "stop_one w c = map_option snd (vcpu_stop w c)"

definition destroy_one :: "world \<Rightarrow> ref option \<Rightarrow> world run" where
  "destroy_one w c = map_option snd (vcpu_destroy w c)"

text \<open>Reading a member of a null pointer is undefined.\<close>

definition update_one :: "(nexusvcpu \<Rightarrow> nexusvcpu) \<Rightarrow> world \<Rightarrow> ref option \<Rightarrow> world run" where
  "update_one f w c = do { r \<leftarrow> c; _ \<leftarrow> vcpu_objs w r; Some (upd_vcpu w r f) }"

fun start_vcpus :: "platform \<Rightarrow> world \<Rightarrow> ref \<Rightarrow> nat list \<Rightarrow> (nexusvm_result \<times> world) run" where
  "start_vcpus pf w r [] = Some (NEXUSVM_OK, w)"
| "start_vcpus pf w r (i # is) = do {
     c \<leftarrow> vcpu_at w r i;
     (result, w) \<leftarrow> vcpu_start pf w c;
     if result \<noteq> NEXUSVM_OK then do { w \<leftarrow> each_vcpu stop_one w r [0..<i]; Some (result, w) }
     else start_vcpus pf w r is
   }"

fun create_vcpus :: "platform \<Rightarrow> world \<Rightarrow> ref \<Rightarrow> nat list \<Rightarrow> (nexusvm_result \<times> world) run" where
  "create_vcpus pf w r [] = Some (NEXUSVM_OK, w)"
| "create_vcpus pf w r (i # is) = do {
     _ \<leftarrow> vcpu_at w r i;
     (result, c, w) \<leftarrow> vcpu_create pf w (Some r) (of_nat i);
     if result \<noteq> NEXUSVM_OK then do { w \<leftarrow> each_vcpu destroy_one w r [0..<i]; Some (result, w) }
     else create_vcpus pf (upd_vm w r (\<lambda>m. m\<lparr>vcpus := map_option (\<lambda>a. a[i := c]) (vcpus m)\<rparr>)) r is
   }"

section \<open>Virtual machines\<close>

definition new_eptp :: "u64 \<Rightarrow> eptp" where
  "new_eptp root = zero_eptp\<lparr>eptp_memory_type := EPT_MEMORY_TYPE_WRITE_BACK, page_walk_length := 4 - 1,
     enable_accessed_dirty := True, pml4_physical_address := ucast (drop_bit 12 root AND 0xFFFFFFFFFF)\<rparr>"

definition drop_vm :: "world \<Rightarrow> ref \<Rightarrow> world" where
  "drop_vm w r = w\<lparr>vm_objs := (vm_objs w)(r := None)\<rparr>"

text \<open>A request to \<open>calloc\<close>: whether it succeeds, and the counter after it.\<close>

definition request :: "platform \<Rightarrow> world \<Rightarrow> bool \<times> world" where
  "request pf w = (objs_av pf (callocs w), w\<lparr>callocs := Suc (callocs w)\<rparr>)"

definition upd_hv :: "world \<Rightarrow> (hypervisor \<Rightarrow> hypervisor) \<Rightarrow> world" where
  "upd_hv w f = w\<lparr>g_hypervisor := map_option f (g_hypervisor w)\<rparr>"

text \<open>The end of \<open>vm_create\<close>: the machine becomes the head of the list.\<close>

definition link_vm :: "world \<Rightarrow> ref \<Rightarrow> world run" where
  "link_vm w r = do {
     hv \<leftarrow> g_hypervisor w;
     let w = upd_vm w r (\<lambda>m. m\<lparr>vm_next := vms hv\<rparr>);
     w \<leftarrow> (case vms hv of None \<Rightarrow> Some w
           | Some o1 \<Rightarrow> do { _ \<leftarrow> vm_objs w o1; Some (upd_vm w o1 (\<lambda>m. m\<lparr>vm_prev := Some r\<rparr>)) });
     let w = upd_hv w (\<lambda>hv. hv\<lparr>vms := Some r, vm_count := vm_count hv + 1\<rparr>);
     Some (upd_vm w r (\<lambda>m. m\<lparr>state := VM_STATE_INITIALIZED\<rparr>))
   }"

definition vm_create :: "platform \<Rightarrow> world \<Rightarrow> vm_config option \<Rightarrow> (nexusvm_result \<times> ref option \<times> world) run" where
  "vm_create pf w cfg =
     (case (g_hypervisor w, cfg) of
        (Some hv, Some c) \<Rightarrow>
          (case request pf w of (ok, w) \<Rightarrow>
           if \<not> ok then Some (NEXUSVM_ERR_NO_MEMORY, None, w)
           else if length (cfg_name c) \<ge> 63 then None
           else
             let r = next_ref w;
                 w = upd_hv (w\<lparr>next_ref := Suc r\<rparr>) (\<lambda>hv. hv\<lparr>next_vm_id := next_vm_id hv + 1\<rparr>);
                 m = zero_vm\<lparr>vm_id := next_vm_id hv, vm_name := cfg_name c, config := c, vcpu_count := cfg_vcpu_count c,
                   memory_size := cfg_memory_size c, state := VM_STATE_CREATED\<rparr> in
             (case (if cfg_memory_region_count c > 0 then request pf w else (True, w)) of (ok, w) \<Rightarrow>
              if \<not> ok then Some (NEXUSVM_ERR_NO_MEMORY, None, w)
              else
                let m = (if cfg_memory_region_count c > 0
                         then m\<lparr>memory_regions := Some (replicate (unat (cfg_memory_region_count c)) zero_region)\<rparr> else m) in
                do {
                  (root, e) \<leftarrow> ept_alloc_root (ept_al pf) (ept w);
                  let w = w\<lparr>ept := e\<rparr>;
                  if root = 0 then Some (NEXUSVM_ERR_NO_MEMORY, None, w)
                  else (case request pf w of (ok, w) \<Rightarrow>
                    if \<not> ok then do { e \<leftarrow> ept_free_root (ept w) root; Some (NEXUSVM_ERR_NO_MEMORY, None, w\<lparr>ept := e\<rparr>) }
                    else (case request pf w of (ok, w) \<Rightarrow>
                      if \<not> ok then do { e \<leftarrow> ept_free_root (ept w) root; Some (NEXUSVM_ERR_NO_MEMORY, None, w\<lparr>ept := e\<rparr>) }
                      else do {
                        let m = m\<lparr>ept_root := root, ept_pointer := Some (new_eptp root),
                          vcpus := Some (replicate (unat (cfg_vcpu_count c)) None)\<rparr>;
                        let w = w\<lparr>vm_objs := (vm_objs w)(r \<mapsto> m)\<rparr>;
                        (result, w) \<leftarrow> create_vcpus pf w r [0..<unat (cfg_vcpu_count c)];
                        if result \<noteq> NEXUSVM_OK
                        then do { e \<leftarrow> ept_free_root (ept w) root; Some (result, None, drop_vm (w\<lparr>ept := e\<rparr>) r) }
                        else do { w \<leftarrow> link_vm w r; Some (NEXUSVM_OK, Some r, w) }
                      }))
                }))
      | _ \<Rightarrow> Some (NEXUSVM_ERR_INVALID_PARAM, None, w))"

definition vm_stop :: "world \<Rightarrow> ref option \<Rightarrow> (nexusvm_result \<times> world) run" where
  "vm_stop w vmp =
     (case vmp of None \<Rightarrow> Some (NEXUSVM_ERR_INVALID_PARAM, w)
      | Some r \<Rightarrow> do {
          m \<leftarrow> vm_objs w r;
          if state m \<noteq> VM_STATE_RUNNING then Some (NEXUSVM_ERR_VM_NOT_RUNNING, w)
          else do {
            w \<leftarrow> each_vcpu stop_one w r (vcpu_numbers m);
            Some (NEXUSVM_OK, upd_vm w r (\<lambda>m. m\<lparr>state := VM_STATE_SHUTDOWN\<rparr>))
          }
        })"

text \<open>The removal from the list and the \<open>free\<close> at the end of \<open>vm_destroy\<close>.\<close>

definition unlink_vm :: "world \<Rightarrow> ref \<Rightarrow> world run" where
  "unlink_vm w r = do {
     m \<leftarrow> vm_objs w r;
     hv \<leftarrow> g_hypervisor w;
     w \<leftarrow> (case vm_prev m of
             Some p \<Rightarrow> do { _ \<leftarrow> vm_objs w p; Some (upd_vm w p (\<lambda>q. q\<lparr>vm_next := vm_next m\<rparr>)) }
           | None \<Rightarrow> Some (upd_hv w (\<lambda>hv. hv\<lparr>vms := vm_next m\<rparr>)));
     w \<leftarrow> (case vm_next m of
             Some n \<Rightarrow> do { _ \<leftarrow> vm_objs w n; Some (upd_vm w n (\<lambda>q. q\<lparr>vm_prev := vm_prev m\<rparr>)) }
           | None \<Rightarrow> Some w);
     Some (drop_vm (upd_hv w (\<lambda>hv. hv\<lparr>vm_count := vm_count hv - 1\<rparr>)) r)
   }"

text \<open>\<open>if (p) free (p)\<close> on an object of \<open>blobs\<close>: a second \<open>free\<close> of it is undefined.\<close>

definition free_blob :: "world \<Rightarrow> ref option \<Rightarrow> world run" where
  "free_blob w p =
     (case p of None \<Rightarrow> Some w
      | Some x \<Rightarrow> if x \<in> blobs w then Some (w\<lparr>blobs := blobs w - {x}\<rparr>) else None)"

text \<open>The loop over \<open>memory_regions\<close>, which counts to \<open>memory_region_count\<close>: an index behind the array, or any index when there is
  no array, is an access out of bounds.\<close>

fun free_region_names :: "world \<Rightarrow> memory_region list \<Rightarrow> nat list \<Rightarrow> world run" where
  "free_region_names w a [] = Some w"
| "free_region_names w a (i # is) =
     (if i < length a then do { w \<leftarrow> free_blob w (region_name (a ! i)); free_region_names w a is } else None)"

definition region_array :: "nexusvm \<Rightarrow> memory_region list" where
  "region_array m = (case memory_regions m of None \<Rightarrow> [] | Some a \<Rightarrow> a)"

text \<open>The arrays \<open>vcpus\<close> and \<open>memory_regions\<close> and \<open>ept_pointer\<close> are part of the machine's record and go with it. The pointers to the
  nested structures are those of \<open>m\<close>: nothing in between writes them.\<close>

definition vm_destroy :: "world \<Rightarrow> ref option \<Rightarrow> (nexusvm_result \<times> world) run" where
  "vm_destroy w vmp =
     (case vmp of None \<Rightarrow> Some (NEXUSVM_ERR_INVALID_PARAM, w)
      | Some r \<Rightarrow> do {
          m \<leftarrow> vm_objs w r;
          w \<leftarrow> (if state m = VM_STATE_RUNNING then map_option snd (vm_stop w vmp) else Some w);
          w \<leftarrow> each_vcpu (\<lambda>w c. if c = None then Some w else destroy_one w c) w r (vcpu_numbers m);
          e \<leftarrow> (if ept_root m \<noteq> 0 then ept_free_root (ept w) (ept_root m) else Some (ept w));
          w \<leftarrow> free_region_names (w\<lparr>ept := e\<rparr>) (region_array m) [0..<unat (memory_region_count m)];
          w \<leftarrow> unlink_vm w r;
          w \<leftarrow> free_blob w (nested_vmx m);
          w \<leftarrow> free_blob w (nested_svm m);
          Some (NEXUSVM_OK, w)
        })"

definition vm_start :: "platform \<Rightarrow> world \<Rightarrow> ref option \<Rightarrow> (nexusvm_result \<times> world) run" where
  "vm_start pf w vmp =
     (case vmp of None \<Rightarrow> Some (NEXUSVM_ERR_INVALID_PARAM, w)
      | Some r \<Rightarrow> do {
          m \<leftarrow> vm_objs w r;
          if state m = VM_STATE_RUNNING then Some (NEXUSVM_OK, w)
          else if state m \<notin> {VM_STATE_INITIALIZED, VM_STATE_PAUSED, VM_STATE_SHUTDOWN} then Some (NEXUSVM_ERR_VM_NOT_RUNNING, w)
          else do {
            (result, w) \<leftarrow> start_vcpus pf w r (vcpu_numbers m);
            if result \<noteq> NEXUSVM_OK then Some (result, w)
            else Some (NEXUSVM_OK, upd_vm w r (\<lambda>m. m\<lparr>state := VM_STATE_RUNNING\<rparr>))
          }
        })"

definition vm_pause :: "world \<Rightarrow> ref option \<Rightarrow> (nexusvm_result \<times> world) run" where
  "vm_pause w vmp =
     (case vmp of None \<Rightarrow> Some (NEXUSVM_ERR_INVALID_PARAM, w)
      | Some r \<Rightarrow> do {
          m \<leftarrow> vm_objs w r;
          if state m \<noteq> VM_STATE_RUNNING then Some (NEXUSVM_ERR_VM_NOT_RUNNING, w)
          else do {
            w \<leftarrow> each_vcpu (update_one (\<lambda>v. if running v then v\<lparr>running := False\<rparr> else v)) w r (vcpu_numbers m);
            Some (NEXUSVM_OK, upd_vm w r (\<lambda>m. m\<lparr>state := VM_STATE_PAUSED\<rparr>))
          }
        })"

definition vm_resume :: "world \<Rightarrow> ref option \<Rightarrow> (nexusvm_result \<times> world) run" where
  "vm_resume w vmp =
     (case vmp of None \<Rightarrow> Some (NEXUSVM_ERR_INVALID_PARAM, w)
      | Some r \<Rightarrow> do {
          m \<leftarrow> vm_objs w r;
          if state m \<noteq> VM_STATE_PAUSED then Some (NEXUSVM_ERR_VM_RUNNING, w)
          else do {
            w \<leftarrow> each_vcpu (update_one (\<lambda>v. if initialized v then v\<lparr>running := True\<rparr> else v)) w r (vcpu_numbers m);
            Some (NEXUSVM_OK, upd_vm w r (\<lambda>m. m\<lparr>state := VM_STATE_RUNNING\<rparr>))
          }
        })"

definition reset_state :: cpu_state where
  "reset_state = zero_cpu_state\<lparr>gprs := zero_gprs\<lparr>rsp := 0xFFFFFFF0, rip := 0xFFF0, rflags := 2\<rparr>\<rparr>"

definition vm_reset :: "world \<Rightarrow> ref option \<Rightarrow> bool \<Rightarrow> (nexusvm_result \<times> world) run" where
  "vm_reset w vmp cold =
     (case vmp of None \<Rightarrow> Some (NEXUSVM_ERR_INVALID_PARAM, w)
      | Some r \<Rightarrow> do {
          m \<leftarrow> vm_objs w r;
          w \<leftarrow> (if state m = VM_STATE_RUNNING then map_option snd (vm_stop w vmp) else Some w);
          w \<leftarrow> each_vcpu (update_one (\<lambda>v. v\<lparr>cpu_state_of := reset_state\<rparr>)) w r (vcpu_numbers m);
          e \<leftarrow> (if cold then ept_clear_root (ept w) (ept_root m) else Some (ept w));
          Some (NEXUSVM_OK, upd_vm (w\<lparr>ept := e\<rparr>) r (\<lambda>m. m\<lparr>state := VM_STATE_SHUTDOWN\<rparr>))
        })"

section \<open>Accessors and shutdown\<close>

partial_function (option) vm_find :: "(nexusvm \<Rightarrow> bool) \<Rightarrow> world \<Rightarrow> ref option \<Rightarrow> ref option option" where
  "vm_find P w p =
     (case p of None \<Rightarrow> Some None
      | Some r \<Rightarrow> do { m \<leftarrow> vm_objs w r; if P m then Some (Some r) else vm_find P w (vm_next m) })"

definition vm_get_by_id :: "world \<Rightarrow> u32 \<Rightarrow> ref option run" where
  "vm_get_by_id w n = do { hv \<leftarrow> g_hypervisor w; vm_find (\<lambda>m. vm_id m = n) w (vms hv) }"

definition vm_get_by_name :: "world \<Rightarrow> string option \<Rightarrow> ref option run" where
  "vm_get_by_name w name =
     (case name of None \<Rightarrow> Some None
      | Some s \<Rightarrow> do { hv \<leftarrow> g_hypervisor w; vm_find (\<lambda>m. vm_name m = s) w (vms hv) })"

text \<open>The loop of \<open>vm_enumerate\<close> on the array of the caller; \<open>count\<close> counts up to \<open>max_count\<close>.\<close>

fun enumerate_loop :: "world \<Rightarrow> ref option \<Rightarrow> u32 list \<Rightarrow> nat \<Rightarrow> nat \<Rightarrow> (nat \<times> u32 list) run" where
  "enumerate_loop w p ids cnt 0 = Some (cnt, ids)"
| "enumerate_loop w p ids cnt (Suc left) =
     (case p of None \<Rightarrow> Some (cnt, ids)
      | Some r \<Rightarrow> do {
          m \<leftarrow> vm_objs w r;
          if cnt < length ids then enumerate_loop w (vm_next m) (ids[cnt := vm_id m]) (Suc cnt) left else None
        })"

definition vm_enumerate :: "world \<Rightarrow> u32 list option \<Rightarrow> u32 \<Rightarrow> (u32 \<times> u32 list option) run" where
  "vm_enumerate w ids max_count =
     (case ids of None \<Rightarrow> Some (0, None)
      | Some a \<Rightarrow>
          if max_count = 0 then Some (0, ids)
          else do {
            hv \<leftarrow> g_hypervisor w;
            (cnt, a) \<leftarrow> enumerate_loop w (vms hv) a 0 (unat max_count);
            Some (of_nat cnt, Some a)
          })"

partial_function (option) stop_all :: "world \<Rightarrow> ref option \<Rightarrow> world option" where
  "stop_all w p =
     (case p of None \<Rightarrow> Some w
      | Some r \<Rightarrow> do {
          m \<leftarrow> vm_objs w r;
          (_, w) \<leftarrow> vm_stop w p;
          (_, w) \<leftarrow> vm_destroy w p;
          stop_all w (vm_next m)
        })"

definition hypervisor_shutdown :: "world \<Rightarrow> world run" where
  "hypervisor_shutdown w =
     (case g_hypervisor w of None \<Rightarrow> Some w
      | Some hv \<Rightarrow>
          if \<not> g_initialized w then Some w
          else do {
            w \<leftarrow> stop_all w (vms hv);
            i \<leftarrow> io_emul_shutdown (io w);
            let w = w\<lparr>io := i, ept := ept_shutdown (ept w)\<rparr>;
            let w = scheduler_shutdown w;
            Some ((drop_hypervisor w)\<lparr>g_initialized := False\<rparr>)
          })"

end
