(* ===== verification/Vcpu_Backend.thy ===== *)
theory Vcpu_Backend
  imports Vcpu_Ops Byte_Buffers
begin

text \<open>
  The interface between the life cycle of virtual CPUs and the two hardware backends: what \<open>init\<close> may allocate for a
  virtual CPU, \<open>cleanup\<close> gives back, and neither touches anything but that virtual CPU and the byte buffers.
\<close>

definition put_vcpu :: "world \<Rightarrow> ref \<Rightarrow> buffers \<Rightarrow> nexusvcpu \<Rightarrow> world" where
  "put_vcpu w r h v = w\<lparr>bufs := h, vcpu_objs := (vcpu_objs w)(r \<mapsto> v)\<rparr>"

lemma put_vcpu_simps [simp]:
  "bufs (put_vcpu w r h v) = h" "vcpu_objs (put_vcpu w r h v) = (vcpu_objs w)(r \<mapsto> v)"
  "put_vcpu (put_vcpu w r h v) r h' v' = put_vcpu w r h' v'" "g_hypervisor (put_vcpu w r h v) = g_hypervisor w"
  "be (put_vcpu w r h v) = be w"
  by (simp_all add: put_vcpu_def)

lemma put_vcpu_same: "vcpu_objs w r = Some v \<Longrightarrow> put_vcpu w r (bufs w) v = w"
  by (simp add: put_vcpu_def fun_upd_idem)

lemma upd_put_vcpu [simp]: "upd_vcpu (put_vcpu w r h v) r f = put_vcpu w r h (f v)"
  by (simp add: upd_vcpu_def put_vcpu_def)

lemma upd_vcpu_put: "vcpu_objs w r = Some v \<Longrightarrow> upd_vcpu (w\<lparr>bufs := h\<rparr>) r f = put_vcpu w r h (f v)"
  by (simp add: upd_vcpu_def put_vcpu_def)

lemma bufs_put_vcpu [simp]: "(put_vcpu w r h v)\<lparr>bufs := h'\<rparr> = put_vcpu w r h' v"
  by (simp add: put_vcpu_def)

text \<open>The members that the backends leave alone.\<close>

definition same_core :: "nexusvcpu \<Rightarrow> nexusvcpu \<Rightarrow> bool" where
  "same_core v v' \<longleftrightarrow> msr_bitmap v' = msr_bitmap v \<and> io_bitmap_a v' = io_bitmap_a v \<and> io_bitmap_b v' = io_bitmap_b v \<and>
     running v' = running v \<and> initialized v' = initialized v \<and> vm v' = vm v \<and> vcpu_id v' = vcpu_id v \<and>
     physical_cpu v' = physical_cpu v \<and> entity v' = entity v"

definition no_regions :: "nexusvcpu \<Rightarrow> bool" where
  "no_regions v \<longleftrightarrow> vmx_on_region v = 0 \<and> vmx_vmcs_region v = 0 \<and> vmcb v = 0"

locale vcpu_backend =
  fixes init :: "buf_alloc \<Rightarrow> world \<Rightarrow> ref option \<Rightarrow> (nexusvm_result \<times> world) run"
    and cleanup :: "world \<Rightarrow> ref option \<Rightarrow> world run"
  assumes init_cleanup: "buf_fresh al \<Longrightarrow> vcpu_objs w r = Some v \<Longrightarrow> no_regions v \<Longrightarrow>
    \<exists>res h v1. init al w (Some r) = Some (res, put_vcpu w r h v1) \<and> same_core v v1 \<and>
      (res = NEXUSVM_ERR_NO_MEMORY \<and> h = bufs w \<or>
       res = NEXUSVM_OK \<and> (\<exists>v2. cleanup (put_vcpu w r h v1) (Some r) = Some (put_vcpu w r (bufs w) v2) \<and> same_core v v2))"

text \<open>A processor of an unknown vendor has no backend.\<close>

interpretation no_backend: vcpu_backend "\<lambda>al w c. Some (NEXUSVM_OK, w)" "\<lambda>w c. Some w"
  by unfold_locales (auto simp: put_vcpu_same same_core_def intro!: exI)

end
