(* ===== verification/Vmx_Correct.thy ===== *)
theory Vmx_Correct
  imports Vmx Vcpu_Backend
begin

text \<open>
  Properties of the VT-x backend: the interception bitmaps as sets of numbers, the advance of the guest's
  instruction pointer, the run loop as an iteration of rounds, and what happens without a current VMCS.
\<close>

section \<open>Bitmaps as sets\<close>

definition bitmap_bit :: "u8 list \<Rightarrow> nat \<Rightarrow> bool" where
  "bitmap_bit bs n = bit (bs ! (n div 8)) (n mod 8)"

text \<open>The update of one byte at \<open>k div 8\<close> with bit \<open>k mod 8\<close>.\<close>

lemma bitmap_update:
  assumes "k div 8 < length bs" "n div 8 < length bs"
    and "\<And>j x. j < 8 \<Longrightarrow> bit (f x) j \<longleftrightarrow> (if j = k mod 8 then v else bit x j)"
  shows "bitmap_bit (bs[k div 8 := f (bs ! (k div 8))]) n \<longleftrightarrow> (if n = k then v else bitmap_bit bs n)"
proof -
  have "n = k \<longleftrightarrow> n div 8 = k div 8 \<and> n mod 8 = k mod 8" by (metis div_mult_mod_eq)
  then show ?thesis using assms by (auto simp: bitmap_bit_def nth_list_update)
qed

lemma byte_index:
  "unat (m div 8 :: u32) = unat m div 8" "unat (m mod 8 :: u32) = unat m mod 8" "m mod 8 < (8 :: u32)"
  by (simp_all add: unat_div unat_mod word_less_nat_alt)

definition switched :: "(u32 \<Rightarrow> u8 \<Rightarrow> u8) \<Rightarrow> bool \<Rightarrow> bool" where
  "switched f v \<longleftrightarrow> (\<forall>b x n. b < 8 \<longrightarrow> n < 8 \<longrightarrow> bit (f b x) n = (if n = unat b then v else bit x n))"

lemma switched_ops: "switched set_bit8 True" "switched clear_bit8 False"
  by (auto simp: switched_def bit_set_bit8 bit_clear_bit8)

lemma msr_intercept_effect:
  assumes v: "vcpu_objs w r = Some v" and bs: "bufs w (msr_bitmap v) = Some bs" "length bs = 8192" "msr_bitmap v \<noteq> 0"
    and f: "switched f x" and off: "unat msr div 8 + unat off < 8192"
  shows "\<exists>bs'. msr_intercept f off w (Some r) msr = Some (w\<lparr>bufs := (bufs w)(msr_bitmap v \<mapsto> bs')\<rparr>) \<and> length bs' = 8192 \<and>
    (\<forall>n < 65536. bitmap_bit bs' n \<longleftrightarrow> (if n = unat msr + 8 * unat off then x else bitmap_bit bs n))"
proof -
  let ?k = "unat msr + 8 * unat off"
  have i: "unat (msr div 8 + off) = ?k div 8" "?k div 8 < 8192"
    using off by (simp_all add: unat_word_ariths byte_index)
  then have lt: "msr div 8 + off < 8192" by (simp add: word_less_nat_alt)
  have k8: "?k mod 8 = unat msr mod 8" by simp
  define bs' where "bs' = bs[?k div 8 := f (msr mod 8) (bs ! (?k div 8))]"
  have "msr_intercept f off w (Some r) msr = Some (w\<lparr>bufs := (bufs w)(msr_bitmap v \<mapsto> bs')\<rparr>)"
    using v bs lt i by (simp add: msr_intercept_def upd8_def Let_def bs'_def)
  moreover have "bitmap_bit bs' n \<longleftrightarrow> (if n = ?k then x else bitmap_bit bs n)" if "n < 65536" for n
    unfolding bs'_def
  proof (rule bitmap_update)
    show "?k div 8 < length bs" using i(2) bs(2) by simp
    show "n div 8 < length bs" using that bs(2) by auto
    show "bit (f (msr mod 8) y) j \<longleftrightarrow> (if j = ?k mod 8 then x else bit y j)" if "j < 8" for j y
      using f that byte_index(2,3) [of msr] unfolding switched_def k8 by metis
  qed
  ultimately show ?thesis using bs(2) by (intro exI [of _ bs']) (auto simp: bs'_def)
qed

lemma msr_intercept_out_of_range:
  assumes "vcpu_objs w r = Some v" "8192 \<le> unat msr div 8 + unat off" "unat msr div 8 + unat off < 2 ^ 32"
  shows "msr_intercept f off w (Some r) msr = Some w"
proof -
  have "unat (msr div 8 + off) = unat msr div 8 + unat off" using assms(3) by (simp add: unat_word_ariths byte_index)
  then have "\<not> msr div 8 + off < 8192" using assms(2) by (simp add: word_less_nat_alt)
  then show ?thesis using assms(1) by (simp add: msr_intercept_def Let_def)
qed

lemma io_intercept_effect:
  assumes v: "vcpu_objs w r = Some v" and a: "bufs w (io_bitmap_a v) = Some as" "length as = 4096"
    and b: "bufs w (io_bitmap_b v) = Some bs" "length bs = 4096" and ne: "io_bitmap_a v \<noteq> io_bitmap_b v"
    and f: "switched f x" and pt: "unat pt < 32768"
  shows "\<exists>as' bs'. io_intercept f w (Some r) pt =
      Some (w\<lparr>bufs := (bufs w)(io_bitmap_a v \<mapsto> as', io_bitmap_b v \<mapsto> bs')\<rparr>) \<and> length as' = 4096 \<and> length bs' = 4096 \<and>
    (\<forall>n < 32768. (bitmap_bit as' n \<longleftrightarrow> (if n = unat pt then x else bitmap_bit as n)) \<and>
      (bitmap_bit bs' n \<longleftrightarrow> (if n = unat pt then x else bitmap_bit bs n)))"
proof -
  let ?p = "ucast pt :: u32"
  have u: "unat ?p = unat pt" by (simp add: unsigned_ucast_eq take_bit_nat_eq_self order_less_le_trans [OF unat_below])
  have i: "unat (?p div 8) = unat pt div 8" "?p div 8 < 4096"
    using pt by (simp_all add: byte_index u word_less_nat_alt)
  let ?g = "f (?p mod 8)" and ?i = "unat pt div 8"
  have g: "bit (?g y) j \<longleftrightarrow> (if j = unat pt mod 8 then x else bit y j)" if "j < 8" for j y
    using f that byte_index(2,3) [of ?p] unfolding switched_def u by metis
  have upd: "bitmap_bit (cs[?i := ?g (cs ! ?i)]) n \<longleftrightarrow> (if n = unat pt then x else bitmap_bit cs n)"
    if "length cs = 4096" "n < 32768" for cs n
    by (rule bitmap_update) (use that pt g in auto)
  define as' bs' where "as' = as[?i := ?g (as ! ?i)]" and "bs' = bs[?i := ?g (bs ! ?i)]"
  have "io_intercept f w (Some r) pt = Some (w\<lparr>bufs := (bufs w)(io_bitmap_a v \<mapsto> as', io_bitmap_b v \<mapsto> bs')\<rparr>)"
    using v a b ne i pt by (simp add: io_intercept_def upd8_def Let_def as'_def bs'_def)
  moreover have "length as' = 4096" "length bs' = 4096" using a(2) b(2) by (simp_all add: as'_def bs'_def)
  moreover note upd [OF a(2), folded as'_def] upd [OF b(2), folded bs'_def]
  ultimately show ?thesis by blast
qed

section \<open>Emulated instructions\<close>


text \<open>The low 16 bits of the exit reason name the exit \<open>e\<close>, and no two exits share a number.\<close>

definition exits_with :: "cpu_env \<Rightarrow> u64 \<Rightarrow> vmx_exit \<Rightarrow> bool" where
  "exits_with env reason e \<longleftrightarrow> ucast (reason AND 0xFFFF) = exit_number (exit env) e \<and> inj (exit_number (exit env))"

lemma exits_with_iff: "exits_with env reason e \<Longrightarrow> ucast (reason AND 0xFFFF) = exit_number (exit env) e' \<longleftrightarrow> e = e'"
  by (auto simp: exits_with_def inj_def)

lemma vmexit_dispatch:
  assumes "exits_with env reason e"
  shows "vmx_handle_vmexit env w r reason qual =
    (case e of VMX_EXIT_EXT_INTERRUPT \<Rightarrow> vmx_handle_interrupt env w r
     | VMX_EXIT_EXCEPTION_OR_NMI \<Rightarrow> vmx_handle_interrupt env w r
     | VMX_EXIT_CPUID \<Rightarrow> vmx_handle_cpuid env w r
     | VMX_EXIT_HLT \<Rightarrow> vmx_handle_hlt env w r
     | VMX_EXIT_CR_ACCESS \<Rightarrow> vmx_handle_cr_access env w r qual
     | VMX_EXIT_MSR_READ \<Rightarrow> vmx_handle_msr_read env w r
     | VMX_EXIT_MSR_WRITE \<Rightarrow> vmx_handle_msr_write env w r
     | VMX_EXIT_IO_INSTRUCTION \<Rightarrow> vmx_handle_io env w r qual
     | VMX_EXIT_EPT_VIOLATION \<Rightarrow> vmx_handle_ept_violation env w r qual
     | VMX_EXIT_VMCALL \<Rightarrow> vmx_handle_vmcall env w r
     | VMX_EXIT_VMXOFF \<Rightarrow> do { _ \<leftarrow> vcpu_objs w r; Some (NEXUSVM_OK, upd_vcpu w r (\<lambda>v. v\<lparr>running := False\<rparr>)) }
     | VMX_EXIT_RDTSC \<Rightarrow> vmx_handle_rdtsc env w r
     | VMX_EXIT_RDTSCP \<Rightarrow> vmx_handle_rdtsc env w r
     | VMX_EXIT_INVLPG \<Rightarrow> vmx_handle_invlpg env w r qual
     | VMX_EXIT_XSETBV \<Rightarrow> vmx_handle_xsetbv env w r
     | VMX_EXIT_MCE_DURING_ENTRY \<Rightarrow> vmx_handle_machine_check env w r
     | VMX_EXIT_MCE_DURING_EXIT \<Rightarrow> vmx_handle_machine_check env w r
     | VMX_EXIT_TASK_SWITCH \<Rightarrow> vmx_handle_task_switch env w r)"
  unfolding vmx_handle_vmexit_def Let_def exits_with_iff [OF assms] by (cases e) simp_all

lemma be_upd_vcpu [simp]: "be (upd_vcpu w r f) = be w"
  by (simp add: upd_vcpu_def)

lemma be_upd_gprs [simp]: "be (upd_gprs w r f) = be w"
  by (simp add: upd_gprs_def)


text \<open>The handler executes an instruction with operands of the guest that the processor refuses.\<close>

definition faults :: "cpu_env \<Rightarrow> vmx_exit \<Rightarrow> guest_gprs \<Rightarrow> bool" where
  "faults env e g = (case e of
       VMX_EXIT_MSR_READ \<Rightarrow> \<not> rdmsr_ok env (ucast (rcx g))
     | VMX_EXIT_MSR_WRITE \<Rightarrow> \<not> wrmsr_ok env (ucast (rcx g)) (rax g OR push_bit 32 (rdx g))
     | VMX_EXIT_XSETBV \<Rightarrow> rcx g AND 0xFFFFFFFF = 0 \<and> \<not> xsetbv_ok env (rax g OR push_bit 32 (rdx g))
     | _ \<Rightarrow> False)"


text \<open>A virtual CPU whose VMCS, at \<open>0x3000\<close>, is current, on a processor with the exit numbers of the manual.\<close>

fun manual_exit :: "vmx_exit \<Rightarrow> u16" where
  "manual_exit VMX_EXIT_CPUID = 10"
| "manual_exit VMX_EXIT_HLT = 12"
| "manual_exit VMX_EXIT_CR_ACCESS = 28"
| "manual_exit VMX_EXIT_MSR_READ = 31"
| "manual_exit VMX_EXIT_MSR_WRITE = 32"
| "manual_exit VMX_EXIT_IO_INSTRUCTION = 30"
| "manual_exit VMX_EXIT_VMCALL = 18"
| "manual_exit VMX_EXIT_VMXOFF = 26"
| "manual_exit VMX_EXIT_RDTSC = 16"
| "manual_exit VMX_EXIT_INVLPG = 14"
| "manual_exit VMX_EXIT_MCE_DURING_ENTRY = 41"
| "manual_exit VMX_EXIT_MCE_DURING_EXIT = 42"
| "manual_exit VMX_EXIT_TASK_SWITCH = 9"
| "manual_exit e = 0"

definition demo_env :: cpu_env where
  "demo_env = \<lparr>cpuid = (\<lambda>leaf sub. (leaf, 2, 3, 4)), vmxon_ok = True, vmclear_zf = (\<lambda>_. False), host_value = (\<lambda>_. 0),
     timestamp = (\<lambda>_. 0), rdmsr_ok = (\<lambda>m. m < 0x800), wrmsr_ok = (\<lambda>m _. m < 0x800), xsetbv_ok = (\<lambda>x. bit x 0), vm_entry = (\<lambda>_ _ b. b), field = (\<lambda>_. 0x2000), exit = manual_exit\<rparr>"

definition hw_vcpu :: nexusvcpu where
  "hw_vcpu = zero_vcpu\<lparr>vm := Some 30, running := True, vmx_on_region := 0x2000, vmx_vmcs_region := 0x3000,
     msr_bitmap := 0x5000, io_bitmap_a := 0x8000, io_bitmap_b := 0x9000\<rparr>"

lemma hw_vcpu_fields [simp]:
  "vm hw_vcpu = Some 30" "running hw_vcpu" "vmx_on_region hw_vcpu = 0x2000" "vmx_vmcs_region hw_vcpu = 0x3000"
  "msr_bitmap hw_vcpu = 0x5000" "io_bitmap_a hw_vcpu = 0x8000" "io_bitmap_b hw_vcpu = 0x9000"
  by (simp_all add: hw_vcpu_def zero_vcpu_def)

definition vmx_world :: world where
  "vmx_world = boot_world\<lparr>g_hypervisor := Some zero_hypervisor,
     vm_objs := [30 \<mapsto> zero_vm], vcpu_objs := [20 \<mapsto> hw_vcpu],
     bufs := [0x2000 \<mapsto> replicate 4096 0, 0x3000 \<mapsto> replicate 4096 0, 0x5000 \<mapsto> replicate 8192 0,
       0x8000 \<mapsto> replicate 4096 0, 0x9000 \<mapsto> replicate 4096 0],
     be := reset_backend\<lparr>vmcs_current := Some 0x3000,
       vmcs_mem := (\<lambda>_ _. 0)(0x3000 := (\<lambda>_. 0)(0x801E := 0x1000, 0x4404 := 2))\<rparr>\<rparr>"

lemma inj_manual: "inj (exit_number manual_exit)"
proof (rule injI)
  fix x y assume "exit_number manual_exit x = exit_number manual_exit y"
  then show "x = y" by (cases x; cases y; simp)
qed


section \<open>Model-specific registers\<close>

lemma and_low32: "x AND 0xFFFFFFFF = take_bit 32 (x :: u64)"
  by (simp add: take_bit_eq_mask mask_eq_exp_minus_1)

text \<open>A value that the guest writes to a model-specific register and reads back comes back without its upper
  half: after the RDMSR exit, \<open>rax\<close> holds the lower 32 bits and \<open>rdx\<close> is zero, whatever was written.\<close>

theorem vmx_msr_read_after_write:
  assumes v: "vcpu_objs w r = Some v"
    and wr: "exits_with env wreason VMX_EXIT_MSR_WRITE" and rd: "exits_with env rreason VMX_EXIT_MSR_READ"
    and ok: "\<not> faults env VMX_EXIT_MSR_WRITE (regs v)" "\<not> faults env VMX_EXIT_MSR_READ (regs v)"
  shows "\<exists>w1 w2 v2. vmx_handle_vmexit env w r wreason wq = Some (NEXUSVM_OK, w1) \<and>
    hw_msr (be w1) (ucast (rcx (regs v))) = rax (regs v) OR push_bit 32 (rdx (regs v)) \<and>
    vmx_handle_vmexit env w1 r rreason rq = Some (NEXUSVM_OK, w2) \<and> vcpu_objs w2 r = Some v2 \<and>
    rax (regs v2) = take_bit 32 (rax (regs v)) \<and> rdx (regs v2) = 0"
proof -
  let ?x = "rax (regs v) OR push_bit 32 (rdx (regs v))"
  define w1 where "w1 = advance_rip env (w\<lparr>be := (be w)\<lparr>hw_msr := (hw_msr (be w))(ucast (rcx (regs v)) := ?x)\<rparr>\<rparr>)"
  have adv: "vcpu_objs (advance_rip env u) = vcpu_objs u" "hw_msr (be (advance_rip env u)) = hw_msr (be u)" for u
    by (simp_all add: advance_rip_def vmx_vmwrite_def Let_def split: option.split)
  have 1: "vmx_handle_vmexit env w r wreason wq = Some (NEXUSVM_OK, w1)"
    using v ok(1) by (simp add: faults_def vmexit_dispatch [OF wr] vmx_handle_msr_write_def w1_def Let_def)
  have v1: "vcpu_objs w1 r = Some v" "hw_msr (be w1) (ucast (rcx (regs v))) = ?x"
    using v by (simp_all add: w1_def adv)
  have low: "take_bit 32 (push_bit 32 y) = 0" for y :: u64
    by (rule bit_word_eqI) (auto simp: bit_take_bit_iff bit_push_bit_iff)
  have halves: "take_bit 32 y AND 0xFFFFFFFF = take_bit 32 y" "drop_bit 32 (take_bit 32 y) = 0" for y :: u64
    by (simp_all add: and_low32) (simp_all add: bit_eq_iff bit_simps)
  have 2: "\<exists>w2 v2. vmx_handle_vmexit env w1 r rreason rq = Some (NEXUSVM_OK, w2) \<and> vcpu_objs w2 r = Some v2 \<and>
      rax (regs v2) = take_bit 32 (rax (regs v)) \<and> rdx (regs v2) = 0"
    using v1 ok(2) by (simp add: faults_def vmexit_dispatch [OF rd] vmx_handle_msr_read_def Let_def adv upd_gprs_def upd_vcpu_def regs_def
      low halves)
  from 1 2 v1(2) show ?thesis by blast
qed

lemma vmx_msr_read_after_write_witness:
  "\<exists>w1 w2 v2. vmx_handle_vmexit demo_env vmx_world 20 32 0 = Some (NEXUSVM_OK, w1) \<and>
    vmx_handle_vmexit demo_env w1 20 31 0 = Some (NEXUSVM_OK, w2) \<and> vcpu_objs w2 20 = Some v2 \<and> rdx (regs v2) = 0"
proof -
  have v: "vcpu_objs vmx_world 20 = Some hw_vcpu" by (simp add: vmx_world_def)
  have "exits_with demo_env 32 VMX_EXIT_MSR_WRITE" "exits_with demo_env 31 VMX_EXIT_MSR_READ"
    "\<not> faults demo_env VMX_EXIT_MSR_WRITE (regs hw_vcpu)" "\<not> faults demo_env VMX_EXIT_MSR_READ (regs hw_vcpu)"
    by (simp_all add: exits_with_def demo_env_def inj_manual faults_def regs_def hw_vcpu_def zero_vcpu_def zero_cpu_state_def zero_gprs_def)
  from vmx_msr_read_after_write [OF v this, of 0 0] show ?thesis by blast
qed

section \<open>The run loop as an iteration of rounds\<close>

text \<open>The state before the round \<open>n\<close>, when all rounds before it were run by a running virtual CPU and succeeded.\<close>

fun rounds :: "cpu_env \<Rightarrow> ref \<Rightarrow> nat \<Rightarrow> world \<Rightarrow> world option" where
  "rounds env r 0 w = Some w"
| "rounds env r (Suc n) w = do {
     v \<leftarrow> vcpu_objs w r;
     if running v then do {
       (result, w) \<leftarrow> vmx_round env w r;
       if result = NEXUSVM_OK then rounds env r n w else None
     } else None
   }"

text \<open>What ends the loop in the state \<open>w\<close>.\<close>

definition loop_ends :: "cpu_env \<Rightarrow> ref \<Rightarrow> world \<Rightarrow> nexusvm_result \<Rightarrow> world \<Rightarrow> bool" where
  "loop_ends env r w result w' \<longleftrightarrow>
     (case vcpu_objs w r of None \<Rightarrow> False
      | Some v \<Rightarrow> if running v then vmx_round env w r = Some (result, w') \<and> result \<noteq> NEXUSVM_OK
                  else result = NEXUSVM_OK \<and> w' = w)"

lemma run_loop_rounds: "vmx_run_loop env w r = Some y \<Longrightarrow> \<exists>n w1. rounds env r n w = Some w1 \<and> loop_ends env r w1 (fst y) (snd y)"
proof (induction rule: vmx_run_loop.raw_induct [rotated, consumes 1, case_names step])
  case (step loop env w r y)
  then obtain v where v: "vcpu_objs w r = Some v" by (auto simp: bind_eq_Some_conv)
  show ?case
  proof (cases "running v")
    case True
    then obtain x w2 where round: "vmx_round env w r = Some (x, w2)" using step(2) v by (auto simp: bind_eq_Some_conv)
    show ?thesis
    proof (cases "x = NEXUSVM_OK")
      case ok: True
      then have "loop env w2 r = Some y" using step(2) v True round by simp
      from step(1) [OF this] obtain n w1 where "rounds env r n w2 = Some w1" "loop_ends env r w1 (fst y) (snd y)" by blast
      then show ?thesis using v True round ok by (intro exI [of _ "Suc n"] exI [of _ w1]) simp
    next
      case False
      then show ?thesis using step(2) v True round
        by (intro exI [of _ 0] exI [of _ w]) (auto simp: loop_ends_def)
    qed
  next
    case False
    then show ?thesis using step(2) v by (intro exI [of _ 0] exI [of _ w]) (auto simp: loop_ends_def)
  qed
qed

lemma rounds_run_loop:
  "rounds env r n w = Some w1 \<Longrightarrow> loop_ends env r w1 result w' \<Longrightarrow> vmx_run_loop env w r = Some (result, w')"
proof (induction n arbitrary: w)
  case 0
  then show ?case by (subst vmx_run_loop.simps) (auto simp: loop_ends_def split: option.splits if_splits)
next
  case (Suc n)
  then show ?case by (subst vmx_run_loop.simps) (auto simp: bind_eq_Some_conv split: if_splits)
qed

text \<open>The loop of \<open>vmx_vcpu_run\<close> returns a result exactly when some number of rounds is completed with success by
  the running virtual CPU and, in the state after them, the virtual CPU is no longer running (the
  result is success) or one more round fails (the result is its error). Otherwise it never returns.\<close>

theorem vmx_run_loop_iff_rounds:
  "vmx_run_loop env w r = Some (result, w') \<longleftrightarrow> (\<exists>n w1. rounds env r n w = Some w1 \<and> loop_ends env r w1 result w')"
  using run_loop_rounds [of env w r "(result, w')"] rounds_run_loop by auto

section \<open>No current VMCS\<close>

text \<open>
  The code executes no \<open>vmptrld\<close>: no operation makes a VMCS current. An entry without one fails and changes nothing.
\<close>

lemma vmwrite_none [simp]: "vmcs_current b = None \<Longrightarrow> vmx_vmwrite e x b = b"
  by (simp add: vmx_vmwrite_def)

lemma write_fields_none [simp]: "vmcs_current b = None \<Longrightarrow> write_fields env ws b = b"
  by (induction ws) (auto simp: write_fields_def)

lemma vmcs_clear_none:
  "vmcs_current (be w) = None \<Longrightarrow> vcpu_objs w r = Some v \<Longrightarrow> \<exists>x. vmx_vmcs_clear env w (Some r) = Some (x, w)"
  by (simp add: vmx_vmcs_clear_def Let_def)

lemma set_eptp_none [simp]: "vmcs_current b = None \<Longrightarrow> vmx_set_eptp env e b = b"
  by (simp add: vmx_set_eptp_def split: option.split)

definition unnamed_exit :: "cpu_env \<Rightarrow> u16 \<Rightarrow> bool" where
  "unnamed_exit env n \<longleftrightarrow> list_all (\<lambda>e. n \<noteq> exit_number (exit env) e)
     [VMX_EXIT_EXCEPTION_OR_NMI, VMX_EXIT_EXT_INTERRUPT, VMX_EXIT_XSETBV, VMX_EXIT_EPT_VIOLATION, VMX_EXIT_RDTSCP,
      VMX_EXIT_CPUID, VMX_EXIT_HLT, VMX_EXIT_CR_ACCESS, VMX_EXIT_MSR_READ, VMX_EXIT_MSR_WRITE, VMX_EXIT_IO_INSTRUCTION,
      VMX_EXIT_VMCALL, VMX_EXIT_VMXOFF, VMX_EXIT_RDTSC, VMX_EXIT_INVLPG, VMX_EXIT_MCE_DURING_ENTRY,
      VMX_EXIT_MCE_DURING_EXIT, VMX_EXIT_TASK_SWITCH]"

lemma vmexit_unnamed: "unnamed_exit env (ucast (reason AND 0xFFFF)) \<Longrightarrow> vmx_handle_vmexit env w r reason qual = Some (NEXUSVM_ERR_GENERIC, w)"
  by (simp add: unnamed_exit_def vmx_handle_vmexit_def Let_def)

text \<open>Setting up a virtual CPU on a processor without a current VMCS reports success and writes no VMCS field: the
  processor state is unchanged, and the number of the virtual CPU is replaced by the status of \<open>vmxon\<close>.\<close>

theorem vmx_vcpu_setup_without_vmcs:
  assumes v: "vcpu_objs w r = Some v" "vmx_on_region v \<noteq> 0" "vmx_vmcs_region v \<noteq> 0" and hv: "g_hypervisor w = Some hv"
    and m: "get_vm w (vm v) = Some m" and cur: "vmcs_current (be w) = None"
  shows "vmx_vcpu_setup env w (Some r) =
    Some (NEXUSVM_OK, upd_vcpu w r (\<lambda>v. v\<lparr>vcpu_id := (if vmxon_ok env then 0 else -1)\<rparr>))"
  (is "_ = Some (_, ?w)")
proof -
  have on: "vmx_on env w (Some r) = Some (NEXUSVM_OK, ?w)" using v by (simp add: vmx_on_def)
  have w: "vmcs_current (be ?w) = None" "\<exists>v. vcpu_objs ?w r = Some v" "g_hypervisor ?w = Some hv" "get_vm ?w (vm v) = Some m"
    using v cur hv m by (simp_all add: upd_vcpu_def get_vm_def)
  then obtain x where clear: "vmx_vmcs_clear env ?w (Some r) = Some (x, ?w)" using vmcs_clear_none by blast
  have be: "?w\<lparr>be := be w\<rparr> = ?w" by (cases w) (simp add: upd_vcpu_def)
  have clear': "vmx_vmcs_clear env (?w\<lparr>be := be w\<rparr>) (Some r) = Some (x, ?w)" by (simp only: be clear)
  show ?thesis
    unfolding vmx_vcpu_setup_def Let_def using v w clear on clear' cur by (simp split del: if_split cong: if_cong)
qed

definition no_vmcs_world :: world where
  "no_vmcs_world = vmx_world\<lparr>be := reset_backend\<rparr>"

lemma no_vmcs_facts:
  "vcpu_objs no_vmcs_world 20 = Some hw_vcpu" "vmcs_current (be no_vmcs_world) = None"
  "g_hypervisor no_vmcs_world = Some zero_hypervisor" "get_vm no_vmcs_world (Some 30) = Some zero_vm"
  by (simp_all add: no_vmcs_world_def vmx_world_def reset_backend_def get_vm_def)

lemma vmx_vcpu_setup_without_vmcs_witness:
  "vmx_vcpu_setup demo_env no_vmcs_world (Some 20) =
    Some (NEXUSVM_OK, upd_vcpu no_vmcs_world 20 (\<lambda>v. v\<lparr>vcpu_id := (if vmxon_ok demo_env then 0 else -1)\<rparr>))"
  by (rule vmx_vcpu_setup_without_vmcs [OF no_vmcs_facts(1)]) (simp_all add: no_vmcs_facts)

text \<open>Without a current VMCS, where an entry fails and leaves the processor state alone, \<open>vmx_vcpu_run\<close> returns
  after one round with the generic error: the exit reason it reads is the encoding of the field, which
  names no exit. The guest executes nothing; both counters of the virtual CPU are incremented.\<close>

theorem vmx_vcpu_run_without_vmcs:
  assumes v: "vcpu_objs w r = Some v" "vmx_vmcs_region v \<noteq> 0" "running v" and cur: "vmcs_current (be w) = None"
    and entry: "\<And>launch n b. vmcs_current b = None \<Longrightarrow> vm_entry env launch n b = b" and exit: "unnamed_exit env 0x4400"
  shows "vmx_vcpu_run env w (Some r) = Some (NEXUSVM_ERR_GENERIC,
    upd_vcpu w r (\<lambda>v. v\<lparr>vmentry_count := vmentry_count v + 1, vmexit_count := vmexit_count v + 1\<rparr>))"
proof -
  let ?w = "upd_vcpu w r (\<lambda>v. v\<lparr>vmentry_count := vmentry_count v + 1, vmexit_count := vmexit_count v + 1\<rparr>)"
  obtain x where clear: "vmx_vmcs_clear env w (Some r) = Some (x, w)" using vmcs_clear_none [OF cur v(1)] by blast
  have upd: "upd_vcpu (upd_vcpu w r (\<lambda>v'. v'\<lparr>vmentry_count := vmentry_count v + 1\<rparr>)\<lparr>be := be w\<rparr>) r
      (\<lambda>v. v\<lparr>vmexit_count := vmexit_count v + 1\<rparr>) = ?w"
    using v(1) by (cases w) (simp add: upd_vcpu_def)
  have "vmx_handle_vmexit env ?w r (vmx_vmread (be ?w) 0x4400) q = Some (NEXUSVM_ERR_GENERIC, ?w)" for q
    by (rule vmexit_unnamed) (simp add: vmx_vmread_def cur exit)
  then have "vmx_round env w r = Some (NEXUSVM_ERR_GENERIC, ?w)"
    using v(1) entry [OF cur] upd by (simp add: vmx_round_def Let_def)
  then have "vmx_run_loop env w r = Some (NEXUSVM_ERR_GENERIC, ?w)"
    using v by (subst vmx_run_loop.simps) simp
  then show ?thesis using v clear by (simp add: vmx_vcpu_run_def)
qed

lemma vmx_vcpu_run_without_vmcs_witness:
  "vmx_vcpu_run demo_env no_vmcs_world (Some 20) = Some (NEXUSVM_ERR_GENERIC,
    upd_vcpu no_vmcs_world 20 (\<lambda>v. v\<lparr>vmentry_count := vmentry_count v + 1, vmexit_count := vmexit_count v + 1\<rparr>))"
  by (rule vmx_vcpu_run_without_vmcs [OF no_vmcs_facts(1)]) (simp_all add: no_vmcs_facts demo_env_def unnamed_exit_def)

section \<open>The interception bitmaps\<close>

lemma switched_on:
  "k < N \<Longrightarrow> \<forall>n < N. P n \<longleftrightarrow> (if n = k then True else Q n) \<Longrightarrow> {n. n < N \<and> P n} = insert (k :: nat) {n. n < N \<and> Q n}"
  by (auto split: if_splits)

lemma switched_off:
  "\<forall>n < N. P n \<longleftrightarrow> (if n = k then False else Q n) \<Longrightarrow> {n. n < N \<and> P n} = {n. n < N \<and> Q n} - {k :: nat}"
  by (auto split: if_splits)

text \<open>The MSR bitmap as a set: enabling the read intercept of a register below 65536 adds exactly its bit and disabling it
  removes exactly its bit; for any other register neither call changes anything.\<close>

theorem vmx_msr_read_intercept_set:
  assumes v: "vcpu_objs w r = Some v" and bs: "bufs w (msr_bitmap v) = Some bs" "length bs = 8192" "msr_bitmap v \<noteq> 0"
  shows "if unat msr < 65536 then
      (\<exists>on off. vmx_enable_msr_read_intercept w (Some r) msr = Some (w\<lparr>bufs := (bufs w)(msr_bitmap v \<mapsto> on)\<rparr>) \<and>
        {n. n < 65536 \<and> bitmap_bit on n} = insert (unat msr) {n. n < 65536 \<and> bitmap_bit bs n} \<and>
        vmx_disable_msr_read_intercept w (Some r) msr = Some (w\<lparr>bufs := (bufs w)(msr_bitmap v \<mapsto> off)\<rparr>) \<and>
        {n. n < 65536 \<and> bitmap_bit off n} = {n. n < 65536 \<and> bitmap_bit bs n} - {unat msr})
    else vmx_enable_msr_read_intercept w (Some r) msr = Some w \<and> vmx_disable_msr_read_intercept w (Some r) msr = Some w"
proof (cases "unat msr < 65536")
  case True
  then have off: "unat msr div 8 + unat (0 :: u32) < 8192" by simp
  from msr_intercept_effect [OF v bs switched_ops(1) off] obtain on where
    on: "msr_intercept set_bit8 0 w (Some r) msr = Some (w\<lparr>bufs := (bufs w)(msr_bitmap v \<mapsto> on)\<rparr>)"
    "\<forall>n < 65536. bitmap_bit on n \<longleftrightarrow> (if n = unat msr then True else bitmap_bit bs n)" by auto
  from msr_intercept_effect [OF v bs switched_ops(2) off] obtain off where
    off: "msr_intercept clear_bit8 0 w (Some r) msr = Some (w\<lparr>bufs := (bufs w)(msr_bitmap v \<mapsto> off)\<rparr>)"
    "\<forall>n < 65536. bitmap_bit off n \<longleftrightarrow> (if n = unat msr then False else bitmap_bit bs n)" by auto
  have "{n. n < 65536 \<and> bitmap_bit on n} = insert (unat msr) {n. n < 65536 \<and> bitmap_bit bs n}"
    "{n. n < 65536 \<and> bitmap_bit off n} = {n. n < 65536 \<and> bitmap_bit bs n} - {unat msr}"
    by (rule switched_on [OF True on(2)], rule switched_off [OF off(2)])
  then show ?thesis
    unfolding if_P [OF True] vmx_enable_msr_read_intercept_def vmx_disable_msr_read_intercept_def
    using on(1) off(1) by blast
next
  case False
  have "unat msr < 2 ^ 32" using unat_below [of msr] by simp
  with False have "msr_intercept f 0 w (Some r) msr = Some w" for f
    by (intro msr_intercept_out_of_range [OF v]) auto
  with False show ?thesis by (simp add: vmx_enable_msr_read_intercept_def vmx_disable_msr_read_intercept_def)
qed

lemma vmx_msr_read_intercept_set_witness:
  "\<exists>on. vmx_enable_msr_read_intercept vmx_world (Some 20) 0x10 = Some (vmx_world\<lparr>bufs := (bufs vmx_world)(0x5000 \<mapsto> on)\<rparr>) \<and>
    bitmap_bit on 16"
proof -
  have "vcpu_objs vmx_world 20 = Some hw_vcpu" "bufs vmx_world (msr_bitmap hw_vcpu) = Some (replicate 8192 0)"
    by (simp_all add: vmx_world_def)
  from vmx_msr_read_intercept_set [OF this, where msr = 16] obtain on where
    on: "vmx_enable_msr_read_intercept vmx_world (Some 20) 0x10 = Some (vmx_world\<lparr>bufs := (bufs vmx_world)(0x5000 \<mapsto> on)\<rparr>)"
      "{n. n < 65536 \<and> bitmap_bit on n} = insert 16 {n. n < 65536 \<and> bitmap_bit (replicate 8192 0) n}"
    by auto
  from on(2) have "16 \<in> {n. n < 65536 \<and> bitmap_bit on n}" by blast
  then show ?thesis using on(1) by blast
qed

text \<open>The write intercept of a register is not separate from the read intercepts: for every register number up to
  4294950911, enabling or disabling the write intercept of \<open>msr\<close> does exactly what enabling or disabling the
  read intercept of \<open>msr + 16384\<close> does.\<close>

theorem vmx_msr_write_intercept_aliases_read:
  assumes "unat msr + 16384 < 2 ^ 32"
  shows "vmx_enable_msr_write_intercept w vcpu msr = vmx_enable_msr_read_intercept w vcpu (msr + 16384) \<and>
    vmx_disable_msr_write_intercept w vcpu msr = vmx_disable_msr_read_intercept w vcpu (msr + 16384)"
proof -
  have u: "unat (msr + 16384) = unat msr + 16384" using assms by (simp add: unat_word_ariths)
  have mod8: "(x + 16384) mod 8 = x mod (8 :: nat)" for x by presburger
  have "unat (msr div 8 + 2048) = unat ((msr + 16384) div 8 + 0)" "unat (msr mod 8) = unat ((msr + 16384) mod 8)"
    using assms mod8 by (simp_all only: unat_word_ariths byte_index u) simp_all
  then have "msr div 8 + 2048 = (msr + 16384) div 8 + 0" "msr mod 8 = (msr + 16384) mod 8"
    by (simp_all only: word_unat_eq_iff)
  then show ?thesis
    unfolding vmx_enable_msr_write_intercept_def vmx_enable_msr_read_intercept_def
      vmx_disable_msr_write_intercept_def vmx_disable_msr_read_intercept_def msr_intercept_def Let_def by (simp only: simp_thms)
qed

lemma vmx_msr_write_intercept_aliases_read_witness:
  "vmx_enable_msr_write_intercept vmx_world (Some 20) 0x10 = vmx_enable_msr_read_intercept vmx_world (Some 20) (0x10 + 16384)"
  using vmx_msr_write_intercept_aliases_read [of 16] by simp

text \<open>The port bitmaps: enabling or disabling the intercept of a port below \<open>0x8000\<close> sets or clears exactly its bit, in both
  bitmaps; for the ports from \<open>0x8000\<close> on, which the second bitmap is for, neither call changes anything.\<close>

theorem vmx_io_port_intercept_effect:
  assumes v: "vcpu_objs w r = Some v" and a: "bufs w (io_bitmap_a v) = Some as" "length as = 4096"
    and b: "bufs w (io_bitmap_b v) = Some bs" "length bs = 4096" and ne: "io_bitmap_a v \<noteq> io_bitmap_b v"
    and op: "(op, x) \<in> {(vmx_enable_io_port_intercept, True), (vmx_disable_io_port_intercept, False)}"
  shows "if unat pt < 0x8000 then
      (\<exists>as' bs'. op w (Some r) pt = Some (w\<lparr>bufs := (bufs w)(io_bitmap_a v \<mapsto> as', io_bitmap_b v \<mapsto> bs')\<rparr>) \<and>
        (\<forall>n < 0x8000. (bitmap_bit as' n \<longleftrightarrow> (if n = unat pt then x else bitmap_bit as n)) \<and>
          (bitmap_bit bs' n \<longleftrightarrow> (if n = unat pt then x else bitmap_bit bs n))))
    else op w (Some r) pt = Some w"
proof -
  from op obtain f where f: "op = io_intercept f" "switched f x"
    using switched_ops by (auto simp: vmx_enable_io_port_intercept_def vmx_disable_io_port_intercept_def)
  show ?thesis
  proof (cases "unat pt < 32768")
    case True
    from io_intercept_effect [OF v a b ne f(2) True] show ?thesis unfolding if_P [OF True] f(1) by blast
  next
    case False
    have "unat (ucast pt :: u32) = unat pt"
      by (simp add: unsigned_ucast_eq take_bit_nat_eq_self order_less_le_trans [OF unat_below])
    then have "unat ((ucast pt :: u32) div 8) = unat pt div 8" by (simp only: byte_index)
    with False have "\<not> (ucast pt :: u32) div 8 < 4096" unfolding word_less_nat_alt by auto
    then have "io_intercept f w (Some r) pt = Some w" using v by (simp add: io_intercept_def Let_def)
    then show ?thesis unfolding if_not_P [OF False] f(1) .
  qed
qed

lemma vmx_io_port_intercept_effect_witness:
  "\<exists>as' bs'. vmx_enable_io_port_intercept vmx_world (Some 20) 0x60 =
    Some (vmx_world\<lparr>bufs := (bufs vmx_world)(0x8000 \<mapsto> as', 0x9000 \<mapsto> bs')\<rparr>) \<and> bitmap_bit bs' 0x60"
proof -
  have v: "vcpu_objs vmx_world 20 = Some hw_vcpu" and b: "bufs vmx_world (io_bitmap_a hw_vcpu) = Some (replicate 4096 0)"
    "bufs vmx_world (io_bitmap_b hw_vcpu) = Some (replicate 4096 0)" "io_bitmap_a hw_vcpu \<noteq> io_bitmap_b hw_vcpu"
    by (simp_all add: vmx_world_def)
  from vmx_io_port_intercept_effect [OF v b(1) length_replicate b(2) length_replicate b(3),
      where op = vmx_enable_io_port_intercept and x = True and pt = 96]
  obtain as' bs' where *: "vmx_enable_io_port_intercept vmx_world (Some 20) 0x60 =
      Some (vmx_world\<lparr>bufs := (bufs vmx_world)(0x8000 \<mapsto> as', 0x9000 \<mapsto> bs')\<rparr>)"
    "\<forall>n < 0x8000. (bitmap_bit as' n \<longleftrightarrow> (if n = 0x60 then True else bitmap_bit (replicate 4096 0) n)) \<and>
       (bitmap_bit bs' n \<longleftrightarrow> (if n = 0x60 then True else bitmap_bit (replicate 4096 0) n))" by auto
  from *(2) [rule_format, of 96] have "bitmap_bit bs' 0x60" by simp
  with *(1) show ?thesis by blast
qed

section \<open>Regions of a virtual CPU\<close>

lemma alloc_region:
  assumes "buf_fresh al"
  shows "(\<exists>p bs. vmx_alloc_vmxon_region al w = (NEXUSVM_OK, p, w\<lparr>bufs := (bufs w)(p \<mapsto> bs)\<rparr>) \<and> p \<noteq> 0 \<and> bufs w p = None) \<or>
    vmx_alloc_vmxon_region al w = (NEXUSVM_ERR_NO_MEMORY, 0, w)"
  using assms by (auto simp: vmx_alloc_vmxon_region_def buf_new_def buf_fresh_def Let_def)

lemma alloc_regions_same: "vmx_alloc_vmcs_region = vmx_alloc_vmxon_region"
  by (rule ext)+ (simp add: vmx_alloc_vmcs_region_def vmx_alloc_vmxon_region_def)

text \<open>The three outcomes of the initialisation: no region, one region that was given back, both regions.\<close>

lemma vmx_init_cases:
  assumes al: "buf_fresh al" and v: "vcpu_objs w r = Some v"
  obtains "vmx_vcpu_init al w (Some r) = Some (NEXUSVM_ERR_NO_MEMORY, put_vcpu w r (bufs w) v)"
  | p where "p \<noteq> 0" "bufs w p = None"
      "vmx_vcpu_init al w (Some r) = Some (NEXUSVM_ERR_NO_MEMORY, put_vcpu w r (bufs w) (v\<lparr>vmx_on_region := p\<rparr>))"
  | p q bs ys where "p \<noteq> 0" "q \<noteq> 0" "p \<noteq> q" "bufs w p = None" "bufs w q = None"
      "vmx_vcpu_init al w (Some r) =
        Some (NEXUSVM_OK, put_vcpu w r ((bufs w)(p \<mapsto> bs, q \<mapsto> ys)) (v\<lparr>vmx_on_region := p, vmx_vmcs_region := q\<rparr>))"
  using alloc_region [OF al, of w]
proof (elim disjE exE conjE)
  assume "vmx_alloc_vmxon_region al w = (NEXUSVM_ERR_NO_MEMORY, 0, w)"
  then show thesis using that(1) v by (simp add: vmx_vcpu_init_def put_vcpu_same)
next
  fix p bs
  assume p: "vmx_alloc_vmxon_region al w = (NEXUSVM_OK, p, w\<lparr>bufs := (bufs w)(p \<mapsto> bs)\<rparr>)" "p \<noteq> 0" "bufs w p = None"
  define w1 where "w1 = put_vcpu w r ((bufs w)(p \<mapsto> bs)) (v\<lparr>vmx_on_region := p\<rparr>)"
  have init: "vmx_vcpu_init al w (Some r) = (case vmx_alloc_vmxon_region al w1 of (result, q, w) \<Rightarrow>
      if result \<noteq> NEXUSVM_OK then do { w \<leftarrow> vmx_free_vmxon_region w p; Some (result, w) }
      else Some (NEXUSVM_OK, upd_vcpu w r (\<lambda>v. v\<lparr>vmx_vmcs_region := q\<rparr>)))"
    using p v by (simp add: vmx_vcpu_init_def alloc_regions_same upd_vcpu_put [OF v] w1_def Let_def)
  show thesis using alloc_region [OF al, of w1]
  proof (elim disjE exE conjE)
    assume "vmx_alloc_vmxon_region al w1 = (NEXUSVM_ERR_NO_MEMORY, 0, w1)"
    then show thesis using init that(2) [of p] p
      by (simp add: vmx_free_vmxon_region_def buf_free_def w1_def fun_upd_idem)
  next
    fix q ys
    assume q: "vmx_alloc_vmxon_region al w1 = (NEXUSVM_OK, q, w1\<lparr>bufs := (bufs w1)(q \<mapsto> ys)\<rparr>)" "q \<noteq> 0" "bufs w1 q = None"
    then show thesis using init that(3) [of p q bs ys] p by (auto simp: w1_def split: if_splits)
  qed
qed

lemma vmx_cleanup_regions:
  assumes "p \<noteq> 0" "q \<noteq> 0" "p \<noteq> q" "h p = None" "h q = None"
  shows "vmx_vcpu_cleanup (put_vcpu w r (h(p \<mapsto> bs, q \<mapsto> ys)) (v\<lparr>vmx_on_region := p, vmx_vmcs_region := q\<rparr>)) (Some r) =
    Some (put_vcpu w r h (v\<lparr>vmx_vmcs_region := 0, vmx_on_region := 0\<rparr>))"
  using assms by (simp add: vmx_vcpu_cleanup_def vmx_free_vmcs_region_def vmx_free_vmxon_region_def buf_free_def
    fun_upd_twist fun_upd_idem)

interpretation vmx_backend: vcpu_backend vmx_vcpu_init vmx_vcpu_cleanup
proof
  fix al :: buf_alloc and w :: world and r v
  assume al: "buf_fresh al" and v: "vcpu_objs w r = Some v"
  from al v show "\<exists>res h v1. vmx_vcpu_init al w (Some r) = Some (res, put_vcpu w r h v1) \<and> same_core v v1 \<and>
      (res = NEXUSVM_ERR_NO_MEMORY \<and> h = bufs w \<or>
       res = NEXUSVM_OK \<and> (\<exists>v2. vmx_vcpu_cleanup (put_vcpu w r h v1) (Some r) = Some (put_vcpu w r (bufs w) v2) \<and> same_core v v2))"
  proof (cases rule: vmx_init_cases)
    case 1
    then show ?thesis by (intro exI conjI) (assumption, simp_all add: same_core_def)
  next
    case (2 p)
    then show ?thesis by (intro exI conjI) (assumption, simp_all add: same_core_def)
  next
    case (3 p q bs ys)
    note cl = vmx_cleanup_regions [OF 3(1-5)]
    have "same_core v (v\<lparr>vmx_on_region := p, vmx_vmcs_region := q\<rparr>)" "same_core v (v\<lparr>vmx_vmcs_region := 0, vmx_on_region := 0\<rparr>)"
      by (simp_all add: same_core_def)
    then show ?thesis using 3(6) cl by blast
  qed
qed

text \<open>\<open>vmx_vcpu_init\<close> with an allocator that returns fresh addresses either succeeds, and then \<open>vmx_vcpu_cleanup\<close> gives back both
  regions and leaves the heap as it was; or it fails for lack of memory, and then the heap is as it was,
  but if the second allocation failed the virtual CPU still refers to the region that was released, and
  cleaning it up releases the region twice, which is undefined.\<close>

theorem vmx_vcpu_init_cleanup:
  assumes al: "buf_fresh al" and v: "vcpu_objs w r = Some v" "vmx_on_region v = 0" "vmx_vmcs_region v = 0"
  shows "\<exists>res w1. vmx_vcpu_init al w (Some r) = Some (res, w1) \<and>
    (if res = NEXUSVM_OK then \<exists>w2. vmx_vcpu_cleanup w1 (Some r) = Some w2 \<and> bufs w2 = bufs w
     else res = NEXUSVM_ERR_NO_MEMORY \<and> bufs w1 = bufs w \<and>
       (\<forall>v1. vcpu_objs w1 r = Some v1 \<longrightarrow> vmx_on_region v1 \<noteq> 0 \<longrightarrow> vmx_vcpu_cleanup w1 (Some r) = None))"
  using al v(1)
proof (cases rule: vmx_init_cases)
  case 1
  then show ?thesis using v by simp
next
  case p: (2 p)
  have "vmx_vcpu_cleanup (put_vcpu w r (bufs w) (v\<lparr>vmx_on_region := p\<rparr>)) (Some r) = None"
    using p v by (simp add: vmx_vcpu_cleanup_def vmx_free_vmxon_region_def buf_free_def)
  then show ?thesis using p by simp
next
  case (3 p q bs ys)
  then show ?thesis using vmx_cleanup_regions [OF 3(1-5)] by simp
qed

definition boot_vcpu_world :: world where
  "boot_vcpu_world = boot_world\<lparr>vcpu_objs := [20 \<mapsto> zero_vcpu]\<rparr>"

lemma vmx_vcpu_init_cleanup_witness:
  "\<exists>res w1. vmx_vcpu_init (\<lambda>h n. if h 0x2000 = None then 0x2000 else 0) boot_vcpu_world (Some 20) = Some (res, w1) \<and>
    (if res = NEXUSVM_OK then \<exists>w2. vmx_vcpu_cleanup w1 (Some 20) = Some w2 \<and> bufs w2 = bufs boot_vcpu_world
     else res = NEXUSVM_ERR_NO_MEMORY \<and> bufs w1 = bufs boot_vcpu_world)"
proof -
  have al: "buf_fresh (\<lambda>h n. if h 0x2000 = None then 0x2000 else 0)" by (simp add: buf_fresh_def)
  have v: "vcpu_objs boot_vcpu_world 20 = Some zero_vcpu" by (simp add: boot_vcpu_world_def boot_world_def)
  have z: "vmx_on_region zero_vcpu = 0" "vmx_vmcs_region zero_vcpu = 0" by (simp_all add: zero_vcpu_def)
  from vmx_vcpu_init_cleanup [OF al v z] obtain res w1 where
    1: "vmx_vcpu_init (\<lambda>h n. if h 0x2000 = None then 0x2000 else 0) boot_vcpu_world (Some 20) = Some (res, w1)" and
    2: "if res = NEXUSVM_OK then \<exists>w2. vmx_vcpu_cleanup w1 (Some 20) = Some w2 \<and> bufs w2 = bufs boot_vcpu_world
     else res = NEXUSVM_ERR_NO_MEMORY \<and> bufs w1 = bufs boot_vcpu_world \<and>
       (\<forall>v1. vcpu_objs w1 20 = Some v1 \<longrightarrow> vmx_on_region v1 \<noteq> 0 \<longrightarrow> vmx_vcpu_cleanup w1 (Some 20) = None)"
    by blast
  show ?thesis by (rule exI [of _ res], rule exI [of _ w1], rule conjI [OF 1], use 2 in \<open>cases "res = NEXUSVM_OK"\<close>) simp_all
qed

end
