(* ===== verification/Svm_Correct.thy ===== *)
theory Svm_Correct
  imports Svm Vmx_Correct
begin

text \<open>
  Properties of the AMD-V backend: the content of the VMCB after the set-up, the fields that overlap, the
  exits that are and are not handled, and the life of the VMCB buffer.
\<close>

section \<open>Set-up of the VMCB\<close>

lemma upd8_defined: "h p = Some bs \<Longrightarrow> i < length bs \<Longrightarrow> \<exists>cs. upd8 h p i f = Some (h(p \<mapsto> cs)) \<and> length cs = length bs"
  by (auto simp: upd8_def)

lemma set_intercepts_defined:
  "h p = Some bs \<Longrightarrow> list_all (\<lambda>n. n div 8 < length bs) ns \<Longrightarrow>
    \<exists>cs. set_intercepts p ns h = Some (h(p \<mapsto> cs)) \<and> length cs = length bs"
proof (induction ns arbitrary: h bs)
  case Nil
  then show ?case by (intro exI [of _ bs]) (simp add: fun_upd_idem)
next
  case (Cons n ns)
  from upd8_defined [of h p bs "n div 8" "set_bit8 (of_nat (n mod 8))"] Cons.prems obtain cs where
    cs: "upd8 h p (n div 8) (set_bit8 (of_nat (n mod 8))) = Some (h(p \<mapsto> cs))" "length cs = length bs" by auto
  define g where "g = h(p \<mapsto> cs)"
  then have "g p = Some cs" by simp
  with Cons.IH [of g cs] Cons.prems(2) cs(2)
  have "\<exists>ds. set_intercepts p ns g = Some (g(p \<mapsto> ds)) \<and> length ds = length bs" by (simp add: fun_upd_def)
  then show ?case by (simp add: cs(1) g_def VMCB_OFFSET_INTERCEPT_def del: fun_upd_apply)
qed

text \<open>What a 64-bit read of the VMCB finds after the set-up: the stores through \<open>state\<close>, then the page-table root.\<close>

definition after_setup :: "svm_env \<Rightarrow> cpu_state \<Rightarrow> nat \<Rightarrow> u64 option" where
  "after_setup env s = map_of (rev (save_state env s))"

lemma save_state_ok: "list_all (\<lambda>(off, v). off + 8 \<le> 4096) (save_state env s)" "list_all (\<lambda>(off, v). 8 dvd off) (save_state env s)"
  by (simp_all add: save_state_def)

lemma save_state_distinct: "distinct (map fst (save_state env s))"
  by (simp add: save_state_def)

lemma after_setup_stored: "(a, x) \<in> set (save_state env s) \<Longrightarrow> after_setup env s a = Some x"
  unfolding after_setup_def by (rule map_of_is_SomeI) (simp_all add: save_state_distinct flip: rev_map)

text \<open>C39. \<open>svm_vcpu_setup\<close> succeeds on a virtual CPU with a VMCB, changes that buffer only, and leaves in it at their offsets the general
  registers except \<open>r8\<close> to \<open>r15\<close>, the instruction pointer, the flags, the control registers, the selectors and bases of six segments, the descriptor
  tables, EFER and the APIC base, and the root of the page tables at \<open>0x60\<close> when nested paging is there. The
  first four registers cover the 25 bytes of intercept bits that were set before, and \<open>rsi\<close> covers the address
  of the MSR bitmap: neither is in the VMCB at the end.\<close>

theorem svm_vcpu_setup_vmcb:
  assumes v: "vcpu_objs w r = Some v" "vmcb v \<noteq> 0" and bs: "bufs w (vmcb v) = Some bs" "length bs = 4096"
    and hv: "g_hypervisor w = Some hv" and m: "get_vm w (vm v) = Some m"
  shows "\<exists>out. svm_vcpu_setup env w (Some r) = Some (NEXUSVM_OK, w\<lparr>bufs := (bufs w)(vmcb v \<mapsto> out)\<rparr>) \<and> length out = 4096 \<and>
    (let s = cpu_state_of v; g = gprs s in
      list_all (\<lambda>(a, x). of_le (take 8 (drop a out)) = x)
        [(0x00, rax g), (0x08, rbx g), (0x10, rcx g), (0x18, rdx g), (0x20, rsi g), (0x28, rdi g), (0x30, rbp g), (0x38, rsp g),
         (0x78, rip g), (0x80, rflags g), (0x88, cr0 (cr s)), (0x90, cr2 (cr s)), (0x98, cr3 (cr s)), (0xA0, cr4 (cr s)),
         (0xA8, ucast (selector (cs s))), (0xB0, ucast (selector (ss s))), (0xB8, ucast (selector (ds s))),
         (0xC0, ucast (selector (es s))), (0xC8, ucast (selector (fs s))), (0xD0, ucast (selector (gs s))),
         (0xD8, base (cs s)), (0xE0, base (ss s)), (0xE8, base (ds s)), (0xF0, base (es s)), (0xF8, base (fs s)), (0x100, base (gs s)),
         (0x108, gdtr_limit s), (0x110, gdtr_base env s), (0x118, idtr_limit s), (0x120, idtr_base env s),
         (0x1E0, ia32_efer (msrs s)), (0x1E8, 0xFEE00000)]) \<and>
    of_le (take 8 (drop VMCB_OFFSET_MSR_MAP out)) = rsi (regs v) \<and>
    (has_npt hv \<longrightarrow> ept_root m \<noteq> 0 \<longrightarrow> of_le (take 8 (drop VMCB_OFFSET_NESTED_PAGING_ROOT out)) = ept_root m)"
proof -
  let ?p = "vmcb v" and ?s = "cpu_state_of v"
  obtain b1 where b1: "set_intercepts ?p intercepts (bufs w) = Some ((bufs w)(?p \<mapsto> b1))" "length b1 = 4096"
    using set_intercepts_defined [of "bufs w" ?p bs intercepts] bs by (auto simp: intercepts_def)
  define h1 where "h1 = (bufs w)(?p \<mapsto> b1)"
  obtain b2 where b2: "(if msr_bitmap v \<noteq> 0 then wr64 h1 ?p VMCB_OFFSET_MSR_MAP (msr_bitmap v) else Some h1) = Some (h1(?p \<mapsto> b2))"
      "length b2 = 4096"
    using wr64_defined [of h1 ?p b1 VMCB_OFFSET_MSR_MAP "msr_bitmap v"] b1(2)
    by (cases "msr_bitmap v = 0") (auto simp: h1_def VMCB_OFFSET_MSR_MAP_def)
  define h2 where "h2 = h1(?p \<mapsto> b2)"
  let ?npt = "has_npt hv \<and> ept_root m \<noteq> 0"
  obtain b3 where b3: "(if ?npt then wr64 h2 ?p VMCB_OFFSET_NESTED_PAGING_ROOT (ept_root m) else Some h2) = Some (h2(?p \<mapsto> b3))"
      "length b3 = 4096"
    using wr64_defined [of h2 ?p b2 VMCB_OFFSET_NESTED_PAGING_ROOT "ept_root m"] b2(2)
    by (cases ?npt) (auto simp: h2_def VMCB_OFFSET_NESTED_PAGING_ROOT_def)
  define h3 where "h3 = h2(?p \<mapsto> b3)"
  obtain out where out: "wr64s h3 ?p (save_state env ?s) = Some (h3(?p \<mapsto> out))" "length out = 4096"
    using wr64s_defined [of h3 ?p b3 "save_state env ?s"] save_state_ok(1) b3(2) by (auto simp: h3_def)
  have h3: "h3(?p \<mapsto> out) = (bufs w)(?p \<mapsto> out)" by (simp add: h3_def h2_def h1_def)
  have msr: "(if msr_bitmap v \<noteq> 0 then svm_set_msr_bitmap (w\<lparr>bufs := h1\<rparr>) ?p (msr_bitmap v) else Some (w\<lparr>bufs := h1\<rparr>)) =
      Some (w\<lparr>bufs := h2\<rparr>)"
    using b2(1) v by (simp add: svm_set_msr_bitmap_def with_bufs_def flip: h2_def split: if_splits)
  have root: "(if has_npt hv then do { m \<leftarrow> get_vm (w\<lparr>bufs := h2\<rparr>) (vm v);
        if ept_root m \<noteq> 0 then svm_set_npt (w\<lparr>bufs := h2\<rparr>) ?p (ept_root m) else Some (w\<lparr>bufs := h2\<rparr>) }
      else Some (w\<lparr>bufs := h2\<rparr>)) = Some (w\<lparr>bufs := h3\<rparr>)"
    using b3(1) v m by (auto simp: svm_set_npt_def with_bufs_def get_vm_def simp flip: h3_def split: if_splits)
  have run: "svm_vcpu_setup env w (Some r) = Some (NEXUSVM_OK, w\<lparr>bufs := (bufs w)(?p \<mapsto> out)\<rparr>)"
    unfolding svm_vcpu_setup_def Let_def using v hv b1(1) msr root out(1) h3
    by (simp add: with_bufs_def flip: h1_def del: fun_upd_apply cong: if_cong split del: if_split)
  have rd: "rd64 (h3(?p \<mapsto> out)) ?p a = (case after_setup env ?s a of Some x \<Rightarrow> Some x | None \<Rightarrow> rd64 h3 ?p a)" if "8 dvd a" for a
    unfolding after_setup_def using rd64_wr64s [OF out(1) save_state_ok(2) that] .
  have word: "of_le (take 8 (drop a out)) = x" if "rd64 (h3(?p \<mapsto> out)) ?p a = Some x" for a x
    using that by (auto simp: rd64_def split: if_splits)
  have npt: "rd64 h3 ?p VMCB_OFFSET_NESTED_PAGING_ROOT = Some (ept_root m)" if ?npt
    using b3(1) that rd64_wr64 by (auto simp: h3_def)
  have "of_le (take 8 (drop a out)) = x" if "(a, x) \<in> set (save_state env ?s)" for a x
    using that save_state_ok(2) [of env ?s] after_setup_stored [OF that] by (intro word) (auto simp: list_all_iff rd)
  then have stored: "list_all (\<lambda>(a, x). of_le (take 8 (drop a out)) = x) (save_state env ?s)" by (auto simp: list_all_iff)
  have "after_setup env ?s VMCB_OFFSET_NESTED_PAGING_ROOT = None" by (simp add: after_setup_def save_state_def vmcb_offsets)
  then have "rd64 (h3(?p \<mapsto> out)) ?p VMCB_OFFSET_NESTED_PAGING_ROOT = Some (ept_root m)" if ?npt
    using npt [OF that] rd [of VMCB_OFFSET_NESTED_PAGING_ROOT] by (simp add: vmcb_offsets)
  moreover have "rd64 (h3(?p \<mapsto> out)) ?p VMCB_OFFSET_MSR_MAP = Some (rsi (regs v))"
    using rd [of VMCB_OFFSET_MSR_MAP] after_setup_stored [of "0x20" "rsi (gprs ?s)"] by (simp add: vmcb_offsets regs_def save_state_def)
  ultimately show ?thesis unfolding Let_def
    by (intro exI [of _ out] conjI impI run out(2) stored [unfolded save_state_def] word) auto
qed

text \<open>A machine with nested paging and a virtual CPU whose VMCB is at \<open>0x4000\<close>.\<close>

definition svm_demo_env :: svm_env where
  "svm_demo_env = \<lparr>cpu = demo_env, vmsave = (\<lambda>bs. bs), vmrun = (\<lambda>n bs. bs), vmcb_tsc = (\<lambda>_. 0), SVM_EXIT_VMMCALL = 0x81,
     SVM_EXIT_VMRUN = 0x80, gdtr_base = (\<lambda>_. 0), idtr_base = (\<lambda>_. 0), uninitialised = cleared_result\<rparr>"

definition svm_vcpu :: nexusvcpu where
  "svm_vcpu = zero_vcpu\<lparr>vm := Some 30, vmcb := 0x4000, msr_bitmap := 0x5000\<rparr>"

lemma svm_vcpu_fields [simp]: "vm svm_vcpu = Some 30" "vmcb svm_vcpu = 0x4000" "msr_bitmap svm_vcpu = 0x5000"
  "rsi (regs svm_vcpu) = 0" "rax (regs svm_vcpu) = 0"
  by (simp_all add: svm_vcpu_def zero_vcpu_def regs_def zero_cpu_state_def zero_gprs_def)

definition svm_world :: world where
  "svm_world = boot_world\<lparr>g_hypervisor := Some (zero_hypervisor\<lparr>has_npt := True\<rparr>), vm_objs := [30 \<mapsto> zero_vm\<lparr>ept_root := 0x7000\<rparr>],
     vcpu_objs := [20 \<mapsto> svm_vcpu], bufs := [0x4000 \<mapsto> replicate 4096 0]\<rparr>"

lemma svm_world_facts:
  "vcpu_objs svm_world 20 = Some svm_vcpu" "bufs svm_world (vmcb svm_vcpu) = Some (replicate 4096 0)"
  "g_hypervisor svm_world = Some (zero_hypervisor\<lparr>has_npt := True\<rparr>)"
  "get_vm svm_world (vm svm_vcpu) = Some (zero_vm\<lparr>ept_root := 0x7000\<rparr>)"
  by (simp_all add: svm_world_def get_vm_def)

lemma svm_vcpu_setup_vmcb_witness:
  "\<exists>cs. svm_vcpu_setup svm_demo_env svm_world (Some 20) = Some (NEXUSVM_OK, svm_world\<lparr>bufs := (bufs svm_world)(0x4000 \<mapsto> cs)\<rparr>) \<and>
    of_le (take 8 cs) = 0 \<and> of_le (take 8 (drop 0x20 cs)) = 0 \<and> of_le (take 8 (drop 0x60 cs)) = 0x7000"
proof -
  have "vmcb svm_vcpu \<noteq> 0" by simp
  from svm_vcpu_setup_vmcb [OF svm_world_facts(1) this svm_world_facts(2) length_replicate svm_world_facts(3,4), of svm_demo_env]
  show ?thesis by (auto simp: vmcb_offsets Let_def svm_vcpu_def zero_vcpu_def zero_cpu_state_def zero_gprs_def)
qed

section \<open>Exit codes\<close>

lemma of_le_append: "length xs = n \<Longrightarrow> 8 * n \<le> 64 \<Longrightarrow> of_le (xs @ ys) = of_le xs OR push_bit (8 * n) (of_le ys)"
proof (induction xs arbitrary: n)
  case (Cons x xs)
  then obtain k where n: "n = Suc k" "length xs = k" by (cases n) auto
  have "of_le (xs @ ys) = of_le xs OR push_bit (8 * k) (of_le ys)" using Cons n by auto
  then show ?case by (simp add: n(1) push_bit_or or.assoc push_bit_push_bit add.commute)
qed simp

lemma bit_of_le: "bit (of_le xs) j \<Longrightarrow> j < 8 * length xs"
proof (induction xs arbitrary: j)
  case (Cons x xs)
  then consider "bit x j" | "8 \<le> j" "bit (of_le xs) (j - 8)" by (auto simp: bit_or_iff bit_ucast_iff bit_push_bit_iff)
  then show ?case
  proof cases
    case 1
    then show ?thesis using bit_imp_le_length [of x j] by simp
  next
    case 2
    then show ?thesis using Cons.IH [of "j - 8"] by simp
  qed
qed simp

lemma of_le_bound: "take_bit (8 * length xs) (of_le xs) = of_le xs"
  by (rule bit_word_eqI) (auto simp: bit_take_bit_iff dest: bit_of_le)

text \<open>The word at \<open>a + 4\<close> continues the upper half of the word at \<open>a\<close>.\<close>

lemma words_overlap:
  assumes "a + 12 \<le> length bs"
  shows "drop_bit 32 (of_le (take 8 (drop a bs))) = take_bit 32 (of_le (take 8 (drop (a + 4) bs)))"
proof -
  let ?lo = "take 4 (drop a bs)" and ?mid = "take 4 (drop (a + 4) bs)" and ?hi = "take 4 (drop (a + 8) bs)"
  have split: "take 8 (drop a bs) = ?lo @ ?mid" "take 8 (drop (a + 4) bs) = ?mid @ ?hi"
    using take_add [of 4 4 "drop a bs"] take_add [of 4 4 "drop (a + 4) bs"] by (simp_all add: add.commute)
  have len: "length ?lo = 4" "length ?mid = 4" using assms by simp_all
  have b: "take_bit 32 (of_le ?lo) = of_le ?lo" "take_bit 32 (of_le ?mid) = of_le ?mid"
    using of_le_bound [of ?lo] of_le_bound [of ?mid] len by simp_all
  have shift: "drop_bit 32 (take_bit 32 x OR push_bit 32 (take_bit 32 y)) = take_bit 32 y" "take_bit 32 (take_bit 32 y OR push_bit 32 z) = take_bit 32 y"
    for x y z :: u64 by (rule bit_word_eqI, auto simp: bit_simps)+
  show ?thesis
    unfolding split using of_le_append [OF len(1), of ?mid] of_le_append [OF len(2), of ?hi] b shift by (simp, metis)
qed

lemma exit_word: "bufs w p = Some bs \<Longrightarrow> a + 8 \<le> length bs \<Longrightarrow> rd64 (bufs w) p a = Some (of_le (take 8 (drop a bs)))"
  by (simp add: rd64_def)

text \<open>The exit code and the first exit information overlap: the upper half of the exit code that \<open>svm_handle_exit\<close> switches on is
  the lower half of the exit information. Whenever that half is not zero, as it is for a nested page
  fault with an error code, the exit is not handled: the result is the generic error and nothing changes.\<close>

theorem svm_exit_info_hides_exit_code:
  assumes bs: "bufs w p = Some bs" "length bs = 4096" and p: "p \<noteq> 0"
    and info: "svm_get_exit_info1 w p = Some info1" "take_bit 32 info1 \<noteq> 0"
    and codes: "drop_bit 32 (SVM_EXIT_VMMCALL env) = 0" "drop_bit 32 (SVM_EXIT_VMRUN env) = 0"
  shows "(\<exists>code. svm_get_exit_code w p = Some code \<and> drop_bit 32 code = take_bit 32 info1) \<and>
    svm_handle_exit env w p = Some (NEXUSVM_ERR_GENERIC, w)"
proof -
  have code: "svm_get_exit_code w p = Some (of_le (take 8 (drop 0x44 bs)))" (is "_ = Some ?code")
    "svm_get_exit_info2 w p = Some (of_le (take 8 (drop 0x50 bs)))"
    using bs by (simp_all add: svm_get_exit_code_def svm_get_exit_info2_def vmcb_offsets exit_word)
  have i: "info1 = of_le (take 8 (drop 0x48 bs))"
    using info(1) bs by (simp add: svm_get_exit_info1_def vmcb_offsets exit_word)
  have over: "drop_bit 32 ?code = take_bit 32 info1"
    using words_overlap [of 68 bs] bs(2) by (simp add: i)
  have ne: "?code \<noteq> x" if "drop_bit 32 x = 0" for x using over info(2) that by metis
  have "svm_handle_exit env w p = Some (NEXUSVM_ERR_GENERIC, w)"
    using p code info(1) ne [OF codes(1)] ne [OF codes(2)]
    by (simp add: svm_handle_exit_def ne)
  with code over show ?thesis by blast
qed

definition npf_world :: world where
  "npf_world = svm_world\<lparr>bufs := [0x4000 \<mapsto> replicate 0x44 0 @ [0, 4, 0, 0, 4] @ replicate 4023 0]\<rparr>"

lemma svm_exit_info_hides_exit_code_witness:
  "svm_get_exit_info1 npf_world 0x4000 = Some 4 \<and> svm_handle_exit svm_demo_env npf_world 0x4000 = Some (NEXUSVM_ERR_GENERIC, npf_world)"
proof -
  let ?bs = "replicate 0x44 0 @ [0, 4, 0, 0, 4] @ replicate 4023 0 :: u8 list"
  have bs: "bufs npf_world 0x4000 = Some ?bs" "length ?bs = 4096" by (simp_all add: npf_world_def)
  have "take 8 (drop 0x48 ?bs) = [4, 0, 0, 0, 0, 0, 0, 0]" by (simp add: take_Cons' numeral_eq_Suc)
  then have info: "svm_get_exit_info1 npf_world 0x4000 = Some 4"
    using bs exit_word [of npf_world "0x4000" ?bs 72] by (simp add: svm_get_exit_info1_def vmcb_offsets)
  have "svm_handle_exit svm_demo_env npf_world 0x4000 = Some (NEXUSVM_ERR_GENERIC, npf_world)"
    using svm_exit_info_hides_exit_code [OF bs _ info, of svm_demo_env] by (simp add: svm_demo_env_def)
  with info show ?thesis by blast
qed

text \<open>Writes of the handlers go to the first 32 bytes.\<close>

definition keeps_rip :: "world \<Rightarrow> u64 \<Rightarrow> (nexusvm_result \<times> world) run \<Rightarrow> bool" where
  "keeps_rip w p x \<longleftrightarrow> (\<exists>res w'. x = Some (res, w') \<and> rd64 (bufs w') p 0x78 = rd64 (bufs w) p 0x78)"

lemma put_state_low:
  assumes "bufs w p = Some bs" "length bs = 4096" "list_all (\<lambda>(off, x). 8 dvd off \<and> off < 0x20) ws"
  shows "keeps_rip w p (put_state w p ws res)"
proof -
  have l: "list_all (\<lambda>(off, x). off + 8 \<le> length bs) ws" "list_all (\<lambda>(off, x). 8 dvd off) ws"
    using assms(2,3) by (auto simp: list_all_iff)
  obtain cs where cs: "wr64s (bufs w) p ws = Some ((bufs w)(p \<mapsto> cs))"
    using wr64s_defined [of "bufs w" p bs ws] assms(1) l(1) by auto
  have "map_of (rev ws) 0x78 = None" using assms(3) by (force simp: map_of_eq_None_iff list_all_iff)
  with rd64_wr64s [OF cs l(2), of 120] show ?thesis
    by (simp add: keeps_rip_def put_state_def with_bufs_def cs del: fun_upd_apply)
qed

text \<open>The exit is an access to a model-specific register that the processor refuses.\<close>

definition svm_faults :: "svm_env \<Rightarrow> world \<Rightarrow> u64 \<Rightarrow> bool" where
  "svm_faults env w p =
     (case (svm_get_exit_code w p, rd64 (bufs w) p 0x18, rd64 (bufs w) p 0x00, rd64 (bufs w) p 0x10) of
        (Some code, Some ecx, Some lo, Some hi) \<Rightarrow>
          code = 0x086 \<and> \<not> rdmsr_ok (cpu env) (ucast (ecx AND 0xFFFFFFFF)) \<or>
          code = 0x087 \<and> \<not> wrmsr_ok (cpu env) (ucast (ecx AND 0xFFFFFFFF)) (lo OR push_bit 32 hi)
      | _ \<Rightarrow> False)"

text \<open>No exit is handled by moving the guest past the instruction: on a VMCB \<open>svm_handle_exit\<close> returns, unless it faults, and the
  instruction pointer in the VMCB is what it was, so an intercepted instruction is executed and intercepted again.\<close>

theorem svm_handle_exit_keeps_rip:
  assumes bs: "bufs w p = Some bs" "length bs = 4096" and p: "p \<noteq> 0"
  shows "if svm_faults env w p then svm_handle_exit env w p = None
    else \<exists>res w'. svm_handle_exit env w p = Some (res, w') \<and> rd64 (bufs w') p 0x78 = rd64 (bufs w) p 0x78"
proof -
  obtain code i1 i2 where *: "svm_get_exit_code w p = Some code" "svm_get_exit_info1 w p = Some i1" "svm_get_exit_info2 w p = Some i2"
    using bs by (simp add: svm_get_exit_code_def svm_get_exit_info1_def svm_get_exit_info2_def vmcb_offsets exit_word)
  obtain ecx lo hi where regs: "rd64 (bufs w) p 0x18 = Some ecx" "rd64 (bufs w) p 0x00 = Some lo" "rd64 (bufs w) p 0x10 = Some hi"
    using bs by (simp add: exit_word)
  have "keeps_rip w p (svm_handle_cpuid env w p)" "rdmsr_ok (cpu env) (ucast (ecx AND 0xFFFFFFFF)) \<Longrightarrow> keeps_rip w p (svm_handle_rdmsr env w p)"
    "keeps_rip w p (svm_handle_vmmcall env w p)" "keeps_rip w p (svm_handle_rdtsc env w p)"
    using bs regs by (auto simp: svm_handle_cpuid_def svm_handle_rdmsr_def svm_handle_vmmcall_def svm_handle_rdtsc_def
      exit_word Let_def split: prod.split intro!: put_state_low [OF bs])
  moreover have "wrmsr_ok (cpu env) (ucast (ecx AND 0xFFFFFFFF)) (lo OR push_bit 32 hi) \<Longrightarrow> keeps_rip w p (svm_handle_wrmsr env w p)"
    "\<And>res. keeps_rip w p (Some (res, w))"
    using regs by (simp_all add: keeps_rip_def svm_handle_wrmsr_def Let_def svm_write_msr_def)
  ultimately have "if svm_faults env w p then svm_handle_exit env w p = None else keeps_rip w p (svm_handle_exit env w p)" using p * regs
    by (simp add: svm_faults_def svm_handle_exit_def svm_handle_cr_read_def svm_handle_cr_write_def svm_handle_invlpg_def svm_handle_hlt_def
      svm_handle_npf_def svm_handle_interrupt_def svm_handle_vmrun_def svm_handle_rdmsr_def svm_handle_wrmsr_def)
  then show ?thesis by (simp add: keeps_rip_def split: if_splits)
qed

lemma svm_handle_exit_keeps_rip_witness:
  "\<exists>res w'. svm_handle_exit svm_demo_env svm_world 0x4000 = Some (res, w') \<and> rd64 (bufs w') 0x4000 0x78 = rd64 (bufs svm_world) 0x4000 0x78"
proof -
  have bs: "bufs svm_world 0x4000 = Some (replicate 4096 0)" by (simp add: svm_world_def)
  have "of_le (replicate k 0) = 0" for k by (induction k) simp_all
  then have "svm_get_exit_code svm_world 0x4000 = Some 0" using bs by (simp add: svm_get_exit_code_def rd64_def vmcb_offsets)
  then have "\<not> svm_faults svm_demo_env svm_world 0x4000" by (simp add: svm_faults_def split: option.split)
  then show ?thesis using svm_handle_exit_keeps_rip [OF bs, of svm_demo_env] by simp
qed

section \<open>Life of the VMCB\<close>

lemma svm_init_cases:
  assumes al: "buf_fresh al" and v: "vcpu_objs w r = Some v"
  obtains "svm_vcpu_init al w (Some r) = Some (NEXUSVM_ERR_NO_MEMORY, w)"
  | q where "q \<noteq> 0" "bufs w q = None"
      "svm_vcpu_init al w (Some r) = Some (NEXUSVM_OK, put_vcpu w r ((bufs w)(q \<mapsto> replicate 4096 0)) (v\<lparr>vmcb := q\<rparr>))"
proof (cases "al (bufs w) 4096 = 0")
  case True
  then show thesis using that(1) by (simp add: svm_vcpu_init_def svm_alloc_vmcb_def buf_new_def)
next
  case False
  then show thesis using that(2) [of "al (bufs w) 4096"] al v
    by (simp add: svm_vcpu_init_def svm_alloc_vmcb_def buf_new_def buf_fresh_def Let_def upd_vcpu_put [OF v])
qed

lemma svm_cleanup_vmcb:
  "q \<noteq> 0 \<Longrightarrow> h q = None \<Longrightarrow> svm_vcpu_cleanup (put_vcpu w r (h(q \<mapsto> bs)) (v\<lparr>vmcb := q\<rparr>)) (Some r) = Some (put_vcpu w r h (v\<lparr>vmcb := 0\<rparr>))"
  by (simp add: svm_vcpu_cleanup_def svm_free_vmcb_def with_bufs_def buf_free_def fun_upd_idem)

interpretation svm_backend: vcpu_backend svm_vcpu_init svm_vcpu_cleanup
proof
  fix al :: buf_alloc and w :: world and r v
  assume al: "buf_fresh al" and v: "vcpu_objs w r = Some v"
  from al v show "\<exists>res h v1. svm_vcpu_init al w (Some r) = Some (res, put_vcpu w r h v1) \<and> same_core v v1 \<and>
      (res = NEXUSVM_ERR_NO_MEMORY \<and> h = bufs w \<or>
       res = NEXUSVM_OK \<and> (\<exists>v2. svm_vcpu_cleanup (put_vcpu w r h v1) (Some r) = Some (put_vcpu w r (bufs w) v2) \<and> same_core v v2))"
  proof (cases rule: svm_init_cases)
    case 1
    then show ?thesis using put_vcpu_same [OF v] 
      by (intro exI [of _ NEXUSVM_ERR_NO_MEMORY] exI [of _ "bufs w"] exI [of _ v]) (simp add: same_core_def)
  next
    case (2 q)
    have "same_core v (v\<lparr>vmcb := q\<rparr>)" "same_core v (v\<lparr>vmcb := 0\<rparr>)" by (simp_all add: same_core_def)
    then show ?thesis using 2(3) svm_cleanup_vmcb [of q "bufs w", OF 2(1,2)] by blast
  qed
qed

text \<open>\<open>svm_vcpu_init\<close> with an allocator that returns fresh addresses gives the virtual CPU a zeroed VMCB of 4096 bytes that
  \<open>svm_vcpu_cleanup\<close> gives back, after which the heap is as it was and the pointer is null; or it
  reports that there is no memory and changes nothing.\<close>

theorem svm_vcpu_init_cleanup:
  assumes al: "buf_fresh al" and v: "vcpu_objs w r = Some v"
  shows "svm_vcpu_init al w (Some r) = Some (NEXUSVM_ERR_NO_MEMORY, w) \<or>
    (\<exists>w1 v1 w2 v2. svm_vcpu_init al w (Some r) = Some (NEXUSVM_OK, w1) \<and> vcpu_objs w1 r = Some v1 \<and> vmcb v1 \<noteq> 0 \<and>
      bufs w1 = (bufs w)(vmcb v1 \<mapsto> replicate 4096 0) \<and> svm_vcpu_cleanup w1 (Some r) = Some w2 \<and> bufs w2 = bufs w \<and>
      vcpu_objs w2 r = Some v2 \<and> vmcb v2 = 0)"
  using assms
proof (cases rule: svm_init_cases)
  case (2 q)
  then show ?thesis using svm_cleanup_vmcb [of q "bufs w", OF 2(1,2)]
    by (intro disjI2 exI [of _ "put_vcpu w r ((bufs w)(q \<mapsto> replicate 4096 0)) (v\<lparr>vmcb := q\<rparr>)"] exI [of _ "v\<lparr>vmcb := q\<rparr>"]
        exI [of _ "put_vcpu w r (bufs w) (v\<lparr>vmcb := 0\<rparr>)"] exI [of _ "v\<lparr>vmcb := 0\<rparr>"]) simp
qed blast

lemma svm_vcpu_init_cleanup_witness:
  "\<exists>w1. svm_vcpu_init (\<lambda>h n. if h 0x2000 = None then 0x2000 else 0) boot_vcpu_world (Some 20) = Some (NEXUSVM_OK, w1)"
proof -
  have al: "buf_fresh (\<lambda>h n. if h 0x2000 = None then 0x2000 else 0)" by (simp add: buf_fresh_def)
  have v: "vcpu_objs boot_vcpu_world 20 = Some zero_vcpu" by (simp add: boot_vcpu_world_def boot_world_def)
  have "svm_vcpu_init (\<lambda>h n. if h 0x2000 = None then 0x2000 else 0) boot_vcpu_world (Some 20) \<noteq> Some (NEXUSVM_ERR_NO_MEMORY, boot_vcpu_world)"
    using v by (simp add: svm_vcpu_init_def svm_alloc_vmcb_def buf_new_def boot_vcpu_world_def boot_world_def)
  with svm_vcpu_init_cleanup [OF al v] show ?thesis by blast
qed

end
