(* ===== verification/Scheduler_Correct.thy ===== *)
theory Scheduler_Correct
  imports Scheduler
begin

text \<open>
  Correctness of the scheduler: the run queues as abstract lists of entities, the refinement of
  every queue operation to a list operation, and the choice of the pick functions.
\<close>

section \<open>Several queues in one store\<close>

definition disjoint_queues :: "ref list list \<Rightarrow> bool" where
  "disjoint_queues qs \<longleftrightarrow> (\<forall>i<length qs. \<forall>j<length qs. i \<noteq> j \<longrightarrow> set (qs ! i) \<inter> set (qs ! j) = {})"

definition queues :: "lnode links \<Rightarrow> ref \<Rightarrow> ref list list \<Rightarrow> bool" where
  "queues l arr qs \<longleftrightarrow> (\<forall>i<length qs. dll l (RQ arr i) (map SE (qs ! i))) \<and> disjoint_queues qs"

lemma queues_dll: "queues l arr qs \<Longrightarrow> i < length qs \<Longrightarrow> dll l (RQ arr i) (map SE (qs ! i))"
  by (simp add: queues_def)

lemma queues_disjoint:
  "queues l arr qs \<Longrightarrow> i < length qs \<Longrightarrow> j < length qs \<Longrightarrow> i \<noteq> j \<Longrightarrow> set (qs ! i) \<inter> set (qs ! j) = {}"
  by (simp add: queues_def disjoint_queues_def)

text \<open>An operation that touches one queue only keeps the others.\<close>

lemma queues_update:
  assumes q: "queues l arr qs" and c: "c < length qs"
    and t: "touches (RQ arr c) l l' (SE ` A)" and d: "dll l' (RQ arr c) (map SE q')"
    and A: "\<And>j. j < length qs \<Longrightarrow> j \<noteq> c \<Longrightarrow> (A \<union> set q') \<inter> set (qs ! j) = {}"
  shows "queues l' arr (qs[c := q'])"
proof -
  have "dll l' (RQ arr i) (map SE (qs ! i))" if i: "i < length qs" "i \<noteq> c" for i
  proof (rule dll_cong [OF queues_dll [OF q i(1)]])
    fix z
    assume "z \<in> set (RQ arr i # map SE (qs ! i))"
    then have "z \<notin> insert (RQ arr c) (SE ` A)" using A [OF i] i(2) by auto
    then show "l' z = l z" using t by (simp add: touches_def)
  qed
  moreover have "disjoint_queues (qs[c := q'])"
    using queues_disjoint [OF q] A c unfolding disjoint_queues_def
    by (auto simp: nth_list_update)
  ultimately show ?thesis using d c by (auto simp: queues_def nth_list_update)
qed

lemma queues_push_back:
  assumes q: "queues l arr qs" and c: "c < length qs" and e: "SE e \<in> dom l" "\<And>j. j < length qs \<Longrightarrow> e \<notin> set (qs ! j)"
  shows "\<exists>l'. list_add_tail (SE e) (RQ arr c) l = Some l' \<and> queues l' arr (qs[c := qs ! c @ [e]]) \<and> dom l' = dom l"
proof -
  have "node_of (RQ arr c) l (SE e)" "SE e \<notin> set (map SE (qs ! c))" using e c by (auto simp: node_of_def)
  from dll.push_back [OF queues_dll [OF q c] this] obtain l' where
    l': "list_add_tail (SE e) (RQ arr c) l = Some l'" "dll l' (RQ arr c) (map SE (qs ! c @ [e]))"
      "touches (RQ arr c) l l' (SE ` insert e (set (qs ! c)))" by auto
  have "queues l' arr (qs[c := qs ! c @ [e]])"
    by (rule queues_update [OF q c l'(3,2)]) (use e(2) queues_disjoint [OF q c] in auto)
  then show ?thesis using l'(1,3) by (auto simp: touches_def)
qed

lemma queues_del:
  assumes q: "queues l arr qs" and c: "c < length qs" and e: "qs ! c = xs @ e # ys"
  shows "\<exists>l'. list_del (SE e) l = Some l' \<and> queues l' arr (qs[c := xs @ ys]) \<and> dom l' = dom l"
proof -
  have "dll l (RQ arr c) (map SE xs @ SE e # map SE ys)" using queues_dll [OF q c] by (simp add: e)
  from dll.del [OF this] obtain l' where
    l': "list_del (SE e) l = Some l'" "dll l' (RQ arr c) (map SE (xs @ ys))"
      "touches (RQ arr c) l l' (SE ` set (xs @ ys))" by (auto simp: image_Un)
  have "queues l' arr (qs[c := xs @ ys])"
    by (rule queues_update [OF q c l'(3,2)]) (use queues_disjoint [OF q c] e in auto)
  then show ?thesis using l'(1,3) by (auto simp: touches_def)
qed

lemma queues_move:
  assumes q: "queues l arr qs" and c: "c < length qs" and e: "qs ! c = xs @ e # ys"
  shows "\<exists>l'. (do { l \<leftarrow> list_del (SE e) l; list_add_tail (SE e) (RQ arr c) l }) = Some l' \<and>
      queues l' arr (qs[c := xs @ ys @ [e]]) \<and> dom l' = dom l"
    and "\<exists>l'. (do { l \<leftarrow> list_del (SE e) l; list_add (SE e) (RQ arr c) l }) = Some l' \<and>
      queues l' arr (qs[c := e # xs @ ys]) \<and> dom l' = dom l"
proof -
  have d: "dll l (RQ arr c) (map SE xs @ SE e # map SE ys)" using queues_dll [OF q c] by (simp add: e)
  have im: "set (map SE xs @ SE e # map SE ys) = SE ` set (qs ! c)" by (auto simp: e)
  obtain l' where l': "(do { l \<leftarrow> list_del (SE e) l; list_add_tail (SE e) (RQ arr c) l }) = Some l'"
      "dll l' (RQ arr c) (map SE (xs @ ys @ [e]))" "touches (RQ arr c) l l' (SE ` set (qs ! c))"
    using dll.move_back [OF d] im by auto
  have "queues l' arr (qs[c := xs @ ys @ [e]])"
    by (rule queues_update [OF q c l'(3,2)]) (use queues_disjoint [OF q c] e in auto)
  then show "\<exists>l'. (do { l \<leftarrow> list_del (SE e) l; list_add_tail (SE e) (RQ arr c) l }) = Some l' \<and>
      queues l' arr (qs[c := xs @ ys @ [e]]) \<and> dom l' = dom l"
    using l'(1,3) by (auto simp: touches_def)
  obtain l' where l': "(do { l \<leftarrow> list_del (SE e) l; list_add (SE e) (RQ arr c) l }) = Some l'"
      "dll l' (RQ arr c) (map SE (e # xs @ ys))" "touches (RQ arr c) l l' (SE ` set (qs ! c))"
    using dll.move_front [OF d] im by auto
  have "queues l' arr (qs[c := e # xs @ ys])"
    by (rule queues_update [OF q c l'(3,2)]) (use queues_disjoint [OF q c] e in auto)
  then show "\<exists>l'. (do { l \<leftarrow> list_del (SE e) l; list_add (SE e) (RQ arr c) l }) = Some l' \<and>
      queues l' arr (qs[c := e # xs @ ys]) \<and> dom l' = dom l"
    using l'(1,3) by (auto simp: touches_def)
qed

section \<open>The invariant of the scheduler\<close>

text \<open>
  \<open>sched_inv w qs\<close>: there is a run queue per CPU, all locks are free, no queue has a current virtual
  CPU, the lists are well formed and hold the live entities \<open>qs\<close>, each at most once.
\<close>

definition sched_inv :: "world \<Rightarrow> ref list list \<Rightarrow> bool" where
  "sched_inv w qs \<longleftrightarrow> (\<exists>arr rqs. g_runqueues w = Some (arr, rqs) \<and> length rqs = length qs \<and>
     (\<forall>q\<in>set rqs. \<not> lock q \<and> current q = None) \<and> queues (links w) arr qs) \<and>
     unat (g_cpu_count w) = length qs \<and>
     (\<forall>i<length qs. \<forall>e\<in>set (qs ! i). entity_objs w e \<noteq> None \<and> e < next_ref w)"

lemma sched_inv_E:
  assumes "sched_inv w qs"
  obtains arr rqs where "g_runqueues w = Some (arr, rqs)" "length rqs = length qs"
    "\<And>i. i < length qs \<Longrightarrow> \<not> lock (rqs ! i) \<and> current (rqs ! i) = None" "queues (links w) arr qs"
  using assms unfolding sched_inv_def by (metis nth_mem)

lemma sched_inv_live:
  "sched_inv w qs \<Longrightarrow> i < length qs \<Longrightarrow> e \<in> set (qs ! i) \<Longrightarrow> entity_objs w e \<noteq> None \<and> e < next_ref w"
  by (simp add: sched_inv_def)

lemma sched_inv_links:
  assumes "sched_inv w qs" "g_runqueues w = Some (arr, rqs)" "queues l arr qs'" "length qs' = length qs"
    and "\<And>i e. i < length qs \<Longrightarrow> e \<in> set (qs' ! i) \<Longrightarrow> entity_objs w e \<noteq> None \<and> e < next_ref w"
  shows "sched_inv (w\<lparr>links := l\<rparr>) qs'"
  using assms by (auto simp: sched_inv_def)

text \<open>A critical section: what locking, the head and unlocking do to a run queue that is free.\<close>

definition locked :: "world \<Rightarrow> ref \<Rightarrow> cpu_runqueue list \<Rightarrow> u32 \<Rightarrow> world" where
  "locked w arr rqs c = w\<lparr>g_runqueues := Some (arr, rqs[unat c := (rqs ! unat c)\<lparr>lock := True\<rparr>])\<rparr>"

lemma rq_section:
  assumes "g_runqueues w = Some (arr, rqs)" "unat c < length rqs" "\<not> lock (rqs ! unat c)"
  shows "rq_lock w c = Some (locked w arr rqs c)"
    and "g_runqueues w' = g_runqueues (locked w arr rqs c) \<Longrightarrow> rq_head w' c = Some (RQ arr (unat c))"
    and "g_runqueues w' = g_runqueues (locked w arr rqs c) \<Longrightarrow>
      rq_unlock w' c = Some (w'\<lparr>g_runqueues := Some (arr, rqs)\<rparr>)"
proof -
  show "rq_lock w c = Some (locked w arr rqs c)"
    using assms by (simp add: rq_lock_def get_rq_def upd_rq_def locked_def)
  show "rq_head w' c = Some (RQ arr (unat c))" if "g_runqueues w' = g_runqueues (locked w arr rqs c)"
    using that assms by (simp add: rq_head_def get_rq_def locked_def)
  have same: "rqs[unat c := (rqs ! unat c)\<lparr>lock := False\<rparr>] = rqs"
    using assms(3) by (cases "rqs ! unat c") (simp add: list_update_same_conv assms(2))
  show "rq_unlock w' c = Some (w'\<lparr>g_runqueues := Some (arr, rqs)\<rparr>)"
    if "g_runqueues w' = g_runqueues (locked w arr rqs c)"
    using that assms by (simp add: rq_unlock_def get_rq_def upd_rq_def locked_def same)
qed

lemma world_rq_simps [simp]:
  "links (locked w arr rqs c) = links w" "vcpu_objs (locked w arr rqs c) = vcpu_objs w"
  "entity_objs (locked w arr rqs c) = entity_objs w" "g_cpu_count (locked w arr rqs c) = g_cpu_count w"
  by (simp_all add: locked_def)

lemma vcpu_cpu_links [simp]: "vcpu_cpu (w\<lparr>links := l\<rparr>) v = vcpu_cpu w v"
  by (simp add: vcpu_cpu_def)

lemma vcpu_cpu_bound: "sched_inv w qs \<Longrightarrow> vcpu_cpu w v = Some c \<Longrightarrow> unat c < length qs"
proof -
  assume inv: "sched_inv w qs" and c: "vcpu_cpu w v = Some c"
  from inv have n: "unat (g_cpu_count w) = length qs" by (simp add: sched_inv_def)
  from c have "c < g_cpu_count w"
    by (auto simp: vcpu_cpu_def word_mod_less_divisor word_gt_0 split: if_splits)
  then show ?thesis by (simp add: word_less_nat_alt n)
qed

section \<open>Queue operations\<close>

text \<open>A change of the links inside the critical section of one run queue.\<close>

lemma section_links:
  assumes "g_runqueues w = Some (arr, rqs)" "unat c < length rqs" "\<not> lock (rqs ! unat c)"
    and "f (links w) = Some l'"
  shows "(do { w \<leftarrow> rq_lock w c; w \<leftarrow> with_links w f; rq_unlock w c }) = Some (w\<lparr>links := l'\<rparr>)"
proof -
  note sec = rq_section [OF assms(1-3)]
  have "rq_unlock ((locked w arr rqs c)\<lparr>links := l'\<rparr>) c = Some (w\<lparr>links := l'\<rparr>)"
    using assms(1) by (subst sec(3)) (simp_all add: locked_def)
  then show ?thesis using assms(4) by (simp add: sec(1) with_links_def)
qed

lemma locked_head:
  assumes "g_runqueues w = Some (arr, rqs)" "unat c < length rqs" "\<not> lock (rqs ! unat c)"
  shows "rq_head (locked w arr rqs c) c = Some (RQ arr (unat c))" "rq_head w c = Some (RQ arr (unat c))"
  using assms by (simp_all add: rq_head_def get_rq_def locked_def)

lemma add_existing:
  assumes inv: "sched_inv w qs" and v: "vcpu_objs w r = Some v" "vcpu_cpu w v = Some c" "entity v = Some e"
    and e: "entity_objs w e \<noteq> None" "e < next_ref w" "SE e \<in> dom (links w)" "\<And>j. j < length qs \<Longrightarrow> e \<notin> set (qs ! j)"
  shows "\<exists>l. scheduler_add_vcpu av w (Some r) = Some (NEXUSVM_OK, w\<lparr>links := l\<rparr>) \<and>
    sched_inv (w\<lparr>links := l\<rparr>) (qs[unat c := qs ! unat c @ [e]]) \<and> dom l = dom (links w)"
proof -
  obtain arr rqs where rq: "g_runqueues w = Some (arr, rqs)" "length rqs = length qs"
      "\<And>i. i < length qs \<Longrightarrow> \<not> lock (rqs ! i) \<and> current (rqs ! i) = None" "queues (links w) arr qs"
    using sched_inv_E [OF inv] by blast
  have c: "unat c < length qs" using vcpu_cpu_bound [OF inv v(2)] .
  with rq have h: "g_runqueues w = Some (arr, rqs)" "unat c < length rqs" "\<not> lock (rqs ! unat c)" by auto
  obtain l where l: "list_add_tail (SE e) (RQ arr (unat c)) (links w) = Some l"
      "queues l arr (qs[unat c := qs ! unat c @ [e]])" "dom l = dom (links w)"
    using queues_push_back [OF rq(4) c e(3,4)] by blast
  have "scheduler_add_vcpu av w (Some r) = Some (NEXUSVM_OK, w\<lparr>links := l\<rparr>)"
    using v section_links [OF h, of "list_add_tail (SE e) (RQ arr (unat c))"] l(1) rq_section(1) [OF h] locked_head(1) [OF h]
    by (simp add: scheduler_add_vcpu_def bind_eq_Some_conv)
  moreover have "sched_inv (w\<lparr>links := l\<rparr>) (qs[unat c := qs ! unat c @ [e]])"
    by (rule sched_inv_links [OF inv rq(1) l(2)])
      (use inv e(1,2) c in \<open>auto simp: sched_inv_def nth_list_update split: if_splits\<close>)
  ultimately show ?thesis using l(3) by blast
qed

text \<open>A queued entity is live, linked and queued once.\<close>

lemma queued_facts:
  assumes inv: "sched_inv w qs" and q: "d < length qs" "qs ! d = xs @ e # ys"
  shows "entity_objs w e \<noteq> None" "e < next_ref w" "SE e \<in> dom (links w)" "e \<notin> set (xs @ ys)"
    "\<And>j. j < length qs \<Longrightarrow> j \<noteq> d \<Longrightarrow> e \<notin> set (qs ! j)"
proof -
  obtain arr rqs where rq: "queues (links w) arr qs" using sched_inv_E [OF inv] by metis
  have d: "dll (links w) (RQ arr d) (map SE (xs @ e # ys))" using queues_dll [OF rq q(1)] by (simp add: q(2))
  then show "SE e \<in> dom (links w)" using dll_live [OF d, of "SE e"] by auto
  have "distinct (map SE (xs @ e # ys))" using d unfolding dll_def by (metis distinct.simps(2))
  then show "e \<notin> set (xs @ ys)" by auto
  show "entity_objs w e \<noteq> None" "e < next_ref w" using sched_inv_live [OF inv q(1), of e] q(2) by simp_all
  show "e \<notin> set (qs ! j)" if "j < length qs" "j \<noteq> d" for j
    using queues_disjoint [OF rq that(1) q(1) that(2)] q(2) by auto
qed

lemma remove_linked:
  assumes inv: "sched_inv w qs" and v: "vcpu_objs w r = Some v" "vcpu_cpu w v = Some c" "entity v = Some e"
    and q: "d < length qs" "qs ! d = xs @ e # ys"
  shows "\<exists>l. scheduler_remove_vcpu w (Some r) = Some (NEXUSVM_OK, w\<lparr>links := l\<rparr>) \<and>
    sched_inv (w\<lparr>links := l\<rparr>) (qs[d := xs @ ys]) \<and> dom l = dom (links w)"
proof -
  obtain arr rqs where rq: "g_runqueues w = Some (arr, rqs)" "length rqs = length qs"
      "\<And>i. i < length qs \<Longrightarrow> \<not> lock (rqs ! i) \<and> current (rqs ! i) = None" "queues (links w) arr qs"
    using sched_inv_E [OF inv] by blast
  have c: "unat c < length qs" using vcpu_cpu_bound [OF inv v(2)] .
  with rq have h: "g_runqueues w = Some (arr, rqs)" "unat c < length rqs" "\<not> lock (rqs ! unat c)" by auto
  obtain l where l: "list_del (SE e) (links w) = Some l" "queues l arr (qs[d := xs @ ys])" "dom l = dom (links w)"
    using queues_del [OF rq(4) q] by blast
  have "scheduler_remove_vcpu w (Some r) = Some (NEXUSVM_OK, w\<lparr>links := l\<rparr>)"
    using v section_links [OF h, of "list_del (SE e)"] l(1)
    by (simp add: scheduler_remove_vcpu_def bind_eq_Some_conv)
  moreover have "sched_inv (w\<lparr>links := l\<rparr>) (qs[d := xs @ ys])"
    by (rule sched_inv_links [OF inv rq(1) l(2)])
      (use inv q in \<open>auto simp: sched_inv_def nth_list_update split: if_splits\<close>)
  ultimately show ?thesis using l(3) by blast
qed

lemma requeue_effect:
  assumes inv: "sched_inv w qs" and v: "vcpu_objs w r = Some v" "vcpu_cpu w v = Some c" "entity v = Some e"
    and q: "qs ! unat c = xs @ e # ys"
  shows "\<exists>l. scheduler_yield w (Some r) = Some (w\<lparr>links := l\<rparr>) \<and> sched_inv (w\<lparr>links := l\<rparr>) (qs[unat c := xs @ ys @ [e]])"
    and "\<exists>l. scheduler_wake w (Some r) = Some (w\<lparr>links := l\<rparr>) \<and> sched_inv (w\<lparr>links := l\<rparr>) (qs[unat c := e # xs @ ys])"
proof -
  obtain arr rqs where rq: "g_runqueues w = Some (arr, rqs)" "length rqs = length qs"
      "\<And>i. i < length qs \<Longrightarrow> \<not> lock (rqs ! i) \<and> current (rqs ! i) = None" "queues (links w) arr qs"
    using sched_inv_E [OF inv] by blast
  have c: "unat c < length qs" using vcpu_cpu_bound [OF inv v(2)] .
  with rq have h: "g_runqueues w = Some (arr, rqs)" "unat c < length rqs" "\<not> lock (rqs ! unat c)" by auto
  have step: "requeue add w (Some r) = Some (w\<lparr>links := l\<rparr>)"
    if "(do { l \<leftarrow> list_del (SE e) (links w); add (SE e) (RQ arr (unat c)) l }) = Some l" for add l
    using section_links [OF h, of "\<lambda>l. do { l \<leftarrow> list_del (SE e) l; add (SE e) (RQ arr (unat c)) l }"] that v
      rq_section(1) [OF h] locked_head(1) [OF h]
    by (simp add: requeue_def)
  have fin: "sched_inv (w\<lparr>links := l\<rparr>) (qs[unat c := zs])"
    if "queues l arr (qs[unat c := zs])" "set zs = set (xs @ e # ys)" for l zs
    by (rule sched_inv_links [OF inv rq(1) that(1)])
      (use inv q c that(2) in \<open>auto simp: sched_inv_def nth_list_update split: if_splits\<close>)
  show "\<exists>l. scheduler_yield w (Some r) = Some (w\<lparr>links := l\<rparr>) \<and> sched_inv (w\<lparr>links := l\<rparr>) (qs[unat c := xs @ ys @ [e]])"
    using queues_move(1) [OF rq(4) c q] step [of list_add_tail] fin by (fastforce simp: scheduler_yield_def)
  show "\<exists>l. scheduler_wake w (Some r) = Some (w\<lparr>links := l\<rparr>) \<and> sched_inv (w\<lparr>links := l\<rparr>) (qs[unat c := e # xs @ ys])"
    using queues_move(2) [OF rq(4) c q] step [of list_add] fin by (fastforce simp: scheduler_wake_def)
qed

section \<open>Creating an entity\<close>

lemma queues_fresh_node:
  assumes "queues l arr qs" "\<And>i. i < length qs \<Longrightarrow> e \<notin> set (qs ! i)"
  shows "queues (l(SE e \<mapsto> n)) arr qs"
proof -
  have "dll (l(SE e \<mapsto> n)) (RQ arr i) (map SE (qs ! i))" if "i < length qs" for i
    using queues_dll [OF assms(1) that] by (rule dll_cong) (use assms(2) [OF that] in auto)
  then show ?thesis using assms(1) by (simp add: queues_def)
qed

lemma add_new:
  assumes inv: "sched_inv w qs" and v: "vcpu_objs w r = Some v" "vcpu_cpu w v = Some c" "entity v = None"
    and av: "av (callocs w)" and m: "get_vm w (vm v) = Some m"
  shows "\<exists>w'. scheduler_add_vcpu av w (Some r) = Some (NEXUSVM_OK, w') \<and>
    sched_inv w' (qs[unat c := qs ! unat c @ [next_ref w]]) \<and>
    vcpu_objs w' r = Some (v\<lparr>entity := Some (next_ref w)\<rparr>) \<and>
    (\<exists>se. entity_objs w' (next_ref w) = Some se \<and> weight se = 1024 \<and> vruntime se = 0 \<and> policy se = SCHED_CFS)"
proof -
  obtain arr rqs where rq: "g_runqueues w = Some (arr, rqs)" "length rqs = length qs"
      "\<And>i. i < length qs \<Longrightarrow> \<not> lock (rqs ! i) \<and> current (rqs ! i) = None" "queues (links w) arr qs"
    using sched_inv_E [OF inv] by blast
  have c: "unat c < length qs" using vcpu_cpu_bound [OF inv v(2)] .
  with rq have h: "g_runqueues w = Some (arr, rqs)" "unat c < length rqs" "\<not> lock (rqs ! unat c)" by auto
  define e where "e = next_ref w"
  have fresh: "e \<notin> set (qs ! j)" if "j < length qs" for j
    using inv that by (auto simp: sched_inv_def e_def)
  define l0 where "l0 = (links w)(SE e \<mapsto> \<lparr>lnext = None, lprev = None\<rparr>)"
  have q0: "queues l0 arr qs" unfolding l0_def using rq(4) fresh by (rule queues_fresh_node)
  obtain l where l: "list_add_tail (SE e) (RQ arr (unat c)) l0 = Some l" "queues l arr (qs[unat c := qs ! unat c @ [e]])"
    using queues_push_back [OF q0 c _ fresh] by (auto simp: l0_def)
  obtain y where m': "vm v = Some y" "vm_objs w y = Some m" using m by (auto simp: get_vm_def bind_eq_Some_conv)
  define w2 where "w2 = snd (the (create_entity av (locked w arr rqs c) r))"
  have ce: "create_entity av (locked w arr rqs c) r = Some (Some e, w2)"
    using v(1) av m' by (simp add: w2_def create_entity_def Let_def locked_def get_vm_def e_def)
  have w2: "links w2 = l0" "g_runqueues w2 = g_runqueues (locked w arr rqs c)" "next_ref w2 = Suc e"
      "g_cpu_count w2 = g_cpu_count w" "vcpu_objs w2 r = Some (v\<lparr>entity := Some e\<rparr>)"
      "\<And>x. x \<noteq> e \<Longrightarrow> entity_objs w2 x = entity_objs w x"
      "\<exists>se. entity_objs w2 e = Some se \<and> weight se = 1024 \<and> vruntime se = 0 \<and> policy se = SCHED_CFS"
    using v(1) av m' by (simp_all add: w2_def create_entity_def Let_def locked_def get_vm_def e_def l0_def upd_vcpu_def)
  let ?w = "w2\<lparr>links := l, g_runqueues := Some (arr, rqs)\<rparr>"
  have hd: "rq_head w2 c = Some (RQ arr (unat c))" using rq_section(2) [OF h w2(2)] .
  have ul: "rq_unlock (w2\<lparr>links := l\<rparr>) c = Some ?w" using w2(2) by (intro rq_section(3) [OF h]) simp
  have "scheduler_add_vcpu av w (Some r) = Some (NEXUSVM_OK, ?w)"
    using v ce hd ul l(1) w2(1) rq_section(1) [OF h] by (simp add: scheduler_add_vcpu_def with_links_def)
  moreover have "sched_inv ?w (qs[unat c := qs ! unat c @ [e]])"
  proof -
    have "entity_objs ?w x \<noteq> None \<and> x < next_ref ?w" if "i < length qs" "x \<in> set ((qs[unat c := qs ! unat c @ [e]]) ! i)" for i x
    proof (cases "x = e")
      case False
      then have "x \<in> set (qs ! i)" using that c by (auto simp: nth_list_update split: if_splits)
      then show ?thesis using inv that(1) False w2(3,6) by (auto simp: sched_inv_def e_def less_Suc_eq)
    qed (use w2(3,7) in auto)
    moreover have "unat (g_cpu_count w) = length qs" "\<forall>q\<in>set rqs. \<not> lock q \<and> current q = None"
      using inv rq(1) by (auto simp: sched_inv_def)
    ultimately show ?thesis using l(2) rq(2) w2(4) by (simp add: sched_inv_def)
  qed
  ultimately show ?thesis using w2(5,7) by (auto simp: e_def)
qed

lemma add_new_failure:
  assumes inv: "sched_inv w qs" and v: "vcpu_objs w r = Some v" "vcpu_cpu w v = Some c" "entity v = None"
    and av: "\<not> av (callocs w)"
  shows "\<exists>w'. scheduler_add_vcpu av w (Some r) = Some (NEXUSVM_ERR_NO_MEMORY, w') \<and> sched_inv w' qs"
proof -
  obtain arr rqs where rq: "g_runqueues w = Some (arr, rqs)" "length rqs = length qs"
      "\<And>i. i < length qs \<Longrightarrow> \<not> lock (rqs ! i) \<and> current (rqs ! i) = None" "queues (links w) arr qs"
    using sched_inv_E [OF inv] by blast
  with vcpu_cpu_bound [OF inv v(2)]
  have h: "g_runqueues w = Some (arr, rqs)" "unat c < length rqs" "\<not> lock (rqs ! unat c)" by auto
  define w2 where "w2 = upd_vcpu ((locked w arr rqs c)\<lparr>callocs := Suc (callocs w)\<rparr>) r (\<lambda>v. v\<lparr>entity := None\<rparr>)"
  have ce: "create_entity av (locked w arr rqs c) r = Some (None, w2)"
    using av by (simp add: create_entity_def Let_def w2_def locked_def)
  have w2: "g_runqueues w2 = g_runqueues (locked w arr rqs c)" "links w2 = links w" "entity_objs w2 = entity_objs w"
      "next_ref w2 = next_ref w" "g_cpu_count w2 = g_cpu_count w"
    by (simp_all add: w2_def upd_vcpu_def locked_def)
  have "scheduler_add_vcpu av w (Some r) = Some (NEXUSVM_ERR_NO_MEMORY, w2\<lparr>g_runqueues := Some (arr, rqs)\<rparr>)"
    using v ce rq_section(1) [OF h] rq_section(3) [OF h w2(1)] by (simp add: scheduler_add_vcpu_def)
  moreover have "sched_inv (w2\<lparr>g_runqueues := Some (arr, rqs)\<rparr>) qs" using inv rq(1) w2 by (simp add: sched_inv_def)
  ultimately show ?thesis by blast
qed

section \<open>Counting\<close>

lemma foldM_count: "foldM (\<lambda>n pos. Some (n + 1)) xs (a :: u32) = Some (a + of_nat (length xs))"
  by (induction xs arbitrary: a) (simp_all add: algebra_simps)

lemma count_queue_length:
  assumes inv: "sched_inv w qs" and i: "unat i < length qs"
  shows "count_queue w i = Some (of_nat (length (qs ! unat i)))"
proof -
  obtain arr rqs where rq: "g_runqueues w = Some (arr, rqs)" "length rqs = length qs"
      "\<And>i. i < length qs \<Longrightarrow> \<not> lock (rqs ! i) \<and> current (rqs ! i) = None" "queues (links w) arr qs"
    using sched_inv_E [OF inv] by blast
  with i have h: "g_runqueues w = Some (arr, rqs)" "unat i < length rqs" "\<not> lock (rqs ! unat i)" by auto
  have "dll (links w) (RQ arr (unat i)) (map SE (qs ! unat i))" using queues_dll [OF rq(4) i] .
  then show ?thesis using rq_section [OF h]
    by (simp add: count_queue_def list_for_each_dll foldM_count)
qed

section \<open>The minimum search\<close>

text \<open>The loop of the pick functions over the keys of the entities.\<close>

definition min_step :: "('a \<Rightarrow> u64) \<Rightarrow> 'a option \<times> u64 \<Rightarrow> 'a \<Rightarrow> 'a option \<times> u64" where
  "min_step key acc x = (if key x < snd acc then (Some x, key x) else acc)"

lemma foldl_min_step:
  "snd (foldl (min_step key) a xs) \<le> snd a \<and> (\<forall>x\<in>set xs. snd (foldl (min_step key) a xs) \<le> key x) \<and>
   (foldl (min_step key) a xs = a \<or> (\<exists>x\<in>set xs. foldl (min_step key) a xs = (Some x, key x)))"
proof (induction xs arbitrary: a)
  case (Cons x xs)
  have "snd (min_step key a x) \<le> snd a" "snd (min_step key a x) \<le> key x"
      "min_step key a x = a \<or> min_step key a x = (Some x, key x)"
    by (auto simp: min_step_def)
  with Cons.IH [of "min_step key a x"] show ?case by (auto intro: order_trans)
qed simp

lemma foldl_min_none: "snd (foldl (min_step key) (None, -1) xs) = -1 \<Longrightarrow> foldl (min_step key) (None, -1) xs = (None, -1)"
proof -
  have "foldl (min_step key) a xs = a \<or> snd (foldl (min_step key) a xs) < snd a" for a
  proof (induction xs arbitrary: a)
    case (Cons x xs)
    have "min_step key a x = a \<or> snd (min_step key a x) < snd a" by (simp add: min_step_def)
    with Cons.IH [of "min_step key a x"] show ?case by auto
  qed simp
  from this [of "(None, -1)"] show "snd (foldl (min_step key) (None, -1) xs) = -1 \<Longrightarrow> ?thesis" by auto
qed

definition vr :: "world \<Rightarrow> ref \<Rightarrow> u64" where
  "vr w e = vruntime (the (entity_objs w e))"

lemma cfs_fold:
  assumes "\<And>e. e \<in> set xs \<Longrightarrow> entity_objs w e \<noteq> None"
  shows "foldM (cfs_body w) (map SE xs) a = Some (foldl (min_step (vr w)) a xs)"
  using assms
proof (induction xs arbitrary: a)
  case (Cons x xs)
  then obtain se where "entity_objs w x = Some se" by force
  then have "cfs_body w a (SE x) = Some (min_step (vr w) a x)"
    by (simp add: cfs_body_def list_entry_def min_step_def vr_def)
  with Cons show ?case by simp
qed simp

section \<open>Finding the virtual CPU of an entity\<close>

fun vm_chain :: "(ref \<rightharpoonup> nexusvm) \<Rightarrow> ref option \<Rightarrow> ref list \<Rightarrow> bool" where
  "vm_chain objs p [] \<longleftrightarrow> p = None"
| "vm_chain objs p (r # rs) \<longleftrightarrow> p = Some r \<and> (\<exists>m. objs r = Some m \<and> vm_chain objs (vm_next m) rs)"

text \<open>The first \<open>vcpu_count\<close> elements of the array of a machine exist and are \<open>NULL\<close> or live.\<close>

definition vcpus_ok :: "world \<Rightarrow> nexusvm \<Rightarrow> bool" where
  "vcpus_ok w m \<longleftrightarrow> unat (vcpu_count m) \<le> length (vcpu_array m) \<and>
     (\<forall>i<unat (vcpu_count m). \<forall>c. vcpu_array m ! i = Some c \<longrightarrow> vcpu_objs w c \<noteq> None)"

definition vm_vcpus :: "nexusvm \<Rightarrow> ref set" where
  "vm_vcpus m = {c. \<exists>i<unat (vcpu_count m). vcpu_array m ! i = Some c}"

definition entity_of :: "world \<Rightarrow> ref \<Rightarrow> ref \<Rightarrow> bool" where
  "entity_of w c e \<longleftrightarrow> (\<exists>v. vcpu_objs w c = Some v \<and> entity v = Some e)"

lemma find_vcpu_in_spec:
  assumes "\<forall>i\<in>set is. i < length arr \<and> (\<forall>c. arr ! i = Some c \<longrightarrow> vcpu_objs w c \<noteq> None)"
  shows "\<exists>res. find_vcpu_in w e arr is = Some res \<and>
    (\<forall>c. res = Some c \<longrightarrow> entity_of w c e \<and> (\<exists>i\<in>set is. arr ! i = Some c)) \<and>
    (res = None \<longrightarrow> (\<forall>i\<in>set is. \<forall>c. arr ! i = Some c \<longrightarrow> \<not> entity_of w c e))"
  using assms
proof (induction "is")
  case (Cons i "is")
  show ?case
  proof (cases "arr ! i")
    case None
    then show ?thesis using Cons by auto
  next
    case (Some c)
    then obtain v where v: "vcpu_objs w c = Some v" using Cons.prems by force
    show ?thesis
    proof (cases "entity v = Some e")
      case True
      then show ?thesis using Some v Cons.prems by (auto simp: entity_of_def)
    next
      case False
      then show ?thesis using Some v Cons by (auto simp: entity_of_def)
    qed
  qed
qed simp

lemma find_vcpu_spec:
  assumes "vm_chain (vm_objs w) p rs" "\<forall>r\<in>set rs. \<forall>m. vm_objs w r = Some m \<longrightarrow> vcpus_ok w m"
  shows "\<exists>res. find_vcpu w e p = Some res \<and>
    (\<forall>c. res = Some c \<longrightarrow> entity_of w c e \<and> (\<exists>r\<in>set rs. \<exists>m. vm_objs w r = Some m \<and> c \<in> vm_vcpus m)) \<and>
    (res = None \<longrightarrow> (\<forall>r\<in>set rs. \<forall>m. vm_objs w r = Some m \<longrightarrow> (\<forall>c\<in>vm_vcpus m. \<not> entity_of w c e)))"
  using assms
proof (induction rs arbitrary: p)
  case Nil
  then show ?case by (simp add: find_vcpu.simps)
next
  case (Cons r rs)
  then obtain m where m: "p = Some r" "vm_objs w r = Some m" "vm_chain (vm_objs w) (vm_next m) rs" by auto
  have ok: "vcpus_ok w m" using Cons.prems(2) m(2) by simp
  then have pre: "\<forall>i\<in>set [0..<unat (vcpu_count m)]. i < length (vcpu_array m) \<and>
      (\<forall>c. vcpu_array m ! i = Some c \<longrightarrow> vcpu_objs w c \<noteq> None)"
    by (simp add: vcpus_ok_def)
  obtain res where raw: "find_vcpu_in w e (vcpu_array m) [0..<unat (vcpu_count m)] = Some res"
      "\<forall>c. res = Some c \<longrightarrow> entity_of w c e \<and> (\<exists>i\<in>set [0..<unat (vcpu_count m)]. vcpu_array m ! i = Some c)"
      "res = None \<longrightarrow> (\<forall>i\<in>set [0..<unat (vcpu_count m)]. \<forall>c. vcpu_array m ! i = Some c \<longrightarrow> \<not> entity_of w c e)"
    using find_vcpu_in_spec [OF pre, of e] by blast
  have "c \<in> vm_vcpus m \<longleftrightarrow> (\<exists>i\<in>set [0..<unat (vcpu_count m)]. vcpu_array m ! i = Some c)" for c
    by (simp add: vm_vcpus_def Bex_def)
  with raw have res: "\<forall>c. res = Some c \<longrightarrow> entity_of w c e \<and> c \<in> vm_vcpus m"
      "res = None \<longrightarrow> (\<forall>c\<in>vm_vcpus m. \<not> entity_of w c e)"
    by blast+
  have step: "find_vcpu w e p = (if res \<noteq> None then Some res else find_vcpu w e (vm_next m))"
    by (subst find_vcpu.simps) (simp add: m get_vm_def raw(1))
  show ?case
  proof (cases res)
    case None
    have "\<forall>r\<in>set rs. \<forall>m. vm_objs w r = Some m \<longrightarrow> vcpus_ok w m" using Cons.prems(2) by simp
    from Cons.IH [OF m(3) this]
    obtain res' where res': "find_vcpu w e (vm_next m) = Some res'"
        "\<forall>c. res' = Some c \<longrightarrow> entity_of w c e \<and> (\<exists>r\<in>set rs. \<exists>m. vm_objs w r = Some m \<and> c \<in> vm_vcpus m)"
        "res' = None \<longrightarrow> (\<forall>r\<in>set rs. \<forall>m. vm_objs w r = Some m \<longrightarrow> (\<forall>c\<in>vm_vcpus m. \<not> entity_of w c e))"
      by blast
    then show ?thesis using None step res(2) m(2) by (intro exI [of _ res']) auto
  next
    case (Some c)
    then show ?thesis using step res(1) m(2) by auto
  qed
qed

section \<open>The pick functions\<close>

text \<open>Every queued entity belongs to a virtual CPU of a listed machine.\<close>

definition owned :: "world \<Rightarrow> ref list \<Rightarrow> ref list \<Rightarrow> bool" where
  "owned w rs q \<longleftrightarrow> (\<exists>hv. g_hypervisor w = Some hv \<and> vm_chain (vm_objs w) (vms hv) rs) \<and>
     (\<forall>r\<in>set rs. \<forall>m. vm_objs w r = Some m \<longrightarrow> vcpus_ok w m) \<and>
     (\<forall>e\<in>set q. \<exists>r\<in>set rs. \<exists>m. vm_objs w r = Some m \<and> (\<exists>c\<in>vm_vcpus m. entity_of w c e))"

lemma find_entity_vcpu_owned:
  assumes "owned w rs q" "e \<in> set q"
  shows "\<exists>c. find_entity_vcpu w e = Some (Some c) \<and> entity_of w c e"
proof -
  obtain hv where hv: "g_hypervisor w = Some hv" "vm_chain (vm_objs w) (vms hv) rs"
    using assms(1) by (auto simp: owned_def)
  obtain res where "find_vcpu w e (vms hv) = Some res" "\<forall>c. res = Some c \<longrightarrow> entity_of w c e" "res \<noteq> None"
    using find_vcpu_spec [OF hv(2), of e] assms unfolding owned_def by blast
  then show ?thesis using hv(1) by (auto simp: find_entity_vcpu_def)
qed

lemma rq_head_inv:
  assumes "sched_inv w qs" "unat c < length qs"
  shows "\<exists>h. rq_head w c = Some h \<and> dll (links w) h (map SE (qs ! unat c)) \<and> (\<forall>w'. list_entry w' h = None)"
proof -
  obtain arr rqs where "g_runqueues w = Some (arr, rqs)" "length rqs = length qs" "queues (links w) arr qs"
    using sched_inv_E [OF assms(1)] by metis
  with assms(2) show ?thesis
    by (auto simp: rq_head_def get_rq_def list_entry_def intro: queues_dll)
qed

text \<open>The key of the first-in-first-out pick: only entities with that policy take part.\<close>

definition fifo_key :: "world \<Rightarrow> ref \<Rightarrow> u64" where
  "fifo_key w e = (let se = the (entity_objs w e) in if policy se = SCHED_FIFO then deadline se else -1)"

lemma fifo_fold:
  assumes "\<forall>e\<in>set xs. entity_objs w e \<noteq> None"
  shows "foldM (fifo_body w) (map SE xs) a = Some (foldl (min_step (fifo_key w)) a xs)"
  using assms
proof (induction xs arbitrary: a)
  case (Cons x xs)
  then obtain se where "entity_objs w x = Some se" by auto
  then have "fifo_body w a (SE x) = Some (min_step (fifo_key w) a x)"
    by (simp add: fifo_body_def list_entry_def min_step_def fifo_key_def)
  with Cons show ?case by simp
qed simp

text \<open>A run queue \<open>q\<close> of CPU \<open>cpu\<close>, whether or not its lock is held.\<close>

definition rq_holds :: "world \<Rightarrow> u32 \<Rightarrow> ref list \<Rightarrow> bool" where
  "rq_holds w cpu q \<longleftrightarrow> (\<exists>h. rq_head w cpu = Some h \<and> dll (links w) h (map SE q) \<and> (\<forall>w'. list_entry w' h = None)) \<and>
     (\<forall>e\<in>set q. entity_objs w e \<noteq> None)"

lemma rq_holds_inv: "sched_inv w qs \<Longrightarrow> unat c < length qs \<Longrightarrow> rq_holds w c (qs ! unat c)"
  using rq_head_inv sched_inv_live unfolding rq_holds_def by blast

text \<open>\<open>picks w q key k\<close>: \<open>k\<close> is the virtual CPU of an entity of \<open>q\<close> with the least key.\<close>

definition picks :: "world \<Rightarrow> ref list \<Rightarrow> (ref \<Rightarrow> u64) \<Rightarrow> ref \<Rightarrow> bool" where
  "picks w q key k \<longleftrightarrow> (\<exists>e\<in>set q. entity_of w k e \<and> (\<forall>e'\<in>set q. key e \<le> key e'))"

lemma min_search:
  assumes own: "owned w rs q" and acc: "acc = foldl (min_step key) (None, -1) q"
  shows "if \<forall>e\<in>set q. key e = -1 then fst acc = None
    else \<exists>e k. fst acc = Some e \<and> find_entity_vcpu w e = Some (Some k) \<and> picks w q key k"
proof -
  have m: "\<forall>x\<in>set q. snd acc \<le> key x" "acc = (None, -1) \<or> (\<exists>x\<in>set q. acc = (Some x, key x))"
    using foldl_min_step [of key "(None, -1)" q] by (auto simp: acc)
  show ?thesis
  proof (cases "acc = (None, -1)")
    case True
    then have "key e = -1" if "e \<in> set q" for e
      using m(1) that word_order.extremum_unique by fastforce
    then show ?thesis using True by simp
  next
    case False
    then obtain e where e: "e \<in> set q" "acc = (Some e, key e)" using m(2) by blast
    have "key e \<noteq> -1" using e(2) False foldl_min_none [of key q] by (auto simp: acc)
    moreover obtain k where "find_entity_vcpu w e = Some (Some k)" "entity_of w k e"
      using find_entity_vcpu_owned [OF own e(1)] by blast
    ultimately show ?thesis using e m(1) by (auto simp: picks_def)
  qed
qed

lemma cfs_pick:
  assumes rq: "rq_holds w cpu q" and own: "owned w rs q"
  shows "if \<forall>e\<in>set q. vr w e = -1 then scheduler_cfs_pick_next w cpu = Some None
    else \<exists>k. scheduler_cfs_pick_next w cpu = Some (Some k) \<and> picks w q (vr w) k"
proof -
  define acc where "acc = foldl (min_step (vr w)) (None, -1) q"
  obtain h where h: "rq_head w cpu = Some h" "dll (links w) h (map SE q)" "\<And>e. e \<in> set q \<Longrightarrow> entity_objs w e \<noteq> None"
    using rq by (auto simp: rq_holds_def)
  have run: "scheduler_cfs_pick_next w cpu = (case fst acc of None \<Rightarrow> Some None | Some e \<Rightarrow> find_entity_vcpu w e)"
    using h by (simp add: scheduler_cfs_pick_next_def list_for_each_dll cfs_fold acc_def case_prod_beta)
  from min_search [OF own acc_def] show ?thesis by (auto simp: run split: if_splits)
qed

lemma fifo_pick:
  assumes rq: "rq_holds w cpu q" and own: "owned w rs q"
  shows "if \<forall>e\<in>set q. fifo_key w e = -1 then scheduler_fifo_pick_next w cpu = scheduler_cfs_pick_next w cpu
    else \<exists>k. scheduler_fifo_pick_next w cpu = Some (Some k) \<and> picks w q (fifo_key w) k"
proof -
  define acc where "acc = foldl (min_step (fifo_key w)) (None, -1) q"
  obtain h where h: "rq_head w cpu = Some h" "dll (links w) h (map SE q)" "\<forall>e\<in>set q. entity_objs w e \<noteq> None"
    using rq by (auto simp: rq_holds_def)
  have run: "scheduler_fifo_pick_next w cpu =
      (case fst acc of None \<Rightarrow> scheduler_cfs_pick_next w cpu | Some e \<Rightarrow> find_entity_vcpu w e)"
    using h by (simp add: scheduler_fifo_pick_next_def list_for_each_dll fifo_fold acc_def case_prod_beta)
  from min_search [OF own acc_def] show ?thesis by (auto simp: run split: if_splits)
qed

section \<open>The scheduling decision\<close>

definition fifo_first :: "world \<Rightarrow> ref list \<Rightarrow> bool" where
  "fifo_first w q \<longleftrightarrow> policy (the (entity_objs w (hd q))) \<in> {SCHED_FIFO, SCHED_RR}"

text \<open>What the scheduler promises to return for the queue \<open>q\<close>.\<close>

definition decision :: "world \<Rightarrow> ref list \<Rightarrow> ref option \<Rightarrow> bool" where
  "decision w q res \<longleftrightarrow>
     (if fifo_first w q \<and> (\<exists>e\<in>set q. fifo_key w e \<noteq> -1) then \<exists>k. res = Some k \<and> picks w q (fifo_key w) k
      else if \<forall>e\<in>set q. vr w e = -1 then res = None
      else \<exists>k. res = Some k \<and> picks w q (vr w) k)"

lemma schedule_pick_first:
  assumes "rq_holds w cpu q"
  shows "schedule_pick w cpu =
    (if q = [] then None else if fifo_first w q then scheduler_fifo_pick_next w cpu else scheduler_cfs_pick_next w cpu)"
proof -
  obtain h where h: "rq_head w cpu = Some h" "dll (links w) h (map SE q)" "list_entry w h = None" "\<forall>e\<in>set q. entity_objs w e \<noteq> None"
    using assms by (auto simp: rq_holds_def)
  have nx: "get_next (links w) h = Some (Some (hd (map SE q @ [h])))" using dll_first [OF h(2)] .
  show ?thesis
  proof (cases q)
    case Nil
    then show ?thesis using h(1,3) nx by (simp add: schedule_pick_def)
  next
    case (Cons e0 es)
    then obtain se where "entity_objs w e0 = Some se" using h(4) by auto
    then show ?thesis
      using h(1) nx Cons by (simp add: schedule_pick_def list_entry_def fifo_first_def split: sched_policy.split)
  qed
qed

lemma schedule_pick_decision:
  assumes rq: "rq_holds w cpu q" and own: "owned w rs q"
  shows "if q = [] then schedule_pick w cpu = None else \<exists>res. schedule_pick w cpu = Some res \<and> decision w q res"
  using cfs_pick [OF rq own] fifo_pick [OF rq own]
  by (auto simp: schedule_pick_first [OF rq] decision_def split: if_splits)

lemma locked_simps [simp]:
  "g_hypervisor (locked w arr rqs c) = g_hypervisor w" "vm_objs (locked w arr rqs c) = vm_objs w"
  "owned (locked w arr rqs c) rs q = owned w rs q" "decision (locked w arr rqs c) = decision w"
  "entity_of (locked w arr rqs c) = entity_of w" "vcpus_ok (locked w arr rqs c) = vcpus_ok w" "vr (locked w arr rqs c) = vr w"
  "fifo_first (locked w arr rqs c) = fifo_first w"
proof -
  show eqs: "g_hypervisor (locked w arr rqs c) = g_hypervisor w" "vm_objs (locked w arr rqs c) = vm_objs w"
    by (simp_all add: locked_def)
  show more: "entity_of (locked w arr rqs c) = entity_of w" "vcpus_ok (locked w arr rqs c) = vcpus_ok w"
    "vr (locked w arr rqs c) = vr w" "fifo_first (locked w arr rqs c) = fifo_first w"
    by (simp_all add: entity_of_def vcpus_ok_def vr_def fifo_first_def fun_eq_iff)
  have key: "fifo_key (locked w arr rqs c) = fifo_key w" by (simp add: fifo_key_def fun_eq_iff)
  have pk: "picks (locked w arr rqs c) = picks w" by (simp add: picks_def fun_eq_iff more)
  show "decision (locked w arr rqs c) = decision w" by (intro ext) (simp only: decision_def more key pk)
  show "owned (locked w arr rqs c) rs q = owned w rs q" by (simp only: owned_def eqs more)
qed

lemma schedule_runs_pick:
  assumes inv: "sched_inv w qs" and init: "g_scheduler_initialized w" and n: "0 < length qs"
  obtains arr rqs where "rq_holds (locked w arr rqs 0) 0 (qs ! 0)"
    "scheduler_schedule w = map_option (\<lambda>res. (res, w)) (schedule_pick (locked w arr rqs 0) 0)"
proof -
  obtain arr rqs where rq: "g_runqueues w = Some (arr, rqs)" "length rqs = length qs"
      "\<And>i. i < length qs \<Longrightarrow> \<not> lock (rqs ! i) \<and> current (rqs ! i) = None" "queues (links w) arr qs"
    using sched_inv_E [OF inv] by blast
  let ?w = "locked w arr rqs 0"
  have h: "g_runqueues w = Some (arr, rqs)" "unat (0 :: u32) < length rqs" "\<not> lock (rqs ! unat (0 :: u32))" using rq n by auto
  have cnt: "g_cpu_count w \<noteq> 0" using inv n by (auto simp: sched_inv_def)
  have hold: "rq_holds ?w 0 (qs ! 0)"
    using rq_holds_inv [OF inv, of 0] n locked_head [OF h] by (simp add: rq_holds_def)
  have ul: "rq_unlock ?w 0 = Some w" using rq_section(3) [OF h, of ?w] rq(1) by (simp add: locked_def)
  have cur: "get_rq ?w 0 = Some (arr, (rqs ! 0)\<lparr>lock := True\<rparr>)" "current ((rqs ! 0)\<lparr>lock := True\<rparr>) = None"
    using rq n by (auto simp: locked_def get_rq_def)
  have "scheduler_schedule w = map_option (\<lambda>res. (res, w)) (schedule_pick ?w 0)"
    using init cnt rq_section(1) [OF h] cur ul
    by (cases "schedule_pick ?w 0") (simp_all add: scheduler_schedule_def)
  with hold that show thesis by blast
qed

lemma schedule_effect:
  assumes inv: "sched_inv w qs" and init: "g_scheduler_initialized w" and n: "0 < length qs" and own: "owned w rs (qs ! 0)"
  shows "if qs ! 0 = [] then scheduler_schedule w = None
    else \<exists>res. scheduler_schedule w = Some (res, w) \<and> decision w (qs ! 0) res"
proof -
  obtain arr rqs where hold: "rq_holds (locked w arr rqs 0) 0 (qs ! 0)" and
    run: "scheduler_schedule w = map_option (\<lambda>res. (res, w)) (schedule_pick (locked w arr rqs 0) 0)"
    using schedule_runs_pick [OF inv init n] by blast
  show ?thesis using schedule_pick_decision [OF hold, of rs] own by (auto simp: run split: if_splits)
qed

section \<open>Load balancing\<close>

definition qlen :: "ref list list \<Rightarrow> u32 \<Rightarrow> u32" where
  "qlen qs i = of_nat (length (qs ! unat i))"

lemma least_loaded_spec:
  assumes "sched_inv w qs"
  shows "\<exists>m' t'. least_loaded w cpu i m t = Some (m', t') \<and> m' \<le> m \<and>
    (\<forall>j. i \<le> j \<longrightarrow> j < g_cpu_count w \<longrightarrow> j \<noteq> cpu \<longrightarrow> m' \<le> qlen qs j) \<and>
    ((m', t') = (m, t) \<or> t' < g_cpu_count w \<and> t' \<noteq> cpu \<and> m' = qlen qs t')"
  using assms
proof (induction w cpu i m t rule: least_loaded.induct)
  case (1 w cpu i m t)
  have n: "unat (g_cpu_count w) = length qs" using "1.prems" by (simp add: sched_inv_def)
  show ?case
  proof (cases "i < g_cpu_count w")
    case False
    then have "\<not> (i \<le> j \<and> j < g_cpu_count w)" for j by auto
    then show ?thesis using False by (subst least_loaded.simps) auto
  next
    case True
    have next_j: "i + 1 \<le> j" if "i \<le> j" "j \<noteq> i" for j using that by (simp add: inc_le less_le)
    show ?thesis
    proof (cases "i = cpu")
      case c: True
      obtain m' t' where r: "least_loaded w cpu (i + 1) m t = Some (m', t')" "m' \<le> m"
          "\<forall>j. i + 1 \<le> j \<longrightarrow> j < g_cpu_count w \<longrightarrow> j \<noteq> cpu \<longrightarrow> m' \<le> qlen qs j"
          "(m', t') = (m, t) \<or> t' < g_cpu_count w \<and> t' \<noteq> cpu \<and> m' = qlen qs t'"
        using "1.IH"(1) [OF True c "1.prems"] by blast
      have "least_loaded w cpu i m t = Some (m', t')" using True c r(1) by (subst least_loaded.simps) simp
      then show ?thesis using r next_j c by blast
    next
      case c: False
      have cnt: "count_queue w i = Some (qlen qs i)"
        using count_queue_length [OF "1.prems"] True n by (simp add: word_less_nat_alt qlen_def)
      define m2 t2 where "m2 = (if qlen qs i < m then qlen qs i else m)" and "t2 = (if qlen qs i < m then i else t)"
      obtain m' t' where r: "least_loaded w cpu (i + 1) m2 t2 = Some (m', t')" "m' \<le> m2"
          "\<forall>j. i + 1 \<le> j \<longrightarrow> j < g_cpu_count w \<longrightarrow> j \<noteq> cpu \<longrightarrow> m' \<le> qlen qs j"
          "(m', t') = (m2, t2) \<or> t' < g_cpu_count w \<and> t' \<noteq> cpu \<and> m' = qlen qs t'"
        using "1.IH"(2) [OF True c cnt _ "1.prems"] "1.IH"(3) [OF True c cnt _ "1.prems"]
        by (cases "qlen qs i < m") (auto simp: m2_def t2_def)
      have "least_loaded w cpu i m t = Some (m', t')" using True c cnt r(1)
        by (subst least_loaded.simps) (simp add: m2_def t2_def split: if_splits)
      moreover have "m' \<le> m \<and> m' \<le> qlen qs i" using r(2) by (auto simp: m2_def split: if_splits)
      moreover have "(m', t') = (m, t) \<or> t' < g_cpu_count w \<and> t' \<noteq> cpu \<and> m' = qlen qs t'"
        using r(4) True c by (auto simp: m2_def t2_def split: if_splits)
      ultimately show ?thesis using r(3) next_j by blast
    qed
  qed
qed

lemma load_balance_migrate:
  assumes "cpu < g_cpu_count w" "least_loaded w cpu 0 (-1) 0 = Some (m, t)" "count_queue w cpu = Some s"
  shows "scheduler_load_balance w cpu = (if s > m + 2 then migrate_first w cpu t else Some w)"
  using assms by (simp add: scheduler_load_balance_def not_le [symmetric])

lemma migrate_first_effect:
  assumes inv: "sched_inv w qs" and cpu: "unat cpu < length qs" and tgt: "unat tgt < length qs" and q: "qs ! unat cpu = e # q"
  shows "\<exists>l. migrate_first w cpu tgt = Some (w\<lparr>links := l\<rparr>) \<and>
    sched_inv (w\<lparr>links := l\<rparr>) ((qs[unat cpu := q])[unat tgt := (qs[unat cpu := q]) ! unat tgt @ [e]]) \<and> dom l = dom (links w)"
proof -
  let ?qs = "qs[unat cpu := q]"
  obtain arr rqs where rq: "g_runqueues w = Some (arr, rqs)" "length rqs = length qs"
      "\<And>i. i < length qs \<Longrightarrow> \<not> lock (rqs ! i) \<and> current (rqs ! i) = None" "queues (links w) arr qs"
    using sched_inv_E [OF inv] by blast
  have h: "g_runqueues w = Some (arr, rqs)" "unat cpu < length rqs" "\<not> lock (rqs ! unat cpu)" using rq cpu by auto
  obtain l1 where l1: "list_del (SE e) (links w) = Some l1" "queues l1 arr ?qs" "dom l1 = dom (links w)"
    using queues_del [OF rq(4) cpu, of "[]" e q] q by auto
  let ?w1 = "w\<lparr>links := l1\<rparr>"
  have h1: "g_runqueues ?w1 = Some (arr, rqs)" "unat tgt < length rqs" "\<not> lock (rqs ! unat tgt)" using rq tgt by auto
  have d: "dll (links w) (RQ arr (unat cpu)) (map SE (e # q))" using queues_dll [OF rq(4) cpu] q by simp
  have live: "SE e \<in> dom l1" using dll_live [OF d, of "SE e"] l1(3) by auto
  have distinct_e: "e \<notin> set q" using d by (auto simp: dll_def)
  have "e \<notin> set (?qs ! j)" if "j < length ?qs" for j
    using that queues_disjoint [OF rq(4) cpu, of j] q distinct_e cpu by (auto simp: nth_list_update)
  from queues_push_back [OF l1(2) _ live this, of "unat tgt"] tgt
  obtain l where l: "list_add_tail (SE e) (RQ arr (unat tgt)) l1 = Some l"
      "queues l arr (?qs[unat tgt := ?qs ! unat tgt @ [e]])" "dom l = dom (links w)" using l1(3) by auto
  obtain se where se: "entity_objs w e = Some se" using inv cpu q by (fastforce simp: sched_inv_def)
  have ul: "rq_unlock ((locked w arr rqs cpu)\<lparr>links := l1\<rparr>) cpu = Some ?w1"
    using rq(1) by (subst rq_section(3) [OF h]) (simp_all add: locked_def)
  have add: "(do { w \<leftarrow> rq_lock ?w1 tgt; w \<leftarrow> with_links w (list_add_tail (SE e) (RQ arr (unat tgt))); rq_unlock w tgt })
      = Some (w\<lparr>links := l\<rparr>)"
    using section_links [OF h1, of "list_add_tail (SE e) (RQ arr (unat tgt))" l] l(1) by simp
  have "migrate_first w cpu tgt = Some (w\<lparr>links := l\<rparr>)"
    using rq_section(1) [OF h] locked_head(1) [OF h] list_empty_dll [OF d] dll_first [OF d] se l1(1) ul add
      rq_section(1) [OF h1] locked_head(1) [OF h1]
    by (simp add: migrate_first_def list_entry_def with_links_def)
  have kept: "\<exists>j<length qs. x \<in> set (qs ! j)"
    if "i < length qs" "x \<in> set (?qs[unat tgt := ?qs ! unat tgt @ [e]] ! i)" for i x
    using that cpu q by (cases "i = unat tgt"; cases "i = unat cpu") (auto intro: exI [of _ "unat cpu"])
  note \<open>migrate_first w cpu tgt = Some (w\<lparr>links := l\<rparr>)\<close>
  moreover have "sched_inv (w\<lparr>links := l\<rparr>) (?qs[unat tgt := ?qs ! unat tgt @ [e]])"
    by (rule sched_inv_links [OF inv rq(1) l(2)])
      (use sched_inv_live [OF inv] kept in \<open>simp, blast\<close>)
  ultimately show ?thesis using l(3) by blast
qed


text \<open>The loads of the other CPUs.\<close>

definition min_other_load :: "ref list list \<Rightarrow> nat \<Rightarrow> nat" where
  "min_other_load qs c = Min ((\<lambda>j. length (qs ! j)) ` ({..<length qs} - {c}))"

lemma min_other_load:
  assumes "j < length qs" "j \<noteq> c"
  shows "min_other_load qs c \<le> length (qs ! j)" "\<exists>i<length qs. i \<noteq> c \<and> length (qs ! i) = min_other_load qs c"
proof -
  let ?L = "(\<lambda>j. length (qs ! j)) ` ({..<length qs} - {c})"
  have "finite ?L" "length (qs ! j) \<in> ?L" using assms by auto
  then have "Min ?L \<le> length (qs ! j)" "Min ?L \<in> ?L" by (auto intro: Min_in)
  then show "min_other_load qs c \<le> length (qs ! j)" "\<exists>i<length qs. i \<noteq> c \<and> length (qs ! i) = min_other_load qs c"
    unfolding min_other_load_def by auto
qed

lemma least_loaded_min:
  assumes inv: "sched_inv w qs" and two: "j < length qs" "j \<noteq> unat cpu" and small: "\<forall>q\<in>set qs. length q < 2 ^ 32 - 3"
  shows "\<exists>m t. least_loaded w cpu 0 (-1) 0 = Some (m, t) \<and> unat t < length qs \<and> t \<noteq> cpu \<and>
    length (qs ! unat t) = min_other_load qs (unat cpu) \<and> unat m = min_other_load qs (unat cpu)"
proof -
  have n: "unat (g_cpu_count w) = length qs" using inv by (simp add: sched_inv_def)
  have len: "unat (qlen qs i) = length (qs ! unat i)" if "unat i < length qs" for i
  proof -
    have "length (qs ! unat i) < 2 ^ 32 - 3" using small nth_mem [OF that] by blast
    then show ?thesis by (simp add: qlen_def unat_of_nat)
  qed
  obtain m t where r: "least_loaded w cpu 0 (-1) 0 = Some (m, t)"
      "\<forall>i. i < g_cpu_count w \<longrightarrow> i \<noteq> cpu \<longrightarrow> m \<le> qlen qs i"
      "(m, t) = (-1, 0) \<or> t < g_cpu_count w \<and> t \<noteq> cpu \<and> m = qlen qs t"
    using least_loaded_spec [OF inv, of cpu 0 "-1" 0] by auto
  have bnd: "unat m \<le> length (qs ! i)" if i: "i < length qs" "i \<noteq> unat cpu" for i
  proof -
    have u: "unat (of_nat i :: u32) = i"
      using i(1) n unat_below [of "g_cpu_count w"] by (simp add: unat_of_nat)
    then have "m \<le> qlen qs (of_nat i)"
      using r(2) i n by (metis word_less_nat_alt)
    then show ?thesis using len [of "of_nat i"] u i(1) by (simp add: word_le_nat_alt)
  qed
  obtain i where i: "i < length qs" "i \<noteq> unat cpu" "length (qs ! i) = min_other_load qs (unat cpu)"
    using min_other_load(2) [OF two] by blast
  have "length (qs ! i) < 2 ^ 32 - 3" using small nth_mem [OF i(1)] by blast
  moreover have "unat (-1 :: u32) = 2 ^ 32 - 1" by (simp add: unsigned_minus_1_eq_mask mask_eq_exp_minus_1)
  ultimately have "m \<noteq> -1" using bnd [OF i(1,2)] by auto
  then have t: "t < g_cpu_count w" "t \<noteq> cpu" "m = qlen qs t" using r(3) by auto
  then have ut: "unat t < length qs" "unat t \<noteq> unat cpu" using n by (auto simp: word_less_nat_alt word_unat_eq_iff)
  have "unat m = length (qs ! unat t)" using t(3) len [OF ut(1)] by simp
  with bnd [OF i(1,2)] min_other_load(1) [OF ut] i(3) r(1) t(2) ut(1) show ?thesis by auto
qed

lemma load_balance_effect:
  assumes inv: "sched_inv w qs" and cpu: "cpu < g_cpu_count w" and two: "2 \<le> length qs"
    and small: "\<forall>q\<in>set qs. length q < 2 ^ 32 - 3"
  shows "if min_other_load qs (unat cpu) + 2 < length (qs ! unat cpu)
    then \<exists>l e q t. scheduler_load_balance w cpu = Some (w\<lparr>links := l\<rparr>) \<and> qs ! unat cpu = e # q \<and>
      t < length qs \<and> t \<noteq> unat cpu \<and> length (qs ! t) = min_other_load qs (unat cpu) \<and>
      sched_inv (w\<lparr>links := l\<rparr>) (qs[unat cpu := q, t := qs ! t @ [e]]) \<and> dom l = dom (links w)
    else scheduler_load_balance w cpu = Some w"
proof -
  have n: "unat (g_cpu_count w) = length qs" using inv by (simp add: sched_inv_def)
  with cpu have c: "unat cpu < length qs" by (simp add: word_less_nat_alt)
  obtain j where j: "j < length qs" "j \<noteq> unat cpu"
    using two by (metis One_nat_def Suc_1 less_le_trans lessI zero_neq_one zero_less_numeral)
  obtain m t where r: "least_loaded w cpu 0 (-1) 0 = Some (m, t)" "unat t < length qs" "t \<noteq> cpu"
      "length (qs ! unat t) = min_other_load qs (unat cpu)" "unat m = min_other_load qs (unat cpu)"
    using least_loaded_min [OF inv j small] by blast
  have "length (qs ! unat cpu) < 2 ^ 32 - 3" "length (qs ! unat t) < 2 ^ 32 - 3"
    using small nth_mem [OF c] nth_mem [OF r(2)] by blast+
  then have "unat (qlen qs cpu) = length (qs ! unat cpu)" "unat (m + 2) = min_other_load qs (unat cpu) + 2"
    using r(4,5) by (simp_all add: qlen_def unat_of_nat unat_word_ariths(1))
  then have cmp: "m + 2 < qlen qs cpu \<longleftrightarrow> min_other_load qs (unat cpu) + 2 < length (qs ! unat cpu)"
    by (simp add: word_less_nat_alt)
  have run: "scheduler_load_balance w cpu = (if m + 2 < qlen qs cpu then migrate_first w cpu t else Some w)"
    using load_balance_migrate [OF cpu r(1)] count_queue_length [OF inv c] by (simp add: qlen_def)
  show ?thesis
  proof (cases "m + 2 < qlen qs cpu")
    case True
    then obtain e q where q: "qs ! unat cpu = e # q" using cmp by (cases "qs ! unat cpu") auto
    have ne: "unat t \<noteq> unat cpu" using r(3) by (simp add: word_unat_eq_iff)
    obtain l where "migrate_first w cpu t = Some (w\<lparr>links := l\<rparr>)"
        "sched_inv (w\<lparr>links := l\<rparr>) (qs[unat cpu := q, unat t := qs ! unat t @ [e]])" "dom l = dom (links w)"
      using migrate_first_effect [OF inv c r(2) q] ne by auto
    then show ?thesis using True cmp run q r(2,4) ne by auto
  next
    case False
    then show ?thesis using cmp run by auto
  qed
qed

section \<open>Initialisation\<close>

lemma scheduler_init_loop_effect:
  assumes "g_runqueues w = Some (arr, rqs)" "length rqs = unat n" "\<forall>j<unat n. links w (RQ arr j) \<noteq> None"
    and "\<forall>j<unat i. \<not> lock (rqs ! j) \<and> current (rqs ! j) = None \<and> dll (links w) (RQ arr j) []" "i \<le> n"
  shows "\<exists>rqs' l. scheduler_init_loop n i w = Some (w\<lparr>g_runqueues := Some (arr, rqs'), links := l\<rparr>) \<and> length rqs' = unat n \<and>
    (\<forall>j<unat n. \<not> lock (rqs' ! j) \<and> current (rqs' ! j) = None \<and> dll l (RQ arr j) [])"
  using assms
proof (induction n i w arbitrary: rqs rule: scheduler_init_loop.induct)
  case (1 n i w)
  show ?case
  proof (cases "i < n")
    case False
    then have "i = n" using "1.prems"(5) by simp
    then show ?thesis using "1.prems"
      by (intro exI [of _ rqs] exI [of _ "links w"]) (simp add: scheduler_init_loop.simps)
  next
    case True
    then have i: "unat i < length rqs" "unat (i + 1) = Suc (unat i)" "unat i < unat n"
      using "1.prems"(2) by (simp_all add: word_less_nat_alt unat_Suc_below)
    then have rq: "get_rq w i = Some (arr, rqs ! unat i)" using "1.prems"(1) by (simp add: get_rq_def)
    define r1 where "r1 = rqs[unat i := (rqs ! unat i)\<lparr>cpu_id := i, current := None\<rparr>]"
    define r2 where "r2 = rqs[unat i := (rqs ! unat i)\<lparr>cpu_id := i, current := None, lock := False\<rparr>]"
    obtain l where l: "INIT_LIST_HEAD (RQ arr (unat i)) (links w) = Some l" "dll l (RQ arr (unat i)) []"
        "dom l = dom (links w)" "\<forall>z. z \<noteq> RQ arr (unat i) \<longrightarrow> l z = links w z"
      using INIT_LIST_HEAD_dll [of "links w" "RQ arr (unat i)"] "1.prems"(3) i(3) by auto
    let ?w1 = "w\<lparr>g_runqueues := Some (arr, r1)\<rparr>" and ?w = "w\<lparr>g_runqueues := Some (arr, r2), links := l\<rparr>"
    have s: "upd_rq w i (\<lambda>q. q\<lparr>cpu_id := i, current := None\<rparr>) = ?w1"
        "with_links ?w1 (INIT_LIST_HEAD (RQ arr (unat i))) = Some (?w1\<lparr>links := l\<rparr>)"
        "upd_rq (?w1\<lparr>links := l\<rparr>) i (\<lambda>q. q\<lparr>lock := False\<rparr>) = ?w"
      using "1.prems"(1) i l(1) by (simp_all add: upd_rq_def with_links_def r1_def r2_def)
    have step: "scheduler_init_loop n i w = scheduler_init_loop n (i + 1) ?w"
      using True by (subst scheduler_init_loop.simps) (simp add: rq s Let_def)
    have dl: "dll l (RQ arr j) []" if j: "j < unat i" for j
    proof (rule dll_cong)
      show "dll (links w) (RQ arr j) []" using "1.prems"(4) j by simp
      show "l z = links w z" if "z \<in> set [RQ arr j]" for z
        using l(4) j that by (metis empty_iff empty_set less_irrefl lnode.inject(1) set_ConsD)
    qed
    have "\<exists>rqs' l'. scheduler_init_loop n (i + 1) ?w = Some (?w\<lparr>g_runqueues := Some (arr, rqs'), links := l'\<rparr>) \<and>
        length rqs' = unat n \<and> (\<forall>j<unat n. \<not> lock (rqs' ! j) \<and> current (rqs' ! j) = None \<and> dll l' (RQ arr j) [])"
    proof (rule "1.IH" [OF True rq refl s(1) [symmetric] s(2) s(3) [symmetric], where rqs = r2])
      show "\<forall>j<unat (i + 1). \<not> lock (r2 ! j) \<and> current (r2 ! j) = None \<and> dll (links ?w) (RQ arr j) []"
        using "1.prems"(4) i l(2) dl by (auto simp: r2_def less_Suc_eq nth_list_update)
      show "\<forall>j<unat n. links ?w (RQ arr j) \<noteq> None"
        using "1.prems"(3) l(3) by (auto simp: dom_def set_eq_iff)
      show "i + 1 \<le> n" using True by (simp add: inc_le)
    qed (use "1.prems"(2) in \<open>simp_all add: r2_def\<close>)
    with step show ?thesis by simp
  qed
qed

lemma queues_all_empty: "\<forall>j<n. dll l (RQ arr j) [] \<Longrightarrow> queues l arr (replicate n [])"
  by (simp add: queues_def disjoint_queues_def)

lemma scheduler_init_effect:
  assumes hv: "g_hypervisor w = Some hv"
  shows "if av (callocs w)
    then \<exists>w'. scheduler_init av w = Some (NEXUSVM_OK, w') \<and> sched_inv w' (replicate (unat (online_cpu_count hv)) []) \<and>
      g_scheduler_initialized w'
    else \<exists>w'. scheduler_init av w = Some (NEXUSVM_ERR_NO_MEMORY, w') \<and> g_runqueues w' = None"
proof (cases "av (callocs w)")
  case True
  let ?n = "online_cpu_count hv" and ?a = "next_ref w"
  define w1 where "w1 = w\<lparr>g_cpu_count := ?n, callocs := Suc (callocs w),
    g_runqueues := Some (?a, replicate (unat ?n) zero_rq), next_ref := Suc ?a,
    links := fresh_heads ?a (unat ?n) (links w)\<rparr>"
  have pre: "g_runqueues w1 = Some (?a, replicate (unat ?n) zero_rq)" "\<forall>j<unat ?n. links w1 (RQ ?a j) \<noteq> None"
    by (simp_all add: w1_def fresh_heads_def)
  obtain rqs l where r: "scheduler_init_loop ?n 0 w1 = Some (w1\<lparr>g_runqueues := Some (?a, rqs), links := l\<rparr>)"
      "length rqs = unat ?n" "\<forall>j<unat ?n. \<not> lock (rqs ! j) \<and> current (rqs ! j) = None \<and> dll l (RQ ?a j) []"
    using scheduler_init_loop_effect [OF pre(1) _ pre(2), of 0] by auto
  have run: "scheduler_init av w = Some (NEXUSVM_OK, w1\<lparr>g_runqueues := Some (?a, rqs), links := l, g_scheduler_initialized := True\<rparr>)"
    using hv True r(1) by (simp add: scheduler_init_def Let_def w1_def)
  have "g_cpu_count w1 = ?n" by (simp add: w1_def)
  then have "sched_inv (w1\<lparr>g_runqueues := Some (?a, rqs), links := l, g_scheduler_initialized := True\<rparr>) (replicate (unat ?n) [])"
    using r(2,3) by (auto simp: sched_inv_def queues_all_empty in_set_conv_nth)
  with run True show ?thesis by simp
next
  case False
  then show ?thesis using hv by (simp add: scheduler_init_def Let_def)
qed

section \<open>A concrete scheduler\<close>

text \<open>
  Two CPUs; the entities 10, 11 and 12 of the virtual CPUs 20, 21 and 22 wait on CPU 0 and CPU 1 is
  idle. The virtual CPU 23 has no entity yet and the entity 13 of the virtual CPU 24 is not queued.
\<close>

definition demo_entity :: "u64 \<Rightarrow> sched_entity" where
  "demo_entity t = zero_entity\<lparr>policy := SCHED_CFS, priority := PRIORITY_NORMAL, weight := 1024, vruntime := t\<rparr>"

definition demo_vcpu :: "u32 \<Rightarrow> ref option \<Rightarrow> nexusvcpu" where
  "demo_vcpu i e = zero_vcpu\<lparr>vcpu_id := i, vm := Some 30, entity := e\<rparr>"

definition demo_vm :: nexusvm where
  "demo_vm = zero_vm\<lparr>vm_id := 1, vcpus := Some [Some 20, Some 21, Some 22, Some 23, Some 24], vcpu_count := 5,
     state := VM_STATE_RUNNING\<rparr>"

definition demo_hv :: hypervisor where
  "demo_hv = zero_hypervisor\<lparr>online_cpu_count := 2, vms := Some 30, vm_count := 1, next_vm_id := 2\<rparr>"

definition demo_world :: world where
  "demo_world = boot_world\<lparr>g_hypervisor := Some demo_hv,
     g_initialized := True, vm_objs := [30 \<mapsto> demo_vm],
     vcpu_objs := [20 \<mapsto> demo_vcpu 0 (Some 10), 21 \<mapsto> demo_vcpu 1 (Some 11), 22 \<mapsto> demo_vcpu 2 (Some 12),
       23 \<mapsto> demo_vcpu 3 None, 24 \<mapsto> demo_vcpu 4 (Some 13)],
     entity_objs := [10 \<mapsto> demo_entity 7, 11 \<mapsto> demo_entity 3, 12 \<mapsto> demo_entity 5, 13 \<mapsto> demo_entity 0],
     links := [RQ 0 0 \<mapsto> \<lparr>lnext = Some (SE 10), lprev = Some (SE 12)\<rparr>,
       SE 10 \<mapsto> \<lparr>lnext = Some (SE 11), lprev = Some (RQ 0 0)\<rparr>, SE 11 \<mapsto> \<lparr>lnext = Some (SE 12), lprev = Some (SE 10)\<rparr>,
       SE 12 \<mapsto> \<lparr>lnext = Some (RQ 0 0), lprev = Some (SE 11)\<rparr>, RQ 0 1 \<mapsto> \<lparr>lnext = Some (RQ 0 1), lprev = Some (RQ 0 1)\<rparr>,
       SE 13 \<mapsto> \<lparr>lnext = None, lprev = None\<rparr>],
     g_runqueues := Some (0, [zero_rq, zero_rq\<lparr>cpu_id := 1\<rparr>]), g_cpu_count := 2, g_scheduler_initialized := True,
     next_ref := 40\<rparr>"

abbreviation demo_queues :: "ref list list" where
  "demo_queues \<equiv> [[10, 11, 12], []]"

lemma demo_links: "queues (links demo_world) 0 demo_queues"
  by (simp add: queues_def disjoint_queues_def demo_world_def dll_def get_next_def get_prev_def less_Suc_eq)

lemma demo_inv: "sched_inv demo_world demo_queues"
proof -
  have "g_runqueues demo_world = Some (0, [zero_rq, zero_rq\<lparr>cpu_id := 1\<rparr>])" "g_cpu_count demo_world = 2"
    by (simp_all add: demo_world_def)
  moreover have "\<forall>i<length demo_queues. \<forall>e\<in>set (demo_queues ! i). entity_objs demo_world e \<noteq> None \<and> e < next_ref demo_world"
    by (simp add: demo_world_def less_Suc_eq)
  ultimately show ?thesis using demo_links by (simp add: sched_inv_def zero_rq_def)
qed

lemma demo_owned: "owned demo_world [30] [10, 11, 12]"
proof -
  have arr: "vcpu_array demo_vm = [Some 20, Some 21, Some 22, Some 23, Some 24]" "vcpu_count demo_vm = 5" "vm_next demo_vm = None"
    by (simp_all add: vcpu_array_def demo_vm_def zero_vm_def)
  have objs: "vm_objs demo_world = [30 \<mapsto> demo_vm]"
    by (simp add: demo_world_def)
  have ent: "entity_of demo_world 20 10" "entity_of demo_world 21 11" "entity_of demo_world 22 12"
    by (simp_all add: entity_of_def demo_world_def demo_vcpu_def)
  have mem: "20 \<in> vm_vcpus demo_vm" "21 \<in> vm_vcpus demo_vm" "22 \<in> vm_vcpus demo_vm"
    by (auto simp: vm_vcpus_def arr intro: exI [of _ "0 :: nat"] exI [of _ "1 :: nat"] exI [of _ "2 :: nat"])
  have "vcpu_objs demo_world c \<noteq> None" if "Some c \<in> set (vcpu_array demo_vm)" for c
    using that by (auto simp: arr demo_world_def)
  moreover have "unat (vcpu_count demo_vm) = length (vcpu_array demo_vm)" by (simp add: arr)
  ultimately have "vcpus_ok demo_world demo_vm" unfolding vcpus_ok_def by (metis nth_mem order_refl)
  then show ?thesis using objs arr(3) ent mem
    by (auto simp: owned_def) (simp add: demo_world_def demo_hv_def)
qed

lemma replicate_two: "replicate 2 x = [x, x]"
  by (simp add: numeral_2_eq_2)

lemma demo_world_fields [simp]:
  "g_hypervisor demo_world = Some demo_hv" "online_cpu_count demo_hv = 2"
  "g_scheduler_initialized demo_world" "g_cpu_count demo_world = 2" "next_ref demo_world = 40" "callocs demo_world = 0"
  "vcpu_objs demo_world 20 = Some (demo_vcpu 0 (Some 10))" "vcpu_objs demo_world 22 = Some (demo_vcpu 2 (Some 12))"
  "vcpu_objs demo_world 23 = Some (demo_vcpu 3 None)" "vcpu_objs demo_world 24 = Some (demo_vcpu 4 (Some 13))"
  "entity_objs demo_world 10 = Some (demo_entity 7)" "entity_objs demo_world 13 = Some (demo_entity 0)"
  "SE 13 \<in> dom (links demo_world)" "get_vm demo_world (Some 30) = Some demo_vm"
  "vr demo_world 10 = 7" "vr demo_world 11 = 3" "vr demo_world 12 = 5"
  "entity (demo_vcpu i x) = x" "vm (demo_vcpu i x) = Some 30" "vcpu_cpu demo_world (demo_vcpu i x) = Some 0"
  by (simp_all add: demo_world_def boot_world_def demo_hv_def demo_vcpu_def get_vm_def vr_def demo_entity_def vcpu_cpu_def zero_vcpu_def)

section \<open>Properties\<close>

text \<open>\<open>scheduler_init\<close> on a machine with \<open>n\<close> online CPUs returns \<open>NEXUSVM_OK\<close> and establishes the
  scheduler invariant with \<open>n\<close> empty run queues, unless \<open>calloc\<close> fails; then it returns
  \<open>NEXUSVM_ERR_NO_MEMORY\<close> and there are no run queues.
\<close>

theorem scheduler_init_establishes:
  assumes "g_hypervisor w = Some hv"
  shows "if av (callocs w)
    then \<exists>w'. scheduler_init av w = Some (NEXUSVM_OK, w') \<and> sched_inv w' (replicate (unat (online_cpu_count hv)) []) \<and>
      g_scheduler_initialized w'
    else \<exists>w'. scheduler_init av w = Some (NEXUSVM_ERR_NO_MEMORY, w') \<and> g_runqueues w' = None"
  using assms by (rule scheduler_init_effect)

theorem scheduler_init_establishes_witness:
  "\<exists>w'. scheduler_init (\<lambda>_. True) demo_world = Some (NEXUSVM_OK, w') \<and> sched_inv w' [[], []]"
  using scheduler_init_establishes [of demo_world demo_hv "\<lambda>_. True"] by (auto simp: replicate_two)

text \<open>C21. \<open>scheduler_add_vcpu\<close> on a virtual CPU without an entity creates one (normal priority, weight 1024,
  CFS policy, no virtual runtime), attaches it to the virtual CPU and appends it to the run queue of the CPU
  the code computes; all other queues and the invariant are kept. When \<open>calloc\<close> fails nothing is queued.
\<close>

theorem scheduler_add_vcpu_new:
  assumes inv: "sched_inv w qs" and v: "vcpu_objs w r = Some v" "vcpu_cpu w v = Some c" "entity v = None"
    and m: "get_vm w (vm v) = Some m"
  shows "if av (callocs w)
    then \<exists>w' se. scheduler_add_vcpu av w (Some r) = Some (NEXUSVM_OK, w') \<and>
      sched_inv w' (qs[unat c := qs ! unat c @ [next_ref w]]) \<and>
      vcpu_objs w' r = Some (v\<lparr>entity := Some (next_ref w)\<rparr>) \<and> entity_objs w' (next_ref w) = Some se \<and>
      weight se = 1024 \<and> vruntime se = 0 \<and> policy se = SCHED_CFS
    else \<exists>w'. scheduler_add_vcpu av w (Some r) = Some (NEXUSVM_ERR_NO_MEMORY, w') \<and> sched_inv w' qs"
proof (cases "av (callocs w)")
  case True
  then show ?thesis using add_new [OF inv v _ m, of av] by auto
next
  case False
  then show ?thesis using add_new_failure [OF inv v] by simp
qed

theorem scheduler_add_vcpu_new_witness:
  "\<exists>w'. scheduler_add_vcpu (\<lambda>_. True) demo_world (Some 23) = Some (NEXUSVM_OK, w') \<and> sched_inv w' [[10, 11, 12, 40], []]"
  using scheduler_add_vcpu_new [OF demo_inv, of 23 "demo_vcpu 3 None" 0 demo_vm "\<lambda>_. True"] by auto

text \<open>\<open>scheduler_remove_vcpu\<close> takes the entity of a queued virtual CPU out of whichever queue it is on and
  changes nothing but the links; adding it again afterwards puts it at the end of its queue. So stopping and
  starting a virtual CPU keeps the invariant.
\<close>

theorem scheduler_remove_add:
  assumes inv: "sched_inv w qs" and v: "vcpu_objs w r = Some v" "vcpu_cpu w v = Some c" "entity v = Some e"
    and q: "d < length qs" "qs ! d = xs @ e # ys"
  shows "\<exists>l l'. scheduler_remove_vcpu w (Some r) = Some (NEXUSVM_OK, w\<lparr>links := l\<rparr>) \<and>
    sched_inv (w\<lparr>links := l\<rparr>) (qs[d := xs @ ys]) \<and>
    scheduler_add_vcpu av (w\<lparr>links := l\<rparr>) (Some r) = Some (NEXUSVM_OK, w\<lparr>links := l'\<rparr>) \<and>
    sched_inv (w\<lparr>links := l'\<rparr>) ((qs[d := xs @ ys])[unat c := (qs[d := xs @ ys]) ! unat c @ [e]])"
proof -
  obtain l where l: "scheduler_remove_vcpu w (Some r) = Some (NEXUSVM_OK, w\<lparr>links := l\<rparr>)"
      "sched_inv (w\<lparr>links := l\<rparr>) (qs[d := xs @ ys])" "dom l = dom (links w)"
    using remove_linked [OF inv v q] by blast
  have e: "entity_objs w e \<noteq> None" "e < next_ref w" "SE e \<in> dom (links w)" "e \<notin> set (xs @ ys)"
      "\<And>j. j < length qs \<Longrightarrow> j \<noteq> d \<Longrightarrow> e \<notin> set (qs ! j)"
    using queued_facts [OF inv q] by blast+
  have "e \<notin> set (qs[d := xs @ ys] ! j)" if "j < length (qs[d := xs @ ys])" for j
    using that e(4,5) by (cases "j = d") auto
  then show ?thesis using add_existing [OF l(2), of r v c e av] v e(1-3) l by auto
qed

theorem scheduler_remove_add_witness:
  "\<exists>l l'. scheduler_remove_vcpu demo_world (Some 20) = Some (NEXUSVM_OK, demo_world\<lparr>links := l\<rparr>) \<and>
    scheduler_add_vcpu (\<lambda>_. True) (demo_world\<lparr>links := l\<rparr>) (Some 20) = Some (NEXUSVM_OK, demo_world\<lparr>links := l'\<rparr>) \<and>
    sched_inv (demo_world\<lparr>links := l'\<rparr>) [[11, 12, 10], []]"
  using scheduler_remove_add [OF demo_inv, of 20 "demo_vcpu 0 (Some 10)" 0 10 0 "[]" "[11, 12]" "\<lambda>_. True"] by auto

text \<open>\<open>scheduler_yield\<close> moves a queued entity to the end of its run queue and \<open>scheduler_wake\<close> moves it to
  the front; the other entities keep their order and the invariant holds.
\<close>

theorem scheduler_yield_wake:
  assumes "sched_inv w qs" "vcpu_objs w r = Some v" "vcpu_cpu w v = Some c" "entity v = Some e" "qs ! unat c = xs @ e # ys"
  shows "(\<exists>l. scheduler_yield w (Some r) = Some (w\<lparr>links := l\<rparr>) \<and> sched_inv (w\<lparr>links := l\<rparr>) (qs[unat c := xs @ ys @ [e]])) \<and>
    (\<exists>l. scheduler_wake w (Some r) = Some (w\<lparr>links := l\<rparr>) \<and> sched_inv (w\<lparr>links := l\<rparr>) (qs[unat c := e # xs @ ys]))"
  using requeue_effect [OF assms] by blast

theorem scheduler_yield_wake_witness:
  "\<exists>l. scheduler_wake demo_world (Some 22) = Some (demo_world\<lparr>links := l\<rparr>) \<and>
    sched_inv (demo_world\<lparr>links := l\<rparr>) [[12, 10, 11], []]"
  using scheduler_yield_wake [OF demo_inv, of 22 "demo_vcpu 2 (Some 12)" 0 12 "[10, 11]" "[]"] by auto

text \<open>The fair pick: \<open>scheduler_cfs_pick_next\<close> returns the virtual CPU of an entity of the queue with the
  least virtual runtime, or \<open>NULL\<close> when the queue is empty or every virtual runtime is the largest 64-bit value.
\<close>

theorem scheduler_cfs_pick_next_minimal:
  assumes "sched_inv w qs" "unat cpu < length qs" "owned w rs (qs ! unat cpu)"
  shows "if \<forall>e\<in>set (qs ! unat cpu). vr w e = -1 then scheduler_cfs_pick_next w cpu = Some None
    else \<exists>k. scheduler_cfs_pick_next w cpu = Some (Some k) \<and> picks w (qs ! unat cpu) (vr w) k"
  using cfs_pick [OF rq_holds_inv [OF assms(1,2)] assms(3)] .

theorem scheduler_cfs_pick_next_minimal_witness:
  "\<exists>k. scheduler_cfs_pick_next demo_world 0 = Some (Some k) \<and> entity_of demo_world k 11"
  using scheduler_cfs_pick_next_minimal [OF demo_inv, of 0 "[30]"] demo_owned by (auto simp: picks_def split: if_splits)

text \<open>C20. \<open>scheduler_schedule\<close> on CPU 0: the policy of the first entity decides. If it is FIFO or round robin
  and some entity has the FIFO policy, an entity with the earliest deadline among those is chosen, otherwise one with the
  least virtual runtime; nothing else changes. On an empty run queue the function reads an entity through
  the queue head: its behaviour is undefined.
\<close>

theorem scheduler_schedule_decides:
  assumes "sched_inv w qs" "g_scheduler_initialized w" "0 < length qs" "owned w rs (qs ! 0)"
  shows "if qs ! 0 = [] then scheduler_schedule w = None
    else \<exists>res. scheduler_schedule w = Some (res, w) \<and> decision w (qs ! 0) res"
  using assms by (rule schedule_effect)

theorem scheduler_schedule_decides_witness:
  "\<exists>k. scheduler_schedule demo_world = Some (Some k, demo_world) \<and> entity_of demo_world k 11"
proof -
  have "\<not> fifo_first demo_world [10, 11, 12]" by (simp add: fifo_first_def demo_entity_def)
  then show ?thesis using scheduler_schedule_decides [OF demo_inv, of "[30]"] demo_owned
    by (auto simp: decision_def picks_def split: if_splits)
qed

text \<open>C10. \<open>scheduler_load_balance\<close> with at least two CPUs: when the queue of \<open>cpu\<close> is longer by more than two
  than the shortest of the others, its first entity moves to the end of a shortest queue and the invariant
  is kept; otherwise nothing changes. The lengths stay below the 32-bit counters.
\<close>

theorem scheduler_load_balance_refines:
  assumes "sched_inv w qs" "cpu < g_cpu_count w" "2 \<le> length qs" "\<forall>q\<in>set qs. length q < 2 ^ 32 - 3"
  shows "if min_other_load qs (unat cpu) + 2 < length (qs ! unat cpu)
    then \<exists>l e q t. scheduler_load_balance w cpu = Some (w\<lparr>links := l\<rparr>) \<and> qs ! unat cpu = e # q \<and>
      t < length qs \<and> t \<noteq> unat cpu \<and> length (qs ! t) = min_other_load qs (unat cpu) \<and>
      sched_inv (w\<lparr>links := l\<rparr>) (qs[unat cpu := q, t := qs ! t @ [e]])
    else scheduler_load_balance w cpu = Some w"
  using load_balance_effect [OF assms] by (auto split: if_splits)

lemma demo_min_other: "min_other_load demo_queues 0 = 0"
proof -
  have "{..<length demo_queues} - {0} = {1}" by auto
  then show ?thesis by (simp add: min_other_load_def)
qed

theorem scheduler_load_balance_refines_witness:
  "\<exists>l. scheduler_load_balance demo_world 0 = Some (demo_world\<lparr>links := l\<rparr>) \<and>
    sched_inv (demo_world\<lparr>links := l\<rparr>) [[11, 12], [10]]"
  using scheduler_load_balance_refines [OF demo_inv, of 0] by (auto simp: demo_min_other less_Suc_eq)

text \<open>With a single CPU the least-load search finds no other queue, \<open>min_load + 2\<close> wraps to 1, and the
  "migration" takes the first entity of a queue of two or more and puts it back at the end of the same queue.
\<close>

theorem scheduler_load_balance_single_cpu:
  assumes inv: "sched_inv w [e # q]" and len: "length q \<noteq> 0" "length q < 2 ^ 32 - 3"
  shows "\<exists>l. scheduler_load_balance w 0 = Some (w\<lparr>links := l\<rparr>) \<and> sched_inv (w\<lparr>links := l\<rparr>) [q @ [e]]"
proof -
  have n: "unat (g_cpu_count w) = 1" using inv by (simp add: sched_inv_def)
  then have cnt: "g_cpu_count w = 1" by (simp add: word_unat_eq_iff)
  have ll: "least_loaded w 0 0 (-1) 0 = Some (-1, 0)"
    by (subst least_loaded.simps, subst least_loaded.simps) (simp add: cnt)
  define k where "k = length (e # q)"
  have c: "count_queue w 0 = Some (of_nat k)" using count_queue_length [OF inv, of 0] by (simp add: k_def)
  have "k < 2 ^ 32" using len(2) by (simp add: k_def)
  then have "unat (of_nat k :: u32) = k" by (simp add: unat_of_nat)
  moreover have "1 < k" using len(1) by (simp add: k_def)
  ultimately have "(-1 :: u32) + 2 < of_nat k" by (simp add: word_less_nat_alt)
  then have "scheduler_load_balance w 0 = migrate_first w 0 0"
    using load_balance_migrate [OF _ ll c] cnt by simp
  then show ?thesis using migrate_first_effect [OF inv, of 0 0 e q] by auto
qed

lemma solo_inv: "sched_inv (demo_world\<lparr>g_cpu_count := 1, g_runqueues := Some (0, [zero_rq])\<rparr>) [[10, 11, 12]]"
proof -
  have "queues (links demo_world) 0 [[10, 11, 12]]"
    using queues_dll [OF demo_links, of 0] by (simp add: queues_def disjoint_queues_def)
  moreover have "\<forall>e\<in>{10, 11, 12}. entity_objs demo_world e \<noteq> None \<and> e < next_ref demo_world"
    by (simp add: demo_world_def)
  ultimately show ?thesis by (simp add: sched_inv_def zero_rq_def)
qed

theorem scheduler_load_balance_single_cpu_witness:
  "\<exists>w. scheduler_load_balance (demo_world\<lparr>g_cpu_count := 1, g_runqueues := Some (0, [zero_rq])\<rparr>) 0 = Some w \<and>
    sched_inv w [[11, 12, 10]]"
  using scheduler_load_balance_single_cpu [OF solo_inv] by auto

end
