(* ===== verification/Hypervisor_Correct.thy ===== *)
theory Hypervisor_Correct
  imports Hypervisor Svm_Correct Scheduler_Correct
begin

text \<open>
  Properties of the top level: what initialisation accepts and establishes, the life cycle of virtual CPUs without
  leaks, the state machine of virtual machines, and the list of machines.
\<close>

section \<open>Initialisation\<close>

text \<open>The registers of leaf 0 on the processors of the two vendors.\<close>

definition genuine_intel :: "cpu_env \<Rightarrow> bool" where
  "genuine_intel env \<longleftrightarrow> snd (cpuid env 0 0) = (0x756E6547, 0x6C65746E, 0x49656E69)"

definition genuine_amd :: "cpu_env \<Rightarrow> bool" where
  "genuine_amd env \<longleftrightarrow> snd (cpuid env 0 0) = (0x68747541, 0x444D4163, 0x69746E65)"

lemma vendor_intel: "vendor_string 0x756E6547 0x6C65746E 0x49656E69 = ascii ''GenuntelineI''"
  by code_simp

lemma vendor_amd: "vendor_string 0x68747541 0x444D4163 0x69746E65 = ascii ''AuthcAMDenti''"
  by code_simp

lemma vendor_names:
  "ascii ''GenuntelineI'' \<noteq> ascii ''GenuineIntel''" "ascii ''GenuntelineI'' \<noteq> ascii ''AuthenticAMD''"
  "ascii ''AuthcAMDenti'' \<noteq> ascii ''GenuineIntel''" "ascii ''AuthcAMDenti'' \<noteq> ascii ''AuthenticAMD''"
  by code_simp+

lemma genuine_is_unknown:
  assumes "genuine_intel env \<or> genuine_amd env"
  shows "detect_vendor env hv b = (hv\<lparr>cpu_vendor_of := CPU_VENDOR_UNKNOWN\<rparr>, b)"
proof -
  obtain a x where c: "cpuid env 0 0 = (a, x)" by (cases "cpuid env 0 0")
  from assms show ?thesis
  proof
    assume "genuine_intel env"
    then show ?thesis by (simp add: genuine_intel_def c detect_vendor_def Let_def vendor_intel vendor_names)
  next
    assume "genuine_amd env"
    then show ?thesis by (simp add: genuine_amd_def c detect_vendor_def Let_def vendor_amd vendor_names)
  qed
qed

text \<open>What the detection of features leaves of the other members.\<close>

lemma detect_features_vendor:
  "fst (detect_cpu_features env hv b) = hv' \<Longrightarrow> has_vmx hv' = has_vmx (fst (detect_vendor env hv b)) \<and>
    has_svm hv' = has_svm (fst (detect_vendor env hv b)) \<and> online_cpu_count hv' = online_cpu_count (fst (detect_vendor env hv b)) \<and>
    cpu_vendor_of hv' = cpu_vendor_of (fst (detect_vendor env hv b))"
  by (auto simp: detect_cpu_features_def Let_def split: prod.splits)

lemma detect_vendor_online: "online_cpu_count (fst (detect_vendor env hv b)) = online_cpu_count hv"
  by (auto simp: detect_vendor_def detect_vmx_features_def detect_svm_features_def Let_def split: prod.splits)

text \<open>C40. On a processor that reports itself as \<open>GenuineIntel\<close> or as \<open>AuthenticAMD\<close>, with the parts of its name in EBX, EDX and ECX, \<open>hypervisor_init\<close>
  reports an unsupported processor whatever features it has, and leaves no hypervisor: the code puts the
  parts together in the order EBX, ECX, EDX and recognises neither name.\<close>

theorem hypervisor_init_rejects_genuine:
  assumes "genuine_intel (cpu (hw pf)) \<or> genuine_amd (cpu (hw pf))" "\<not> g_initialized w" "objs_av pf (callocs w)"
  shows "\<exists>w'. hypervisor_init pf w = Some (NEXUSVM_ERR_CPU_NOT_SUPPORTED, w') \<and> g_hypervisor w' = None \<and> \<not> g_initialized w'"
proof -
  obtain hv b where d: "detect_cpu_features (cpu (hw pf)) zero_hypervisor (be w) = (hv, b)" by fastforce
  have "has_vmx hv = False" "has_svm hv = False"
    using detect_features_vendor [of "cpu (hw pf)" zero_hypervisor "be w" hv] d
    by (simp_all add: genuine_is_unknown [OF assms(1)] zero_hypervisor_def)
  then show ?thesis using assms(2,3) d by (simp add: hypervisor_init_def Let_def drop_hypervisor_def)
qed

definition demo_platform :: platform where
  "demo_platform = \<lparr>hw = svm_demo_env\<lparr>cpu := demo_env\<lparr>cpuid := (\<lambda>leaf sub. if leaf = 0 then (7, 0x756E6547, 0x6C65746E, 0x49656E69) else (0, 0, 0x20, 0))\<rparr>\<rparr>,
     objs_av = (\<lambda>_. True), io_av = (\<lambda>_. True), buf_al = (\<lambda>h n. if h 0x2000 = None then 0x2000 else 0), ept_al = (\<lambda>h n. 0),
     hypercall_init = NEXUSVM_OK\<rparr>"

lemma hypervisor_init_rejects_genuine_witness:
  "\<exists>w'. hypervisor_init demo_platform boot_world = Some (NEXUSVM_ERR_CPU_NOT_SUPPORTED, w') \<and> g_hypervisor w' = None \<and> \<not> g_initialized w'"
  by (rule hypervisor_init_rejects_genuine)
     (simp_all add: genuine_intel_def demo_platform_def svm_demo_env_def demo_env_def boot_world_def)

lemma io_register_flag: "g_io_initialized (snd (io_register_handler av s p c f)) = g_io_initialized s"
  by (simp add: io_register_handler_def Let_def)

lemma io_emul_init_flag: "g_io_initialized (snd (io_emul_init av s))"
  by (simp add: io_emul_init_def Let_def case_prod_unfold io_register_flag)

text \<open>What a successful first \<open>hypervisor_init\<close> leaves.\<close>

lemma hypervisor_init_effect:
  assumes "hypervisor_init pf w = Some (NEXUSVM_OK, w')" "\<not> g_initialized w"
  shows "\<exists>hv. g_hypervisor w' = Some hv \<and> vms hv = None \<and> vm_count hv = 0 \<and> next_vm_id hv = 1 \<and> online_cpu_count hv = 0 \<and>
    g_initialized w' \<and> g_scheduler_initialized w' \<and> g_ept_initialized (ept w') \<and> io w' = snd (io_emul_init (io_av pf) (io w))"
proof -
  obtain hv b where d: "detect_cpu_features (cpu (hw pf)) zero_hypervisor (be w) = (hv, b)" by fastforce
  have on: "online_cpu_count hv = 0"
    using detect_features_vendor [of "cpu (hw pf)" zero_hypervisor "be w" hv] d
    by (simp add: detect_vendor_online zero_hypervisor_def)
  define w0 where "w0 = w\<lparr>callocs := Suc (callocs w), g_hypervisor := Some hv, be := b\<rparr>"
  from assms d obtain w1 where s: "scheduler_init (objs_av pf) w0 = Some (NEXUSVM_OK, w1)" and
    w': "w' = w1\<lparr>ept := snd (ept_init (map_option has_ept (g_hypervisor w1)) (ept w1)), io := snd (io_emul_init (io_av pf) (io w1)),
      g_hypervisor := map_option (\<lambda>hv. hv\<lparr>vms := None, vm_count := 0, next_vm_id := 1\<rparr>) (g_hypervisor w1), g_initialized := True\<rparr>"
    by (auto simp: hypervisor_init_def Let_def bind_eq_Some_conv w0_def [symmetric] split: if_splits prod.splits)
  have "g_hypervisor w1 = Some hv" "g_scheduler_initialized w1" "io w1 = io w"
    using s on by (auto simp: scheduler_init_def w0_def scheduler_init_loop.simps Let_def split: if_splits)
  then show ?thesis using w' on by (simp add: ept_init_def)
qed

text \<open>A successful first \<open>hypervisor_init\<close> establishes a hypervisor with an empty list of machines, identifiers starting at 1 and
  initialised subsystems; but it leaves the number of online CPUs at zero, so that the creation of any
  virtual CPU afterwards divides by zero.\<close>

theorem hypervisor_init_establishes:
  assumes "hypervisor_init pf w = Some (NEXUSVM_OK, w')" "\<not> g_initialized w" "objs_av pf (callocs w')"
  shows "\<exists>hv. g_hypervisor w' = Some hv \<and> vms hv = None \<and> vm_count hv = 0 \<and> next_vm_id hv = 1 \<and> hypervisor_is_running w' \<and>
    g_scheduler_initialized w' \<and> g_ept_initialized (ept w') \<and> g_io_initialized (io w') \<and>
    online_cpu_count hv = 0 \<and> vcpu_create pf w' (Some m) n = None"
proof -
  from hypervisor_init_effect [OF assms(1,2)] obtain hv where hv: "g_hypervisor w' = Some hv" "vms hv = None" "vm_count hv = 0"
    "next_vm_id hv = 1" "online_cpu_count hv = 0" "g_initialized w'" "g_scheduler_initialized w'" "g_ept_initialized (ept w')"
    "io w' = snd (io_emul_init (io_av pf) (io w))" by blast
  then show ?thesis using assms(3) by (simp add: hypervisor_is_running_def io_emul_init_flag vcpu_create_def Let_def)
qed

text \<open>A processor whose name comes out right in the order EBX, ECX, EDX.\<close>

definition swapped_platform :: platform where
  "swapped_platform = demo_platform\<lparr>hw := svm_demo_env\<lparr>cpu := demo_env\<lparr>cpuid :=
     (\<lambda>leaf sub. if leaf = 0 then (7, 0x756E6547, 0x49656E69, 0x6C65746E) else (0, 0, 0x20, 0))\<rparr>\<rparr>\<rparr>"

lemma vendor_swapped: "vendor_string 0x756E6547 0x49656E69 0x6C65746E = ascii ''GenuineIntel''"
  by code_simp

lemma swapped_init: "\<exists>w'. hypervisor_init swapped_platform boot_world = Some (NEXUSVM_OK, w')"
proof -
  let ?env = "cpu (hw swapped_platform)"
  have 0: "cpuid ?env 0 0 = (7, 0x756E6547, 0x49656E69, 0x6C65746E)" "cpuid ?env 1 0 = (0, 0, 0x20, 0)"
    by (simp_all add: swapped_platform_def)
  obtain hv b where d: "detect_cpu_features ?env zero_hypervisor (be boot_world) = (hv, b)" by fastforce
  have "bit (0x20 :: u32) 5" by code_simp
  then have "has_vmx hv" "online_cpu_count hv = 0"
    using detect_features_vendor [of ?env zero_hypervisor "be boot_world" hv] d
    by (simp_all add: detect_vendor_online, simp_all add: detect_vendor_def 0 vendor_swapped detect_vmx_features_def Let_def zero_hypervisor_def)
  moreover have "objs_av swapped_platform = (\<lambda>_. True)" "hypercall_init swapped_platform = NEXUSVM_OK"
    by (simp_all add: swapped_platform_def demo_platform_def)
  moreover have "fst (io_emul_init av i) = NEXUSVM_OK" for av i by (simp add: io_emul_init_def Let_def case_prod_unfold)
  ultimately show ?thesis using d
    by (simp add: hypervisor_init_def Let_def boot_world_def scheduler_init_def scheduler_init_loop.simps ept_init_def
      case_prod_unfold)
qed

lemma hypervisor_init_establishes_witness:
  "\<exists>w'. hypervisor_init swapped_platform boot_world = Some (NEXUSVM_OK, w') \<and> hypervisor_is_running w' \<and>
    vcpu_create swapped_platform w' (Some 30) 0 = None"
proof -
  obtain w' where w': "hypervisor_init swapped_platform boot_world = Some (NEXUSVM_OK, w')" using swapped_init ..
  have "\<not> g_initialized boot_world" "objs_av swapped_platform (callocs w')"
    by (simp_all add: boot_world_def swapped_platform_def demo_platform_def)
  from hypervisor_init_establishes [OF w' this, of 30 0] w' show ?thesis by blast
qed

section \<open>Life of a virtual CPU\<close>

text \<open>
  The buffers a virtual CPU owns: creating one adds them, destroying one removes them.
\<close>

lemma buf_new_cases:
  assumes "buf_fresh al" "buf_new al h n = (p, h')"
  shows "p = 0 \<and> h' = h \<or> p \<noteq> 0 \<and> h p = None \<and> h' = h(p \<mapsto> replicate (unat n) 0)"
  using assms by (auto simp: buf_new_def buf_fresh_def Let_def split: if_splits)

text \<open>The three bitmaps of a virtual CPU, allocated one after the other.\<close>

definition bitmaps :: "buffers \<Rightarrow> nexusvcpu \<Rightarrow> u8 list \<Rightarrow> u8 list \<Rightarrow> u8 list \<Rightarrow> buffers" where
  "bitmaps h v x y z = h(msr_bitmap v \<mapsto> x, io_bitmap_a v \<mapsto> y, io_bitmap_b v \<mapsto> z)"

definition own_bitmaps :: "buffers \<Rightarrow> nexusvcpu \<Rightarrow> bool" where
  "own_bitmaps h v \<longleftrightarrow> distinct [0, msr_bitmap v, io_bitmap_a v, io_bitmap_b v] \<and>
     h (msr_bitmap v) = None \<and> h (io_bitmap_a v) = None \<and> h (io_bitmap_b v) = None"

lemma free_vcpu_put:
  assumes "own_bitmaps h v" "same_core v v'" "vcpu_objs w r = None"
  shows "free_vcpu (put_vcpu w r (bitmaps h v x y z) v') r = Some (w\<lparr>bufs := h\<rparr>)"
  using assms by (simp add: free_vcpu_def buf_free_def own_bitmaps_def same_core_def bitmaps_def put_vcpu_def
    fun_upd_twist fun_upd_idem)

context vcpu_backend
begin

text \<open>Initialising a virtual CPU with its bitmaps and releasing it, on success and on failure.\<close>

lemma init_then_free:
  assumes al: "buf_fresh al" and own: "own_bitmaps h v" and v: "no_regions v" and w: "vcpu_objs w r = None"
    and w1: "w1 = put_vcpu w r (bitmaps h v x y z) v"
  shows "\<exists>res w2. init al w1 (Some r) = Some (res, w2) \<and> g_hypervisor w2 = g_hypervisor w \<and>
    (\<exists>v2. vcpu_objs w2 = (vcpu_objs w)(r \<mapsto> v2) \<and> same_core v v2) \<and>
    (res = NEXUSVM_ERR_NO_MEMORY \<and> free_vcpu w2 r = Some (w\<lparr>bufs := h\<rparr>) \<or>
     res = NEXUSVM_OK \<and> do { w3 \<leftarrow> cleanup w2 (Some r); free_vcpu w3 r } = Some (w\<lparr>bufs := h\<rparr>))"
proof -
  have "vcpu_objs w1 r = Some v" by (simp add: w1)
  from init_cleanup [OF al this v] obtain res g v1 where i: "init al w1 (Some r) = Some (res, put_vcpu w1 r g v1)" "same_core v v1"
    "res = NEXUSVM_ERR_NO_MEMORY \<and> g = bufs w1 \<or>
     res = NEXUSVM_OK \<and> (\<exists>v2. cleanup (put_vcpu w1 r g v1) (Some r) = Some (put_vcpu w1 r (bufs w1) v2) \<and> same_core v v2)" by blast
  have put: "put_vcpu w1 r g v1 = put_vcpu w r g v1" "bufs w1 = bitmaps h v x y z" "put_vcpu w1 r g' v2 = put_vcpu w r g' v2" for g' v2
    by (simp_all add: w1)
  show ?thesis
    using i free_vcpu_put [OF own _ w, of _ x y z]
    by (intro exI [of _ res] exI [of _ "put_vcpu w r g v1"]) (auto simp: put)
qed

end

text \<open>The backend of a vendor.\<close>

definition backend_cleanup :: "cpu_vendor \<Rightarrow> world \<Rightarrow> ref option \<Rightarrow> world run" where
  "backend_cleanup vendor w c = (case vendor of CPU_VENDOR_INTEL \<Rightarrow> vmx_vcpu_cleanup w c
     | CPU_VENDOR_AMD \<Rightarrow> svm_vcpu_cleanup w c | CPU_VENDOR_UNKNOWN \<Rightarrow> Some w)"

lemma init_backend_then_free:
  assumes "buf_fresh (buf_al pf)" "own_bitmaps h v" "no_regions v" "vcpu_objs w r = None" "w1 = put_vcpu w r (bitmaps h v x y z) v"
  shows "\<exists>res w2. init_backend pf hv w1 r = Some (res, w2) \<and> g_hypervisor w2 = g_hypervisor w \<and>
    (\<exists>v2. vcpu_objs w2 = (vcpu_objs w)(r \<mapsto> v2) \<and> same_core v v2) \<and>
    (res = NEXUSVM_ERR_NO_MEMORY \<and> free_vcpu w2 r = Some (w\<lparr>bufs := h\<rparr>) \<or>
     res = NEXUSVM_OK \<and> do { w3 \<leftarrow> backend_cleanup (cpu_vendor_of hv) w2 (Some r); free_vcpu w3 r } = Some (w\<lparr>bufs := h\<rparr>))"
  using vmx_backend.init_then_free [OF assms] svm_backend.init_then_free [OF assms] no_backend.init_then_free [OF assms]
  by (cases "cpu_vendor_of hv") (simp_all add: init_backend_def backend_cleanup_def)

lemma vcpu_destroy_stopped:
  "vcpu_objs w r = Some v \<Longrightarrow> \<not> running v \<Longrightarrow> g_hypervisor w = Some hv \<Longrightarrow>
    vcpu_destroy w (Some r) = do { w \<leftarrow> do { w \<leftarrow> backend_cleanup (cpu_vendor_of hv) w (Some r); free_vcpu w r }; Some (NEXUSVM_OK, w) }"
  by (simp add: vcpu_destroy_def backend_cleanup_def)

text \<open>The release when the second or the third bitmap could not be allocated.\<close>

lemma free_vcpu_partial:
  assumes "vcpu_objs w r = None" "msr_bitmap v \<noteq> 0" "h (msr_bitmap v) = None"
    and "io_bitmap_a v \<noteq> 0 \<Longrightarrow> (h(msr_bitmap v \<mapsto> x)) (io_bitmap_a v) = None"
    and "io_bitmap_b v \<noteq> 0 \<Longrightarrow> (h(msr_bitmap v \<mapsto> x)) (io_bitmap_b v) = None"
    and "io_bitmap_a v = 0 \<or> io_bitmap_b v = 0"
    and "g = (if io_bitmap_a v \<noteq> 0 then h(msr_bitmap v \<mapsto> x, io_bitmap_a v \<mapsto> y) else
      if io_bitmap_b v \<noteq> 0 then h(msr_bitmap v \<mapsto> x, io_bitmap_b v \<mapsto> y) else h(msr_bitmap v \<mapsto> x))"
  shows "free_vcpu (put_vcpu w r g v) r = Some (w\<lparr>bufs := h\<rparr>)"
proof (cases "io_bitmap_a v = 0"; cases "io_bitmap_b v = 0")
  assume z: "io_bitmap_a v = 0" "io_bitmap_b v = 0"
  with assms show ?thesis by (simp add: free_vcpu_def buf_free_def put_vcpu_def fun_upd_idem)
next
  assume z: "io_bitmap_a v = 0" "io_bitmap_b v \<noteq> 0"
  then have "io_bitmap_b v \<noteq> msr_bitmap v" "h (io_bitmap_b v) = None" using assms(5) by (auto split: if_splits)
  with z assms(1-3,7) show ?thesis by (simp add: free_vcpu_def buf_free_def put_vcpu_def fun_upd_twist fun_upd_idem)
next
  assume z: "io_bitmap_a v \<noteq> 0" "io_bitmap_b v = 0"
  then have "io_bitmap_a v \<noteq> msr_bitmap v" "h (io_bitmap_a v) = None" using assms(4) by (auto split: if_splits)
  with z assms(1-3,7) show ?thesis by (simp add: free_vcpu_def buf_free_def put_vcpu_def fun_upd_twist fun_upd_idem)
qed (use assms(6) in simp)

text \<open>C5. With an allocator that returns fresh addresses and a count of online CPUs other than 0 (\<open>hypervisor_init\<close> leaves it at 0, and then
  \<open>vcpu_create\<close> divides by it), \<open>vcpu_create\<close> returns. When it succeeds
  the new virtual CPU belongs to the machine, is stopped, and is assigned to an online CPU; destroying it
  then gives back everything: the buffers and the virtual CPUs are those from before. When it fails it is for lack of
  memory, and nothing that it allocated on the way, in whichever backend, is left behind.\<close>

theorem vcpu_create_destroy_no_leak:
  assumes al: "buf_fresh (buf_al pf)" and hv: "g_hypervisor w = Some hv" "online_cpu_count hv \<noteq> 0" and fresh: "vcpu_objs w (next_ref w) = None"
  shows "\<exists>res out w1. vcpu_create pf w (Some m) n = Some (res, out, w1) \<and>
    (res = NEXUSVM_ERR_NO_MEMORY \<and> out = None \<and> bufs w1 = bufs w \<and> vcpu_objs w1 = vcpu_objs w \<or>
     res = NEXUSVM_OK \<and> (\<exists>r v w2. out = Some r \<and> vcpu_objs w1 = (vcpu_objs w)(r \<mapsto> v) \<and> vm v = Some m \<and> vcpu_id v = n \<and>
       \<not> running v \<and> physical_cpu v < online_cpu_count hv \<and>
       vcpu_destroy w1 out = Some (NEXUSVM_OK, w2) \<and> bufs w2 = bufs w \<and> vcpu_objs w2 = vcpu_objs w))"
proof -
  define r where "r = next_ref w"
  define wc where "wc = w\<lparr>callocs := Suc (callocs w)\<rparr>"
  obtain pm h1 where b1: "buf_new (buf_al pf) (bufs w) 8192 = (pm, h1)" by fastforce
  obtain pa h2 where b2: "buf_new (buf_al pf) h1 4096 = (pa, h2)" by fastforce
  obtain pb h3 where b3: "buf_new (buf_al pf) h2 4096 = (pb, h3)" by fastforce
  note c1 = buf_new_cases [OF al b1] and c2 = buf_new_cases [OF al b2] and c3 = buf_new_cases [OF al b3]
  define v where "v = zero_vcpu\<lparr>vcpu_id := n, vm := Some m, physical_cpu := n mod online_cpu_count hv,
    msr_bitmap := pm, io_bitmap_a := pa, io_bitmap_b := pb\<rparr>"
  define w0 where "w0 = w\<lparr>callocs := Suc (callocs w), next_ref := Suc r\<rparr>"
  have w0: "vcpu_objs w0 r = None" "g_hypervisor w0 = Some hv" "vcpu_objs w0 = vcpu_objs w" using fresh hv by (simp_all add: w0_def r_def)
  have v: "no_regions v" "\<not> running v" by (simp_all add: v_def no_regions_def zero_vcpu_def)
  have create: "vcpu_create pf w (Some m) n = (if \<not> objs_av pf (callocs w) then Some (NEXUSVM_ERR_NO_MEMORY, None, wc)
      else if pm = 0 then Some (NEXUSVM_ERR_NO_MEMORY, None, w0)
      else if pa = 0 \<or> pb = 0 then do { w \<leftarrow> free_vcpu (put_vcpu w0 r h3 v) r; Some (NEXUSVM_ERR_NO_MEMORY, None, w) }
      else do { (result, w) \<leftarrow> init_backend pf hv (put_vcpu w0 r h3 v) r;
        if result \<noteq> NEXUSVM_OK then do { w \<leftarrow> free_vcpu w r; Some (result, None, w) } else Some (NEXUSVM_OK, Some r, w) })"
    unfolding r_def using hv b1 b2 b3 by (simp add: vcpu_create_def Let_def wc_def w0_def v_def r_def put_vcpu_def)
  consider "\<not> objs_av pf (callocs w) \<or> pm = 0" | "objs_av pf (callocs w)" "pm \<noteq> 0" "pa = 0 \<or> pb = 0"
    | "objs_av pf (callocs w)" "pm \<noteq> 0" "pa \<noteq> 0" "pb \<noteq> 0" by blast
  then show ?thesis
  proof cases
    case 1
    then show ?thesis by (auto simp: create wc_def w0_def)
  next
    case 2
    have "free_vcpu (put_vcpu w0 r h3 v) r = Some (w0\<lparr>bufs := bufs w\<rparr>)"
      by (rule free_vcpu_partial [where x = "replicate 8192 0" and y = "replicate 4096 0"])
         (use 2 c1 c2 c3 w0 in \<open>auto simp: v_def\<close>)
    with 2 show ?thesis by (auto simp: create w0_def)
  next
    case 3
    have own: "own_bitmaps (bufs w) v" "h3 = bitmaps (bufs w) v (replicate 8192 0) (replicate 4096 0) (replicate 4096 0)"
      using 3 c1 c2 c3 by (auto simp: own_bitmaps_def bitmaps_def v_def split: if_splits)
    have eq: "put_vcpu w0 r h3 v = put_vcpu w0 r (bitmaps (bufs w) v (replicate 8192 0) (replicate 4096 0) (replicate 4096 0)) v"
      by (simp only: own(2))
    from init_backend_then_free [OF al own(1) v(1) w0(1) eq, of hv, unfolded w0(2,3)] obtain res w2 v2 where
      i: "init_backend pf hv (put_vcpu w0 r h3 v) r = Some (res, w2)" "g_hypervisor w2 = Some hv"
        "vcpu_objs w2 = (vcpu_objs w)(r \<mapsto> v2)" "same_core v v2" and
      f: "res = NEXUSVM_ERR_NO_MEMORY \<and> free_vcpu w2 r = Some (w0\<lparr>bufs := bufs w\<rparr>) \<or>
        res = NEXUSVM_OK \<and> do { w3 \<leftarrow> backend_cleanup (cpu_vendor_of hv) w2 (Some r); free_vcpu w3 r } = Some (w0\<lparr>bufs := bufs w\<rparr>)"
      by blast
    have core: "vm v2 = Some m" "vcpu_id v2 = n" "\<not> running v2" "physical_cpu v2 < online_cpu_count hv"
      using i(4) v(2) hv(2) by (auto simp: same_core_def v_def word_less_nat_alt unat_mod unat_gt_0)
    from f show ?thesis
    proof
      assume "res = NEXUSVM_ERR_NO_MEMORY \<and> free_vcpu w2 r = Some (w0\<lparr>bufs := bufs w\<rparr>)"
      then show ?thesis using 3 i w0 by (simp add: create)
    next
      assume ok: "res = NEXUSVM_OK \<and> do { w3 \<leftarrow> backend_cleanup (cpu_vendor_of hv) w2 (Some r); free_vcpu w3 r } = Some (w0\<lparr>bufs := bufs w\<rparr>)"
      have "vcpu_destroy w2 (Some r) = Some (NEXUSVM_OK, w0\<lparr>bufs := bufs w\<rparr>)"
        using vcpu_destroy_stopped [of w2 r v2 hv] i core ok by simp
      then show ?thesis using 3 i w0 ok core by (intro exI [of _ NEXUSVM_OK] exI [of _ "Some r"] exI [of _ w2]) (auto simp: create)
    qed
  qed
qed

lemma vcpu_create_destroy_no_leak_witness:
  "\<exists>res out w1. vcpu_create demo_platform (boot_world\<lparr>g_hypervisor := Some (zero_hypervisor\<lparr>online_cpu_count := 4\<rparr>)\<rparr>) (Some 30) 5 =
    Some (res, out, w1) \<and> res = NEXUSVM_ERR_NO_MEMORY \<and> bufs w1 = Map.empty"
proof -
  let ?w = "boot_world\<lparr>g_hypervisor := Some (zero_hypervisor\<lparr>online_cpu_count := 4\<rparr>)\<rparr>"
  have "buf_fresh (buf_al demo_platform)" "g_hypervisor ?w = Some (zero_hypervisor\<lparr>online_cpu_count := 4\<rparr>)"
    "vcpu_objs ?w (next_ref ?w) = None" by (simp_all add: demo_platform_def buf_fresh_def boot_world_def)
  from vcpu_create_destroy_no_leak [OF this(1,2) _ this(3), of 30 5] obtain res out w1 where
    c: "vcpu_create demo_platform ?w (Some 30) 5 = Some (res, out, w1)" and
    r: "res = NEXUSVM_ERR_NO_MEMORY \<and> out = None \<and> bufs w1 = bufs ?w \<or> res = NEXUSVM_OK" by auto
  have "res \<noteq> NEXUSVM_OK" using c
    by (auto simp: vcpu_create_def Let_def demo_platform_def boot_world_def buf_new_def free_vcpu_def buf_free_def split: if_splits)
  with c r show ?thesis by (auto simp: boot_world_def)
qed

section \<open>Pausing and resuming\<close>

text \<open>A machine whose array holds the virtual CPUs \<open>xs\<close>, each of them live.\<close>

definition vm_with :: "world \<Rightarrow> ref \<Rightarrow> nexusvm \<Rightarrow> ref list \<Rightarrow> bool" where
  "vm_with w r m xs \<longleftrightarrow> vm_objs w r = Some m \<and> vcpus m = Some (map Some xs) \<and> length xs = unat (vcpu_count m) \<and>
     distinct xs \<and> list_all (\<lambda>c. vcpu_objs w c \<noteq> None) xs"

definition upd_vcpus :: "world \<Rightarrow> ref set \<Rightarrow> (nexusvcpu \<Rightarrow> nexusvcpu) \<Rightarrow> world" where
  "upd_vcpus w A f = w\<lparr>vcpu_objs := (\<lambda>c. if c \<in> A then map_option f (vcpu_objs w c) else vcpu_objs w c)\<rparr>"

lemma vm_objs_upd_vcpu [simp]: "vm_objs (upd_vcpu w r f) = vm_objs w"
  by (simp add: upd_vcpu_def)

lemma each_update:
  "vm_objs w r = Some m \<Longrightarrow> vcpus m = Some (map Some xs) \<Longrightarrow> distinct xs \<Longrightarrow> list_all (\<lambda>c. vcpu_objs w c \<noteq> None) xs \<Longrightarrow>
    distinct js \<Longrightarrow> list_all (\<lambda>i. i < length xs) js \<Longrightarrow>
    each_vcpu (update_one f) w r js = Some (upd_vcpus w ((!) xs ` set js) f)"
proof (induction js arbitrary: w)
  case Nil
  then show ?case by (simp add: upd_vcpus_def)
next
  case (Cons i js)
  let ?c = "xs ! i" and ?w = "upd_vcpu w (xs ! i) f"
  have i: "i < length xs" "i \<notin> set js" using Cons.prems by simp_all
  then have c: "vcpu_objs w ?c \<noteq> None" using Cons.prems(4) by (simp add: list_all_length)
  have "list_all (\<lambda>c. vcpu_objs ?w c \<noteq> None) xs" using Cons.prems(4) by (auto simp: upd_vcpu_def list_all_iff)
  then have "each_vcpu (update_one f) ?w r js = Some (upd_vcpus ?w ((!) xs ` set js) f)"
    using Cons by simp
  moreover have "?c \<notin> (!) xs ` set js"
    using i Cons.prems(3,6) by (auto simp: list_all_iff nth_eq_iff_index_eq)
  then have "upd_vcpus ?w ((!) xs ` set js) f = upd_vcpus w ((!) xs ` set (i # js)) f"
    by (auto simp: upd_vcpus_def upd_vcpu_def fun_eq_iff)
  moreover have "update_one f w (Some ?c) = Some ?w" using c by (auto simp: update_one_def)
  ultimately show ?case using Cons.prems(1,2) i by (simp add: vcpu_at_def)
qed

lemma each_update_all:
  assumes "vm_with w r m xs"
  shows "each_vcpu (update_one f) w r (vcpu_numbers m) = Some (upd_vcpus w (set xs) f)"
proof -
  have "(!) xs ` set [0..<length xs] = set xs" using nth_image [of "length xs" xs] by simp
  moreover have "list_all (\<lambda>i. i < length xs) [0..<length xs]" by (simp add: list_all_iff)
  ultimately show ?thesis using each_update [of w r m xs "[0..<length xs]" f] assms
    by (simp add: vm_with_def vcpu_numbers_def)
qed

text \<open>C13. Pausing a running machine whose virtual CPUs are all running and set up stops every one of them and changes nothing else but
  the state of the machine; resuming it gives back exactly the world from before.\<close>

theorem vm_pause_resume_roundtrip:
  assumes vm: "vm_with w r m xs" and st: "state m = VM_STATE_RUNNING"
    and run: "list_all (\<lambda>c. \<exists>v. vcpu_objs w c = Some v \<and> running v \<and> initialized v) xs"
  shows "\<exists>w1. vm_pause w (Some r) = Some (NEXUSVM_OK, w1) \<and> vm_objs w1 = (vm_objs w)(r \<mapsto> m\<lparr>state := VM_STATE_PAUSED\<rparr>) \<and>
    (\<forall>c. vcpu_objs w1 c = (if c \<in> set xs then map_option (\<lambda>v. v\<lparr>running := False\<rparr>) (vcpu_objs w c) else vcpu_objs w c)) \<and>
    links w1 = links w \<and> vm_resume w1 (Some r) = Some (NEXUSVM_OK, w)"
proof -
  let ?p = "\<lambda>v. if running v then v\<lparr>running := False\<rparr> else v" and ?q = "\<lambda>v. if initialized v then v\<lparr>running := True\<rparr> else v"
  define w1 where "w1 = upd_vm (upd_vcpus w (set xs) ?p) r (\<lambda>m. m\<lparr>state := VM_STATE_PAUSED\<rparr>)"
  have m: "vm_objs w r = Some m" using vm by (simp add: vm_with_def)
  have pause: "vm_pause w (Some r) = Some (NEXUSVM_OK, w1)"
    using m st by (simp add: vm_pause_def each_update_all [OF vm] w1_def)
  have vm1: "vm_with w1 r (m\<lparr>state := VM_STATE_PAUSED\<rparr>) xs"
    using vm by (auto simp: vm_with_def w1_def upd_vm_def upd_vcpus_def list_all_iff)
  have resume: "vm_resume w1 (Some r) = Some (NEXUSVM_OK, upd_vm (upd_vcpus w1 (set xs) ?q) r (\<lambda>m. m\<lparr>state := VM_STATE_RUNNING\<rparr>))"
    using vm1 each_update_all [OF vm1, of ?q] by (simp add: vm_resume_def vm_with_def)
  have vcs: "vcpu_objs w1 = (\<lambda>c. if c \<in> set xs then map_option (\<lambda>v. v\<lparr>running := False\<rparr>) (vcpu_objs w c) else vcpu_objs w c)"
    using run by (auto simp: w1_def upd_vm_def upd_vcpus_def fun_eq_iff list_all_iff)
  have restored: "(\<lambda>c. if c \<in> set xs then map_option ?q (vcpu_objs w1 c) else vcpu_objs w1 c) = vcpu_objs w"
    using run by (auto simp: vcs fun_eq_iff list_all_iff)
  have vms: "vm_objs w1 = (vm_objs w)(r \<mapsto> m\<lparr>state := VM_STATE_PAUSED\<rparr>)" using m by (simp add: w1_def upd_vm_def upd_vcpus_def)
  have "m\<lparr>state := VM_STATE_RUNNING\<rparr> = m" using st by simp
  then have "upd_vm (upd_vcpus w1 (set xs) ?q) r (\<lambda>m. m\<lparr>state := VM_STATE_RUNNING\<rparr>) = w1\<lparr>vcpu_objs := vcpu_objs w, vm_objs := vm_objs w\<rparr>"
    using m by (simp add: upd_vm_def upd_vcpus_def restored vms fun_upd_idem)
  also have "\<dots> = w" by (simp add: w1_def upd_vm_def upd_vcpus_def)
  finally have "vm_resume w1 (Some r) = Some (NEXUSVM_OK, w)" using resume by simp
  then show ?thesis using pause vms vcs by (intro exI [of _ w1]) (simp add: w1_def upd_vm_def upd_vcpus_def)
qed

definition live_vcpu :: nexusvcpu where
  "live_vcpu = zero_vcpu\<lparr>vm := Some 30, running := True, initialized := True\<rparr>"

definition live_vm :: nexusvm where
  "live_vm = zero_vm\<lparr>vm_id := 1, state := VM_STATE_RUNNING, vcpus := Some [Some 20, Some 21], vcpu_count := 2\<rparr>"

definition live_world :: world where
  "live_world = boot_world\<lparr>vm_objs := [30 \<mapsto> live_vm], vcpu_objs := [20 \<mapsto> live_vcpu, 21 \<mapsto> live_vcpu]\<rparr>"

lemma live_fields [simp]: "running live_vcpu" "initialized live_vcpu" "state live_vm = VM_STATE_RUNNING"
  "vcpus live_vm = Some [Some 20, Some 21]" "vcpu_count live_vm = 2"
  by (simp_all add: live_vcpu_def live_vm_def)

lemma live_vm_with: "vm_with live_world 30 live_vm [20, 21]"
  by (simp add: vm_with_def live_world_def)

lemma vm_pause_resume_roundtrip_witness:
  "\<exists>w1. vm_pause live_world (Some 30) = Some (NEXUSVM_OK, w1) \<and> vm_resume w1 (Some 30) = Some (NEXUSVM_OK, live_world)"
proof -
  have "list_all (\<lambda>c. \<exists>v. vcpu_objs live_world c = Some v \<and> running v \<and> initialized v) [20, 21]"
    by (simp add: live_world_def)
  from vm_pause_resume_roundtrip [OF live_vm_with _ this] show ?thesis by auto
qed

end
