(* ===== verification/Vm_Machine.thy ===== *)
theory Vm_Machine
  imports Hypervisor_Correct
begin

text \<open>
  Virtual machines as a state machine: the abstract machine over the states, the operations of the code as its steps,
  reachable states, and the list of machines with its accessors.
\<close>

section \<open>The abstract machine\<close>

datatype vm_op = Start | Stop | Pause | Resume | Reset bool

fun vm_machine :: "vm_op \<Rightarrow> vm_state \<Rightarrow> nexusvm_result \<times> vm_state" where
  "vm_machine Start s =
     (if s \<in> {VM_STATE_RUNNING, VM_STATE_INITIALIZED, VM_STATE_PAUSED, VM_STATE_SHUTDOWN} then (NEXUSVM_OK, VM_STATE_RUNNING)
      else (NEXUSVM_ERR_VM_NOT_RUNNING, s))"
| "vm_machine Stop s =
     (if s = VM_STATE_RUNNING then (NEXUSVM_OK, VM_STATE_SHUTDOWN) else (NEXUSVM_ERR_VM_NOT_RUNNING, s))"
| "vm_machine Pause s =
     (if s = VM_STATE_RUNNING then (NEXUSVM_OK, VM_STATE_PAUSED) else (NEXUSVM_ERR_VM_NOT_RUNNING, s))"
| "vm_machine Resume s =
     (if s = VM_STATE_PAUSED then (NEXUSVM_OK, VM_STATE_RUNNING) else (NEXUSVM_ERR_VM_RUNNING, s))"
| "vm_machine (Reset cold) s = (NEXUSVM_OK, VM_STATE_SHUTDOWN)"

text \<open>The operation of the code.\<close>

fun run_op :: "platform \<Rightarrow> vm_op \<Rightarrow> world \<Rightarrow> ref option \<Rightarrow> (nexusvm_result \<times> world) run" where
  "run_op pf Start w p = vm_start pf w p"
| "run_op pf Stop w p = vm_stop w p"
| "run_op pf Pause w p = vm_pause w p"
| "run_op pf Resume w p = vm_resume w p"
| "run_op pf (Reset cold) w p = vm_reset w p cold"

section \<open>Operations on virtual CPUs leave the machines alone\<close>

lemma rq_lock_vms: "rq_lock w i = Some w' \<Longrightarrow> vm_objs w' = vm_objs w"
  by (auto simp: rq_lock_def upd_rq_def bind_eq_Some_conv split: if_splits)

lemma rq_unlock_vms: "rq_unlock w i = Some w' \<Longrightarrow> vm_objs w' = vm_objs w"
  by (auto simp: rq_unlock_def upd_rq_def bind_eq_Some_conv)

lemma with_links_vms: "with_links w f = Some w' \<Longrightarrow> vm_objs w' = vm_objs w"
  by (auto simp: with_links_def bind_eq_Some_conv)

lemma create_entity_vms: "create_entity av w r = Some (e, w') \<Longrightarrow> vm_objs w' = vm_objs w"
  by (auto simp: create_entity_def Let_def bind_eq_Some_conv split: if_splits)

lemmas sched_vms = rq_lock_vms rq_unlock_vms with_links_vms create_entity_vms

lemma scheduler_add_vms: "scheduler_add_vcpu av w c = Some (res, w') \<Longrightarrow> vm_objs w' = vm_objs w"
  by (auto simp: scheduler_add_vcpu_def bind_eq_Some_conv dest!: sched_vms split: option.splits)

lemma scheduler_remove_vms: "scheduler_remove_vcpu w c = Some (res, w') \<Longrightarrow> vm_objs w' = vm_objs w"
  by (auto simp: scheduler_remove_vcpu_def bind_eq_Some_conv dest!: sched_vms split: option.splits)

lemma vmx_on_vms: "vmx_on env w c = Some (res, w') \<Longrightarrow> vm_objs w' = vm_objs w"
  by (auto simp: vmx_on_def bind_eq_Some_conv split: option.splits if_splits)

lemma vmx_clear_vms: "vmx_vmcs_clear env w c = Some (res, w') \<Longrightarrow> vm_objs w' = vm_objs w"
  by (auto simp: vmx_vmcs_clear_def Let_def bind_eq_Some_conv split: option.splits if_splits)

lemma vmx_setup_vms: "vmx_vcpu_setup env w c = Some (res, w') \<Longrightarrow> vm_objs w' = vm_objs w"
  by (cases c) (auto simp: vmx_vcpu_setup_def Let_def bind_eq_Some_conv dest!: vmx_on_vms vmx_clear_vms split: if_splits)

lemma with_bufs_vms: "with_bufs w f = Some w' \<Longrightarrow> vm_objs w' = vm_objs w"
  by (auto simp: with_bufs_def bind_eq_Some_conv)

lemma svm_set_vms: "svm_set_msr_bitmap w p x = Some w' \<Longrightarrow> vm_objs w' = vm_objs w" "svm_set_npt w p x = Some w' \<Longrightarrow> vm_objs w' = vm_objs w"
  by (auto simp: svm_set_msr_bitmap_def svm_set_npt_def dest!: with_bufs_vms split: if_splits)

lemma svm_setup_vms: "svm_vcpu_setup env w c = Some (res, w') \<Longrightarrow> vm_objs w' = vm_objs w"
  by (cases c) (auto simp: svm_vcpu_setup_def Let_def bind_eq_Some_conv dest!: with_bufs_vms svm_set_vms split: if_splits)

lemma setup_backend_vms: "setup_backend pf w c = Some (res, w') \<Longrightarrow> vm_objs w' = vm_objs w"
proof -
  assume a: "setup_backend pf w c = Some (res, w')"
  then obtain hv where hv: "g_hypervisor w = Some hv" by (auto simp: setup_backend_def bind_eq_Some_conv)
  show ?thesis using a hv vmx_setup_vms svm_setup_vms by (cases "cpu_vendor_of hv") (simp_all add: setup_backend_def)
qed

lemma vcpu_start_vms: "vcpu_start pf w c = Some (res, w') \<Longrightarrow> vm_objs w' = vm_objs w"
  by (cases c) (auto simp: vcpu_start_def bind_eq_Some_conv dest!: scheduler_add_vms setup_backend_vms split: if_splits)

lemma vcpu_stop_vms: "vcpu_stop w c = Some (res, w') \<Longrightarrow> vm_objs w' = vm_objs w"
  by (cases c) (auto simp: vcpu_stop_def bind_eq_Some_conv dest!: scheduler_remove_vms)

lemma each_vcpu_vms:
  assumes "\<And>w c w'. f w c = Some w' \<Longrightarrow> vm_objs w' = vm_objs w"
  shows "each_vcpu f w r js = Some w' \<Longrightarrow> vm_objs w' = vm_objs w"
proof (induction js arbitrary: w)
  case (Cons j js)
  then obtain c w1 where "f w c = Some w1" "each_vcpu f w1 r js = Some w'" by (auto simp: bind_eq_Some_conv)
  with Cons.IH assms show ?case by metis
qed simp

lemma stop_one_vms: "stop_one w c = Some w' \<Longrightarrow> vm_objs w' = vm_objs w"
  by (auto simp: stop_one_def dest: vcpu_stop_vms)

lemma update_one_vms: "update_one f w c = Some w' \<Longrightarrow> vm_objs w' = vm_objs w"
  by (auto simp: update_one_def bind_eq_Some_conv)

lemma each_stop_vms: "each_vcpu stop_one w r js = Some w' \<Longrightarrow> vm_objs w' = vm_objs w"
  by (rule each_vcpu_vms [of stop_one, OF stop_one_vms])

lemma each_update_vms: "each_vcpu (update_one f) w r js = Some w' \<Longrightarrow> vm_objs w' = vm_objs w"
  by (rule each_vcpu_vms [of "update_one f", OF update_one_vms])

lemma start_vcpus_vms: "start_vcpus pf w r js = Some (res, w') \<Longrightarrow> vm_objs w' = vm_objs w"
proof (induction js arbitrary: w)
  case (Cons j js)
  then obtain c x w1 where s: "vcpu_start pf w c = Some (x, w1)" and
    n: "if x \<noteq> NEXUSVM_OK then do { w2 \<leftarrow> each_vcpu stop_one w1 r [0..<j]; Some (x, w2) } = Some (res, w') else start_vcpus pf w1 r js = Some (res, w')"
    by (auto simp: bind_eq_Some_conv split: if_splits)
  from n have "vm_objs w' = vm_objs w1"
    using Cons.IH [of w1] each_stop_vms [of w1 r "[0..<j]"] by (auto simp: bind_eq_Some_conv split: if_splits)
  with vcpu_start_vms [OF s] show ?case by simp
qed simp

section \<open>The operations as steps of the machine\<close>

lemma upd_vm_objs: "vm_objs (upd_vm w r f) = (vm_objs w)(r := map_option f (vm_objs w r))"
  by (simp add: upd_vm_def)

lemma vm_stop_step:
  "vm_objs w r = Some m \<Longrightarrow> vm_stop w (Some r) = Some (res, w') \<Longrightarrow>
    res = fst (vm_machine Stop (state m)) \<and> vm_objs w' = (vm_objs w)(r \<mapsto> m\<lparr>state := snd (vm_machine Stop (state m))\<rparr>)"
  by (auto simp: vm_stop_def bind_eq_Some_conv upd_vm_objs fun_upd_idem dest!: each_stop_vms split: if_splits)

lemma vm_start_step:
  assumes m: "vm_objs w r = Some m" and "vm_start pf w (Some r) = Some (res, w')"
  shows "res = fst (vm_machine Start (state m)) \<and> vm_objs w' = (vm_objs w)(r \<mapsto> m\<lparr>state := snd (vm_machine Start (state m))\<rparr>) \<or>
    res \<noteq> NEXUSVM_OK \<and> vm_objs w' = vm_objs w"
proof -
  have run: "(if state m = VM_STATE_RUNNING then Some (NEXUSVM_OK, w)
      else if state m \<notin> {VM_STATE_INITIALIZED, VM_STATE_PAUSED, VM_STATE_SHUTDOWN} then Some (NEXUSVM_ERR_VM_NOT_RUNNING, w)
      else do { (result, w) \<leftarrow> start_vcpus pf w r (vcpu_numbers m);
        if result \<noteq> NEXUSVM_OK then Some (result, w) else Some (NEXUSVM_OK, upd_vm w r (\<lambda>m. m\<lparr>state := VM_STATE_RUNNING\<rparr>)) }) = Some (res, w')"
    using assms by (simp add: vm_start_def)
  show ?thesis
  proof (cases "state m = VM_STATE_RUNNING \<or> state m \<notin> {VM_STATE_INITIALIZED, VM_STATE_PAUSED, VM_STATE_SHUTDOWN}")
    case True
    then show ?thesis using run m by (auto split: if_splits)
  next
    case False
    then obtain x w1 where s: "start_vcpus pf w r (vcpu_numbers m) = Some (x, w1)"
      "(if x \<noteq> NEXUSVM_OK then Some (x, w1) else Some (NEXUSVM_OK, upd_vm w1 r (\<lambda>m. m\<lparr>state := VM_STATE_RUNNING\<rparr>))) = Some (res, w')"
      using run by (auto simp: bind_eq_Some_conv)
    from start_vcpus_vms [OF s(1)] s(2) False m show ?thesis by (auto simp: upd_vm_objs split: if_splits)
  qed
qed

lemma vm_pause_step:
  "vm_objs w r = Some m \<Longrightarrow> vm_pause w (Some r) = Some (res, w') \<Longrightarrow>
    res = fst (vm_machine Pause (state m)) \<and> vm_objs w' = (vm_objs w)(r \<mapsto> m\<lparr>state := snd (vm_machine Pause (state m))\<rparr>)"
  by (auto simp: vm_pause_def bind_eq_Some_conv upd_vm_objs fun_upd_idem dest!: each_update_vms split: if_splits)

lemma vm_resume_step:
  "vm_objs w r = Some m \<Longrightarrow> vm_resume w (Some r) = Some (res, w') \<Longrightarrow>
    res = fst (vm_machine Resume (state m)) \<and> vm_objs w' = (vm_objs w)(r \<mapsto> m\<lparr>state := snd (vm_machine Resume (state m))\<rparr>)"
  by (auto simp: vm_resume_def bind_eq_Some_conv upd_vm_objs fun_upd_idem dest!: each_update_vms split: if_splits)

lemma vm_reset_step:
  assumes m: "vm_objs w r = Some m" and "vm_reset w (Some r) cold = Some (res, w')"
  shows "res = NEXUSVM_OK \<and> vm_objs w' = (vm_objs w)(r \<mapsto> m\<lparr>state := VM_STATE_SHUTDOWN\<rparr>)"
proof -
  from assms obtain w1 w2 e where
    w1: "(if state m = VM_STATE_RUNNING then map_option snd (vm_stop w (Some r)) else Some w) = Some w1" and
    w2: "each_vcpu (update_one (\<lambda>v. v\<lparr>cpu_state_of := reset_state\<rparr>)) w1 r (vcpu_numbers m) = Some w2" and
    w': "res = NEXUSVM_OK" "w' = upd_vm (w2\<lparr>ept := e\<rparr>) r (\<lambda>m. m\<lparr>state := VM_STATE_SHUTDOWN\<rparr>)"
    by (auto simp: vm_reset_def bind_eq_Some_conv)
  have "\<exists>s. vm_objs w1 = (vm_objs w)(r \<mapsto> m\<lparr>state := s\<rparr>)"
  proof (cases "state m = VM_STATE_RUNNING")
    case True
    then obtain x where "vm_stop w (Some r) = Some (x, w1)" using w1 by auto
    from vm_stop_step [OF m this] show ?thesis by blast
  next
    case False
    then show ?thesis using w1 m by (intro exI [of _ "state m"]) (simp add: fun_upd_idem)
  qed
  then show ?thesis using each_update_vms [OF w2] w' by (auto simp: upd_vm_objs)
qed

lemma op_step:
  assumes "vm_objs w r = Some m" "run_op pf op w (Some r) = Some (res, w')"
  shows "\<exists>s. vm_objs w' = (vm_objs w)(r \<mapsto> m\<lparr>state := s\<rparr>) \<and>
    ((res, s) = vm_machine op (state m) \<or> op = Start \<and> res \<noteq> NEXUSVM_OK \<and> s = state m)"
proof (cases op)
  case Start
  with assms(2) have "vm_start pf w (Some r) = Some (res, w')" by simp
  from vm_start_step [OF assms(1) this] show ?thesis
  proof
    assume "res \<noteq> NEXUSVM_OK \<and> vm_objs w' = vm_objs w"
    then show ?thesis using assms(1) Start by (intro exI [of _ "state m"]) (simp add: fun_upd_idem)
  qed (auto simp: Start prod_eq_iff simp del: vm_machine.simps)
qed (use assms vm_stop_step [OF assms(1)] vm_pause_step [OF assms(1)] vm_resume_step [OF assms(1)] vm_reset_step [OF assms(1)]
  in \<open>simp del: vm_machine.simps(2-4) add: prod_eq_iff\<close>)+

text \<open>C4. The operations on a machine refine the abstract machine: whenever one returns, its result and the new state are those of
  the abstract machine, no other member of the machine and no other machine changes; only a start may fail
  on the way, with an error, and then the state stays as it was.\<close>

theorem vm_operations_refine_machine:
  assumes "vm_objs w r = Some m" "run_op pf op w (Some r) = Some (res, w')"
  shows "\<exists>s. vm_objs w' = (vm_objs w)(r \<mapsto> m\<lparr>state := s\<rparr>) \<and>
    ((res, s) = vm_machine op (state m) \<or> op = Start \<and> res \<noteq> NEXUSVM_OK \<and> s = state m)"
  using assms by (rule op_step)

lemma vm_operations_refine_machine_witness:
  "\<exists>w' s. run_op demo_platform Pause live_world (Some 30) = Some (NEXUSVM_OK, w') \<and> vm_objs w' 30 = Some (live_vm\<lparr>state := s\<rparr>) \<and>
    s = VM_STATE_PAUSED"
proof -
  have m: "vm_objs live_world 30 = Some live_vm" by (simp add: live_world_def)
  obtain w' where w': "run_op demo_platform Pause live_world (Some 30) = Some (NEXUSVM_OK, w')"
    using m by (simp add: vm_pause_def each_update_all [OF live_vm_with])
  from vm_operations_refine_machine [OF m w'] show ?thesis using w' by auto
qed

section \<open>Reachable states\<close>

inductive vm_reach :: "platform \<Rightarrow> ref \<Rightarrow> world \<Rightarrow> world \<Rightarrow> bool" for pf r w0 where
  start: "vm_reach pf r w0 w0"
| step: "vm_reach pf r w0 w \<Longrightarrow> run_op pf op w (Some r) = Some (res, w') \<Longrightarrow> vm_reach pf r w0 w'"

definition live_states :: "vm_state set" where
  "live_states = {VM_STATE_INITIALIZED, VM_STATE_RUNNING, VM_STATE_PAUSED, VM_STATE_SHUTDOWN}"

lemma machine_live: "s \<in> live_states \<Longrightarrow> snd (vm_machine op s) \<in> live_states \<and> (snd (vm_machine op s) = VM_STATE_INITIALIZED \<longrightarrow> s = VM_STATE_INITIALIZED)"
  by (cases op) (auto simp: live_states_def)

text \<open>A machine that was created is initialised, running, paused or shut down after any sequence of operations on it, and once it
  has left the initial state it never returns to it; apart from the state it is the machine that was created.\<close>

theorem vm_reachable_states:
  assumes "vm_reach pf r w0 w" "vm_objs w0 r = Some m" "state m \<in> live_states"
  shows "\<exists>s. vm_objs w r = Some (m\<lparr>state := s\<rparr>) \<and> s \<in> live_states \<and> (s = VM_STATE_INITIALIZED \<longrightarrow> state m = VM_STATE_INITIALIZED)"
  using assms
proof (induction rule: vm_reach.induct)
  case start
  then show ?case by (intro exI [of _ "state m"]) simp
next
  case (step w op res w')
  then obtain s where s: "vm_objs w r = Some (m\<lparr>state := s\<rparr>)" "s \<in> live_states" "s = VM_STATE_INITIALIZED \<longrightarrow> state m = VM_STATE_INITIALIZED"
    by blast
  from op_step [OF s(1) step.hyps(2)] obtain s' where
    s': "vm_objs w' = (vm_objs w)(r \<mapsto> m\<lparr>state := s'\<rparr>)" "(res, s') = vm_machine op s \<or> s' = s" by auto
  then have "vm_objs w' r = Some (m\<lparr>state := s'\<rparr>)" "s' = snd (vm_machine op s) \<or> s' = s"
    by (simp, metis snd_conv)
  then show ?case using machine_live [OF s(2), of op] s(2,3) by auto
qed

lemma vm_reachable_states_witness:
  "\<exists>w s. vm_reach demo_platform 30 live_world w \<and> vm_objs w 30 = Some (live_vm\<lparr>state := s\<rparr>) \<and> s \<in> live_states"
proof -
  have m: "vm_objs live_world 30 = Some live_vm" "state live_vm \<in> live_states" by (simp_all add: live_world_def live_states_def)
  obtain w where w: "run_op demo_platform Pause live_world (Some 30) = Some (NEXUSVM_OK, w)"
    using m by (simp add: vm_pause_def each_update_all [OF live_vm_with])
  have r: "vm_reach demo_platform 30 live_world w" by (rule vm_reach.step [OF vm_reach.start w])
  with vm_reachable_states [OF r m] r show ?thesis by blast
qed

section \<open>The list of machines\<close>

fun vm_links :: "(ref \<rightharpoonup> nexusvm) \<Rightarrow> ref option \<Rightarrow> ref option \<Rightarrow> ref list \<Rightarrow> bool" where
  "vm_links h pv p [] \<longleftrightarrow> p = None"
| "vm_links h pv p (r # rs) \<longleftrightarrow> p = Some r \<and> (case h r of None \<Rightarrow> False | Some m \<Rightarrow> vm_prev m = pv \<and> vm_links h (Some r) (vm_next m) rs)"

definition vm_list :: "world \<Rightarrow> ref list \<Rightarrow> bool" where
  "vm_list w rs \<longleftrightarrow> (case g_hypervisor w of None \<Rightarrow> False | Some hv \<Rightarrow> vm_links (vm_objs w) None (vms hv) rs) \<and> distinct rs"

lemma vm_links_cong:
  assumes "\<And>x. x \<in> set rs \<Longrightarrow> rel_option (\<lambda>a b. vm_next a = vm_next b \<and> vm_prev a = vm_prev b) (h x) (h' x)"
  shows "vm_links h pv p rs \<Longrightarrow> vm_links h' pv p rs"
  using assms
proof (induction h pv p rs rule: vm_links.induct)
  case (2 h pv p r rs)
  then show ?case by (force split: option.splits simp: option_rel_Some1)
qed simp

lemma vm_links_live: "vm_links h pv p rs \<Longrightarrow> x \<in> set rs \<Longrightarrow> h x \<noteq> None"
  by (induction h pv p rs rule: vm_links.induct) (auto split: option.splits)

text \<open>The prev pointer of the first element is replaced.\<close>

definition relink_prev :: "ref option \<Rightarrow> ref option \<Rightarrow> (ref \<rightharpoonup> nexusvm) \<Rightarrow> (ref \<rightharpoonup> nexusvm)" where
  "relink_prev p pv h = (case p of None \<Rightarrow> h | Some r \<Rightarrow> h(r := map_option (\<lambda>m. m\<lparr>vm_prev := pv\<rparr>) (h r)))"

lemma vm_links_relink_prev: "vm_links h pv p rs \<Longrightarrow> distinct rs \<Longrightarrow> vm_links (relink_prev p pv' h) pv' p rs"
proof (cases rs)
  case (Cons r rs')
  moreover assume c: "vm_links h pv p rs" "distinct rs"
  ultimately obtain m where m: "p = Some r" "h r = Some m" "vm_links h (Some r) (vm_next m) rs'" by (auto split: option.splits)
  have "vm_links (h(r \<mapsto> m\<lparr>vm_prev := pv'\<rparr>)) (Some r) (vm_next m) rs'"
    by (rule vm_links_cong [OF _ m(3)]) (use c(2) Cons in \<open>auto simp: option.rel_refl\<close>)
  then show ?thesis using Cons m by (simp add: relink_prev_def)
qed (simp add: relink_prev_def)

text \<open>The end of \<open>vm_create\<close> puts a new machine in front of the list of machines: the doubly linked list stays well formed, the machine is
  initialised and the count goes up by one.\<close>

theorem link_vm_refines_cons:
  assumes l: "vm_list w rs" and m: "vm_objs w r = Some m" "r \<notin> set rs" "vm_prev m = None" and hv: "g_hypervisor w = Some hv"
  shows "\<exists>w' m' hv'. link_vm w r = Some w' \<and> vm_list w' (r # rs) \<and> vm_objs w' r = Some m' \<and> state m' = VM_STATE_INITIALIZED \<and>
    vm_id m' = vm_id m \<and> g_hypervisor w' = Some hv' \<and> vm_count hv' = vm_count hv + 1"
proof -
  have c: "vm_links (vm_objs w) None (vms hv) rs" "distinct rs" using l hv by (simp_all add: vm_list_def)
  let ?m = "m\<lparr>vm_next := vms hv, state := VM_STATE_INITIALIZED\<rparr>"
  define h where "h = (relink_prev (vms hv) (Some r) (vm_objs w))(r \<mapsto> ?m)"
  have head: "vms hv = Some x \<Longrightarrow> x \<noteq> r \<and> vm_objs w x \<noteq> None" for x
    using c(1) m(2) vm_links_live [OF c(1)] by (cases rs) auto
  define w' where "w' = w\<lparr>vm_objs := h, g_hypervisor := Some (hv\<lparr>vms := Some r, vm_count := vm_count hv + 1\<rparr>)\<rparr>"
  have "link_vm w r = Some w'"
    using hv m(1) head by (cases "vms hv") (auto simp: link_vm_def upd_vm_def upd_hv_def w'_def h_def relink_prev_def Let_def fun_upd_twist)
  moreover have "vm_links h (Some r) (vms hv) rs"
    by (rule vm_links_cong [OF _ vm_links_relink_prev [OF c, of "Some r"]]) (use m(2) in \<open>auto simp: h_def option.rel_refl\<close>)
  ultimately show ?thesis using m c(2) by (intro exI [of _ w'] exI [of _ ?m] exI [of _ "hv\<lparr>vms := Some r, vm_count := vm_count hv + 1\<rparr>"]) (simp add: w'_def vm_list_def h_def)
qed

text \<open>Two machines in the list, and one that is not linked yet.\<close>

definition list_world :: world where
  "list_world = boot_world\<lparr>g_hypervisor := Some (zero_hypervisor\<lparr>vms := Some 31, vm_count := 2\<rparr>),
     vm_objs := [30 \<mapsto> zero_vm\<lparr>vm_id := 1, vm_name := ''a'', vm_prev := Some 31\<rparr>, 31 \<mapsto> zero_vm\<lparr>vm_id := 2, vm_name := ''b'', vm_next := Some 30\<rparr>,
       32 \<mapsto> zero_vm\<lparr>vm_id := 3\<rparr>]\<rparr>"

lemma list_world_list: "vm_list list_world [31, 30]" "g_hypervisor list_world = Some (zero_hypervisor\<lparr>vms := Some 31, vm_count := 2\<rparr>)"
  by (simp_all add: vm_list_def list_world_def zero_vm_def)

lemma link_vm_refines_cons_witness: "\<exists>w'. link_vm list_world 32 = Some w' \<and> vm_list w' [32, 31, 30]"
proof -
  have "vm_objs list_world 32 = Some (zero_vm\<lparr>vm_id := 3\<rparr>)" "32 \<notin> set [31, 30 :: nat]" "vm_prev (zero_vm\<lparr>vm_id := 3\<rparr>) = None"
    by (simp_all add: list_world_def zero_vm_def)
  from link_vm_refines_cons [OF list_world_list(1) this list_world_list(2)] show ?thesis by blast
qed

text \<open>Removing an element: its neighbours are joined.\<close>

definition vm_unlinked :: "ref \<Rightarrow> nexusvm \<Rightarrow> (ref \<rightharpoonup> nexusvm) \<Rightarrow> (ref \<rightharpoonup> nexusvm)" where
  "vm_unlinked r m h = (\<lambda>x. if x = r then None else map_option (\<lambda>q. q\<lparr>
     vm_next := (if vm_prev m = Some x then vm_next m else vm_next q),
     vm_prev := (if vm_next m = Some x then vm_prev m else vm_prev q)\<rparr>) (h x))"

lemma vm_links_neighbours:
  "vm_links h pv p rs \<Longrightarrow> distinct rs \<Longrightarrow> r \<in> set rs \<Longrightarrow> h r = Some m \<Longrightarrow>
    (vm_prev m = pv \<and> p = Some r \<or> (\<exists>x \<in> set rs. vm_prev m = Some x \<and> x \<noteq> r)) \<and>
    (case vm_next m of None \<Rightarrow> True | Some x \<Rightarrow> x \<in> set rs - {r})"
proof (induction h pv p rs rule: vm_links.induct)
  case (2 h pv p a rs)
  then obtain q where q: "p = Some a" "h a = Some q" "vm_prev q = pv" "vm_links h (Some a) (vm_next q) rs" by (auto split: option.splits)
  show ?case
  proof (cases "r = a")
    case True
    then show ?thesis using 2 q by (cases rs) auto
  next
    case False
    then show ?thesis using 2 q by (auto split: option.splits)
  qed
qed simp

lemma vm_links_unlinked:
  "vm_links h pv p rs \<Longrightarrow> distinct rs \<Longrightarrow> r \<in> set rs \<Longrightarrow> h r = Some m \<Longrightarrow> (case pv of None \<Rightarrow> True | Some y \<Rightarrow> y \<notin> set rs) \<Longrightarrow>
    vm_links (vm_unlinked r m h) pv (if p = Some r then vm_next m else p) (remove1 r rs)"
proof (induction h pv p rs rule: vm_links.induct)
  case (2 h pv p a rs)
  then obtain q where q: "p = Some a" "h a = Some q" "vm_prev q = pv" "vm_links h (Some a) (vm_next q) rs" by (auto split: option.splits)
  show ?case
  proof (cases "r = a")
    case True
    then have m: "q = m" "vm_prev m = pv" using 2 q by auto
    have base: "vm_links (relink_prev (vm_next m) pv h) pv (vm_next m) rs"
      using vm_links_relink_prev [OF q(4), of pv] 2 m by simp
    have "vm_links (vm_unlinked r m h) pv (vm_next m) rs"
    proof (rule vm_links_cong [OF _ base])
      show "rel_option (\<lambda>a b. vm_next a = vm_next b \<and> vm_prev a = vm_prev b) (relink_prev (vm_next m) pv h x) (vm_unlinked r m h x)"
        if "x \<in> set rs" for x
        using that 2 True m by (cases "h x") (auto simp: relink_prev_def vm_unlinked_def split: option.splits)
    qed
    then show ?thesis using True q by simp
  next
    case False
    then have r: "r \<in> set rs" using 2 by simp
    have ih: "vm_links (vm_unlinked r m h) (Some a) (if vm_next q = Some r then vm_next m else vm_next q) (remove1 r rs)"
      using 2 q r by auto
    have n: "(vm_prev m = Some a \<and> vm_next q = Some r \<or> (\<exists>x \<in> set rs. vm_prev m = Some x \<and> x \<noteq> r)) \<and>
        (case vm_next m of None \<Rightarrow> True | Some x \<Rightarrow> x \<in> set rs - {r})"
      using vm_links_neighbours [OF q(4) _ r] 2 by auto
    have "vm_next q = Some r \<longleftrightarrow> vm_prev m = Some a"
      using q(4) 2 r n by (cases rs) (auto split: option.splits)
    moreover have "vm_next m \<noteq> Some a" using n 2 by (auto split: option.splits)
    ultimately have "vm_unlinked r m h a = Some (q\<lparr>vm_next := (if vm_next q = Some r then vm_next m else vm_next q)\<rparr>)"
      using False q by (auto simp: vm_unlinked_def)
    then show ?thesis using False q ih by auto
  qed
qed simp

lemma vm_links_prev_none: "vm_links h None p rs \<Longrightarrow> distinct rs \<Longrightarrow> r \<in> set rs \<Longrightarrow> h r = Some m \<Longrightarrow> vm_prev m = None \<longleftrightarrow> p = Some r"
  using vm_links_neighbours [of h None p rs r m] by (cases rs) (auto split: option.splits)

lemma unlink_vm_list:
  assumes l: "vm_list w rs" and r: "r \<in> set rs" and hv: "g_hypervisor w = Some hv"
  shows "\<exists>w' hv'. unlink_vm w r = Some w' \<and> vm_list w' (remove1 r rs) \<and> vm_objs w' r = None \<and>
    g_hypervisor w' = Some hv' \<and> vm_count hv' = vm_count hv - 1"
proof -
  have c: "vm_links (vm_objs w) None (vms hv) rs" "distinct rs" using l hv by (simp_all add: vm_list_def)
  obtain m where m: "vm_objs w r = Some m" using vm_links_live [OF c(1) r] by auto
  note n = vm_links_neighbours [OF c r m] and pn = vm_links_prev_none [OF c r m]
  have live: "\<forall>x. vm_prev m = Some x \<longrightarrow> (\<exists>y. vm_objs w x = Some y) \<and> x \<noteq> r"
      "\<forall>x. vm_next m = Some x \<longrightarrow> (\<exists>y. vm_objs w x = Some y) \<and> x \<noteq> r"
    using n vm_links_live [OF c(1)] by (auto split: option.splits)
  define hv' where "hv' = hv\<lparr>vms := (if vms hv = Some r then vm_next m else vms hv), vm_count := vm_count hv - 1\<rparr>"
  define w' where "w' = w\<lparr>vm_objs := vm_unlinked r m (vm_objs w), g_hypervisor := Some hv'\<rparr>"
  let ?n = "\<lambda>x. map_option (\<lambda>q. q\<lparr>vm_next := vm_next m\<rparr>) x" and ?p = "\<lambda>x. map_option (\<lambda>q. q\<lparr>vm_prev := vm_prev m\<rparr>) x"
  define h1 where "h1 = (case vm_prev m of None \<Rightarrow> vm_objs w | Some x \<Rightarrow> (vm_objs w)(x := ?n (vm_objs w x)))"
  define h2 where "h2 = (case vm_next m of None \<Rightarrow> h1 | Some x \<Rightarrow> h1(x := ?p (h1 x)))"
  have "h2(r := None) = vm_unlinked r m (vm_objs w)"
  proof
    fix x show "(h2(r := None)) x = vm_unlinked r m (vm_objs w) x"
      by (cases "vm_objs w x"; cases "vm_prev m = Some x"; cases "vm_next m = Some x")
         (auto simp: h2_def h1_def vm_unlinked_def split: option.splits)
  qed
  then have "unlink_vm w r = Some w'"
    using m hv live pn by (cases "vm_prev m"; cases "vm_next m")
      (auto simp: unlink_vm_def upd_vm_def upd_hv_def drop_vm_def w'_def hv'_def h1_def h2_def)
  moreover have "vm_list w' (remove1 r rs)"
    using vm_links_unlinked [OF c r m] c(2) by (simp add: vm_list_def w'_def hv'_def)
  ultimately show ?thesis by (intro exI [of _ w'] exI [of _ hv']) (simp add: w'_def hv'_def vm_unlinked_def)
qed

text \<open>C14. The end of \<open>vm_destroy\<close> takes the machine out of the list, wherever in the list it is: the doubly linked list of the other machines stays
  well formed and in order, the count goes down by one and the machine is freed.\<close>

theorem unlink_vm_refines_remove:
  assumes l: "vm_list w rs" and r: "r \<in> set rs" and hv: "g_hypervisor w = Some hv"
  shows "\<exists>w' hv'. unlink_vm w r = Some w' \<and> vm_list w' (remove1 r rs) \<and> vm_objs w' r = None \<and>
    g_hypervisor w' = Some hv' \<and> vm_count hv' = vm_count hv - 1"
  using assms by (rule unlink_vm_list)

lemma unlink_vm_refines_remove_witness: "\<exists>w'. unlink_vm list_world 30 = Some w' \<and> vm_list w' [31] \<and> vm_objs w' 30 = None"
  using unlink_vm_refines_remove [OF list_world_list(1) _ list_world_list(2), of 30] by auto

section \<open>Looking machines up\<close>

lemma vm_find_links: "vm_links (vm_objs w) pv p rs \<Longrightarrow> vm_find P w p = Some (find (\<lambda>r. P (the (vm_objs w r))) rs)"
proof (induction rs arbitrary: pv p)
  case Nil
  then show ?case by (subst vm_find.simps) simp
next
  case (Cons r rs)
  then show ?case by (subst vm_find.simps) (auto split: option.splits)
qed

text \<open>On a well-formed list of machines \<open>vm_get_by_id\<close> and \<open>vm_get_by_name\<close> return: the first machine of the list with the identifier or the name, or
  the null pointer when there is none.\<close>

theorem vm_lookup_correct:
  assumes "vm_list w rs"
  shows "vm_get_by_id w n = Some (find (\<lambda>r. vm_id (the (vm_objs w r)) = n) rs) \<and>
    vm_get_by_name w (Some s) = Some (find (\<lambda>r. vm_name (the (vm_objs w r)) = s) rs)"
  using assms by (auto simp: vm_list_def vm_get_by_id_def vm_get_by_name_def vm_find_links split: option.splits)

lemma vm_lookup_correct_witness: "vm_get_by_id list_world 1 = Some (Some 30) \<and> vm_get_by_name list_world (Some ''c'') = Some None"
  using vm_lookup_correct [OF list_world_list(1), of 1 "''c''"] by (simp add: list_world_def zero_vm_def)

lemma enumerate_links:
  "vm_links (vm_objs w) pv p rs \<Longrightarrow> cnt + min left (length rs) \<le> length ids \<Longrightarrow>
    enumerate_loop w p ids cnt left = Some (cnt + min left (length rs),
      take cnt ids @ map (\<lambda>r. vm_id (the (vm_objs w r))) (take left rs) @ drop (cnt + min left (length rs)) ids)"
proof (induction w p ids cnt left arbitrary: rs pv rule: enumerate_loop.induct)
  case (2 w p ids cnt left)
  show ?case
  proof (cases rs)
    case Nil
    then show ?thesis using 2 by simp
  next
    case (Cons r rs')
    then obtain m where m: "p = Some r" "vm_objs w r = Some m" "vm_links (vm_objs w) (Some r) (vm_next m) rs'"
      using 2 by (auto split: option.splits)
    have "enumerate_loop w (vm_next m) (ids[cnt := vm_id m]) (Suc cnt) left = Some (Suc cnt + min left (length rs'),
        take (Suc cnt) (ids[cnt := vm_id m]) @ map (\<lambda>r. vm_id (the (vm_objs w r))) (take left rs') @
        drop (Suc cnt + min left (length rs')) (ids[cnt := vm_id m]))"
      using 2 m Cons by auto
    then show ?thesis using 2 m Cons by (simp add: take_Suc_conv_app_nth)
  qed
qed simp

text \<open>\<open>vm_enumerate\<close> on a well-formed list stores the identifiers of its first machines, as many as there are or as the caller asks for, at the
  start of the array, leaves the rest of the array alone and returns their number.\<close>

theorem vm_enumerate_correct:
  assumes l: "vm_list w rs" and len: "min (unat max_count) (length rs) \<le> length ids"
  shows "vm_enumerate w (Some ids) max_count = Some (of_nat (min (unat max_count) (length rs)),
    Some (map (\<lambda>r. vm_id (the (vm_objs w r))) (take (unat max_count) rs) @ drop (min (unat max_count) (length rs)) ids))"
proof -
  obtain hv where hv: "g_hypervisor w = Some hv" "vm_links (vm_objs w) None (vms hv) rs" using l by (auto simp: vm_list_def split: option.splits)
  have "max_count = 0 \<Longrightarrow> unat max_count = 0" by simp
  then show ?thesis using hv enumerate_links [OF hv(2), of 0 "unat max_count" ids] len by (auto simp: vm_enumerate_def)
qed

lemma vm_enumerate_correct_witness: "vm_enumerate list_world (Some [9, 9, 9]) 8 = Some (2, Some [2, 1, 9])"
  using vm_enumerate_correct [OF list_world_list(1), of 8 "[9, 9, 9]"] by (simp add: list_world_def zero_vm_def)

end
