(* ===== verification/Vm_Scheduling.thy ===== *)
theory Vm_Scheduling
  imports Vm_Machine
begin

text \<open>
  Machines and the scheduler together: stopping a machine takes all its virtual CPUs off the run queues, starting it
  again puts them back. Both loops always return where the scheduler invariant holds.
\<close>

definition ent :: "world \<Rightarrow> ref \<Rightarrow> ref" where
  "ent w c = the (entity (the (vcpu_objs w c)))"

text \<open>A virtual CPU with a scheduling entity, whose CPU can be computed.\<close>

definition schedulable :: "world \<Rightarrow> ref \<Rightarrow> bool" where
  "schedulable w c \<longleftrightarrow> (case vcpu_objs w c of None \<Rightarrow> False | Some v \<Rightarrow> vcpu_cpu w v \<noteq> None \<and> entity v \<noteq> None)"

definition without :: "ref set \<Rightarrow> ref list list \<Rightarrow> ref list list" where
  "without A qs = map (filter (\<lambda>e. e \<notin> A)) qs"

lemma without_empty [simp]: "without {} qs = qs"
  by (induction qs) (simp_all add: without_def)

lemma without_simps [simp]: "length (without A qs) = length qs" "without A (without B qs) = without (B \<union> A) qs"
  "set (concat (without A qs)) = set (concat qs) - A"
  by (auto simp: without_def comp_def conj_commute)

lemma filter_other: "e \<notin> set zs \<Longrightarrow> filter (\<lambda>x. x \<noteq> e) zs = zs"
  by (induction zs) auto

lemma in_queue_split:
  assumes inv: "sched_inv w qs" and e: "e \<in> set (concat qs)"
  obtains d xs ys where "d < length qs" "qs ! d = xs @ e # ys" "qs[d := xs @ ys] = without {e} qs"
proof -
  from e obtain q where "q \<in> set qs" "e \<in> set q" by auto
  then obtain d where d: "d < length qs" "e \<in> set (qs ! d)" by (metis in_set_conv_nth)
  then obtain xs ys where q: "qs ! d = xs @ e # ys" by (meson split_list)
  have "qs[d := xs @ ys] = without {e} qs"
  proof (rule nth_equalityI)
    fix i assume "i < length (qs[d := xs @ ys])"
    then show "qs[d := xs @ ys] ! i = without {e} qs ! i"
      using queued_facts(4,5) [OF inv d(1) q] q by (cases "i = d") (auto simp: without_def filter_other)
  qed simp
  with d(1) q that show thesis by blast
qed

lemma sched_inv_upd_vcpu: "sched_inv (upd_vcpu w c f) qs = sched_inv w qs"
  by (simp add: sched_inv_def upd_vcpu_def)

abbreviation halted :: "nexusvcpu \<Rightarrow> nexusvcpu" where
  "halted v \<equiv> v\<lparr>running := False\<rparr>"

lemma vcpu_cpu_halted: "vcpu_cpu (upd_vcpu w c f) (halted v) = vcpu_cpu w v"
  by (simp add: vcpu_cpu_def upd_vcpu_def)

lemma vcpu_stop_queued:
  assumes inv: "sched_inv w qs" and c: "schedulable w c" "ent w c \<in> set (concat qs)"
  shows "\<exists>l. vcpu_stop w (Some c) = Some (NEXUSVM_OK, (upd_vcpu w c halted)\<lparr>links := l\<rparr>) \<and>
    sched_inv ((upd_vcpu w c halted)\<lparr>links := l\<rparr>) (without {ent w c} qs) \<and> dom l = dom (links w)"
proof -
  let ?w = "upd_vcpu w c halted"
  obtain v cpu where v: "vcpu_objs w c = Some v" "vcpu_cpu w v = Some cpu" "entity v = Some (ent w c)"
    using c(1) by (auto simp: schedulable_def ent_def split: option.splits)
  have inv': "sched_inv ?w qs" using inv by (simp add: sched_inv_upd_vcpu)
  from in_queue_split [OF inv' c(2)] obtain d xs ys where
    d: "d < length qs" "qs ! d = xs @ ent w c # ys" "qs[d := xs @ ys] = without {ent w c} qs" .
  have v': "vcpu_objs ?w c = Some (halted v)" "vcpu_cpu ?w (halted v) = Some cpu" "entity (halted v) = Some (ent w c)"
    using v by (simp_all add: vcpu_cpu_halted, simp add: upd_vcpu_def)
  show ?thesis using remove_linked [OF inv' v' d(1,2)] v(1) d(3) by (auto simp: vcpu_stop_def upd_vcpu_def)
qed

lemma each_stop:
  assumes "vm_objs w r = Some m" "vcpus m = Some (map Some xs)" "distinct xs" "inj_on (ent w) (set xs)" "list_all (schedulable w) xs"
  shows "sched_inv w qs \<Longrightarrow> ent w ` (!) xs ` set js \<subseteq> set (concat qs) \<Longrightarrow> distinct js \<Longrightarrow> list_all (\<lambda>i. i < length xs) js \<Longrightarrow>
    \<exists>l. each_vcpu stop_one w r js = Some ((upd_vcpus w ((!) xs ` set js) halted)\<lparr>links := l\<rparr>) \<and>
      sched_inv ((upd_vcpus w ((!) xs ` set js) halted)\<lparr>links := l\<rparr>) (without (ent w ` (!) xs ` set js) qs) \<and> dom l = dom (links w)"
  using assms
proof (induction js arbitrary: w qs)
  case Nil
  then show ?case by (intro exI [of _ "links w"]) (simp add: upd_vcpus_def)
next
  case (Cons j js)
  let ?c = "xs ! j" and ?A = "(!) xs ` set js"
  have j: "j < length xs" "j \<notin> set js" "?c \<in> set xs" using Cons.prems by simp_all
  have c: "schedulable w ?c" "ent w ?c \<in> set (concat qs)" using Cons.prems j by (auto simp: list_all_iff)
  from vcpu_stop_queued [OF Cons.prems(1) c] obtain l where
    s: "vcpu_stop w (Some ?c) = Some (NEXUSVM_OK, (upd_vcpu w ?c halted)\<lparr>links := l\<rparr>)" and
    inv: "sched_inv ((upd_vcpu w ?c halted)\<lparr>links := l\<rparr>) (without {ent w ?c} qs)" and dl: "dom l = dom (links w)" by blast
  define w1 where "w1 = (upd_vcpu w ?c halted)\<lparr>links := l\<rparr>"
  have ent1: "ent w1 d = ent w d" "schedulable w1 d = schedulable w d" if "d \<in> set xs" for d
    using that c(1) by (auto simp: ent_def schedulable_def w1_def upd_vcpu_def vcpu_cpu_def split: option.splits)
  have sub: "(!) xs ` set js \<subseteq> set xs" using Cons.prems(4) by (auto simp: list_all_iff)
  then have e1: "ent w1 ` ?A = ent w ` ?A" using ent1(1) by (auto simp: subset_iff)
  have notin: "?c \<notin> ?A" using j Cons.prems(4,7) by (auto simp: list_all_iff nth_eq_iff_index_eq)
  then have notin_ent: "ent w ?c \<notin> ent w ` ?A" using j(3) sub Cons.prems(8) by (simp add: inj_on_image_mem_iff)
  have "\<exists>l'. each_vcpu stop_one w1 r js = Some ((upd_vcpus w1 ?A halted)\<lparr>links := l'\<rparr>) \<and>
      sched_inv ((upd_vcpus w1 ?A halted)\<lparr>links := l'\<rparr>) (without (ent w1 ` ?A) (without {ent w ?c} qs)) \<and> dom l' = dom (links w1)"
  proof (rule Cons.IH)
    show "sched_inv w1 (without {ent w ?c} qs)" using inv by (simp add: w1_def)
    show "ent w1 ` ?A \<subseteq> set (concat (without {ent w ?c} qs))" unfolding e1 without_simps(3) using Cons.prems(2) notin_ent by (simp only: subset_Diff_insert Diff_empty image_insert list.set insert_subset simp_thms)
    show "inj_on (ent w1) (set xs)" using Cons.prems(8) ent1(1) by (simp add: inj_on_def)
    show "list_all (schedulable w1) xs" using Cons.prems(9) ent1(2) by (simp add: list_all_iff)
  qed (use Cons.prems in \<open>simp_all add: w1_def\<close>)
  then obtain l' where l': "each_vcpu stop_one w1 r js = Some ((upd_vcpus w1 ?A halted)\<lparr>links := l'\<rparr>)"
    "sched_inv ((upd_vcpus w1 ?A halted)\<lparr>links := l'\<rparr>) (without (ent w1 ` ?A) (without {ent w ?c} qs))" "dom l' = dom l" by (auto simp: w1_def)
  have "upd_vcpus w1 ?A halted = (upd_vcpus w ((!) xs ` set (j # js)) halted)\<lparr>links := l\<rparr>"
    using notin by (auto simp: upd_vcpus_def w1_def upd_vcpu_def fun_eq_iff)
  moreover have "stop_one w (Some ?c) = Some w1" using s by (simp add: stop_one_def w1_def)
  ultimately show ?case using Cons.prems(5,6) j l' e1 dl by (intro exI [of _ l']) (simp add: vcpu_at_def)
qed

lemma vm_stop_effect:
  assumes vm: "vm_with w r m xs" "state m = VM_STATE_RUNNING" and inv: "sched_inv w qs"
    and v: "list_all (schedulable w) xs" "inj_on (ent w) (set xs)" "ent w ` set xs \<subseteq> set (concat qs)"
  shows "\<exists>l. vm_stop w (Some r) =
      Some (NEXUSVM_OK, upd_vm ((upd_vcpus w (set xs) halted)\<lparr>links := l\<rparr>) r (\<lambda>m. m\<lparr>state := VM_STATE_SHUTDOWN\<rparr>)) \<and>
    sched_inv (w\<lparr>links := l\<rparr>) (without (ent w ` set xs) qs) \<and> dom l = dom (links w)"
proof -
  have img: "(!) xs ` set [0..<length xs] = set xs" using nth_image [of "length xs" xs] by simp
  have m: "vm_objs w r = Some m" "vcpus m = Some (map Some xs)" "distinct xs" "vcpu_numbers m = [0..<length xs]"
    using vm(1) by (auto simp: vm_with_def vcpu_numbers_def)
  from each_stop [OF m(1-3) v(2,1) inv, of "[0..<length xs]", unfolded img] v(3) obtain l where
    l: "each_vcpu stop_one w r (vcpu_numbers m) = Some ((upd_vcpus w (set xs) halted)\<lparr>links := l\<rparr>)"
      "sched_inv ((upd_vcpus w (set xs) halted)\<lparr>links := l\<rparr>) (without (ent w ` set xs) qs)" "dom l = dom (links w)"
    by (auto simp: m(4) list_all_iff)
  then show ?thesis using m(1) vm(2)
    by (intro exI [of _ l]) (simp add: vm_stop_def upd_vcpus_def sched_inv_def)
qed

text \<open>C6. Stopping a running machine whose virtual CPUs are on the run queues returns success: every one of them stops and its entity leaves
  its queue, the entities of the other machines stay queued in their order, the scheduler invariant holds,
  and the machine is shut down.\<close>

theorem vm_stop_dequeues:
  assumes vm: "vm_with w r m xs" "state m = VM_STATE_RUNNING" and inv: "sched_inv w qs"
    and v: "list_all (schedulable w) xs" "inj_on (ent w) (set xs)" "ent w ` set xs \<subseteq> set (concat qs)"
  shows "\<exists>w'. vm_stop w (Some r) = Some (NEXUSVM_OK, w') \<and> sched_inv w' (without (ent w ` set xs) qs) \<and>
    vm_objs w' = (vm_objs w)(r \<mapsto> m\<lparr>state := VM_STATE_SHUTDOWN\<rparr>) \<and>
    vcpu_objs w' = (\<lambda>c. if c \<in> set xs then map_option halted (vcpu_objs w c) else vcpu_objs w c)"
proof -
  from vm_stop_effect [OF assms] obtain l where
    l: "vm_stop w (Some r) =
      Some (NEXUSVM_OK, upd_vm ((upd_vcpus w (set xs) halted)\<lparr>links := l\<rparr>) r (\<lambda>m. m\<lparr>state := VM_STATE_SHUTDOWN\<rparr>))"
      "sched_inv (w\<lparr>links := l\<rparr>) (without (ent w ` set xs) qs)" by blast
  then show ?thesis using vm(1) by (auto simp: vm_with_def upd_vm_def upd_vcpus_def sched_inv_def)
qed

text \<open>Two of the three queued virtual CPUs belong to the machine.\<close>

definition duo :: nexusvm where
  "duo = zero_vm\<lparr>vcpus := Some [Some 20, Some 22], vcpu_count := 2, state := VM_STATE_RUNNING\<rparr>"

definition duo_world :: world where
  "duo_world = demo_world\<lparr>vm_objs := [31 \<mapsto> duo]\<rparr>"

lemma duo_facts:
  "vm_with duo_world 31 duo [20, 22]" "state duo = VM_STATE_RUNNING" "sched_inv duo_world demo_queues"
  "list_all (schedulable duo_world) [20, 22]" "ent duo_world 20 = 10" "ent duo_world 22 = 12"
proof -
  show "vm_with duo_world 31 duo [20, 22]" "state duo = VM_STATE_RUNNING"
    by (simp_all add: vm_with_def duo_world_def duo_def demo_world_def)
  show "sched_inv duo_world demo_queues" using demo_inv by (simp add: duo_world_def sched_inv_def)
  show "list_all (schedulable duo_world) [20, 22]" "ent duo_world 20 = 10" "ent duo_world 22 = 12"
    by (simp_all add: schedulable_def ent_def duo_world_def demo_world_def demo_vcpu_def vcpu_cpu_def zero_vcpu_def)
qed

lemma vm_stop_dequeues_witness: "\<exists>w'. vm_stop duo_world (Some 31) = Some (NEXUSVM_OK, w') \<and> sched_inv w' [[11], []]"
proof -
  have "inj_on (ent duo_world) (set [20, 22])" "ent duo_world ` set [20, 22] \<subseteq> set (concat demo_queues)"
    by (simp_all add: duo_facts)
  from vm_stop_dequeues [OF duo_facts(1-4) this] show ?thesis by (auto simp: duo_facts without_def)
qed

section \<open>Starting\<close>

text \<open>A stopped virtual CPU that was set up before, with a live entity that is on no queue.\<close>

definition startable :: "world \<Rightarrow> ref list list \<Rightarrow> ref \<Rightarrow> bool" where
  "startable w qs c \<longleftrightarrow> schedulable w c \<and> initialized (the (vcpu_objs w c)) \<and> \<not> running (the (vcpu_objs w c)) \<and> vm (the (vcpu_objs w c)) \<noteq> None \<and>
     entity_objs w (ent w c) \<noteq> None \<and> ent w c < next_ref w \<and> SE (ent w c) \<in> dom (links w) \<and> ent w c \<notin> set (concat qs)"

abbreviation launched :: "nexusvcpu \<Rightarrow> nexusvcpu" where
  "launched v \<equiv> v\<lparr>running := True\<rparr>"

lemma concat_update_append: "i < length qs \<Longrightarrow> set (concat (qs[i := qs ! i @ [e]])) = insert e (set (concat qs))"
proof (induction qs arbitrary: i)
  case (Cons q qs)
  then show ?case by (cases i) auto
qed simp

lemma vcpu_start_stopped:
  assumes inv: "sched_inv w qs" and c: "startable w qs c"
  shows "\<exists>l qs'. vcpu_start pf w (Some c) = Some (NEXUSVM_OK, (upd_vcpu w c launched)\<lparr>links := l\<rparr>) \<and>
    sched_inv ((upd_vcpu w c launched)\<lparr>links := l\<rparr>) qs' \<and> set (concat qs') = insert (ent w c) (set (concat qs)) \<and> dom l = dom (links w)"
proof -
  let ?w = "upd_vcpu w c launched"
  obtain v cpu where v: "vcpu_objs w c = Some v" "vcpu_cpu w v = Some cpu" "entity v = Some (ent w c)" "initialized v" "\<not> running v" "vm v \<noteq> None"
    using c by (auto simp: startable_def schedulable_def ent_def split: option.splits)
  have inv': "sched_inv ?w qs" using inv by (simp add: sched_inv_upd_vcpu)
  have cpu: "vcpu_cpu ?w (launched v) = vcpu_cpu w v" by (simp add: upd_vcpu_def vcpu_cpu_def)
  have v': "vcpu_objs ?w c = Some (launched v)" "vcpu_cpu ?w (launched v) = Some cpu" "entity (launched v) = Some (ent w c)"
    using v(1-3) cpu by (simp_all, simp add: upd_vcpu_def)
  have n: "unat cpu < length qs" by (rule vcpu_cpu_bound [OF inv v(2)])
  have "\<exists>l. scheduler_add_vcpu (objs_av pf) ?w (Some c) = Some (NEXUSVM_OK, ?w\<lparr>links := l\<rparr>) \<and>
    sched_inv (?w\<lparr>links := l\<rparr>) (qs[unat cpu := qs ! unat cpu @ [ent w c]]) \<and> dom l = dom (links ?w)"
    by (rule add_existing [OF inv' v']) (use c in \<open>auto simp: startable_def upd_vcpu_def\<close>)
  then obtain l where l: "scheduler_add_vcpu (objs_av pf) ?w (Some c) = Some (NEXUSVM_OK, ?w\<lparr>links := l\<rparr>)"
    "sched_inv (?w\<lparr>links := l\<rparr>) (qs[unat cpu := qs ! unat cpu @ [ent w c]])" "dom l = dom (links w)" by (auto simp: upd_vcpu_def)
  have "vcpu_start pf w (Some c) = Some (NEXUSVM_OK, ?w\<lparr>links := l\<rparr>)" using v l(1) by (auto simp: vcpu_start_def)
  moreover have "set (concat (qs[unat cpu := qs ! unat cpu @ [ent w c]])) = insert (ent w c) (set (concat qs))"
    using n by (rule concat_update_append)
  ultimately show ?thesis using l(2,3) by blast
qed

lemma start_all:
  assumes "vm_objs w r = Some m" "vcpus m = Some (map Some xs)" "distinct xs" "inj_on (ent w) (set xs)"
  shows "sched_inv w qs \<Longrightarrow> list_all (\<lambda>i. i < length xs \<and> startable w qs (xs ! i)) js \<Longrightarrow> distinct js \<Longrightarrow>
    \<exists>l qs'. start_vcpus pf w r js = Some (NEXUSVM_OK, (upd_vcpus w ((!) xs ` set js) launched)\<lparr>links := l\<rparr>) \<and>
      sched_inv ((upd_vcpus w ((!) xs ` set js) launched)\<lparr>links := l\<rparr>) qs' \<and>
      set (concat qs') = ent w ` (!) xs ` set js \<union> set (concat qs) \<and> dom l = dom (links w)"
  using assms
proof (induction js arbitrary: w qs)
  case Nil
  then show ?case by (intro exI [of _ "links w"] exI [of _ qs]) (simp add: upd_vcpus_def)
next
  case (Cons j js)
  let ?c = "xs ! j" and ?A = "(!) xs ` set js"
  have j: "j < length xs" "j \<notin> set js" "startable w qs ?c" using Cons.prems by simp_all
  from vcpu_start_stopped [OF Cons.prems(1) j(3), of pf] obtain l qs1 where
    s: "vcpu_start pf w (Some ?c) = Some (NEXUSVM_OK, (upd_vcpu w ?c launched)\<lparr>links := l\<rparr>)" and
    inv: "sched_inv ((upd_vcpu w ?c launched)\<lparr>links := l\<rparr>) qs1" "set (concat qs1) = insert (ent w ?c) (set (concat qs))" "dom l = dom (links w)"
    by blast
  define w1 where "w1 = (upd_vcpu w ?c launched)\<lparr>links := l\<rparr>"
  have ent1: "ent w1 d = ent w d" for d by (cases "vcpu_objs w d") (auto simp: ent_def w1_def upd_vcpu_def)
  have live: "vcpu_objs w (xs ! i) \<noteq> None" "i < length xs" if "i \<in> set (j # js)" for i
    using that Cons.prems(2) by (auto simp: list_all_iff startable_def schedulable_def split: option.splits)
  have e1: "ent w1 ` ?A = ent w ` ?A" by (simp add: ent1)
  have notin: "?c \<notin> ?A" using j live Cons.prems(6) by (auto simp: nth_eq_iff_index_eq)
  have "\<exists>l' qs'. start_vcpus pf w1 r js = Some (NEXUSVM_OK, (upd_vcpus w1 ?A launched)\<lparr>links := l'\<rparr>) \<and>
      sched_inv ((upd_vcpus w1 ?A launched)\<lparr>links := l'\<rparr>) qs' \<and> set (concat qs') = ent w1 ` ?A \<union> set (concat qs1) \<and> dom l' = dom (links w1)"
  proof (rule Cons.IH)
    show "sched_inv w1 qs1" using inv(1) by (simp add: w1_def)
    have "startable w1 qs1 (xs ! i)" if i: "i \<in> set js" for i
    proof -
      have "xs ! i \<noteq> ?c" using notin i by (metis imageI)
      moreover from this have "ent w (xs ! i) \<noteq> ent w ?c" using Cons.prems(7) live [of i] j(1) i by (auto dest: inj_onD)
      moreover have st: "startable w qs (xs ! i)" using Cons.prems(2) i by (simp add: list_all_iff)
      moreover have "SE (ent w (xs ! i)) \<in> dom l" unfolding inv(3) using st by (simp add: startable_def)
      ultimately show ?thesis
        by (auto simp: startable_def schedulable_def ent1 inv(2) simp del: set_concat split: option.splits)
           (auto simp: w1_def upd_vcpu_def vcpu_cpu_def inv(3) simp del: set_concat)
    qed
    then show "list_all (\<lambda>i. i < length xs \<and> startable w1 qs1 (xs ! i)) js" using live by (simp add: list_all_iff)
    show "inj_on (ent w1) (set xs)" using Cons.prems(7) by (simp add: inj_on_def ent1)
  qed (use Cons.prems in \<open>simp_all add: w1_def\<close>)
  then obtain l' qs' where l': "start_vcpus pf w1 r js = Some (NEXUSVM_OK, (upd_vcpus w1 ?A launched)\<lparr>links := l'\<rparr>)"
    "sched_inv ((upd_vcpus w1 ?A launched)\<lparr>links := l'\<rparr>) qs'" "set (concat qs') = ent w1 ` ?A \<union> set (concat qs1)" "dom l' = dom (links w)" using inv(3) by (auto simp: w1_def)
  have "upd_vcpus w1 ?A launched = (upd_vcpus w ((!) xs ` set (j # js)) launched)\<lparr>links := l\<rparr>"
    using notin by (auto simp: upd_vcpus_def w1_def upd_vcpu_def fun_eq_iff)
  moreover have "vcpu_start pf w (Some ?c) = Some (NEXUSVM_OK, w1)" using s by (simp add: w1_def)
  ultimately show ?case using Cons.prems(4,5) j l' e1 inv(2)
    by (intro exI [of _ l'] exI [of _ qs']) (simp add: vcpu_at_def del: concat.simps set_concat)
qed

lemma vm_start_effect:
  assumes vm: "vm_with w r m xs" "state m \<in> {VM_STATE_INITIALIZED, VM_STATE_SHUTDOWN}" and inv: "sched_inv w qs"
    and v: "list_all (startable w qs) xs" "inj_on (ent w) (set xs)"
  shows "\<exists>l qs'. vm_start pf w (Some r) =
      Some (NEXUSVM_OK, upd_vm ((upd_vcpus w (set xs) launched)\<lparr>links := l\<rparr>) r (\<lambda>m. m\<lparr>state := VM_STATE_RUNNING\<rparr>)) \<and>
    sched_inv (w\<lparr>links := l\<rparr>) qs' \<and> set (concat qs') = ent w ` set xs \<union> set (concat qs) \<and> dom l = dom (links w)"
proof -
  have img: "(!) xs ` set [0..<length xs] = set xs" using nth_image [of "length xs" xs] by simp
  have m: "vm_objs w r = Some m" "vcpus m = Some (map Some xs)" "distinct xs" "vcpu_numbers m = [0..<length xs]"
    using vm(1) by (auto simp: vm_with_def vcpu_numbers_def)
  have "list_all (\<lambda>i. i < length xs \<and> startable w qs (xs ! i)) [0..<length xs]" using v(1) by (auto simp: list_all_iff)
  from start_all [OF m(1-3) v(2) inv this, of pf, unfolded img] obtain l qs' where
    l: "start_vcpus pf w r (vcpu_numbers m) = Some (NEXUSVM_OK, (upd_vcpus w (set xs) launched)\<lparr>links := l\<rparr>)"
      "sched_inv ((upd_vcpus w (set xs) launched)\<lparr>links := l\<rparr>) qs'" "set (concat qs') = ent w ` set xs \<union> set (concat qs)"
      "dom l = dom (links w)"
    by (auto simp: m(4) simp del: set_concat)
  then show ?thesis using m(1) vm(2)
    by (intro exI [of _ l] exI [of _ qs']) (auto simp: vm_start_def upd_vcpus_def sched_inv_def simp del: set_concat)
qed

text \<open>C26. Starting a machine that was shut down or is new to the run queues, with virtual CPUs that have been set up and whose entities are
  on no queue, returns success: every virtual CPU runs, every one of their entities is on a queue together with
  those that were there, the scheduler invariant holds, and the machine is running.\<close>

theorem vm_start_queues:
  assumes vm: "vm_with w r m xs" "state m \<in> {VM_STATE_INITIALIZED, VM_STATE_SHUTDOWN}" and inv: "sched_inv w qs"
    and v: "list_all (startable w qs) xs" "inj_on (ent w) (set xs)"
  shows "\<exists>w' qs'. vm_start pf w (Some r) = Some (NEXUSVM_OK, w') \<and> sched_inv w' qs' \<and> set (concat qs') = ent w ` set xs \<union> set (concat qs) \<and>
    vm_objs w' = (vm_objs w)(r \<mapsto> m\<lparr>state := VM_STATE_RUNNING\<rparr>) \<and>
    vcpu_objs w' = (\<lambda>c. if c \<in> set xs then map_option launched (vcpu_objs w c) else vcpu_objs w c)"
proof -
  from vm_start_effect [OF assms, of pf] obtain l qs' where
    l: "vm_start pf w (Some r) =
      Some (NEXUSVM_OK, upd_vm ((upd_vcpus w (set xs) launched)\<lparr>links := l\<rparr>) r (\<lambda>m. m\<lparr>state := VM_STATE_RUNNING\<rparr>))"
      "sched_inv (w\<lparr>links := l\<rparr>) qs'" "set (concat qs') = ent w ` set xs \<union> set (concat qs)" by blast
  then show ?thesis using vm(1)
    by (auto simp: vm_with_def upd_vm_def upd_vcpus_def sched_inv_def simp del: set_concat)
qed

definition solo_vm :: nexusvm where
  "solo_vm = zero_vm\<lparr>vcpus := Some [Some 24], vcpu_count := 1, state := VM_STATE_SHUTDOWN\<rparr>"

definition solo_world :: world where
  "solo_world = demo_world\<lparr>vm_objs := [31 \<mapsto> solo_vm], vcpu_objs := [24 \<mapsto> (demo_vcpu 4 (Some 13))\<lparr>initialized := True\<rparr>]\<rparr>"

lemma vm_start_queues_witness:
  "\<exists>w' qs'. vm_start demo_platform solo_world (Some 31) = Some (NEXUSVM_OK, w') \<and> sched_inv w' qs' \<and> set (concat qs') = {10, 11, 12, 13}"
proof -
  have vm: "vm_with solo_world 31 solo_vm [24]" "state solo_vm \<in> {VM_STATE_INITIALIZED, VM_STATE_SHUTDOWN}"
    by (simp_all add: vm_with_def solo_world_def solo_vm_def)
  have inv: "sched_inv solo_world demo_queues" using demo_inv by (simp add: solo_world_def sched_inv_def)
  have e: "ent solo_world 24 = 13" by (simp add: ent_def solo_world_def demo_vcpu_def)
  have v: "list_all (startable solo_world demo_queues) [24]" "inj_on (ent solo_world) (set [24])"
    by (simp_all add: startable_def e, simp add: schedulable_def solo_world_def demo_world_def demo_vcpu_def vcpu_cpu_def zero_vcpu_def)
  from vm_start_queues [OF vm inv v, of demo_platform] show ?thesis by (auto simp: e insert_commute)
qed

end
