(* ===== verification/Vm_Lifecycle.thy ===== *)
theory Vm_Lifecycle
  imports Vm_Scheduling
begin

text \<open>
  Several machines on one scheduler. \<open>fleet_inv\<close> says which entities are on the run queues: exactly those of the machines
  that are running or paused, each once. Over every sequence of operations that does not start or reset a paused machine, each
  operation returns with the result of the abstract machine and keeps the invariant. The other two operations break it: what happens then
  is the last part.
\<close>

section \<open>The invariant of a set of machines\<close>

definition settled :: "world \<Rightarrow> ref \<Rightarrow> bool" where
  "settled w c \<longleftrightarrow> schedulable w c \<and> initialized (the (vcpu_objs w c)) \<and> vm (the (vcpu_objs w c)) \<noteq> None \<and>
     entity_objs w (ent w c) \<noteq> None \<and> ent w c < next_ref w \<and> SE (ent w c) \<in> dom (links w)"

definition mstate :: "world \<Rightarrow> ref \<Rightarrow> vm_state" where
  "mstate w r = state (the (vm_objs w r))"

definition crew :: "(ref \<Rightarrow> ref list) \<Rightarrow> ref set \<Rightarrow> ref set" where
  "crew vc R = (\<Union>r\<in>R. set (vc r))"

definition queued_states :: "vm_state set" where
  "queued_states = {VM_STATE_RUNNING, VM_STATE_PAUSED}"

definition active :: "world \<Rightarrow> ref set \<Rightarrow> ref set" where
  "active w A = {r \<in> A. mstate w r \<in> queued_states}"

text \<open>\<open>A\<close> is the set of machines, \<open>vc r\<close> the virtual CPUs of the machine \<open>r\<close>, \<open>qs\<close> the run queues.\<close>

definition fleet_inv :: "world \<Rightarrow> ref set \<Rightarrow> (ref \<Rightarrow> ref list) \<Rightarrow> ref list list \<Rightarrow> bool" where
  "fleet_inv w A vc qs \<longleftrightarrow>
     sched_inv w qs \<and> finite (crew vc A) \<and> card (crew vc A) < 2 ^ 32 - 3 \<and> inj_on (ent w) (crew vc A) \<and>
     (\<forall>r\<in>A. \<forall>q\<in>A. r \<noteq> q \<longrightarrow> set (vc r) \<inter> set (vc q) = {}) \<and>
     (\<forall>r\<in>A. vm_with w r (the (vm_objs w r)) (vc r) \<and> mstate w r \<in> live_states \<and>
       (\<forall>c\<in>set (vc r). settled w c \<and> (running (the (vcpu_objs w c)) \<longleftrightarrow> mstate w r = VM_STATE_RUNNING))) \<and>
     set (concat qs) = ent w ` crew vc (active w A)"

lemma fleet_inv_D:
  assumes "fleet_inv w A vc qs" "r \<in> A"
  shows "sched_inv w qs" "vm_with w r (the (vm_objs w r)) (vc r)" "mstate w r \<in> live_states" "inj_on (ent w) (crew vc A)"
    "set (concat qs) = ent w ` crew vc (active w A)" "vm_objs w r = Some (the (vm_objs w r))"
    "c \<in> set (vc r) \<Longrightarrow> settled w c" "c \<in> set (vc r) \<Longrightarrow> running (the (vcpu_objs w c)) \<longleftrightarrow> mstate w r = VM_STATE_RUNNING"
  using assms by (auto simp: fleet_inv_def vm_with_def)

lemma crew_simps [simp]: "crew vc {} = {}" "crew vc (insert r R) = set (vc r) \<union> crew vc R"
  by (auto simp: crew_def)

lemma crew_mono: "R \<subseteq> S \<Longrightarrow> crew vc R \<subseteq> crew vc S"
  by (auto simp: crew_def)

lemma crew_without:
  assumes "fleet_inv w A vc qs" "r \<in> A" "R \<subseteq> A"
  shows "crew vc (R - {r}) = crew vc R - set (vc r)"
proof -
  have "set (vc q) \<inter> set (vc r) = {}" if "q \<in> A" "q \<noteq> r" for q
    using assms(1,2) that unfolding fleet_inv_def by blast
  with assms(3) show ?thesis unfolding crew_def by blast
qed

lemma active_subset: "active w A \<subseteq> A"
  by (auto simp: active_def)

text \<open>A parked virtual CPU has no entity on a queue.\<close>

lemma parked_not_queued:
  assumes f: "fleet_inv w A vc qs" and r: "r \<in> A" "mstate w r \<notin> queued_states" and c: "c \<in> set (vc r)"
  shows "ent w c \<notin> set (concat qs)"
proof
  assume "ent w c \<in> set (concat qs)"
  then obtain d q where d: "q \<in> active w A" "d \<in> set (vc q)" "ent w c = ent w d"
    unfolding fleet_inv_D(5) [OF f r(1)] by (auto simp: crew_def)
  have "c \<in> crew vc A" "d \<in> crew vc A" using r(1) c d active_subset by (auto simp: crew_def)
  with fleet_inv_D(4) [OF f r(1)] d(3) have "c = d" by (auto dest: inj_onD)
  moreover have "q \<in> A" "q \<noteq> r" using d(1) r(2) by (auto simp: active_def)
  ultimately show False using f r(1) c d(2) unfolding fleet_inv_def by blast
qed

section \<open>One operation\<close>

text \<open>An update that leaves alone what the scheduler looks at.\<close>

definition keeps :: "(nexusvcpu \<Rightarrow> nexusvcpu) \<Rightarrow> bool" where
  "keeps f \<longleftrightarrow> (\<forall>v. initialized (f v) = initialized v \<and> vm (f v) = vm v \<and> entity (f v) = entity v \<and>
     physical_cpu (f v) = physical_cpu v \<and> vcpu_id (f v) = vcpu_id v)"

definition alike :: "world \<Rightarrow> world \<Rightarrow> bool" where
  "alike w w' \<longleftrightarrow> entity_objs w' = entity_objs w \<and> next_ref w' = next_ref w \<and> dom (links w') = dom (links w) \<and>
     g_cpu_count w' = g_cpu_count w \<and> (\<forall>c. \<exists>f. keeps f \<and> vcpu_objs w' c = map_option f (vcpu_objs w c))"

lemma keeps_id: "keeps (\<lambda>v. v)"
  by (simp add: keeps_def)

lemma vcpu_cpu_cong:
  "g_cpu_count w' = g_cpu_count w \<Longrightarrow> physical_cpu v' = physical_cpu v \<Longrightarrow> vcpu_id v' = vcpu_id v \<Longrightarrow> vcpu_cpu w' v' = vcpu_cpu w v"
  by (simp add: vcpu_cpu_def)

lemma alike_settled:
  assumes a: "alike w w'" and s: "settled w c"
  shows "ent w' c = ent w c" "settled w' c" "vcpu_objs w' c \<noteq> None"
proof -
  obtain f where f: "keeps f" "vcpu_objs w' c = map_option f (vcpu_objs w c)" using a unfolding alike_def by blast
  obtain v where v: "vcpu_objs w c = Some v" using s by (auto simp: settled_def schedulable_def split: option.splits)
  show e: "ent w' c = ent w c" using f v by (simp add: ent_def keeps_def)
  show "vcpu_objs w' c \<noteq> None" using f v by simp
  have "vcpu_cpu w' (f v) = vcpu_cpu w v" by (rule vcpu_cpu_cong) (use f(1) a in \<open>simp_all add: keeps_def alike_def\<close>)
  then show "settled w' c" using s f v a e by (simp add: settled_def schedulable_def keeps_def alike_def)
qed

lemma fleet_inv_step:
  assumes f: "fleet_inv w A vc qs" and r: "r \<in> A" and a: "alike w w'" and inv: "sched_inv w' qs'"
    and vms: "vm_objs w' = (vm_objs w)(r \<mapsto> (the (vm_objs w r))\<lparr>state := s\<rparr>)" "s \<in> live_states"
    and run: "\<And>c. c \<in> crew vc A \<Longrightarrow> running (the (vcpu_objs w' c)) \<longleftrightarrow>
      (if c \<in> set (vc r) then s = VM_STATE_RUNNING else running (the (vcpu_objs w c)))"
    and q: "set (concat qs') = ent w ` (if s \<in> queued_states then set (vc r) \<union> crew vc (active w A) else crew vc (active w A) - set (vc r))"
  shows "fleet_inv w' A vc qs'" "mstate w' = (mstate w)(r := s)"
proof -
  show ms: "mstate w' = (mstate w)(r := s)" using vms by (auto simp: mstate_def)
  have set: "c \<in> crew vc A \<Longrightarrow> settled w c" for c using fleet_inv_D(7) [OF f] by (auto simp: crew_def)
  note al = alike_settled [OF a set]
  have "active w' A = (if s \<in> queued_states then insert r (active w A) else active w A - {r})"
    using r by (auto simp: active_def ms)
  then have "crew vc (active w' A) = (if s \<in> queued_states then set (vc r) \<union> crew vc (active w A) else crew vc (active w A) - set (vc r))"
    using crew_without [OF f r active_subset] by simp
  moreover have "ent w' ` crew vc (active w' A) = ent w ` crew vc (active w' A)"
    using al(1) crew_mono [OF active_subset] by (force intro!: image_cong)
  ultimately have queue: "set (concat qs') = ent w' ` crew vc (active w' A)" using q by simp
  have mem: "c \<in> crew vc A" if "x \<in> A" "c \<in> set (vc x)" for x c using that by (auto simp: crew_def)
  have vm: "vm_with w' x (the (vm_objs w' x)) (vc x)" if x: "x \<in> A" for x
    using fleet_inv_D(2) [OF f x] al(3) mem [OF x] vms(1) by (auto simp: vm_with_def list_all_iff)
  have "inj_on (ent w') (crew vc A)" using fleet_inv_D(4) [OF f r] al(1) by (simp add: inj_on_def)
  moreover have "running (the (vcpu_objs w' c)) \<longleftrightarrow> mstate w' x = VM_STATE_RUNNING" if x: "x \<in> A" and c: "c \<in> set (vc x)" for x c
    using run [OF mem [OF x c]] fleet_inv_D(8) [OF f x c] f r x c by (auto simp: ms fleet_inv_def)
  ultimately show "fleet_inv w' A vc qs'"
    using f inv vm queue al(2) mem vms(2) by (auto simp: fleet_inv_def ms simp del: set_concat)
qed

text \<open>The shape that every successful operation has.\<close>

lemma fleet_inv_update:
  assumes f: "fleet_inv w A vc qs" and r: "r \<in> A" and k: "keeps g" and s: "s \<in> live_states"
    and w': "w' = upd_vm ((upd_vcpus w (set (vc r)) g)\<lparr>links := l\<rparr>) r (\<lambda>m. m\<lparr>state := s\<rparr>)"
    and l: "sched_inv (w\<lparr>links := l\<rparr>) qs'" "dom l = dom (links w)"
    and run: "\<And>c. c \<in> set (vc r) \<Longrightarrow> running (g (the (vcpu_objs w c))) \<longleftrightarrow> s = VM_STATE_RUNNING"
    and q: "set (concat qs') = ent w ` (if s \<in> queued_states then set (vc r) \<union> crew vc (active w A) else crew vc (active w A) - set (vc r))"
  shows "fleet_inv w' A vc qs'" "mstate w' = (mstate w)(r := s)"
proof -
  have vcs: "vcpu_objs w' = (\<lambda>c. if c \<in> set (vc r) then map_option g (vcpu_objs w c) else vcpu_objs w c)"
    by (simp add: w' upd_vm_def upd_vcpus_def)
  have a: "alike w w'" unfolding alike_def
  proof (intro conjI allI)
    fix c
    show "\<exists>f. keeps f \<and> vcpu_objs w' c = map_option f (vcpu_objs w c)"
      using k keeps_id by (cases "c \<in> set (vc r)") (auto simp: vcs option.map_ident)
  qed (simp_all add: w' upd_vm_def upd_vcpus_def l(2))
  have inv: "sched_inv w' qs'" using l(1) by (simp add: sched_inv_def w' upd_vm_def upd_vcpus_def)
  have vms: "vm_objs w' = (vm_objs w)(r \<mapsto> (the (vm_objs w r))\<lparr>state := s\<rparr>)"
    using fleet_inv_D(6) [OF f r] by (simp add: w' upd_vm_def upd_vcpus_def) (metis option.map(2))
  have live: "vcpu_objs w c \<noteq> None" if "c \<in> set (vc r)" for c
    using fleet_inv_D(2) [OF f r] that by (auto simp: vm_with_def list_all_iff)
  have "running (the (vcpu_objs w' c)) \<longleftrightarrow> (if c \<in> set (vc r) then s = VM_STATE_RUNNING else running (the (vcpu_objs w c)))" for c
    using run live by (auto simp: vcs option.map_sel)
  from fleet_inv_step [OF f r a inv vms s this q] show "fleet_inv w' A vc qs'" "mstate w' = (mstate w)(r := s)" by auto
qed

lemma fleet_unchanged:
  assumes "fleet_inv w A vc qs" "run_op pf op w (Some r) = Some (fst (vm_machine op (mstate w r)), w)"
    "snd (vm_machine op (mstate w r)) = mstate w r"
  shows "\<exists>w' qs'. run_op pf op w (Some r) = Some (fst (vm_machine op (mstate w r)), w') \<and> fleet_inv w' A vc qs' \<and>
    mstate w' = (mstate w)(r := snd (vm_machine op (mstate w r)))"
  using assms by (intro exI [of _ w] exI [of _ qs]) simp

lemma fleet_queue_sets:
  assumes f: "fleet_inv w A vc qs" and r: "r \<in> A"
  shows "ent w ` set (vc r) \<union> set (concat qs) = ent w ` (set (vc r) \<union> crew vc (active w A))"
    "set (concat qs) - ent w ` set (vc r) = ent w ` (crew vc (active w A) - set (vc r))"
    "mstate w r \<in> queued_states \<Longrightarrow> set (concat qs) = ent w ` (set (vc r) \<union> crew vc (active w A))"
    "mstate w r \<notin> queued_states \<Longrightarrow> set (concat qs) = ent w ` (crew vc (active w A) - set (vc r))"
    "mstate w r \<in> queued_states \<Longrightarrow> ent w ` set (vc r) \<subseteq> set (concat qs)"
proof -
  note q = fleet_inv_D(5) [OF f r]
  have sub: "set (vc r) \<subseteq> crew vc A" "crew vc (active w A) \<subseteq> crew vc A" using r active_subset by (auto simp: crew_def)
  show "ent w ` set (vc r) \<union> set (concat qs) = ent w ` (set (vc r) \<union> crew vc (active w A))" by (simp only: q image_Un)
  have i: "inj_on (ent w) (set (vc r) \<union> crew vc (active w A))" by (rule inj_on_subset [OF fleet_inv_D(4) [OF f r] Un_least [OF sub]])
  then show d: "set (concat qs) - ent w ` set (vc r) = ent w ` (crew vc (active w A) - set (vc r))"
    unfolding q by (rule inj_on_image_set_diff [symmetric]) auto
  show "set (concat qs) = ent w ` (crew vc (active w A) - set (vc r))" if "mstate w r \<notin> queued_states"
  proof -
    have "ent w ` set (vc r) \<inter> set (concat qs) = {}" using parked_not_queued [OF f r that] by (auto simp del: set_concat)
    then show ?thesis using d by (simp only: Diff_triv Int_commute)
  qed
  show "set (concat qs) = ent w ` (set (vc r) \<union> crew vc (active w A))" "ent w ` set (vc r) \<subseteq> set (concat qs)"
    if "mstate w r \<in> queued_states"
  proof -
    have "set (vc r) \<subseteq> crew vc (active w A)" using that r by (auto simp: crew_def active_def)
    then show "set (concat qs) = ent w ` (set (vc r) \<union> crew vc (active w A))" "ent w ` set (vc r) \<subseteq> set (concat qs)"
      by (simp_all only: q Un_absorb1 image_mono)
  qed
qed

lemma fleet_list_all:
  assumes f: "fleet_inv w A vc qs" and r: "r \<in> A"
  shows "list_all (schedulable w) (vc r)" "inj_on (ent w) (set (vc r))"
    "mstate w r \<notin> queued_states \<Longrightarrow> list_all (startable w qs) (vc r)"
proof -
  show "list_all (schedulable w) (vc r)" using fleet_inv_D(7) [OF f r] by (auto simp: list_all_iff settled_def)
  show "inj_on (ent w) (set (vc r))" using fleet_inv_D(4) [OF f r] r by (auto simp: crew_def intro: inj_on_subset)
  show "list_all (startable w qs) (vc r)" if p: "mstate w r \<notin> queued_states"
    using fleet_inv_D(7,8) [OF f r] parked_not_queued [OF f r p] p
    by (auto simp: list_all_iff settled_def startable_def queued_states_def simp del: set_concat)
qed

lemmas state_sets = queued_states_def live_states_def

lemma fleet_start:
  assumes f: "fleet_inv w A vc qs" and r: "r \<in> A" and s: "mstate w r \<in> {VM_STATE_INITIALIZED, VM_STATE_SHUTDOWN}"
  shows "\<exists>w' qs'. vm_start pf w (Some r) = Some (NEXUSVM_OK, w') \<and> fleet_inv w' A vc qs' \<and> mstate w' = (mstate w)(r := VM_STATE_RUNNING)"
proof -
  have s': "state (the (vm_objs w r)) \<in> {VM_STATE_INITIALIZED, VM_STATE_SHUTDOWN}" "mstate w r \<notin> queued_states"
    using s by (auto simp: mstate_def queued_states_def)
  obtain l qs' where l: "vm_start pf w (Some r) =
      Some (NEXUSVM_OK, upd_vm ((upd_vcpus w (set (vc r)) launched)\<lparr>links := l\<rparr>) r (\<lambda>m. m\<lparr>state := VM_STATE_RUNNING\<rparr>))"
      "sched_inv (w\<lparr>links := l\<rparr>) qs'" "set (concat qs') = ent w ` set (vc r) \<union> set (concat qs)" "dom l = dom (links w)"
    using vm_start_effect [OF fleet_inv_D(2) [OF f r] s'(1) fleet_inv_D(1) [OF f r] fleet_list_all(3) [OF f r s'(2)] fleet_list_all(2) [OF f r]]
    by blast
  have k: "keeps launched" "VM_STATE_RUNNING \<in> live_states" by (simp_all add: keeps_def live_states_def)
  have q: "set (concat qs') = ent w ` (if VM_STATE_RUNNING \<in> queued_states then set (vc r) \<union> crew vc (active w A) else crew vc (active w A) - set (vc r))"
    using l(3) fleet_queue_sets(1) [OF f r] by (simp add: queued_states_def del: set_concat)
  show ?thesis using fleet_inv_update [OF f r k refl l(2,4) _ q] l(1) by auto
qed

lemma fleet_stop:
  assumes f: "fleet_inv w A vc qs" and r: "r \<in> A" and s: "mstate w r = VM_STATE_RUNNING"
  shows "\<exists>w' qs'. vm_stop w (Some r) = Some (NEXUSVM_OK, w') \<and> fleet_inv w' A vc qs' \<and> mstate w' = (mstate w)(r := VM_STATE_SHUTDOWN)"
proof -
  have s': "state (the (vm_objs w r)) = VM_STATE_RUNNING" "mstate w r \<in> queued_states" using s by (simp_all add: mstate_def queued_states_def)
  obtain l where l: "vm_stop w (Some r) =
      Some (NEXUSVM_OK, upd_vm ((upd_vcpus w (set (vc r)) halted)\<lparr>links := l\<rparr>) r (\<lambda>m. m\<lparr>state := VM_STATE_SHUTDOWN\<rparr>))"
      "sched_inv (w\<lparr>links := l\<rparr>) (without (ent w ` set (vc r)) qs)" "dom l = dom (links w)"
    using vm_stop_effect [OF fleet_inv_D(2) [OF f r] s'(1) fleet_inv_D(1) [OF f r] fleet_list_all(1,2) [OF f r] fleet_queue_sets(5) [OF f r s'(2)]]
    by blast
  have k: "keeps halted" "VM_STATE_SHUTDOWN \<in> live_states" by (simp_all add: keeps_def live_states_def)
  have q: "set (concat (without (ent w ` set (vc r)) qs)) =
      ent w ` (if VM_STATE_SHUTDOWN \<in> queued_states then set (vc r) \<union> crew vc (active w A) else crew vc (active w A) - set (vc r))"
    unfolding without_simps(3) fleet_queue_sets(2) [OF f r] by (simp add: queued_states_def)
  show ?thesis using fleet_inv_update [OF f r k refl l(2,3) _ q] l(1) by auto
qed

text \<open>The operations that leave the queues alone.\<close>

lemma fleet_flag:
  assumes f: "fleet_inv w A vc qs" and r: "r \<in> A" and k: "keeps g" and s: "s \<in> live_states" "s \<in> queued_states \<longleftrightarrow> mstate w r \<in> queued_states"
    and run: "\<And>c. c \<in> set (vc r) \<Longrightarrow> running (g (the (vcpu_objs w c))) \<longleftrightarrow> s = VM_STATE_RUNNING"
  shows "fleet_inv (upd_vm (upd_vcpus w (set (vc r)) g) r (\<lambda>m. m\<lparr>state := s\<rparr>)) A vc qs"
    "mstate (upd_vm (upd_vcpus w (set (vc r)) g) r (\<lambda>m. m\<lparr>state := s\<rparr>)) = (mstate w)(r := s)"
proof -
  have e: "upd_vm (upd_vcpus w (set (vc r)) g) r (\<lambda>m. m\<lparr>state := s\<rparr>) =
      upd_vm ((upd_vcpus w (set (vc r)) g)\<lparr>links := links w\<rparr>) r (\<lambda>m. m\<lparr>state := s\<rparr>)" by (simp add: upd_vcpus_def)
  have l: "sched_inv (w\<lparr>links := links w\<rparr>) qs" "dom (links w) = dom (links w)" using fleet_inv_D(1) [OF f r] by simp_all
  have q: "set (concat qs) = ent w ` (if s \<in> queued_states then set (vc r) \<union> crew vc (active w A) else crew vc (active w A) - set (vc r))"
    using fleet_queue_sets(3,4) [OF f r] s(2) by (simp del: set_concat)
  show "fleet_inv (upd_vm (upd_vcpus w (set (vc r)) g) r (\<lambda>m. m\<lparr>state := s\<rparr>)) A vc qs"
    "mstate (upd_vm (upd_vcpus w (set (vc r)) g) r (\<lambda>m. m\<lparr>state := s\<rparr>)) = (mstate w)(r := s)"
    using fleet_inv_update [OF f r k s(1) e l run q] by simp_all
qed

lemma fleet_pause:
  assumes f: "fleet_inv w A vc qs" and r: "r \<in> A" and s: "mstate w r = VM_STATE_RUNNING"
  shows "\<exists>w'. vm_pause w (Some r) = Some (NEXUSVM_OK, w') \<and> fleet_inv w' A vc qs \<and> mstate w' = (mstate w)(r := VM_STATE_PAUSED)"
proof -
  let ?g = "\<lambda>v. if running v then v\<lparr>running := False\<rparr> else v"
  have "vm_pause w (Some r) = Some (NEXUSVM_OK, upd_vm (upd_vcpus w (set (vc r)) ?g) r (\<lambda>m. m\<lparr>state := VM_STATE_PAUSED\<rparr>))"
    using fleet_inv_D(6) [OF f r] s each_update_all [OF fleet_inv_D(2) [OF f r], of ?g]
    by (cases "vm_objs w r") (simp_all add: vm_pause_def mstate_def)
  moreover have "keeps ?g" by (simp add: keeps_def)
  ultimately show ?thesis using fleet_flag [OF f r, of ?g VM_STATE_PAUSED] s by (auto simp: state_sets)
qed

lemma fleet_resume:
  assumes f: "fleet_inv w A vc qs" and r: "r \<in> A" and s: "mstate w r = VM_STATE_PAUSED"
  shows "\<exists>w'. vm_resume w (Some r) = Some (NEXUSVM_OK, w') \<and> fleet_inv w' A vc qs \<and> mstate w' = (mstate w)(r := VM_STATE_RUNNING)"
proof -
  let ?g = "\<lambda>v. if initialized v then v\<lparr>running := True\<rparr> else v"
  have "vm_resume w (Some r) = Some (NEXUSVM_OK, upd_vm (upd_vcpus w (set (vc r)) ?g) r (\<lambda>m. m\<lparr>state := VM_STATE_RUNNING\<rparr>))"
    using fleet_inv_D(6) [OF f r] s each_update_all [OF fleet_inv_D(2) [OF f r], of ?g]
    by (cases "vm_objs w r") (simp_all add: vm_resume_def mstate_def)
  moreover have "keeps ?g" by (simp add: keeps_def)
  moreover have "running (?g (the (vcpu_objs w c)))" if "c \<in> set (vc r)" for c
    using fleet_inv_D(7) [OF f r that] by (simp add: settled_def)
  ultimately show ?thesis using fleet_flag [OF f r, of ?g VM_STATE_RUNNING] s by (auto simp: state_sets)
qed

lemma fleet_reset:
  assumes f: "fleet_inv w A vc qs" and r: "r \<in> A" and s: "mstate w r \<noteq> VM_STATE_PAUSED"
  shows "\<exists>w' qs'. vm_reset w (Some r) False = Some (NEXUSVM_OK, w') \<and> fleet_inv w' A vc qs' \<and>
    mstate w' = (mstate w)(r := VM_STATE_SHUTDOWN)"
proof -
  let ?g = "\<lambda>v. v\<lparr>cpu_state_of := reset_state\<rparr>"
  obtain w1 qs1 where w1: "(if state (the (vm_objs w r)) = VM_STATE_RUNNING then map_option snd (vm_stop w (Some r)) else Some w) = Some w1"
    and f1: "fleet_inv w1 A vc qs1" and s1: "mstate w1 r \<in> {VM_STATE_INITIALIZED, VM_STATE_SHUTDOWN}" "mstate w1 = (mstate w)(r := mstate w1 r)"
    and c1: "vcpu_count (the (vm_objs w1 r)) = vcpu_count (the (vm_objs w r))"
  proof (cases "mstate w r = VM_STATE_RUNNING")
    case True
    from fleet_stop [OF f r True] obtain w1 qs1 where st: "vm_stop w (Some r) = Some (NEXUSVM_OK, w1)" "fleet_inv w1 A vc qs1"
      "mstate w1 = (mstate w)(r := VM_STATE_SHUTDOWN)" by blast
    from vm_stop_step [OF fleet_inv_D(6) [OF f r] st(1)] have "vcpu_count (the (vm_objs w1 r)) = vcpu_count (the (vm_objs w r))" by simp
    moreover have "mstate w1 r = VM_STATE_SHUTDOWN" using st(3) by simp
    ultimately show thesis using True st by (intro that [of w1 qs1]) (simp_all add: mstate_def)
  next
    case False
    then have "mstate w r \<in> {VM_STATE_INITIALIZED, VM_STATE_SHUTDOWN}" using s fleet_inv_D(3) [OF f r] by (auto simp: live_states_def)
    then show thesis using False f by (intro that [of w qs]) (simp_all add: mstate_def fun_upd_def fun_eq_iff)
  qed
  have "vcpu_numbers (the (vm_objs w r)) = vcpu_numbers (the (vm_objs w1 r))" using c1 by (simp add: vcpu_numbers_def)
  then have e: "vm_reset w (Some r) False = Some (NEXUSVM_OK, upd_vm (upd_vcpus w1 (set (vc r)) ?g) r (\<lambda>m. m\<lparr>state := VM_STATE_SHUTDOWN\<rparr>))"
    using fleet_inv_D(6) [OF f r] w1 each_update_all [OF fleet_inv_D(2) [OF f1 r], of ?g]
    by (cases "vm_objs w r") (simp_all add: vm_reset_def upd_vcpus_def)
  have k: "keeps ?g" by (simp add: keeps_def)
  have run: "running (?g (the (vcpu_objs w1 c))) \<longleftrightarrow> VM_STATE_SHUTDOWN = VM_STATE_RUNNING" if "c \<in> set (vc r)" for c
    using fleet_inv_D(8) [OF f1 r that] s1(1) by auto
  have m: "(mstate w1)(r := VM_STATE_SHUTDOWN) = (mstate w)(r := VM_STATE_SHUTDOWN)" by (subst s1(2)) simp
  have s2: "VM_STATE_SHUTDOWN \<in> live_states" "VM_STATE_SHUTDOWN \<in> queued_states \<longleftrightarrow> mstate w1 r \<in> queued_states"
    using s1(1) by (auto simp: state_sets)
  show ?thesis using fleet_flag [OF f1 r k s2 run] e m by auto
qed

text \<open>Load balancing moves entities between queues.\<close>

lemma set_concat_move:
  assumes "c < length qs" "t < length qs" "qs ! c = e # q"
  shows "set (concat (qs[c := q, t := qs[c := q] ! t @ [e]])) = set (concat qs)"
proof -
  have "set (concat (qs[c := q, t := qs[c := q] ! t @ [e]])) = insert e (set (concat (qs[c := q])))"
    using assms(2) by (simp add: concat_update_append del: set_concat)
  also have "\<dots> = set (concat (take c qs @ qs ! c # drop (Suc c) qs))"
    using assms(1) by (simp add: upd_conv_take_nth_drop assms(3) insert_commute)
  also have "\<dots> = set (concat qs)" using assms(1) by (simp only: id_take_nth_drop [symmetric])
  finally show ?thesis .
qed

lemma balance_single:
  assumes inv: "sched_inv w [q]" and small: "length q < 2 ^ 32 - 3"
  shows "scheduler_load_balance w 0 = (if 1 < length q then migrate_first w 0 0 else Some w)"
proof -
  have n: "unat (g_cpu_count w) = 1" using inv by (simp add: sched_inv_def)
  then have cnt: "g_cpu_count w = 1" by (simp add: word_unat_eq_iff)
  have ll: "least_loaded w 0 0 (-1) 0 = Some (-1, 0)"
    by (subst least_loaded.simps, subst least_loaded.simps) (simp add: cnt)
  have c: "count_queue w 0 = Some (of_nat (length q))" using count_queue_length [OF inv, of 0] by simp
  have "unat (of_nat (length q) :: u32) = length q" using small by (simp add: unat_of_nat)
  then have "(-1 :: u32) + 2 < of_nat (length q) \<longleftrightarrow> 1 < length q" by (simp add: word_less_nat_alt)
  then show ?thesis using load_balance_migrate [OF _ ll c] cnt by simp
qed

lemma balance_keeps_queued:
  assumes inv: "sched_inv w qs" and small: "\<forall>q\<in>set qs. length q < 2 ^ 32 - 3"
  shows "\<exists>l qs'. scheduler_load_balance w c = Some (w\<lparr>links := l\<rparr>) \<and> sched_inv (w\<lparr>links := l\<rparr>) qs' \<and>
    set (concat qs') = set (concat qs) \<and> dom l = dom (links w)"
proof -
  have n: "unat (g_cpu_count w) = length qs" using inv by (simp add: sched_inv_def)
  have same: ?thesis if "scheduler_load_balance w c = Some w"
    using that inv by (intro exI [of _ "links w"] exI [of _ qs]) simp
  have idx: "unat c < length qs" if "c < g_cpu_count w" using that n by (simp add: word_less_nat_alt)
  consider "\<not> c < g_cpu_count w" | "c < g_cpu_count w" "2 \<le> length qs" | "c < g_cpu_count w" "length qs = 1"
    using idx by fastforce
  then show ?thesis
  proof cases
    case 1
    then show ?thesis by (intro same) (simp add: scheduler_load_balance_def not_less)
  next
    case 2
    note e = load_balance_effect [OF inv 2 small]
    show ?thesis
    proof (cases "min_other_load qs (unat c) + 2 < length (qs ! unat c)")
      case True
      then obtain l e q t where l: "scheduler_load_balance w c = Some (w\<lparr>links := l\<rparr>)" "qs ! unat c = e # q" "t < length qs" "t \<noteq> unat c"
        "sched_inv (w\<lparr>links := l\<rparr>) (qs[unat c := q, t := qs ! t @ [e]])" "dom l = dom (links w)" using e by auto
      moreover have "set (concat (qs[unat c := q, t := qs ! t @ [e]])) = set (concat qs)"
        using set_concat_move [OF idx [OF 2(1)] l(3,2)] l(4) by simp
      ultimately show ?thesis by blast
    qed (use e same in simp)
  next
    case 3
    then obtain q where q: "qs = [q]" "c = 0" using idx by (cases qs) (auto simp: word_unat_eq_iff)
    show ?thesis
    proof (cases "1 < length q")
      case True
      then obtain e p where p: "q = e # p" by (cases q) auto
      from migrate_first_effect [OF inv, of 0 0 e p] q p obtain l where
        "migrate_first w 0 0 = Some (w\<lparr>links := l\<rparr>)" "sched_inv (w\<lparr>links := l\<rparr>) [p @ [e]]" "dom l = dom (links w)" by auto
      then show ?thesis using balance_single [of w q] inv small q p True by (intro exI [of _ l] exI [of _ "[p @ [e]]"]) auto
    next
      case False
      then show ?thesis using balance_single [of w q] inv small q by (intro same) simp
    qed
  qed
qed

section \<open>Sequences of operations\<close>

datatype fleet_op = On ref vm_op | Balance u32

fun fleet_run :: "platform \<Rightarrow> fleet_op \<Rightarrow> world \<Rightarrow> world run" where
  "fleet_run pf (On r op) w = map_option snd (run_op pf op w (Some r))"
| "fleet_run pf (Balance c) w = scheduler_load_balance w c"

fun fleet_runs :: "platform \<Rightarrow> fleet_op list \<Rightarrow> world \<Rightarrow> world run" where
  "fleet_runs pf [] w = Some w"
| "fleet_runs pf (op # ops) w = do { w \<leftarrow> fleet_run pf op w; fleet_runs pf ops w }"

text \<open>The abstract fleet: a state for each machine.\<close>

fun fleet_spec :: "fleet_op \<Rightarrow> (ref \<Rightarrow> vm_state) \<Rightarrow> (ref \<Rightarrow> vm_state)" where
  "fleet_spec (On r op) f = f(r := snd (vm_machine op (f r)))"
| "fleet_spec (Balance c) f = f"

text \<open>A paused machine is not started or reset, and no reset is cold (that one also clears page tables).\<close>

fun allowed :: "ref set \<Rightarrow> (ref \<Rightarrow> vm_state) \<Rightarrow> fleet_op \<Rightarrow> bool" where
  "allowed A f (On r op) \<longleftrightarrow> r \<in> A \<and> op \<noteq> Reset True \<and> (f r = VM_STATE_PAUSED \<longrightarrow> op \<in> {Stop, Pause, Resume})"
| "allowed A f (Balance c) \<longleftrightarrow> True"

fun all_allowed :: "ref set \<Rightarrow> (ref \<Rightarrow> vm_state) \<Rightarrow> fleet_op list \<Rightarrow> bool" where
  "all_allowed A f [] \<longleftrightarrow> True"
| "all_allowed A f (op # ops) \<longleftrightarrow> allowed A f op \<and> all_allowed A (fleet_spec op f) ops"

lemma vm_stop_refused: "vm_objs w r = Some m \<Longrightarrow> state m \<noteq> VM_STATE_RUNNING \<Longrightarrow> vm_stop w (Some r) = Some (NEXUSVM_ERR_VM_NOT_RUNNING, w)"
  "vm_objs w r = Some m \<Longrightarrow> state m \<noteq> VM_STATE_RUNNING \<Longrightarrow> vm_pause w (Some r) = Some (NEXUSVM_ERR_VM_NOT_RUNNING, w)"
  "vm_objs w r = Some m \<Longrightarrow> state m \<noteq> VM_STATE_PAUSED \<Longrightarrow> vm_resume w (Some r) = Some (NEXUSVM_ERR_VM_RUNNING, w)"
  "vm_objs w r = Some m \<Longrightarrow> state m = VM_STATE_RUNNING \<Longrightarrow> vm_start pf w (Some r) = Some (NEXUSVM_OK, w)"
  by (simp_all add: vm_stop_def vm_pause_def vm_resume_def vm_start_def)

lemma fleet_machine_step:
  assumes f: "fleet_inv w A vc qs" and a: "allowed A (mstate w) (On r op)"
  shows "\<exists>w' qs'. run_op pf op w (Some r) = Some (fst (vm_machine op (mstate w r)), w') \<and> fleet_inv w' A vc qs' \<and>
    mstate w' = (mstate w)(r := snd (vm_machine op (mstate w r)))"
proof -
  have r: "r \<in> A" using a by simp
  note refused = vm_stop_refused [OF fleet_inv_D(6) [OF f r], folded mstate_def]
  note same = fleet_unchanged [OF f]
  show ?thesis
  proof (cases op)
    case Start
    then consider "mstate w r = VM_STATE_RUNNING" | "mstate w r \<in> {VM_STATE_INITIALIZED, VM_STATE_SHUTDOWN}"
      using a fleet_inv_D(3) [OF f r] by (auto simp: live_states_def)
    then show ?thesis
    proof cases
      case 1
      then show ?thesis using refused(4) Start by (intro same) simp_all
    next
      case 2
      then show ?thesis using fleet_start [OF f r 2, of pf] Start by auto
    qed
  next
    case Stop
    then show ?thesis using fleet_stop [OF f r] refused(1) same [of pf op r]
      by (cases "mstate w r = VM_STATE_RUNNING") simp_all
  next
    case Pause
    then show ?thesis using fleet_pause [OF f r] refused(2) same [of pf op r]
      by (cases "mstate w r = VM_STATE_RUNNING") (simp, blast, simp)
  next
    case Resume
    then show ?thesis using fleet_resume [OF f r] refused(3) same [of pf op r]
      by (cases "mstate w r = VM_STATE_PAUSED") (simp, blast, simp)
  next
    case (Reset cold)
    then show ?thesis using fleet_reset [OF f r] a by (cases cold) auto
  qed
qed

lemma queue_lengths:
  assumes f: "fleet_inv w A vc qs" and q: "q \<in> set qs"
  shows "length q < 2 ^ 32 - 3"
proof -
  obtain i where i: "i < length qs" "q = qs ! i" using q by (metis in_set_conv_nth)
  have inv: "sched_inv w qs" using f by (simp add: fleet_inv_def)
  obtain arr where "queues (links w) arr qs" using sched_inv_E [OF inv] by metis
  from queues_dll [OF this i(1)] have d: "distinct q" unfolding dll_def i(2) by (auto simp: distinct_map)
  have "set q \<subseteq> set (concat qs)" using q by auto
  also have "\<dots> = ent w ` crew vc (active w A)" using f by (simp add: fleet_inv_def)
  also have "\<dots> \<subseteq> ent w ` crew vc A" by (intro image_mono crew_mono active_subset)
  finally have "card (set q) \<le> card (ent w ` crew vc A)" using f by (intro card_mono) (simp_all add: fleet_inv_def)
  also have "\<dots> \<le> card (crew vc A)" using f by (intro card_image_le) (simp add: fleet_inv_def)
  finally show ?thesis using f distinct_card [OF d] by (simp add: fleet_inv_def)
qed

lemma fleet_balance:
  assumes f: "fleet_inv w A vc qs"
  shows "\<exists>w' qs'. scheduler_load_balance w c = Some w' \<and> fleet_inv w' A vc qs' \<and> mstate w' = mstate w"
proof -
  have inv: "sched_inv w qs" using f by (simp add: fleet_inv_def)
  obtain l qs' where l: "scheduler_load_balance w c = Some (w\<lparr>links := l\<rparr>)" "sched_inv (w\<lparr>links := l\<rparr>) qs'"
    "set (concat qs') = set (concat qs)" "dom l = dom (links w)"
    using balance_keeps_queued [OF inv] queue_lengths [OF f] by blast
  have same: "ent (w\<lparr>links := l\<rparr>) = ent w" "settled (w\<lparr>links := l\<rparr>) = settled w" "mstate (w\<lparr>links := l\<rparr>) = mstate w"
    "vm_with (w\<lparr>links := l\<rparr>) = vm_with w" "active (w\<lparr>links := l\<rparr>) = active w"
    using l(4) by (simp_all add: fun_eq_iff ent_def settled_def schedulable_def mstate_def vm_with_def active_def split: option.split)
  have "fleet_inv (w\<lparr>links := l\<rparr>) A vc qs'" using f l(2,3) by (simp add: fleet_inv_def same del: set_concat)
  then show ?thesis using l(1) same(3) by blast
qed

lemma fleet_step:
  assumes "fleet_inv w A vc qs" "allowed A (mstate w) op"
  shows "\<exists>w' qs'. fleet_run pf op w = Some w' \<and> fleet_inv w' A vc qs' \<and> mstate w' = fleet_spec op (mstate w)"
proof (cases op)
  case (On r vop)
  then show ?thesis using fleet_machine_step [OF assms(1), of r vop pf] assms(2) by auto
next
  case (Balance c)
  then show ?thesis using fleet_balance [OF assms(1), of c] by simp
qed

text \<open>C1. Any number of machines share the scheduler; their virtual CPUs have been set up and have an entity each, so that the first start of
  a new machine, which creates the entities, is not among the operations. Over every sequence of starts, stops, pauses, resumes, warm resets and load balancing in
  which no paused machine is started or reset, every operation returns, the machines go through the states of the abstract machines, and
  at the end the run queues are well formed and hold exactly the entities of the virtual CPUs of running and paused machines, each
  once; the virtual CPUs that run are those of the running machines.\<close>

theorem fleet_operations_refine:
  assumes "fleet_inv w A vc qs" "all_allowed A (mstate w) ops"
  shows "\<exists>w' qs'. fleet_runs pf ops w = Some w' \<and> fleet_inv w' A vc qs' \<and> mstate w' = fold fleet_spec ops (mstate w)"
  using assms
proof (induction ops arbitrary: w qs)
  case Nil
  then show ?case by auto
next
  case (Cons op ops)
  from fleet_step [OF Cons.prems(1), of op pf] Cons.prems(2) obtain w1 qs1 where
    w1: "fleet_run pf op w = Some w1" "fleet_inv w1 A vc qs1" "mstate w1 = fleet_spec op (mstate w)" by auto
  from Cons.IH [OF w1(2)] Cons.prems(2) w1(1,3) show ?case by simp
qed

text \<open>Three machines: one runs, one is paused, one was shut down.\<close>

definition crewed :: "vm_state \<Rightarrow> ref list \<Rightarrow> nexusvm" where
  "crewed s xs = zero_vm\<lparr>vcpus := Some (map Some xs), vcpu_count := of_nat (length xs), state := s\<rparr>"

definition crew_member :: "u32 \<Rightarrow> ref \<Rightarrow> bool \<Rightarrow> nexusvcpu" where
  "crew_member i e b = (demo_vcpu i (Some e))\<lparr>initialized := True, running := b\<rparr>"

definition fleet_world :: world where
  "fleet_world = demo_world\<lparr>
     vm_objs := [31 \<mapsto> crewed VM_STATE_RUNNING [20, 22], 32 \<mapsto> crewed VM_STATE_PAUSED [21], 33 \<mapsto> crewed VM_STATE_SHUTDOWN [24]],
     vcpu_objs := [20 \<mapsto> crew_member 0 10 True, 21 \<mapsto> crew_member 1 11 False, 22 \<mapsto> crew_member 2 12 True, 24 \<mapsto> crew_member 4 13 False]\<rparr>"

definition fleet_crews :: "ref \<Rightarrow> ref list" where
  "fleet_crews r = (if r = 31 then [20, 22] else if r = 32 then [21] else [24])"

lemma fleet_world_inv: "fleet_inv fleet_world {31, 32, 33} fleet_crews demo_queues"
proof -
  have "sched_inv fleet_world demo_queues" using demo_inv by (simp add: fleet_world_def sched_inv_def)
  moreover have c: "crew fleet_crews {31, 32, 33} = {20, 22, 21, 24}" by (auto simp: fleet_crews_def)
  moreover have e: "ent fleet_world 20 = 10" "ent fleet_world 22 = 12" "ent fleet_world 21 = 11" "ent fleet_world 24 = 13"
    by (simp_all add: ent_def fleet_world_def crew_member_def)
  moreover have st: "mstate fleet_world 31 = VM_STATE_RUNNING" "mstate fleet_world 32 = VM_STATE_PAUSED" "mstate fleet_world 33 = VM_STATE_SHUTDOWN"
    by (simp_all add: mstate_def fleet_world_def crewed_def)
  moreover have "active fleet_world {31, 32, 33} = {31, 32}" by (auto simp: active_def st queued_states_def)
  moreover have "vm_with fleet_world r (the (vm_objs fleet_world r)) (fleet_crews r)" if "r \<in> {31, 32, 33}" for r
    using that by (auto simp: vm_with_def fleet_world_def crewed_def fleet_crews_def)
  moreover have "settled fleet_world c" if "c \<in> {20, 22, 21, 24}" for c
    using that by (auto simp: settled_def e) (simp_all add: schedulable_def fleet_world_def demo_world_def crew_member_def demo_vcpu_def vcpu_cpu_def zero_vcpu_def)
  moreover have "running (the (vcpu_objs fleet_world c)) = (c \<in> {20, 22})" if "c \<in> {20, 22, 21, 24}" for c
    using that by (auto simp: fleet_world_def crew_member_def)
  ultimately show ?thesis by (auto simp: fleet_inv_def fleet_crews_def live_states_def)
qed

lemma fleet_operations_refine_witness:
  "\<exists>w' qs'. fleet_runs demo_platform [On 33 Start, On 31 Pause, Balance 0, On 32 Resume, On 31 Resume, On 31 Stop, On 33 (Reset False)] fleet_world = Some w' \<and>
    fleet_inv w' {31, 32, 33} fleet_crews qs' \<and> mstate w' 31 = VM_STATE_SHUTDOWN \<and> mstate w' 32 = VM_STATE_RUNNING \<and> mstate w' 33 = VM_STATE_SHUTDOWN"
proof -
  let ?ops = "[On 33 Start, On 31 Pause, Balance 0, On 32 Resume, On 31 Resume, On 31 Stop, On 33 (Reset False)]"
  have st: "mstate fleet_world 31 = VM_STATE_RUNNING" "mstate fleet_world 32 = VM_STATE_PAUSED" "mstate fleet_world 33 = VM_STATE_SHUTDOWN"
    by (simp_all add: mstate_def fleet_world_def crewed_def)
  have "all_allowed {31, 32, 33} (mstate fleet_world) ?ops" by (simp add: st)
  from fleet_operations_refine [OF fleet_world_inv this, of demo_platform] show ?thesis by (auto simp: st)
qed

end
