(* ===== verification/Vm_Hazards.thy ===== *)
theory Vm_Hazards
  imports Vm_Lifecycle
begin

text \<open>
  The operations that the life cycle allows and the scheduler does not survive. Pausing a machine leaves its virtual CPUs on the
  run queues; starting a paused machine queues them a second time, resetting it forgets that they are queued, and destroying it
  leaves entities on the queues that belong to nobody.
\<close>

section \<open>Starting a paused machine\<close>

text \<open>A queue whose list closes on itself before it reaches its head.\<close>

lemma hung_count:
  assumes h: "g_runqueues w = Some (arr, rqs)" "unat k < length rqs" "\<not> lock (rqs ! unat k)"
    and hang: "list_for_each (links w) (RQ arr (unat k)) (\<lambda>n pos. Some (n + 1)) (0 :: u32) = None"
  shows "count_queue w k = None"
  using rq_section(1) [OF h] locked_head(1) [OF h] hang by (simp add: count_queue_def)

lemma hung_balance: "count_queue w k = None \<Longrightarrow> k < g_cpu_count w \<Longrightarrow> scheduler_load_balance w k = None"
  by (cases "least_loaded w k 0 (-1) 0") (auto simp: scheduler_load_balance_def)

lemma hung_schedule:
  assumes h: "g_runqueues w = Some (arr, rqs)" "0 < length rqs" "\<not> lock (rqs ! 0)" "current (rqs ! 0) = None"
    and init: "g_scheduler_initialized w" "g_cpu_count w \<noteq> 0"
    and hang: "\<And>body acc. list_for_each (links w) (RQ arr 0) body (acc :: ref option \<times> u64) = None"
  shows "scheduler_schedule w = None"
proof -
  let ?w = "locked w arr rqs 0"
  have h0: "g_runqueues w = Some (arr, rqs)" "unat (0 :: u32) < length rqs" "\<not> lock (rqs ! unat (0 :: u32))" using h by simp_all
  have cur: "get_rq ?w 0 = Some (arr, (rqs ! 0)\<lparr>lock := True\<rparr>)" using h by (simp add: locked_def get_rq_def)
  have "scheduler_cfs_pick_next ?w 0 = None" "scheduler_fifo_pick_next ?w 0 = None"
    using locked_head(1) [OF h0] hang by (simp_all add: scheduler_cfs_pick_next_def scheduler_fifo_pick_next_def)
  then have any: "(case p of SCHED_FIFO \<Rightarrow> scheduler_fifo_pick_next ?w 0 | SCHED_RR \<Rightarrow> scheduler_fifo_pick_next ?w 0
      | _ \<Rightarrow> scheduler_cfs_pick_next ?w 0) = None" for p by (cases p) simp_all
  have "schedule_pick ?w 0 = None" unfolding schedule_pick_def any by (simp add: case_prod_unfold)
  then show ?thesis using init rq_section(1) [OF h0] cur h(4) by (simp add: scheduler_schedule_def)
qed

text \<open>Neither the length of the queue nor the next virtual CPU can be computed any more: the loops do not end.\<close>

definition hung :: "world \<Rightarrow> u32 \<Rightarrow> bool" where
  "hung w k \<longleftrightarrow> count_queue w k = None \<and> scheduler_get_cpu_load w k = None \<and> scheduler_load_balance w k = None \<and>
     (k = 0 \<and> g_scheduler_initialized w \<longrightarrow> scheduler_schedule w = None)"

lemma add_queued_again:
  assumes inv: "sched_inv w qs" and v: "vcpu_objs w r = Some v" "vcpu_cpu w v = Some k" "entity v = Some e"
    and q: "qs ! unat k = xs @ [e]"
  shows "\<exists>l. scheduler_add_vcpu av w (Some r) = Some (NEXUSVM_OK, w\<lparr>links := l\<rparr>) \<and>
    (\<forall>w'. links w' = l \<longrightarrow> g_runqueues w' = g_runqueues w \<longrightarrow> g_cpu_count w' = g_cpu_count w \<longrightarrow> hung w' k)"
proof -
  obtain arr rqs where rq: "g_runqueues w = Some (arr, rqs)" "length rqs = length qs"
      "\<And>i. i < length qs \<Longrightarrow> \<not> lock (rqs ! i) \<and> current (rqs ! i) = None" "queues (links w) arr qs"
    using sched_inv_E [OF inv] by blast
  have k: "unat k < length qs" using vcpu_cpu_bound [OF inv v(2)] .
  have h: "g_runqueues w = Some (arr, rqs)" "unat k < length rqs" "\<not> lock (rqs ! unat k)" using rq k by auto
  have d: "dll (links w) (RQ arr (unat k)) (map SE xs @ [SE e])" using queues_dll [OF rq(4) k] q by simp
  define l where "l = the (list_add_tail (SE e) (RQ arr (unat k)) (links w))"
  have l: "list_add_tail (SE e) (RQ arr (unat k)) (links w) = Some l" using list_add_tail_again(1) [OF d] by (simp add: l_def)
  have add: "scheduler_add_vcpu av w (Some r) = Some (NEXUSVM_OK, w\<lparr>links := l\<rparr>)"
    using v section_links [OF h, of "list_add_tail (SE e) (RQ arr (unat k))"] l rq_section(1) [OF h] locked_head(1) [OF h]
    by (simp add: scheduler_add_vcpu_def bind_eq_Some_conv)
  have n: "unat (g_cpu_count w) = length qs" using inv by (simp add: sched_inv_def)
  have "hung w' k" if w': "links w' = l" "g_runqueues w' = g_runqueues w" "g_cpu_count w' = g_cpu_count w" for w'
  proof -
    have h': "g_runqueues w' = Some (arr, rqs)" using rq w' by simp
    have less: "k < g_cpu_count w'" using k n w' by (simp add: word_less_nat_alt)
    have c: "count_queue w' k = None"
      by (rule hung_count [OF h' h(2,3)]) (simp add: w' l_def list_for_each_again [OF d])
    moreover have "scheduler_schedule w' = None" if "k = 0" "g_scheduler_initialized w'"
      by (rule hung_schedule [OF h']) (use that h rq k n w' list_for_each_again [OF d] in \<open>auto simp: l_def\<close>)
    ultimately show ?thesis using hung_balance [OF c less] less by (simp add: hung_def scheduler_get_cpu_load_def not_le)
  qed
  then show ?thesis using add by blast
qed

text \<open>One virtual CPU, which is still last on its queue while its machine is started.\<close>

lemma start_queued_hangs:
  assumes vm: "vm_with w r m [c]" "state m \<in> {VM_STATE_INITIALIZED, VM_STATE_PAUSED, VM_STATE_SHUTDOWN}" and inv: "sched_inv w qs"
    and c: "settled w c" "\<not> running (the (vcpu_objs w c))"
    and q: "vcpu_cpu w (the (vcpu_objs w c)) = Some k" "qs ! unat k = xs @ [ent w c]"
  shows "\<exists>w'. vm_start pf w (Some r) = Some (NEXUSVM_OK, w') \<and> mstate w' r = VM_STATE_RUNNING \<and> hung w' k"
proof -
  obtain v where v: "vcpu_objs w c = Some v" "entity v = Some (ent w c)" "initialized v" "\<not> running v" "vm v \<noteq> None" "vcpu_cpu w v = Some k"
    using c q(1) by (auto simp: settled_def schedulable_def ent_def split: option.splits)
  let ?w = "upd_vcpu w c launched"
  have "vcpu_cpu ?w (launched v) = vcpu_cpu w v" by (simp add: upd_vcpu_def vcpu_cpu_def)
  then have v': "vcpu_objs ?w c = Some (launched v)" "vcpu_cpu ?w (launched v) = Some k" "entity (launched v) = Some (ent w c)"
    using v by (simp_all, simp add: upd_vcpu_def)
  have inv': "sched_inv ?w qs" using inv by (simp add: sched_inv_upd_vcpu)
  from add_queued_again [OF inv' v' q(2), of "objs_av pf"] obtain l where
    l: "scheduler_add_vcpu (objs_av pf) ?w (Some c) = Some (NEXUSVM_OK, ?w\<lparr>links := l\<rparr>)" and
    hang: "\<And>w'. links w' = l \<Longrightarrow> g_runqueues w' = g_runqueues ?w \<Longrightarrow> g_cpu_count w' = g_cpu_count ?w \<Longrightarrow> hung w' k" by blast
  have one: "vcpu_start pf w (Some c) = Some (NEXUSVM_OK, ?w\<lparr>links := l\<rparr>)" using v l by (auto simp: vcpu_start_def)
  have "unat (vcpu_count m) = 1" using vm(1) by (simp add: vm_with_def)
  then have m: "vm_objs w r = Some m" "vcpu_numbers m = [0]" "vcpu_at w r 0 = Some (Some c)"
    using vm(1) by (simp_all add: vm_with_def vcpu_numbers_def vcpu_at_def)
  define w' where "w' = upd_vm (?w\<lparr>links := l\<rparr>) r (\<lambda>m. m\<lparr>state := VM_STATE_RUNNING\<rparr>)"
  have "vm_start pf w (Some r) = Some (NEXUSVM_OK, w')" using m vm(2) one by (auto simp: vm_start_def w'_def)
  moreover have "hung w' k" by (rule hang) (simp_all add: w'_def upd_vm_def upd_vcpu_def)
  moreover have "mstate w' r = VM_STATE_RUNNING" using m(1) by (simp add: w'_def mstate_def upd_vm_def upd_vcpu_def)
  ultimately show ?thesis by blast
qed

text \<open>C17. The code allows to start a machine that is paused. Its virtual CPUs are then queued a second time: with one
  virtual CPU, last on the queue of its CPU, the start reports success, and from then on no loop over this queue
  ends: its load cannot be computed, the CPU cannot be balanced, and on CPU 0 no virtual CPU is scheduled any more.\<close>

theorem paused_start_hangs_scheduler:
  assumes f: "fleet_inv w A vc qs" and r: "r \<in> A" "mstate w r = VM_STATE_PAUSED" "vc r = [c]"
    and q: "vcpu_cpu w (the (vcpu_objs w c)) = Some k" "qs ! unat k = xs @ [ent w c]"
  shows "\<exists>w'. vm_start pf w (Some r) = Some (NEXUSVM_OK, w') \<and> mstate w' r = VM_STATE_RUNNING \<and> hung w' k"
proof -
  have vm: "vm_with w r (the (vm_objs w r)) [c]" using fleet_inv_D(2) [OF f r(1)] r(3) by simp
  have st: "state (the (vm_objs w r)) \<in> {VM_STATE_INITIALIZED, VM_STATE_PAUSED, VM_STATE_SHUTDOWN}" using r(2) by (simp add: mstate_def)
  have c: "settled w c" "\<not> running (the (vcpu_objs w c))" using fleet_inv_D(7,8) [OF f r(1), of c] r(2,3) by simp_all
  show ?thesis by (rule start_queued_hangs [OF vm st fleet_inv_D(1) [OF f r(1)] c q])
qed

text \<open>A running machine with one virtual CPU that waits last on CPU 0 is paused and started again.\<close>

definition paused_world :: world where
  "paused_world = demo_world\<lparr>vm_objs := [31 \<mapsto> crewed VM_STATE_RUNNING [20, 21], 32 \<mapsto> crewed VM_STATE_PAUSED [22]],
     vcpu_objs := [20 \<mapsto> crew_member 0 10 True, 21 \<mapsto> crew_member 1 11 True, 22 \<mapsto> crew_member 2 12 False]\<rparr>"

definition paused_crews :: "ref \<Rightarrow> ref list" where
  "paused_crews r = (if r = 31 then [20, 21] else [22])"

lemma paused_world_inv: "fleet_inv paused_world {31, 32} paused_crews demo_queues"
proof -
  have "sched_inv paused_world demo_queues" using demo_inv by (simp add: paused_world_def sched_inv_def)
  moreover have c: "crew paused_crews {31, 32} = {20, 21, 22}" by (auto simp: paused_crews_def)
  moreover have e: "ent paused_world 20 = 10" "ent paused_world 21 = 11" "ent paused_world 22 = 12"
    by (simp_all add: ent_def paused_world_def crew_member_def)
  moreover have st: "mstate paused_world 31 = VM_STATE_RUNNING" "mstate paused_world 32 = VM_STATE_PAUSED"
    by (simp_all add: mstate_def paused_world_def crewed_def)
  moreover have "active paused_world {31, 32} = {31, 32}" by (auto simp: active_def st queued_states_def)
  moreover have "vm_with paused_world r (the (vm_objs paused_world r)) (paused_crews r)" if "r \<in> {31, 32}" for r
    using that by (auto simp: vm_with_def paused_world_def crewed_def paused_crews_def)
  moreover have "settled paused_world c" if "c \<in> {20, 21, 22}" for c
    using that by (auto simp: settled_def e) (simp_all add: schedulable_def paused_world_def demo_world_def crew_member_def demo_vcpu_def vcpu_cpu_def zero_vcpu_def)
  moreover have "running (the (vcpu_objs paused_world c)) = (c \<in> {20, 21})" if "c \<in> {20, 21, 22}" for c
    using that by (auto simp: paused_world_def crew_member_def)
  ultimately show ?thesis by (auto simp: fleet_inv_def paused_crews_def live_states_def)
qed

lemma paused_start_hangs_scheduler_witness:
  "\<exists>w'. vm_start demo_platform paused_world (Some 32) = Some (NEXUSVM_OK, w') \<and> mstate w' 32 = VM_STATE_RUNNING \<and> hung w' 0"
proof (rule paused_start_hangs_scheduler [OF paused_world_inv])
  show "mstate paused_world 32 = VM_STATE_PAUSED" by (simp add: mstate_def paused_world_def crewed_def)
  show "vcpu_cpu paused_world (the (vcpu_objs paused_world 22)) = Some 0"
    by (simp add: paused_world_def crew_member_def demo_vcpu_def vcpu_cpu_def zero_vcpu_def)
  show "demo_queues ! unat (0 :: u32) = [10, 11] @ [ent paused_world 22]" by (simp add: ent_def paused_world_def crew_member_def)
qed (simp_all add: paused_crews_def)

text \<open>A warm reset of a paused machine marks it as shut down and leaves it queued: the next start, then of a stopped machine, does the same.\<close>

lemma paused_reset_effect:
  assumes f: "fleet_inv w A vc qs" and r: "r \<in> A" "mstate w r = VM_STATE_PAUSED"
  shows "vm_reset w (Some r) False = Some (NEXUSVM_OK,
    upd_vm (upd_vcpus w (set (vc r)) (\<lambda>v. v\<lparr>cpu_state_of := reset_state\<rparr>)) r (\<lambda>m. m\<lparr>state := VM_STATE_SHUTDOWN\<rparr>))"
  using fleet_inv_D(6) [OF f r(1)] r(2) each_update_all [OF fleet_inv_D(2) [OF f r(1)], of "\<lambda>v. v\<lparr>cpu_state_of := reset_state\<rparr>"]
  by (cases "vm_objs w r") (simp_all add: vm_reset_def mstate_def upd_vcpus_def)

lemma paused_reset_start_hangs:
  assumes f: "fleet_inv w A vc qs" and r: "r \<in> A" "mstate w r = VM_STATE_PAUSED" "vc r = [c]"
    and q: "vcpu_cpu w (the (vcpu_objs w c)) = Some k" "qs ! unat k = xs @ [ent w c]"
  shows "\<exists>w1 w2. vm_reset w (Some r) False = Some (NEXUSVM_OK, w1) \<and> mstate w1 r = VM_STATE_SHUTDOWN \<and>
    vm_start pf w1 (Some r) = Some (NEXUSVM_OK, w2) \<and> hung w2 k"
proof -
  define w1 where "w1 = upd_vm (upd_vcpus w {c} (\<lambda>v. v\<lparr>cpu_state_of := reset_state\<rparr>)) r (\<lambda>m. m\<lparr>state := VM_STATE_SHUTDOWN\<rparr>)"
  have e: "vm_reset w (Some r) False = Some (NEXUSVM_OK, w1)" using paused_reset_effect [OF f r(1,2)] r(3) by (simp add: w1_def)
  have k: "keeps (\<lambda>v. v\<lparr>cpu_state_of := reset_state\<rparr>)" by (simp add: keeps_def)
  obtain v where v: "vcpu_objs w c = Some v" using fleet_inv_D(2) [OF f r(1)] r(3) by (auto simp: vm_with_def)
  have a: "alike w w1" unfolding alike_def
    using k keeps_id by (auto simp: w1_def upd_vm_def upd_vcpus_def option.map_ident)
  have s: "settled w c" using fleet_inv_D(7) [OF f r(1)] r(3) by simp
  note st = alike_settled [OF a s]
  have v1: "vcpu_objs w1 c = Some (v\<lparr>cpu_state_of := reset_state\<rparr>)" "g_cpu_count w1 = g_cpu_count w"
    using v by (simp_all add: w1_def upd_vm_def upd_vcpus_def)
  then have "vcpu_cpu w1 (the (vcpu_objs w1 c)) = vcpu_cpu w v" by (intro vcpu_cpu_cong) simp_all
  then have c: "\<not> running (the (vcpu_objs w1 c))" "vcpu_cpu w1 (the (vcpu_objs w1 c)) = Some k"
    using fleet_inv_D(8) [OF f r(1), of c] r(2,3) v v1(1) q(1) by simp_all
  have vm: "vm_with w1 r ((the (vm_objs w r))\<lparr>state := VM_STATE_SHUTDOWN\<rparr>) [c]"
    using fleet_inv_D(2) [OF f r(1)] r(3) by (auto simp: vm_with_def w1_def upd_vm_def upd_vcpus_def)
  have inv: "sched_inv w1 qs" using fleet_inv_D(1) [OF f r(1)] by (simp add: sched_inv_def w1_def upd_vm_def upd_vcpus_def)
  have "mstate w1 r = VM_STATE_SHUTDOWN" using vm by (simp add: vm_with_def mstate_def)
  moreover have "\<exists>w2. vm_start pf w1 (Some r) = Some (NEXUSVM_OK, w2) \<and> mstate w2 r = VM_STATE_RUNNING \<and> hung w2 k"
    by (rule start_queued_hangs [OF vm _ inv st(2) c]) (simp_all add: q(2) st(1))
  ultimately show ?thesis using e by blast
qed

section \<open>Destroying a paused machine\<close>

text \<open>The buffers that the destruction of a virtual CPU frees, in this order; no buffer at 0.\<close>

fun buf_frees :: "buffers \<Rightarrow> u64 list \<Rightarrow> buffers run" where
  "buf_frees h [] = Some h"
| "buf_frees h (p # ps) = do { h \<leftarrow> buf_free h p; buf_frees h ps }"

definition owned :: "hypervisor \<Rightarrow> nexusvcpu \<Rightarrow> u64 list" where
  "owned hv v = (case cpu_vendor_of hv of CPU_VENDOR_INTEL \<Rightarrow> [vmx_vmcs_region v, vmx_on_region v] | CPU_VENDOR_AMD \<Rightarrow> [vmcb v] | CPU_VENDOR_UNKNOWN \<Rightarrow> []) @
     [msr_bitmap v, io_bitmap_a v, io_bitmap_b v]"

lemma buf_frees_append: "buf_frees h (xs @ ys) = do { h \<leftarrow> buf_frees h xs; buf_frees h ys }"
  by (induction xs arbitrary: h) (simp_all add: Option.bind_assoc)

lemma buf_frees_returns:
  "distinct (filter (\<lambda>p. p \<noteq> 0) ps) \<Longrightarrow> set ps - {0} \<subseteq> dom h \<Longrightarrow> \<exists>h'. buf_frees h ps = Some h'"
proof (induction ps arbitrary: h)
  case (Cons p ps)
  show ?case
  proof (cases "p = 0")
    case False
    then have "buf_free h p = Some (h(p := None))" using Cons.prems(2) by (auto simp: buf_free_def)
    moreover have sub: "set ps - {0} \<subseteq> dom (h(p := None))" using Cons.prems False by auto
    have "distinct (filter (\<lambda>p. p \<noteq> 0) ps)" using Cons.prems(1) False by simp
    from Cons.IH [OF this sub] obtain h' where "buf_frees (h(p := None)) ps = Some h'" ..
    ultimately show ?thesis by simp
  qed (use Cons in \<open>simp add: buf_free_def\<close>)
qed simp

lemma vcpu_destroy_idle:
  assumes "vcpu_objs w c = Some v" "\<not> running v" "g_hypervisor w = Some hv"
  shows "destroy_one w (Some c) = map_option (\<lambda>h. w\<lparr>bufs := h, vcpu_objs := (vcpu_objs w)(c := None)\<rparr>) (buf_frees (bufs w) (owned hv v))"
proof -
  note defs = destroy_one_def vcpu_destroy_def free_vcpu_def owned_def upd_vcpu_def vmx_vcpu_cleanup_def svm_vcpu_cleanup_def
    vmx_free_vmcs_region_def vmx_free_vmxon_region_def svm_free_vmcb_def with_bufs_def assms
  have [simp]: "buf_free h 0 = Some h" for h by (simp add: buf_free_def)
  show ?thesis
    by (cases "cpu_vendor_of hv"; cases "vmx_vmcs_region v = 0"; cases "vmx_on_region v = 0"; cases "vmcb v = 0";
        simp add: defs map_conv_bind_option Option.bind_assoc comp_def)
qed

lemma each_destroy_idle:
  assumes "g_hypervisor w = Some hv" "vm_objs w r = Some m" "vcpus m = Some (map Some xs)" "distinct xs"
  shows "list_all (\<lambda>i. i < length xs \<and> (\<exists>v. vcpu_objs w (xs ! i) = Some v \<and> \<not> running v)) js \<Longrightarrow> distinct js \<Longrightarrow>
    each_vcpu (\<lambda>w c. if c = None then Some w else destroy_one w c) w r js =
      map_option (\<lambda>h. w\<lparr>bufs := h, vcpu_objs := (\<lambda>d. if d \<in> (!) xs ` set js then None else vcpu_objs w d)\<rparr>)
        (buf_frees (bufs w) (concat (map (\<lambda>i. owned hv (the (vcpu_objs w (xs ! i)))) js)))"
  using assms
proof (induction js arbitrary: w)
  case (Cons j js)
  have j: "j < length xs" "j \<notin> set js" "vcpu_at w r j = Some (Some (xs ! j))" using Cons.prems by (simp_all add: vcpu_at_def)
  obtain v where v: "vcpu_objs w (xs ! j) = Some v" "\<not> running v" using Cons.prems(1) by auto
  have ne: "xs ! i \<noteq> xs ! j" if "i \<in> set js" for i
    using that j Cons.prems(1,6) by (auto simp: list_all_iff nth_eq_iff_index_eq)
  let ?w = "\<lambda>h. w\<lparr>bufs := h, vcpu_objs := (vcpu_objs w)(xs ! j := None)\<rparr>"
  have idle: "list_all (\<lambda>i. i < length xs \<and> (\<exists>v. vcpu_objs (?w h) (xs ! i) = Some v \<and> \<not> running v)) js" for h
    using Cons.prems(1) ne by (simp add: list_all_iff)
  have own: "map (\<lambda>i. owned hv (the (vcpu_objs (?w h) (xs ! i)))) js = map (\<lambda>i. owned hv (the (vcpu_objs w (xs ! i)))) js" for h
    using ne by simp
  have objs: "(\<lambda>d. if d \<in> (!) xs ` set js then None else ((vcpu_objs w)(xs ! j := None)) d) =
      (\<lambda>d. if d \<in> (!) xs ` set (j # js) then None else vcpu_objs w d)" by auto
  note ih = Cons.IH [OF idle, unfolded own]
  show ?case
  proof (cases "buf_frees (bufs w) (owned hv v)")
    case None
    then show ?thesis using v Cons.prems(3) by (simp add: j(3) vcpu_destroy_idle buf_frees_append)
  next
    case (Some h)
    have "each_vcpu (\<lambda>w c. if c = None then Some w else destroy_one w c) w r (j # js) =
        each_vcpu (\<lambda>w c. if c = None then Some w else destroy_one w c) (?w h) r js"
      using v Cons.prems(3) by (simp add: j(3) vcpu_destroy_idle Some)
    also have "\<dots> = map_option (\<lambda>h. w\<lparr>bufs := h, vcpu_objs := (\<lambda>d. if d \<in> (!) xs ` set (j # js) then None else vcpu_objs w d)\<rparr>)
        (buf_frees h (concat (map (\<lambda>i. owned hv (the (vcpu_objs w (xs ! i)))) js)))"
      using ih [of h] Cons.prems(2-6) by (simp add: objs [symmetric] del: set_simps cong: if_cong)
    finally show ?thesis using v(1) Some by (simp add: buf_frees_append)
  qed
qed simp

text \<open>What the scheduler sees of two worlds is the same.\<close>

definition same_sched :: "world \<Rightarrow> world \<Rightarrow> bool" where
  "same_sched w w' \<longleftrightarrow> links w' = links w \<and> g_runqueues w' = g_runqueues w \<and> g_cpu_count w' = g_cpu_count w \<and>
     entity_objs w' = entity_objs w \<and> next_ref w' = next_ref w"

lemma same_sched_inv: "same_sched w w' \<Longrightarrow> sched_inv w qs \<Longrightarrow> sched_inv w' qs"
  by (simp add: same_sched_def sched_inv_def)

lemma unlink_vm_sched:
  assumes "unlink_vm w r = Some w'"
  shows "same_sched w w' \<and> vcpu_objs w' = vcpu_objs w \<and> blobs w' = blobs w"
  using assms
  by (auto simp: unlink_vm_def upd_vm_def upd_hv_def drop_vm_def same_sched_def bind_eq_Some_conv split: option.splits)

text \<open>Freeing a sequence of objects of \<open>blobs\<close>.\<close>

fun free_blobs :: "world \<Rightarrow> ref option list \<Rightarrow> world run" where
  "free_blobs w [] = Some w"
| "free_blobs w (p # ps) = do { w \<leftarrow> free_blob w p; free_blobs w ps }"

lemma free_blobs_append: "free_blobs w (ps @ qs) = do { w \<leftarrow> free_blobs w ps; free_blobs w qs }"
  by (induction ps arbitrary: w) simp_all

lemma free_blobs_returns:
  "distinct (List.map_filter id ps) \<Longrightarrow> set (List.map_filter id ps) \<subseteq> blobs w \<Longrightarrow>
   free_blobs w ps = Some (w\<lparr>blobs := blobs w - set (List.map_filter id ps)\<rparr>)"
proof (induction ps arbitrary: w)
  case (Cons p ps)
  show ?case
  proof (cases p)
    case None
    then show ?thesis using Cons by (simp add: free_blob_def List.map_filter_simps)
  next
    case (Some x)
    let ?w = "w\<lparr>blobs := blobs w - {x}\<rparr>" and ?l = "set (List.map_filter id ps)"
    have "free_blobs ?w ps = Some (?w\<lparr>blobs := blobs ?w - ?l\<rparr>)"
      by (rule Cons.IH) (use Cons.prems Some in \<open>auto simp: List.map_filter_simps\<close>)
    moreover have "blobs ?w - ?l = blobs w - insert x ?l" by auto
    ultimately show ?thesis using Cons.prems Some by (simp add: free_blob_def List.map_filter_simps id_def)
  qed
qed (simp add: List.map_filter_simps)

lemma map_filter_append: "List.map_filter f (xs @ ys) = List.map_filter f xs @ List.map_filter f ys"
  by (simp add: map_filter_def)

lemma free_region_names_blobs:
  "list_all (\<lambda>i. i < length a) is \<Longrightarrow> free_region_names w a is = free_blobs w (map (\<lambda>i. region_name (a ! i)) is)"
  by (induction "is" arbitrary: w) simp_all

text \<open>What \<open>vm_destroy\<close> frees of the machine besides buffers and tables, in this order.\<close>

definition vm_blobs :: "nexusvm \<Rightarrow> ref option list" where
  "vm_blobs m = map (\<lambda>i. region_name (region_array m ! i)) [0..<unat (memory_region_count m)] @ [nested_vmx m, nested_svm m]"

text \<open>The list of machines is well formed, the region count is within its array, and nothing that the machine and its virtual CPUs own
  has been freed or belongs to two of them.\<close>

definition destroyable :: "world \<Rightarrow> ref list \<Rightarrow> ref \<Rightarrow> ref list \<Rightarrow> bool" where
  "destroyable w rs r xs \<longleftrightarrow> (case g_hypervisor w of None \<Rightarrow> False | Some hv \<Rightarrow>
     let ps = concat (map (\<lambda>c. owned hv (the (vcpu_objs w c))) xs); m = the (vm_objs w r); bs = List.map_filter id (vm_blobs m) in
       vm_list w rs \<and> r \<in> set rs \<and> distinct (filter (\<lambda>p. p \<noteq> 0) ps) \<and> (\<forall>p\<in>set ps. p = 0 \<or> bufs w p \<noteq> None) \<and>
       (ept_root m = 0 \<or> blocks (ept w) (ept_root m) \<noteq> None) \<and>
       unat (memory_region_count m) \<le> length (region_array m) \<and> distinct bs \<and> set bs \<subseteq> blobs w)"

text \<open>C18. Destroying a paused machine whose possessions are live and whose region count is within its array returns successfully and takes it off the list of machines, but not its virtual CPUs off the run
  queues: machine and virtual CPUs are freed, and every one of their entities is still queued, where it was.\<close>

theorem paused_destroy_leaves_queued:
  assumes f: "fleet_inv w A vc qs" and r: "r \<in> A" "mstate w r = VM_STATE_PAUSED" and d: "destroyable w rs r (vc r)"
  shows "\<exists>w'. vm_destroy w (Some r) = Some (NEXUSVM_OK, w') \<and> vm_objs w' r = None \<and> vm_list w' (remove1 r rs) \<and>
    (\<forall>c\<in>set (vc r). vcpu_objs w' c = None) \<and> sched_inv w' qs \<and> ent w ` set (vc r) \<subseteq> set (concat qs)"
proof -
  obtain m where m: "vm_objs w r = Some m" using fleet_inv_D(6) [OF f r(1)] by metis
  let ?f = "\<lambda>w c. if c = None then Some w else destroy_one w c"
  obtain hv where hv: "g_hypervisor w = Some hv" and l: "vm_list w rs" "r \<in> set rs"
    and own: "distinct (filter (\<lambda>p. p \<noteq> 0) (concat (map (\<lambda>c. owned hv (the (vcpu_objs w c))) (vc r))))"
      "set (concat (map (\<lambda>c. owned hv (the (vcpu_objs w c))) (vc r))) - {0} \<subseteq> dom (bufs w)"
    and root: "ept_root m = 0 \<or> blocks (ept w) (ept_root m) \<noteq> None"
    and count: "unat (memory_region_count m) \<le> length (region_array m)"
    and bs: "distinct (List.map_filter id (vm_blobs m))" "set (List.map_filter id (vm_blobs m)) \<subseteq> blobs w"
    using d by (auto simp: destroyable_def Let_def m split: option.splits)
  have vm: "vcpus m = Some (map Some (vc r))" "distinct (vc r)" "vcpu_numbers m = [0..<length (vc r)]"
    using fleet_inv_D(2) [OF f r(1)] by (auto simp: vm_with_def vcpu_numbers_def m)
  have idle: "\<exists>v. vcpu_objs w c = Some v \<and> \<not> running v" if "c \<in> set (vc r)" for c
    using fleet_inv_D(2,8) [OF f r(1)] r(2) that by (fastforce simp: vm_with_def list_all_iff)
  then have idle: "list_all (\<lambda>i. i < length (vc r) \<and> (\<exists>v. vcpu_objs w (vc r ! i) = Some v \<and> \<not> running v)) [0..<length (vc r)]"
    by (simp add: list_all_iff)
  have nth: "map (\<lambda>i. owned hv (the (vcpu_objs w (vc r ! i)))) [0..<length (vc r)] = map (\<lambda>c. owned hv (the (vcpu_objs w c))) (vc r)"
    by (rule nth_equalityI) simp_all
  have img: "(!) (vc r) ` set [0..<length (vc r)] = set (vc r)" using nth_image [of "length (vc r)" "vc r"] by simp
  obtain h where "buf_frees (bufs w) (concat (map (\<lambda>c. owned hv (the (vcpu_objs w c))) (vc r))) = Some h"
    using buf_frees_returns [OF own] by blast
  then have w1: "each_vcpu ?f w r [0..<length (vc r)] = Some (w\<lparr>bufs := h, vcpu_objs := (\<lambda>d. if d \<in> set (vc r) then None else vcpu_objs w d)\<rparr>)"
    (is "_ = Some ?w1") using each_destroy_idle [OF hv m vm(1,2) idle distinct_upt] by (simp only: nth img option.map)
  have "\<exists>e. (if ept_root m \<noteq> 0 then ept_free_root (ept ?w1) (ept_root m) else Some (ept ?w1)) = Some e"
    using root by (cases "ept_root m = 0") (auto simp: ept_free_root_def ept_free_pages_def)
  then obtain e where e: "(if ept_root m \<noteq> 0 then ept_free_root (ept ?w1) (ept_root m) else Some (ept ?w1)) = Some e" ..
  let ?names = "map (\<lambda>i. region_name (region_array m ! i)) [0..<unat (memory_region_count m)]"
  have split: "distinct (List.map_filter id ?names)" "set (List.map_filter id ?names) \<subseteq> blobs w"
    "distinct (List.map_filter id [nested_vmx m, nested_svm m])"
    "set (List.map_filter id [nested_vmx m, nested_svm m]) \<subseteq> blobs w - set (List.map_filter id ?names)"
    using bs unfolding vm_blobs_def map_filter_append distinct_append set_append by blast+
  define w2 where "w2 = ?w1\<lparr>ept := e, blobs := blobs w - set (List.map_filter id ?names)\<rparr>"
  have w2: "free_region_names (?w1\<lparr>ept := e\<rparr>) (region_array m) [0..<unat (memory_region_count m)] = Some w2"
    using count split(1,2) by (simp add: free_region_names_blobs list_all_iff free_blobs_returns w2_def)
  have "vm_list w2 rs" using l(1) hv by (simp add: vm_list_def w2_def)
  from unlink_vm_list [OF this l(2)] obtain w3 where w3: "unlink_vm w2 r = Some w3" "vm_list w3 (remove1 r rs)" "vm_objs w3 r = None"
    using hv by (auto simp: w2_def)
  note same = unlink_vm_sched [OF w3(1)]
  define w' where "w' = w3\<lparr>blobs := blobs w3 - set (List.map_filter id [nested_vmx m, nested_svm m])\<rparr>"
  have "free_blobs w3 [nested_vmx m, nested_svm m] = Some w'"
    unfolding w'_def by (rule free_blobs_returns) (use split(3,4) same in \<open>simp_all add: w2_def\<close>)
  then have "do { w \<leftarrow> free_blob w3 (nested_vmx m); w \<leftarrow> free_blob w (nested_svm m); Some (NEXUSVM_OK, w) } = Some (NEXUSVM_OK, w')"
    by (auto simp: bind_eq_Some_conv)
  then have "vm_destroy w (Some r) = Some (NEXUSVM_OK, w')"
    using r(2) w1 e w2 w3(1) by (simp add: vm_destroy_def m vm(3) mstate_def)
  moreover have "same_sched w w'" "vcpu_objs w' = vcpu_objs ?w1" using same by (simp_all add: same_sched_def w'_def w2_def)
  moreover have "vm_list w' (remove1 r rs)" "vm_objs w' r = None" using w3(2,3) by (simp_all add: w'_def vm_list_def split: option.splits)
  moreover have "sched_inv w' qs" using same_sched_inv [OF calculation(2) fleet_inv_D(1) [OF f r(1)]] .
  moreover have "mstate w r \<in> queued_states" using r(2) by (simp add: queued_states_def)
  ultimately show ?thesis using fleet_queue_sets(5) [OF f r(1)] by (simp del: set_concat)
qed

lemma fleet_inv_g_hypervisor: "fleet_inv (w\<lparr>g_hypervisor := x\<rparr>) A vc qs = fleet_inv w A vc qs"
proof -
  have "mstate (w\<lparr>g_hypervisor := x\<rparr>) = mstate w" "ent (w\<lparr>g_hypervisor := x\<rparr>) = ent w" "sched_inv (w\<lparr>g_hypervisor := x\<rparr>) = sched_inv w"
    "active (w\<lparr>g_hypervisor := x\<rparr>) = active w" "vm_with (w\<lparr>g_hypervisor := x\<rparr>) = vm_with w" "settled (w\<lparr>g_hypervisor := x\<rparr>) = settled w"
    by (intro ext; simp add: mstate_def ent_def sched_inv_def active_def vm_with_def settled_def schedulable_def vcpu_cpu_def cong: option.case_cong)+
  then show ?thesis by (simp add: fleet_inv_def)
qed

definition destroy_world :: world where
  "destroy_world = paused_world\<lparr>g_hypervisor := Some (demo_hv\<lparr>vms := Some 32\<rparr>)\<rparr>"

lemma paused_destroy_leaves_queued_witness:
  "\<exists>w'. vm_destroy destroy_world (Some 32) = Some (NEXUSVM_OK, w') \<and> vm_list w' [] \<and> vcpu_objs w' 22 = None \<and> sched_inv w' demo_queues \<and>
    12 \<in> set (concat demo_queues)"
proof -
  have f: "fleet_inv destroy_world {31, 32} paused_crews demo_queues"
    using paused_world_inv by (simp add: destroy_world_def fleet_inv_g_hypervisor)
  have p: "mstate destroy_world 32 = VM_STATE_PAUSED" by (simp add: mstate_def destroy_world_def paused_world_def crewed_def)
  have d: "destroyable destroy_world [32] 32 (paused_crews 32)"
    by (simp add: destroyable_def destroy_world_def vm_list_def paused_world_def paused_crews_def crewed_def owned_def crew_member_def demo_vcpu_def
        zero_vcpu_def zero_vm_def demo_hv_def zero_hypervisor_def vm_blobs_def List.map_filter_simps)
  from paused_destroy_leaves_queued [OF f _ p d]
  show ?thesis by (auto simp: paused_crews_def)
qed

text \<open>The consequence on CPU 0: an entity that no virtual CPU owns, with the least virtual runtime, is picked and leads to nobody. The state
  does not change, so the CPU stays idle while others wait.\<close>

lemma orphan_cfs_pick:
  assumes rq: "rq_holds w k q" and e: "e \<in> set q" "find_entity_vcpu w e = Some None"
    and least: "\<And>x. x \<in> set q \<Longrightarrow> x \<noteq> e \<Longrightarrow> vr w e < vr w x" "vr w e \<noteq> -1"
  shows "scheduler_cfs_pick_next w k = Some None"
proof -
  define acc where "acc = foldl (min_step (vr w)) (None, -1) q"
  have m: "snd acc \<le> vr w e" "acc = (None, -1) \<or> (\<exists>x\<in>set q. acc = (Some x, vr w x))"
    using foldl_min_step [of "vr w" "(None, -1)" q] e(1) by (auto simp: acc_def)
  have "acc = (Some e, vr w e)"
  proof (rule disjE [OF m(2)])
    assume "acc = (None, -1)"
    then show ?thesis using m(1) least(2) word_order.extremum_unique by fastforce
  next
    assume "\<exists>x\<in>set q. acc = (Some x, vr w x)"
    then obtain x where "x \<in> set q" "acc = (Some x, vr w x)" by blast
    with m(1) least(1) [of x] show ?thesis by (cases "x = e") auto
  qed
  moreover obtain h where h: "rq_head w k = Some h" "dll (links w) h (map SE q)" "\<And>e. e \<in> set q \<Longrightarrow> entity_objs w e \<noteq> None"
    using rq by (auto simp: rq_holds_def)
  ultimately show ?thesis using h e(2) by (simp add: scheduler_cfs_pick_next_def list_for_each_dll cfs_fold acc_def)
qed

theorem orphan_entity_idles_cpu:
  assumes inv: "sched_inv w qs" and init: "g_scheduler_initialized w" "0 < length qs"
    and hv: "g_hypervisor w = Some hv" "vm_chain (vm_objs w) (vms hv) rs" "\<forall>r\<in>set rs. \<forall>m. vm_objs w r = Some m \<longrightarrow> vcpus_ok w m"
    and e: "e \<in> set (qs ! 0)" "\<forall>r\<in>set rs. \<forall>m. vm_objs w r = Some m \<longrightarrow> (\<forall>c\<in>vm_vcpus m. \<not> entity_of w c e)"
    and least: "\<forall>x\<in>set (qs ! 0). x \<noteq> e \<longrightarrow> vr w e < vr w x" "vr w e \<noteq> -1" "\<not> fifo_first w (qs ! 0)"
  shows "scheduler_schedule w = Some (None, w)"
proof -
  obtain arr rqs where hold: "rq_holds (locked w arr rqs 0) 0 (qs ! 0)" and
    run: "scheduler_schedule w = map_option (\<lambda>res. (res, w)) (schedule_pick (locked w arr rqs 0) 0)"
    using schedule_runs_pick [OF inv init] by blast
  let ?w = "locked w arr rqs 0"
  have ok: "\<forall>r\<in>set rs. \<forall>m. vm_objs ?w r = Some m \<longrightarrow> vcpus_ok ?w m" "vm_chain (vm_objs ?w) (vms hv) rs" using hv(2,3) by simp_all
  obtain res where "find_vcpu ?w e (vms hv) = Some res"
    "\<forall>c. res = Some c \<longrightarrow> entity_of w c e \<and> (\<exists>r\<in>set rs. \<exists>m. vm_objs w r = Some m \<and> c \<in> vm_vcpus m)"
    using find_vcpu_spec [OF ok(2,1), of e] by auto
  then have "find_entity_vcpu ?w e = Some None" using hv(1) e(2) by (cases res) (auto simp: find_entity_vcpu_def)
  then have "scheduler_cfs_pick_next ?w 0 = Some None"
    by (rule orphan_cfs_pick [OF hold e(1)]) (use least(1,2) in auto)
  moreover have "schedule_pick ?w 0 = scheduler_cfs_pick_next ?w 0"
    using schedule_pick_first [OF hold] e(1) least(3) by auto
  ultimately show ?thesis by (simp add: run)
qed

text \<open>The virtual CPU of the queued entity 11 is gone; two others wait and are not scheduled.\<close>

definition orphan_world :: world where
  "orphan_world = demo_world\<lparr>vm_objs := [30 \<mapsto> demo_vm\<lparr>vcpus := Some [Some 20, Some 22], vcpu_count := 2\<rparr>],
     vcpu_objs := [20 \<mapsto> demo_vcpu 0 (Some 10), 22 \<mapsto> demo_vcpu 2 (Some 12)]\<rparr>"

lemma orphan_entity_idles_cpu_witness: "scheduler_schedule orphan_world = Some (None, orphan_world)"
proof (rule orphan_entity_idles_cpu)
  let ?m = "demo_vm\<lparr>vcpus := Some [Some 20, Some 22], vcpu_count := 2\<rparr>"
  show "sched_inv orphan_world demo_queues" using demo_inv by (simp add: orphan_world_def sched_inv_def)
  show "g_scheduler_initialized orphan_world" "g_hypervisor orphan_world = Some demo_hv" by (simp_all add: orphan_world_def)
  show "vm_chain (vm_objs orphan_world) (vms demo_hv) [30]" by (simp add: orphan_world_def demo_hv_def demo_vm_def zero_vm_def)
  show "\<forall>r\<in>set [30]. \<forall>m. vm_objs orphan_world r = Some m \<longrightarrow> vcpus_ok orphan_world m"
    by (auto simp: orphan_world_def vcpus_ok_def vcpu_array_def less_2_cases_iff)
  have "vm_vcpus ?m \<subseteq> {20, 22}" by (auto simp: vm_vcpus_def vcpu_array_def less_2_cases_iff)
  then show "\<forall>r\<in>set [30]. \<forall>m. vm_objs orphan_world r = Some m \<longrightarrow> (\<forall>c\<in>vm_vcpus m. \<not> entity_of orphan_world c 11)"
    by (auto simp: orphan_world_def entity_of_def)
  show "\<forall>x\<in>set (demo_queues ! 0). x \<noteq> 11 \<longrightarrow> vr orphan_world 11 < vr orphan_world x" "vr orphan_world 11 \<noteq> -1"
    "\<not> fifo_first orphan_world (demo_queues ! 0)"
    by (simp_all add: vr_def fifo_first_def orphan_world_def demo_world_def demo_entity_def)
qed simp_all

end
