(* ===== verification/Svm_Run.thy ===== *)
theory Svm_Run
  imports Svm_Correct
begin

text \<open>
  The run loop of the AMD-V backend: the handlers cannot stop the virtual CPU, so that a run ends only by an error, and the global
  interrupt flag is clear when it does.
\<close>

section \<open>The run loop\<close>

text \<open>The handlers see the VMCB and not the virtual CPU, and leave the interrupt flag alone.\<close>

definition vmcb_only :: "world \<Rightarrow> world \<Rightarrow> bool" where
  "vmcb_only w w' \<longleftrightarrow> vcpu_objs w' = vcpu_objs w \<and> gif (be w') = gif (be w)"

definition handler :: "world \<Rightarrow> (nexusvm_result \<times> world) run \<Rightarrow> bool" where
  "handler w m \<longleftrightarrow> (\<forall>x w'. m = Some (x, w') \<longrightarrow> vmcb_only w w')"

named_theorems handler_rules

lemma handler_return [handler_rules]: "handler w (Some (x, w))"
  by (simp add: handler_def vmcb_only_def)

lemma handler_none [handler_rules]: "handler w None"
  by (simp add: handler_def)

lemma handler_if [handler_rules]: "handler w m \<Longrightarrow> handler w n \<Longrightarrow> handler w (if b then m else n)"
  by simp

lemma handler_bind [handler_rules]: "(\<And>y. handler w (f y)) \<Longrightarrow> handler w (m \<bind> f)"
  by (cases m) (simp_all add: handler_def)

lemma handler_let [handler_rules]: "(\<And>y. handler w (f y)) \<Longrightarrow> handler w (Let z f)"
  by (simp add: Let_def)

lemma handler_put [handler_rules]: "handler w (put_state w p ws x)"
  by (auto simp: handler_def put_state_def with_bufs_def bind_eq_Some_conv vmcb_only_def)

lemma handler_write_msr [handler_rules]: "handler w (Some (x, w\<lparr>be := svm_write_msr m y (be w)\<rparr>))"
  by (simp add: handler_def vmcb_only_def svm_write_msr_def)

lemma handler_case_prod [handler_rules]: "(\<And>a b. handler w (f a b)) \<Longrightarrow> handler w (case q of (a, b) \<Rightarrow> f a b)"
  by (cases q) simp

lemmas svm_handlers = svm_handle_cpuid_def svm_handle_rdmsr_def svm_handle_wrmsr_def svm_handle_cr_read_def svm_handle_cr_write_def
  svm_handle_invlpg_def svm_handle_hlt_def svm_handle_vmmcall_def svm_handle_npf_def svm_handle_rdtsc_def svm_handle_interrupt_def
  svm_handle_vmrun_def

lemma svm_handle_exit_only: "svm_handle_exit env w p = Some (x, w') \<Longrightarrow> vmcb_only w w'"
proof -
  have "handler w (svm_handle_exit env w p)" unfolding svm_handle_exit_def svm_handlers by (intro handler_rules)
  then show "svm_handle_exit env w p = Some (x, w') \<Longrightarrow> vmcb_only w w'" by (simp add: handler_def)
qed

text \<open>\<open>n\<close> entries and exits of the virtual CPU, after which interrupts are off.\<close>

definition entered :: "nat \<Rightarrow> nexusvcpu \<Rightarrow> nexusvcpu" where
  "entered n v = v\<lparr>vmentry_count := vmentry_count v + of_nat n, vmexit_count := vmexit_count v + of_nat n\<rparr>"

lemma svm_round_effect:
  assumes v: "vcpu_objs w r = Some v" and round: "svm_round env w r p = Some (x, w')"
  shows "vcpu_objs w' r = Some (entered 1 v) \<and> \<not> gif (be w')"
proof -
  obtain w1 where w1: "svm_handle_exit env w1 p = Some (x, w')" "vcpu_objs w1 r = Some (entered 1 v)" "\<not> gif (be w1)"
    using v round
    by (clarsimp simp: svm_round_def Let_def bind_eq_Some_conv svm_vmload_def svm_vmsave_def on_vmcb_def svm_stgi_def svm_clgi_def
        upd_vcpu_def entered_def)
  then show ?thesis using svm_handle_exit_only [OF w1(1)] w1(2,3) by (simp add: vmcb_only_def)
qed

lemma entered_simps [simp]: "running (entered n v) = running v" "entered m (entered n v) = entered (n + m) v"
  by (simp_all add: entered_def algebra_simps)

text \<open>A number of rounds that all succeed.\<close>

fun svm_rounds :: "svm_env \<Rightarrow> ref \<Rightarrow> u64 \<Rightarrow> nat \<Rightarrow> world \<Rightarrow> world run" where
  "svm_rounds env r p 0 w = Some w"
| "svm_rounds env r p (Suc n) w = do { (x, w) \<leftarrow> svm_round env w r p; if x = NEXUSVM_OK then svm_rounds env r p n w else None }"

lemma svm_rounds_effect:
  "svm_rounds env r p n w = Some w' \<Longrightarrow> vcpu_objs w r = Some v \<Longrightarrow> vcpu_objs w' r = Some (entered n v)"
proof (induction n arbitrary: w v)
  case 0
  then show ?case by (simp add: entered_def)
next
  case (Suc n)
  then obtain w1 where w1: "svm_round env w r p = Some (NEXUSVM_OK, w1)" "svm_rounds env r p n w1 = Some w'"
    by (auto simp: bind_eq_Some_conv split: if_splits)
  from Suc.IH [OF w1(2), of "entered 1 v"] svm_round_effect [OF Suc.prems(2) w1(1)] show ?case by simp
qed

lemma svm_run_loop_rounds:
  "svm_run_loop env w r p = Some y \<Longrightarrow> vcpu_objs w r = Some v \<Longrightarrow> running v \<Longrightarrow>
    fst y \<noteq> NEXUSVM_OK \<and> (\<exists>n w1. svm_rounds env r p n w = Some w1 \<and> svm_round env w1 r p = Some y)"
proof (induction arbitrary: v rule: svm_run_loop.raw_induct [rotated, consumes 1, case_names step])
  case (step loop env w r p y)
  then obtain x w1 where round: "svm_round env w r p = Some (x, w1)" by (auto simp: bind_eq_Some_conv)
  show ?case
  proof (cases "x = NEXUSVM_OK")
    case True
    then have "loop env w1 r p = Some y" using step(2,3,4) round by simp
    from step(1) [OF this, of "entered 1 v"] svm_round_effect [OF step(3) round] step(4) obtain n w2 where
      "fst y \<noteq> NEXUSVM_OK" "svm_rounds env r p n w1 = Some w2" "svm_round env w2 r p = Some y" by auto
    then show ?thesis using True round by (intro conjI exI [of _ "Suc n"] exI [of _ w2]) simp_all
  next
    case False
    then show ?thesis using step(2,3,4) round by (auto intro: exI [of _ 0])
  qed
qed

lemma svm_rounds_run_loop:
  "svm_rounds env r p n w = Some w1 \<Longrightarrow> svm_round env w1 r p = Some (x, w') \<Longrightarrow> x \<noteq> NEXUSVM_OK \<Longrightarrow> vcpu_objs w r = Some v \<Longrightarrow> running v \<Longrightarrow>
    svm_run_loop env w r p = Some (x, w')"
proof (induction n arbitrary: w v)
  case 0
  then show ?case by (subst svm_run_loop.simps) simp
next
  case (Suc n)
  then obtain w2 where w2: "svm_round env w r p = Some (NEXUSVM_OK, w2)" "svm_rounds env r p n w2 = Some w1"
    by (auto simp: bind_eq_Some_conv split: if_splits)
  from Suc.IH [OF w2(2) Suc.prems(2,3), of "entered 1 v"] svm_round_effect [OF Suc.prems(4) w2(1)] Suc.prems(4,5) w2(1)
  show ?case by (subst svm_run_loop.simps) simp
qed

text \<open>A run that saves the state, completes \<open>n\<close> rounds with success and fails in the next one.\<close>

definition failing_run :: "svm_env \<Rightarrow> world \<Rightarrow> ref \<Rightarrow> u64 \<Rightarrow> nat \<Rightarrow> nexusvm_result \<times> world \<Rightarrow> bool" where
  "failing_run env w r p n y \<longleftrightarrow> fst y \<noteq> NEXUSVM_OK \<and>
     do { w \<leftarrow> svm_vmsave env w p; w \<leftarrow> svm_rounds env r p n w; svm_round env w r p } = Some y"

text \<open>C19. On AMD-V the run of a running virtual CPU never succeeds, since no handler can stop the virtual CPU: it returns
  exactly when, after some number of successful rounds, a round fails, with the error of this round; otherwise it never
  returns. It then returns to the host with the global interrupt flag clear, and no code sets the flag again outside this loop.\<close>

theorem svm_vcpu_run_fails_with_interrupts_off:
  assumes "vcpu_objs w r = Some v" "running v" "vmcb v \<noteq> 0"
  shows "(svm_vcpu_run env w (Some r) = Some (result, w') \<longleftrightarrow> (\<exists>n. failing_run env w r (vmcb v) n (result, w'))) \<and>
    (\<forall>n. failing_run env w r (vmcb v) n (result, w') \<longrightarrow> \<not> gif (be w') \<and> vcpu_objs w' r = Some (entered (Suc n) v))"
proof -
  have save: "vcpu_objs w1 r = Some v" if "svm_vmsave env w (vmcb v) = Some w1" for w1
    using that assms(1) by (auto simp: svm_vmsave_def on_vmcb_def bind_eq_Some_conv)
  have run: "svm_vcpu_run env w (Some r) = do { w \<leftarrow> svm_vmsave env w (vmcb v); svm_run_loop env w r (vmcb v) }"
    using assms by (simp add: svm_vcpu_run_def Let_def)
  have "svm_vcpu_run env w (Some r) = Some (result, w') \<longleftrightarrow> (\<exists>n. failing_run env w r (vmcb v) n (result, w'))"
  proof (cases "svm_vmsave env w (vmcb v)")
    case (Some w1)
    have "svm_run_loop env w1 r (vmcb v) = Some (result, w') \<longleftrightarrow>
        result \<noteq> NEXUSVM_OK \<and> (\<exists>n w2. svm_rounds env r (vmcb v) n w1 = Some w2 \<and> svm_round env w2 r (vmcb v) = Some (result, w'))"
      using svm_run_loop_rounds [OF _ save [OF Some] assms(2), of env "vmcb v" "(result, w')"]
        svm_rounds_run_loop [OF _ _ _ save [OF Some] assms(2), of env "vmcb v" _ _ result w'] by (metis fst_conv)
    then show ?thesis by (simp add: run Some failing_run_def bind_eq_Some_conv)
  qed (simp add: run failing_run_def)
  moreover have "\<not> gif (be w') \<and> vcpu_objs w' r = Some (entered (Suc n) v)" if "failing_run env w r (vmcb v) n (result, w')" for n
  proof -
    from that obtain w1 w2 where w: "svm_vmsave env w (vmcb v) = Some w1" "svm_rounds env r (vmcb v) n w1 = Some w2"
      "svm_round env w2 r (vmcb v) = Some (result, w')" by (auto simp: failing_run_def bind_eq_Some_conv)
    from svm_round_effect [OF svm_rounds_effect [OF w(2) save [OF w(1)]] w(3)] show ?thesis by simp
  qed
  ultimately show ?thesis by blast
qed

text \<open>A cleared VMCB: the exit code 0 names no exit that is handled.\<close>

definition run_world :: world where
  "run_world = svm_world\<lparr>vcpu_objs := [20 \<mapsto> svm_vcpu\<lparr>running := True\<rparr>]\<rparr>"

lemma svm_demo_env_simps [simp]: "vmsave svm_demo_env bs = bs" "vmrun svm_demo_env n bs = bs"
  by (simp_all add: svm_demo_env_def)

lemma cleared_exit:
  assumes "bufs w 0x4000 = Some (replicate 4096 0)"
  shows "svm_handle_exit svm_demo_env w 0x4000 = Some (NEXUSVM_ERR_GENERIC, w)"
proof -
  have "rd64 (bufs w) 0x4000 n = Some 0" if "n + 8 \<le> 4096" for n
  proof -
    have "of_le (replicate k 0) = 0" for k by (induction k) simp_all
    then show ?thesis using assms that by (simp add: rd64_def)
  qed
  then show ?thesis
    by (simp add: svm_handle_exit_def svm_get_exit_code_def svm_get_exit_info1_def svm_get_exit_info2_def vmcb_offsets svm_demo_env_def)
qed

lemma svm_vcpu_run_fails_with_interrupts_off_witness:
  "\<exists>w'. svm_vcpu_run svm_demo_env run_world (Some 20) = Some (NEXUSVM_ERR_GENERIC, w') \<and> gif (be run_world) \<and> \<not> gif (be w')"
proof -
  have v: "vcpu_objs run_world 20 = Some (svm_vcpu\<lparr>running := True\<rparr>)" by (simp add: run_world_def)
  have "svm_vmsave svm_demo_env run_world 0x4000 = Some run_world"
    by (simp add: svm_vmsave_def on_vmcb_def run_world_def svm_world_def)
  moreover have "\<exists>w'. svm_round svm_demo_env run_world 20 0x4000 = Some (NEXUSVM_ERR_GENERIC, w')"
    by (simp add: svm_round_def svm_vmload_def svm_vmsave_def on_vmcb_def cleared_exit Let_def v
        upd_vcpu_def svm_stgi_def svm_clgi_def run_world_def svm_world_def)
  ultimately obtain w' where f: "failing_run svm_demo_env run_world 20 0x4000 0 (NEXUSVM_ERR_GENERIC, w')"
    by (auto simp: failing_run_def)
  have "vmcb (svm_vcpu\<lparr>running := True\<rparr>) = 0x4000" by (simp add: svm_vcpu_def)
  moreover have "gif (be run_world)" by (simp add: run_world_def svm_world_def boot_world_def reset_backend_def)
  ultimately show ?thesis
    using svm_vcpu_run_fails_with_interrupts_off [OF v, of svm_demo_env NEXUSVM_ERR_GENERIC w'] f by auto
qed

end
