(* ===== verification/Utils_Bits.thy ===== *)
theory Utils_Bits
  imports Nexus_Prelude
begin

text \<open>
  Bit maps over arrays of 64-bit words: the bit macros of \<^verbatim>\<open>src/utils/log.h\<close> and \<open>find_next_bit\<close> of
  \<^verbatim>\<open>src/utils/log.c\<close>, the search for the least set bit that it should be, and the set of bits that a bit map
  stands for. An access outside the array is undefined.
\<close>

section \<open>The bit macros\<close>

definition BITS_PER_LONG :: u64 where "BITS_PER_LONG = 64"

definition BIT_MASK :: "u64 \<Rightarrow> u64" where "BIT_MASK nr = push_bit (unat (nr mod BITS_PER_LONG)) 1"

definition BIT_WORD :: "u64 \<Rightarrow> nat" where "BIT_WORD nr = unat (nr div BITS_PER_LONG)"

definition long_at :: "u64 list \<Rightarrow> nat \<Rightarrow> u64 run" where
  "long_at a i = (if i < length a then Some (a ! i) else None)"

definition upd_long :: "u64 list \<Rightarrow> nat \<Rightarrow> (u64 \<Rightarrow> u64) \<Rightarrow> u64 list run" where
  "upd_long a i f = (if i < length a then Some (a[i := f (a ! i)]) else None)"

definition test_bit_l :: "u64 \<Rightarrow> u64 list \<Rightarrow> bool run" where
  "test_bit_l nr a = do { x \<leftarrow> long_at a (BIT_WORD nr); Some (BIT_MASK nr AND x \<noteq> 0) }"

definition set_bit_l :: "u64 \<Rightarrow> u64 list \<Rightarrow> u64 list run" where
  "set_bit_l nr a = upd_long a (BIT_WORD nr) (\<lambda>x. x OR BIT_MASK nr)"

definition clear_bit_l :: "u64 \<Rightarrow> u64 list \<Rightarrow> u64 list run" where
  "clear_bit_l nr a = upd_long a (BIT_WORD nr) (\<lambda>x. x AND NOT (BIT_MASK nr))"

definition change_bit_l :: "u64 \<Rightarrow> u64 list \<Rightarrow> u64 list run" where
  "change_bit_l nr a = upd_long a (BIT_WORD nr) (\<lambda>x. x XOR BIT_MASK nr)"

section \<open>The set of bits of a bit map\<close>

definition bits_of :: "u64 list \<Rightarrow> nat set" where
  "bits_of a = {n. n div 64 < length a \<and> bit (a ! (n div 64)) (n mod 64)}"

lemma BIT_WORD_eq: "BIT_WORD nr = unat nr div 64"
  by (simp add: BIT_WORD_def BITS_PER_LONG_def unat_div)

lemma BIT_MASK_eq: "BIT_MASK nr = push_bit (unat nr mod 64) 1"
  by (simp add: BIT_MASK_def BITS_PER_LONG_def unat_mod)

lemma bit_BIT_MASK: "i < 64 \<Longrightarrow> bit (BIT_MASK nr) i \<longleftrightarrow> i = unat nr mod 64"
  by (auto simp: BIT_MASK_eq bit_push_bit_iff bit_1_iff simp del: push_bit_of_1)

lemma BIT_MASK_and: "(BIT_MASK nr AND x \<noteq> 0) \<longleftrightarrow> bit x (unat nr mod 64)"
proof -
  have "BIT_MASK nr AND x = (if bit x (unat nr mod 64) then BIT_MASK nr else 0)"
    by (rule bit_word_eqI) (auto simp: bit_and_iff bit_BIT_MASK)
  moreover have "BIT_MASK nr \<noteq> 0" using bit_BIT_MASK [of "unat nr mod 64" nr] by auto
  ultimately show ?thesis by simp
qed

lemma test_bit_l_iff: "unat nr div 64 < length a \<Longrightarrow> test_bit_l nr a = Some (unat nr \<in> bits_of a)"
  by (simp add: test_bit_l_def long_at_def BIT_WORD_eq BIT_MASK_and bits_of_def)

lemma div_mod_eq_iff: "(n::nat) = k \<longleftrightarrow> n div 64 = k div 64 \<and> n mod 64 = k mod 64"
  by (metis div_mult_mod_eq)

lemma upd_long_bits:
  assumes "unat nr div 64 < length a" "\<And>x i. i < 64 \<Longrightarrow> bit (f x) i \<longleftrightarrow> (if i = unat nr mod 64 then P (bit x i) else bit x i)"
  shows "\<exists>b. upd_long a (BIT_WORD nr) f = Some b \<and> length b = length a \<and>
    bits_of b = {n. if n = unat nr then P (n \<in> bits_of a) else n \<in> bits_of a}"
proof -
  let ?b = "a[BIT_WORD nr := f (a ! BIT_WORD nr)]"
  have "n \<in> bits_of ?b \<longleftrightarrow> (if n = unat nr then P (n \<in> bits_of a) else n \<in> bits_of a)" for n
  proof (cases "n div 64 = unat nr div 64")
    case True
    then have "n \<in> bits_of ?b \<longleftrightarrow> bit (f (a ! (n div 64))) (n mod 64)" "n \<in> bits_of a \<longleftrightarrow> bit (a ! (n div 64)) (n mod 64)"
      using assms(1) by (simp_all add: bits_of_def BIT_WORD_eq)
    then show ?thesis using assms(2) [of "n mod 64"] True div_mod_eq_iff [of n "unat nr"] by simp
  next
    case False
    then show ?thesis by (auto simp: bits_of_def BIT_WORD_eq)
  qed
  then have "bits_of ?b = {n. if n = unat nr then P (n \<in> bits_of a) else n \<in> bits_of a}" by blast
  with assms(1) show ?thesis by (simp add: upd_long_def BIT_WORD_eq)
qed

text \<open>The macros are insertion, removal and complement of one element of the set.\<close>

lemma set_bit_l_bits:
  assumes "unat nr div 64 < length a"
  shows "\<exists>b. set_bit_l nr a = Some b \<and> length b = length a \<and> bits_of b = insert (unat nr) (bits_of a)"
proof -
  have "{n. if n = unat nr then True else n \<in> bits_of a} = insert (unat nr) (bits_of a)" by auto
  with upd_long_bits [OF assms, of "\<lambda>x. x OR BIT_MASK nr" "\<lambda>_. True"] show ?thesis
    by (simp add: set_bit_l_def bit_or_iff bit_BIT_MASK)
qed

lemma clear_bit_l_bits:
  assumes "unat nr div 64 < length a"
  shows "\<exists>b. clear_bit_l nr a = Some b \<and> length b = length a \<and> bits_of b = bits_of a - {unat nr}"
proof -
  have "{n. if n = unat nr then False else n \<in> bits_of a} = bits_of a - {unat nr}" by auto
  with upd_long_bits [OF assms, of "\<lambda>x. x AND NOT (BIT_MASK nr)" "\<lambda>_. False"] show ?thesis
    by (simp add: clear_bit_l_def bit_and_iff bit_not_iff bit_BIT_MASK)
qed

lemma change_bit_l_bits:
  assumes "unat nr div 64 < length a"
  shows "\<exists>b. change_bit_l nr a = Some b \<and> length b = length a \<and>
    bits_of b = (if unat nr \<in> bits_of a then bits_of a - {unat nr} else insert (unat nr) (bits_of a))"
proof -
  have "{n. if n = unat nr then n \<notin> bits_of a else n \<in> bits_of a} =
      (if unat nr \<in> bits_of a then bits_of a - {unat nr} else insert (unat nr) (bits_of a))" by auto
  with upd_long_bits [OF assms, of "\<lambda>x. x XOR BIT_MASK nr" "Not"] show ?thesis
    by (simp add: change_bit_l_def bit_xor_iff bit_BIT_MASK)
qed

lemma finite_bits_of [simp]: "finite (bits_of a)"
proof (rule finite_subset)
  show "bits_of a \<subseteq> {..<64 * length a}" by (auto simp: bits_of_def)
qed simp

lemma bits_of_zeros [simp]: "bits_of (replicate n 0) = {}"
  by (auto simp: bits_of_def)

section \<open>Searching for a bit\<close>

text \<open>\<open>__builtin_ctzl\<close> of a word that is not zero.\<close>

definition ctzl :: "u64 \<Rightarrow> u64" where
  "ctzl x = of_nat (length (takeWhile (\<lambda>i. \<not> bit x i) [0..<64]))"

text \<open>The label \<open>found\<close>; \<open>offset\<close> has been reduced to its remainder by then.\<close>

definition found_bit :: "u64 \<Rightarrow> u64 \<Rightarrow> u64" where
  "found_bit offset result = (if result < offset then offset else result)"

lemma whole_word_left: "(sz :: u64) AND NOT (BITS_PER_LONG - 1) \<noteq> 0 \<longleftrightarrow> 64 \<le> unat sz"
proof -
  let ?m = "BITS_PER_LONG - 1"
  have "sz = (sz AND ?m) OR (sz AND NOT ?m)" by (simp flip: bit.conj_disj_distrib)
  moreover have "(sz AND ?m) AND NOT ?m = 0" by (simp add: and.assoc)
  ultimately have "sz AND NOT ?m = 0 \<longleftrightarrow> sz = sz AND ?m" by (metis or.right_neutral)
  moreover have "sz AND ?m = take_bit 6 sz" by (simp add: take_bit_eq_mask BITS_PER_LONG_def mask_eq_exp_minus_1)
  moreover have "sz = take_bit 6 sz \<longleftrightarrow> unat sz = unat sz mod 64"
    by (simp add: word_unat_eq_iff unsigned_take_bit_eq take_bit_eq_mod unat_mod)
  moreover have "unat sz = unat sz mod 64 \<longleftrightarrow> unat sz < 64" by (metis mod_less mod_less_divisor zero_less_numeral)
  ultimately show ?thesis by (simp only:) linarith
qed

text \<open>The loop over whole words and what follows it.\<close>

function next_bit_loop :: "u64 list \<Rightarrow> u64 \<Rightarrow> nat \<Rightarrow> u64 \<Rightarrow> u64 \<Rightarrow> u64 run" where
  "next_bit_loop addr offset p sz result =
     (if sz AND NOT (BITS_PER_LONG - 1) \<noteq> 0 then do {
        tmp \<leftarrow> long_at addr p;
        if tmp \<noteq> 0 then Some (found_bit offset (result + ctzl tmp))
        else next_bit_loop addr offset (Suc p) (sz - BITS_PER_LONG) (result + BITS_PER_LONG)
      }
      else if sz \<noteq> 0 then do { tmp \<leftarrow> long_at addr p; Some (found_bit offset result) }
      else Some result)"
  by pat_completeness auto

termination
proof (relation "measure (\<lambda>(addr, offset, p, sz, result). unat sz)")
  fix sz :: u64
  assume "sz AND NOT (BITS_PER_LONG - 1) \<noteq> 0"
  then have "64 \<le> unat sz" by (simp add: whole_word_left)
  then have "unat (sz - BITS_PER_LONG) < unat sz" by (simp add: BITS_PER_LONG_def unat_sub_if' word_le_nat_alt)
  then show "((addr, offset, Suc p, sz - BITS_PER_LONG, result + BITS_PER_LONG), addr, offset, p, sz, result)
      \<in> measure (\<lambda>(addr, offset, p, sz, result). unat sz)" for addr offset p result by simp
qed auto

declare next_bit_loop.simps [simp del]

text \<open>The address of the first word is formed before the test of \<open>offset\<close>; nothing is read through it then.\<close>

definition find_next_bit :: "u64 list \<Rightarrow> u64 \<Rightarrow> u64 \<Rightarrow> u64 run" where
  "find_next_bit addr sz offset =
     (let p = BIT_WORD offset;
          result = offset AND NOT (BITS_PER_LONG - 1)
      in if offset \<ge> sz then Some sz
         else
           let sz = sz - result; offset = offset mod BITS_PER_LONG in
           if offset \<noteq> 0 then do {
             tmp \<leftarrow> long_at addr p;
             let tmp = tmp AND drop_bit (unat offset) (-1);
             if sz < BITS_PER_LONG then Some (found_bit offset result)
             else if tmp \<noteq> 0 then Some (found_bit offset (result + ctzl tmp))
             else next_bit_loop addr offset (Suc p) (sz - BITS_PER_LONG) (result + BITS_PER_LONG)
           }
           else next_bit_loop addr offset p sz result)"

definition find_first_bit :: "u64 list \<Rightarrow> u64 \<Rightarrow> u64 run" where
  "find_first_bit addr sz = find_next_bit addr sz 0"

subsection \<open>The search over whole words\<close>

lemma takeWhile_upt_least:
  assumes "P k" "k < n" "\<forall>i<k. \<not> P i"
  shows "length (takeWhile (\<lambda>i. \<not> P i) [0..<n]) = k"
proof -
  have "[0..<n] = [0..<k] @ k # [Suc k..<n]" using assms(2) by (metis less_imp_le_nat upt_add_eq_append upt_conv_Cons add.left_neutral le_add_diff_inverse zero_le)
  then have "takeWhile (\<lambda>i. \<not> P i) [0..<n] = [0..<k]" using assms by (simp add: takeWhile_append)
  then show ?thesis by simp
qed

lemma ctzl_least:
  assumes "x \<noteq> 0"
  shows "\<exists>k<64. ctzl x = of_nat k \<and> bit x k \<and> (\<forall>i<k. \<not> bit x i)"
proof -
  obtain i where i: "bit x i" using assms by (auto simp: bit_eq_iff)
  define k where "k = (LEAST i. bit x i)"
  have k: "bit x k" "\<forall>i<k. \<not> bit x i" using i LeastI [of "bit x"] not_less_Least by (auto simp: k_def)
  moreover have "k < 64" using bit_imp_le_length [OF k(1)] by simp
  ultimately show ?thesis using takeWhile_upt_least [of "bit x" k 64] by (auto simp: ctzl_def)
qed

lemma next_bit_loop_least:
  assumes "length a = p + n" "64 * length a < 2 ^ 64" "\<forall>i < 64 * p. i \<notin> bits_of a"
  shows "next_bit_loop a 0 p (of_nat (64 * n)) (of_nat (64 * p)) = Some (of_nat (Min (insert (64 * length a) (bits_of a))))"
  using assms
proof (induction n arbitrary: p)
  case 0
  have "Min (insert (64 * length a) (bits_of a)) = 64 * length a"
    by (rule Min_eqI) (use 0 in \<open>auto simp: not_less [symmetric]\<close>)
  with 0 show ?case by (subst next_bit_loop.simps) simp
next
  case (Suc n)
  have sz: "unat (of_nat (64 * Suc n) :: u64) = 64 * Suc n" using Suc.prems by (intro unat_of_nat_small) simp
  have whole: "(of_nat (64 * Suc n) :: u64) AND NOT (BITS_PER_LONG - 1) \<noteq> 0" unfolding whole_word_left sz by simp
  have word: "long_at a p = Some (a ! p)" using Suc.prems(1) by (simp add: long_at_def)
  have in_word: "64 * p + i \<in> bits_of a \<longleftrightarrow> bit (a ! p) i" if "i < 64" for i
    using that Suc.prems(1) by (simp add: bits_of_def)
  show ?case
  proof (cases "a ! p = 0")
    case True
    then have "i \<notin> bits_of a" if "i < 64 * Suc p" for i
      using Suc.prems(3) in_word [of "i - 64 * p"] that by (cases "i < 64 * p") auto
    with Suc.IH [of "Suc p"] Suc.prems have
      "next_bit_loop a 0 (Suc p) (of_nat (64 * n)) (of_nat (64 * Suc p)) = Some (of_nat (Min (insert (64 * length a) (bits_of a))))" by simp
    moreover have "next_bit_loop a 0 p (of_nat (64 * Suc n)) (of_nat (64 * p)) = next_bit_loop a 0 (Suc p) (of_nat (64 * n)) (of_nat (64 * Suc p))"
      using whole word True by (subst next_bit_loop.simps) (simp add: BITS_PER_LONG_def algebra_simps)
    ultimately show ?thesis by simp
  next
    case False
    then obtain k where k: "k < 64" "ctzl (a ! p) = of_nat k" "bit (a ! p) k" "\<forall>i<k. \<not> bit (a ! p) i" using ctzl_least by blast
    have "i \<notin> bits_of a" if "i < 64 * p + k" for i
      using Suc.prems(3) in_word [of "i - 64 * p"] k(1,4) that by (cases "i < 64 * p") auto
    then have "Min (insert (64 * length a) (bits_of a)) = 64 * p + k"
      using k(1,3) in_word [of k] Suc.prems(1) by (intro Min_eqI) (auto simp: not_less [symmetric])
    then show ?thesis using whole word False k(2) by (subst next_bit_loop.simps) (simp add: found_bit_def)
  qed
qed

text \<open>\<open>find_first_bit\<close> over a whole number of words returns the least bit of the map, or the size when there is none.\<close>

theorem find_first_bit_least:
  assumes "64 * length a < 2 ^ 64"
  shows "find_first_bit a (of_nat (64 * length a)) = Some (of_nat (Min (insert (64 * length a) (bits_of a))))"
proof (cases "a = []")
  case False
  then have "of_nat (64 * length a) > (0 :: u64)" using assms of_nat_word_nonzero [of "64 * length a", where ?'a = 64] by (simp add: word_gt_0)
  with next_bit_loop_least [of a 0 "length a"] assms show ?thesis
    by (simp add: find_first_bit_def find_next_bit_def BIT_WORD_def BITS_PER_LONG_def not_le)
qed (simp add: find_first_bit_def find_next_bit_def bits_of_def)

lemma find_first_bit_least_witness: "find_first_bit [0, 0x30] 128 = Some 68"
proof -
  have "(0x30 :: u64) = push_bit 4 (mask 2)" by (simp add: mask_eq_exp_minus_1)
  then have b: "bit (0x30 :: u64) i \<longleftrightarrow> i = 4 \<or> i = 5" for i
    by (simp only: bit_push_bit_iff bit_mask_iff) auto
  have "d < length [0, x] \<and> bit ([0, x] ! d) i \<longleftrightarrow> d = 1 \<and> bit x i" for d i and x :: u64
    by (cases d) (auto simp: nth_Cons split: nat.split)
  then have "n \<in> bits_of [0, 0x30] \<longleftrightarrow> n div 64 = 1 \<and> bit (0x30 :: u64) (n mod 64)" for n
    by (simp only: bits_of_def mem_Collect_eq)
  moreover have "n div 64 = 1 \<and> (n mod 64 = 4 \<or> n mod 64 = 5) \<longleftrightarrow> n = 68 \<or> n = 69" for n :: nat
    using div_mod_eq_iff [of n 68] div_mod_eq_iff [of n 69] by auto
  ultimately have "bits_of [0, 0x30] = {68, 69}" unfolding b by blast
  with find_first_bit_least [of "[0, 0x30]"] show ?thesis by simp
qed

text \<open>With a size below one word \<open>find_next_bit\<close> never looks at the bits: it answers the offset it was given, whether that bit is set or not.\<close>

theorem find_next_bit_short_map:
  assumes "a \<noteq> []" "sz < 64" "offset < sz"
  shows "find_next_bit a sz offset = Some offset"
proof -
  have o: "unat offset < 64" "unat sz < 64" "offset < 64" using assms by (simp_all add: word_less_nat_alt)
  have "\<not> sz \<le> offset" using assms(3) by simp
  moreover have "offset AND NOT (BITS_PER_LONG - 1) = 0" using whole_word_left [of offset] o(1) by fastforce
  moreover have "sz AND NOT (BITS_PER_LONG - 1) = 0" using whole_word_left [of sz] o(2) by fastforce
  moreover have "offset mod BITS_PER_LONG = offset" using o(1) by (simp add: BITS_PER_LONG_def word_unat_eq_iff unat_mod)
  moreover have "BIT_WORD offset = 0" using o(1) by (simp add: BIT_WORD_eq)
  moreover have "sz \<noteq> 0" using assms(3) by auto
  ultimately show ?thesis using assms
    by (subst find_next_bit_def) (auto simp add: Let_def long_at_def found_bit_def not_le next_bit_loop.simps BITS_PER_LONG_def word_gt_0)
qed

lemma find_next_bit_short_map_witness: "find_next_bit [0] 10 3 = Some 3"
  using find_next_bit_short_map [of "[0]" 10 3] by simp

end
