(* ===== verification/Migration.thy ===== *)
theory Migration
  imports Hypervisor Utils_Bits
begin

text \<open>
  Live migration, \<^verbatim>\<open>src/hypervisor/migration/migration.c\<close>: sessions with their map of dirty pages, the phases,
  the transport (stubs in the source) and the transfer of the state of a machine.

  A session is an object of its own heap; the opaque \<open>void *\<close> handed out is its reference. The map of
  dirty pages lives and dies with the session. A buffer that holds a serialised machine is the sequence of
  structures copied into it; what \<open>malloc\<close> leaves is \<open>Uninitialised\<close>, and reading a structure where another one
  or none was stored is undefined. The two members of type \<open>double\<close> of the statistics are not modelled. The
  type \<open>migration_header_t\<close> and its constants, which the code uses and the repository does not define, enter through parameters only.
\<close>

section \<open>Data\<close>

datatype migration_state =
    MIGRATION_STATE_INITIATED
  | MIGRATION_STATE_PRECOPY
  | MIGRATION_STATE_STOP_AND_COPY
  | MIGRATION_STATE_SETUP
  | MIGRATION_STATE_TRANSFER
  | MIGRATION_STATE_RESUME
  | MIGRATION_STATE_COMPLETED
  | MIGRATION_STATE_FAILED
  | MIGRATION_STATE_CANCELLED

record migration_config =
  target_host :: string
  target_port :: u16
  max_bandwidth :: u32
  auto_converge :: bool
  compression :: bool
  start_paused :: bool
  downtime_quantum :: u64
  max_convergence_iterations :: u32

record migration_stats =
  st_state :: migration_state
  st_total_pages :: u64
  st_transferred_pages :: u64
  st_dirty_pages :: u64
  st_remaining_pages :: u64
  st_duplicate_pages :: u64
  st_compression_ratio :: u64
  st_transferred_bytes :: u64
  st_downtime_ns :: u64
  st_elapsed_time_ns :: u64

definition zero_stats :: migration_stats where
  "zero_stats = \<lparr>st_state = MIGRATION_STATE_INITIATED, st_total_pages = 0, st_transferred_pages = 0,
     st_dirty_pages = 0, st_remaining_pages = 0, st_duplicate_pages = 0, st_compression_ratio = 0,
     st_transferred_bytes = 0, st_downtime_ns = 0, st_elapsed_time_ns = 0\<rparr>"

record migration_session =
  mg_vm :: "ref option"
  mg_config :: migration_config
  mg_state :: migration_state
  mg_connection :: "ref option"
  is_source :: bool
  dirty_pages :: "u64 list"
  dirty_page_count :: u64
  total_pages :: u64
  transferred_pages :: u64
  iteration :: u64
  stats :: migration_stats
  mg_lock :: bool

record mig_world =
  base_world :: world
  sessions :: "ref \<rightharpoonup> migration_session"

definition upd_session :: "mig_world \<Rightarrow> ref \<Rightarrow> (migration_session \<Rightarrow> migration_session) \<Rightarrow> mig_world" where
  "upd_session g s f = g\<lparr>sessions := (sessions g)(s := map_option f (sessions g s))\<rparr>"

definition upd_base :: "mig_world \<Rightarrow> (world \<Rightarrow> world) \<Rightarrow> mig_world" where
  "upd_base g f = g\<lparr>base_world := f (base_world g)\<rparr>"

text \<open>\<open>lock; state = st; unlock\<close>: on a lock that is already held the call does not return.\<close>

definition set_phase :: "mig_world \<Rightarrow> ref \<Rightarrow> migration_state \<Rightarrow> mig_world run" where
  "set_phase g s st = do {
     x \<leftarrow> sessions g s;
     if mg_lock x then None else Some (upd_session g s (\<lambda>x. x\<lparr>mg_state := st, mg_lock := False\<rparr>))
   }"

section \<open>Sessions\<close>

text \<open>The loop that marks every page.\<close>

function mark_pages :: "u64 \<Rightarrow> u64 \<Rightarrow> u64 list \<Rightarrow> u64 list run" where
  "mark_pages i n d = (if i < n then do { d \<leftarrow> set_bit_l i d; mark_pages (i + 1) n d } else Some d)"
  by pat_completeness auto
termination
  by (relation "measure (\<lambda>(i, n, d). unat n - unat i)") (auto simp: loop_measure)

declare mark_pages.simps [simp del]

text \<open>
  \<open>session_out\<close> tells whether the pointer for the result is not \<open>NULL\<close>. The second request to \<open>calloc\<close> may fail
  on its own.
\<close>

definition migration_start ::
  "platform \<Rightarrow> mig_world \<Rightarrow> ref option \<Rightarrow> migration_config option \<Rightarrow> bool \<Rightarrow> (nexusvm_result \<times> ref option \<times> mig_world) run"
where
  "migration_start pf g vmp cfg session_out =
     (case (vmp, cfg, session_out) of
        (Some r, Some c, True) \<Rightarrow> do {
          m \<leftarrow> vm_objs (base_world g) r;
          case request pf (base_world g) of (ok, w) \<Rightarrow>
          if \<not> ok then Some (NEXUSVM_ERR_NO_MEMORY, None, g\<lparr>base_world := w\<rparr>)
          else
            let s = next_ref w; w = w\<lparr>next_ref := Suc s\<rparr>; pages = memory_size m div PAGE_SIZE in
            (case request pf w of (ok, w) \<Rightarrow>
             if \<not> ok then Some (NEXUSVM_ERR_NO_MEMORY, None, g\<lparr>base_world := w\<rparr>)
             else do {
               d \<leftarrow> mark_pages 0 pages (replicate (unat ((pages + 63) div 64)) 0);
               let x = \<lparr>mg_vm = Some r, mg_config = c, mg_state = MIGRATION_STATE_INITIATED, mg_connection = None,
                 is_source = True, dirty_pages = d, dirty_page_count = pages, total_pages = pages,
                 transferred_pages = 0, iteration = 0, stats = zero_stats, mg_lock = False\<rparr>;
               Some (NEXUSVM_OK, Some s,
                 \<lparr>base_world = upd_vm w r (\<lambda>m. m\<lparr>state := VM_STATE_MIGRATING\<rparr>), sessions = (sessions g)(s \<mapsto> x)\<rparr>)
             })
        }
      | _ \<Rightarrow> Some (NEXUSVM_ERR_INVALID_PARAM, None, g))"

text \<open>The machine leaves \<open>VM_STATE_MIGRATING\<close> when a session ends.\<close>

definition leave_migrating :: "mig_world \<Rightarrow> ref option \<Rightarrow> mig_world run" where
  "leave_migrating g vmp = do {
     r \<leftarrow> vmp;
     m \<leftarrow> vm_objs (base_world g) r;
     Some (if state m = VM_STATE_MIGRATING then upd_base g (\<lambda>w. upd_vm w r (\<lambda>m. m\<lparr>state := VM_STATE_RUNNING\<rparr>)) else g)
   }"

definition migration_complete :: "mig_world \<Rightarrow> ref option \<Rightarrow> (nexusvm_result \<times> mig_world) run" where
  "migration_complete g session =
     (case session of None \<Rightarrow> Some (NEXUSVM_ERR_INVALID_PARAM, g)
      | Some s \<Rightarrow> do {
          g \<leftarrow> set_phase g s MIGRATION_STATE_COMPLETED;
          x \<leftarrow> sessions g s;
          g \<leftarrow> leave_migrating g (mg_vm x);
          Some (NEXUSVM_OK, g\<lparr>sessions := (sessions g)(s := None)\<rparr>)
        })"

text \<open>Closing a connection only logs.\<close>

definition migration_disconnect :: "ref option \<Rightarrow> unit" where
  "migration_disconnect connection = ()"

definition migration_cancel :: "mig_world \<Rightarrow> ref option \<Rightarrow> (nexusvm_result \<times> mig_world) run" where
  "migration_cancel g session =
     (case session of None \<Rightarrow> Some (NEXUSVM_ERR_INVALID_PARAM, g)
      | Some s \<Rightarrow> do {
          g \<leftarrow> set_phase g s MIGRATION_STATE_CANCELLED;
          x \<leftarrow> sessions g s;
          g \<leftarrow> leave_migrating g (mg_vm x);
          let _ = (if mg_connection x \<noteq> None then migration_disconnect (mg_connection x) else ());
          Some (NEXUSVM_OK, g\<lparr>sessions := (sessions g)(s := None)\<rparr>)
        })"

section \<open>Phases\<close>

text \<open>The loop of a pre-copy round: at most 10000 dirty pages are sent, and their bits cleared.\<close>

function precopy_loop :: "u64 \<Rightarrow> u64 \<Rightarrow> migration_session \<Rightarrow> migration_session run" where
  "precopy_loop i sent x =
     (if i < total_pages x \<and> sent < 10000 then do {
        dirty \<leftarrow> test_bit_l i (dirty_pages x);
        if dirty then do {
          d \<leftarrow> clear_bit_l i (dirty_pages x);
          precopy_loop (i + 1) (sent + 1)
            (x\<lparr>dirty_pages := d, transferred_pages := transferred_pages x + 1, dirty_page_count := dirty_page_count x - 1\<rparr>)
        }
        else precopy_loop (i + 1) sent x
      } else Some x)"
  by pat_completeness auto
termination
  by (relation "measure (\<lambda>(i, sent, x). unat (total_pages x) - unat i)") (auto simp: loop_measure)

declare precopy_loop.simps [simp del]

text \<open>The end of a round: the counters and the test of convergence.\<close>

definition end_round :: "migration_session \<Rightarrow> migration_session" where
  "end_round x =
     (let x = x\<lparr>iteration := iteration x + 1\<rparr>;
          x = x\<lparr>stats := (stats x)\<lparr>st_dirty_pages := dirty_page_count x, st_transferred_pages := transferred_pages x,
                st_remaining_pages := dirty_page_count x\<rparr>\<rparr>
      in if dirty_page_count x < 100 \<or> iteration x > ucast (max_convergence_iterations (mg_config x))
         then x\<lparr>mg_state := MIGRATION_STATE_STOP_AND_COPY\<rparr> else x)"

definition migration_precopy :: "mig_world \<Rightarrow> ref option \<Rightarrow> (nexusvm_result \<times> mig_world) run" where
  "migration_precopy g session =
     (case session of None \<Rightarrow> Some (NEXUSVM_ERR_INVALID_PARAM, g)
      | Some s \<Rightarrow> do {
          g \<leftarrow> set_phase g s MIGRATION_STATE_PRECOPY;
          x \<leftarrow> sessions g s;
          x \<leftarrow> precopy_loop 0 0 x;
          Some (NEXUSVM_OK, g\<lparr>sessions := (sessions g)(s \<mapsto> end_round x)\<rparr>)
        })"

text \<open>The final copy counts the pages that are left and leaves their bits set.\<close>

function final_copy_loop :: "u64 \<Rightarrow> migration_session \<Rightarrow> migration_session run" where
  "final_copy_loop i x =
     (if i < total_pages x then do {
        dirty \<leftarrow> test_bit_l i (dirty_pages x);
        final_copy_loop (i + 1) (if dirty then x\<lparr>transferred_pages := transferred_pages x + 1\<rparr> else x)
      } else Some x)"
  by pat_completeness auto
termination
  by (relation "measure (\<lambda>(i, x). unat (total_pages x) - unat i)") (auto simp: loop_measure)

declare final_copy_loop.simps [simp del]

section \<open>Transport\<close>

text \<open>\<open>conn\<close> tells whether the pointer for the result is not \<open>NULL\<close>; what is stored through it is the second result.\<close>

definition migration_connect :: "string option \<Rightarrow> u16 \<Rightarrow> bool \<Rightarrow> nexusvm_result \<times> ref option" where
  "migration_connect target prt conn =
     (if target = None \<or> \<not> conn then (NEXUSVM_ERR_INVALID_PARAM, None) else (NEXUSVM_OK, None))"

definition migration_send :: "ref option \<Rightarrow> bool \<Rightarrow> u64 \<Rightarrow> nexusvm_result" where
  "migration_send connection data sz = (if \<not> data \<or> sz = 0 then NEXUSVM_ERR_INVALID_PARAM else NEXUSVM_OK)"

text \<open>The second result is what is stored in \<open>*received\<close>.\<close>

definition migration_receive :: "ref option \<Rightarrow> bool \<Rightarrow> u64 \<Rightarrow> bool \<Rightarrow> nexusvm_result \<times> u64 option" where
  "migration_receive connection data sz received =
     (if \<not> data \<or> \<not> received then (NEXUSVM_ERR_INVALID_PARAM, None) else (NEXUSVM_OK, Some 0))"

definition migration_send_pages :: "ref option \<Rightarrow> bool \<Rightarrow> u64 \<Rightarrow> bool \<Rightarrow> nexusvm_result" where
  "migration_send_pages connection pages n compressed =
     (if \<not> pages \<or> n = 0 then NEXUSVM_ERR_INVALID_PARAM else migration_send connection pages (n * PAGE_SIZE))"

definition migration_receive_pages :: "ref option \<Rightarrow> bool \<Rightarrow> u64 \<Rightarrow> nexusvm_result" where
  "migration_receive_pages connection pages n =
     (if \<not> pages \<or> n = 0 then NEXUSVM_ERR_INVALID_PARAM
      else fst (migration_receive connection pages (n * PAGE_SIZE) True))"

section \<open>The state of a machine in a buffer\<close>

datatype image = Config_image vm_config | Cpu_image cpu_state | Uninitialised

text \<open>The sizes of the structures, which the compiler chooses.\<close>

record sizes =
  sizeof_config :: u64
  sizeof_cpu :: u64
  sizeof_entity :: u64
  sizeof_header :: u64

definition state_size :: "sizes \<Rightarrow> u32 \<Rightarrow> u64" where
  "state_size sz n = sizeof_config sz + sizeof_cpu sz * ucast n + sizeof_entity sz * ucast n"

fun cpu_images :: "world \<Rightarrow> ref \<Rightarrow> nat list \<Rightarrow> image list run" where
  "cpu_images w r [] = Some []"
| "cpu_images w r (i # is) = do {
     c \<leftarrow> vcpu_at w r i;
     v \<leftarrow> get_vcpu w c;
     rest \<leftarrow> cpu_images w r is;
     Some (Cpu_image (cpu_state_of v) # rest)
   }"

text \<open>The results are the status, the buffer and its size; \<open>outs\<close> tells whether both result pointers are not \<open>NULL\<close>.\<close>

definition migration_serialize_vm_state ::
  "platform \<Rightarrow> sizes \<Rightarrow> world \<Rightarrow> ref option \<Rightarrow> bool \<Rightarrow> (nexusvm_result \<times> (image list \<times> u64) option \<times> world) run"
where
  "migration_serialize_vm_state pf sz w vmp outs =
     (case (vmp, outs) of
        (Some r, True) \<Rightarrow> do {
          m \<leftarrow> vm_objs w r;
          case request pf w of (ok, w) \<Rightarrow>
          if \<not> ok then Some (NEXUSVM_ERR_NO_MEMORY, None, w)
          else do {
            cpus \<leftarrow> cpu_images w r (vcpu_numbers m);
            Some (NEXUSVM_OK, Some (Config_image (config m) # cpus @ replicate (unat (vcpu_count m)) Uninitialised,
              state_size sz (vcpu_count m)), w)
          }
        }
      | _ \<Rightarrow> Some (NEXUSVM_ERR_INVALID_PARAM, None, w))"

text \<open>The loop over the virtual CPUs reads from the buffer what follows the pointer \<open>ptr\<close>.\<close>

fun restore_cpus :: "world \<Rightarrow> ref \<Rightarrow> image list \<Rightarrow> nat list \<Rightarrow> world run" where
  "restore_cpus w r ptr [] = Some w"
| "restore_cpus w r ptr (i # is) =
     (case ptr of Cpu_image x # ptr \<Rightarrow> do {
        c \<leftarrow> vcpu_at w r i;
        w \<leftarrow> update_one (\<lambda>v. v\<lparr>cpu_state_of := x\<rparr>) w c;
        restore_cpus w r ptr is
      } | _ \<Rightarrow> None)"

definition migration_deserialize_vm_state :: "world \<Rightarrow> ref option \<Rightarrow> image list option \<Rightarrow> u64 \<Rightarrow> (nexusvm_result \<times> world) run" where
  "migration_deserialize_vm_state w vmp buffer sz =
     (case (vmp, buffer) of
        (Some r, Some ptr) \<Rightarrow> do {
          m \<leftarrow> vm_objs w r;
          case ptr of Config_image c # ptr \<Rightarrow> do {
            let w = upd_vm w r (\<lambda>m. m\<lparr>config := c\<rparr>);
            w \<leftarrow> restore_cpus w r ptr (vcpu_numbers m);
            Some (NEXUSVM_OK, w)
          } | _ \<Rightarrow> None
        }
      | _ \<Rightarrow> Some (NEXUSVM_ERR_INVALID_PARAM, w))"

definition migration_send_vm_state :: "platform \<Rightarrow> sizes \<Rightarrow> world \<Rightarrow> ref option \<Rightarrow> ref option \<Rightarrow> (nexusvm_result \<times> world) run" where
  "migration_send_vm_state pf sz w connection vmp =
     (if connection = None \<or> vmp = None then Some (NEXUSVM_ERR_INVALID_PARAM, w)
      else do {
        (result, buffer, w) \<leftarrow> migration_serialize_vm_state pf sz w vmp True;
        if result \<noteq> NEXUSVM_OK then Some (result, w)
        else
          let result = migration_send connection True (sizeof_header sz) in
          if result \<noteq> NEXUSVM_OK then Some (result, w)
          else do { (b, n) \<leftarrow> buffer; Some (migration_send connection True n, w) }
      })"

text \<open>
  \<open>migration_receive\<close> stores nothing, so the comparisons read what the stack held in the place of the header: whether
  its first three members are the expected ones, and its \<open>size\<close>, are arguments. The buffer is used as \<open>malloc\<close> left it.
\<close>

definition migration_receive_vm_state ::
  "platform \<Rightarrow> sizes \<Rightarrow> bool \<Rightarrow> u64 \<Rightarrow> world \<Rightarrow> ref option \<Rightarrow> ref option \<Rightarrow> (nexusvm_result \<times> world) run"
where
  "migration_receive_vm_state pf sz expected h_size w connection vmp =
     (if connection = None \<or> vmp = None then Some (NEXUSVM_ERR_INVALID_PARAM, w)
      else
        let result = fst (migration_receive connection True (sizeof_header sz) True) in
        if result \<noteq> NEXUSVM_OK then Some (result, w)
        else if \<not> expected then Some (NEXUSVM_ERR_GENERIC, w)
        else (case request pf w of (ok, w) \<Rightarrow>
          if \<not> ok then Some (NEXUSVM_ERR_NO_MEMORY, w)
          else
            let result = fst (migration_receive connection True h_size True) in
            if result \<noteq> NEXUSVM_OK then Some (result, w)
            else migration_deserialize_vm_state w vmp (Some [Uninitialised]) h_size))"

definition migration_stop_and_copy :: "platform \<Rightarrow> sizes \<Rightarrow> mig_world \<Rightarrow> ref option \<Rightarrow> (nexusvm_result \<times> mig_world) run" where
  "migration_stop_and_copy pf sz g session =
     (case session of None \<Rightarrow> Some (NEXUSVM_ERR_INVALID_PARAM, g)
      | Some s \<Rightarrow> do {
          g \<leftarrow> set_phase g s MIGRATION_STATE_STOP_AND_COPY;
          x \<leftarrow> sessions g s;
          (_, w) \<leftarrow> vm_pause (base_world g) (mg_vm x);
          x \<leftarrow> final_copy_loop 0 x;
          let g = \<lparr>base_world = w, sessions = (sessions g)(s \<mapsto> x)\<rparr>;
          (result, w) \<leftarrow> migration_send_vm_state pf sz w (mg_connection x) (mg_vm x);
          let g = g\<lparr>base_world := w\<rparr>;
          if result \<noteq> NEXUSVM_OK then Some (result, g)
          else do { g \<leftarrow> set_phase g s MIGRATION_STATE_TRANSFER; Some (NEXUSVM_OK, g) }
        })"

section \<open>Tracking\<close>

definition migration_track_dirty_page :: "mig_world \<Rightarrow> ref option \<Rightarrow> u64 \<Rightarrow> mig_world run" where
  "migration_track_dirty_page g session page_frame =
     (case session of None \<Rightarrow> Some g
      | Some s \<Rightarrow> do {
          x \<leftarrow> sessions g s;
          if page_frame \<ge> total_pages x then Some g
          else if mg_lock x then None
          else do {
            dirty \<leftarrow> test_bit_l page_frame (dirty_pages x);
            if dirty then Some g
            else do {
              d \<leftarrow> set_bit_l page_frame (dirty_pages x);
              Some (upd_session g s (\<lambda>x. x\<lparr>dirty_pages := d, dirty_page_count := dirty_page_count x + 1\<rparr>))
            }
          }
        })"

definition migration_get_stats :: "mig_world \<Rightarrow> ref option \<Rightarrow> migration_stats option \<Rightarrow> migration_stats option run" where
  "migration_get_stats g session out =
     (if session = None \<or> out = None then Some out
      else do { s \<leftarrow> session; x \<leftarrow> sessions g s; Some (Some (stats x)) })"

end
