(* ===== verification/Migration_Correct.thy ===== *)
theory Migration_Correct
  imports Migration Vm_Machine
begin

text \<open>
  Live migration: the map of dirty pages as a set, what a pre-copy round sends, convergence, the invariant of a
  session under every operation, what the end of a session does to the machine, and the transfer of the
  state of a machine.
\<close>

section \<open>Sessions\<close>

definition dirty_set :: "migration_session \<Rightarrow> nat set" where
  "dirty_set x = bits_of (dirty_pages x)"

text \<open>The map has a bit for every page and no others set, and the counter counts the dirty pages.\<close>

definition session_ok :: "migration_session \<Rightarrow> bool" where
  "session_ok x \<longleftrightarrow> unat (total_pages x) \<le> 64 * length (dirty_pages x) \<and> dirty_set x \<subseteq> {..<unat (total_pages x)} \<and>
     unat (dirty_page_count x) = card (dirty_set x) \<and> \<not> mg_lock x"

lemma session_ok_fin [simp]: "finite (dirty_set x)"
  by (simp add: dirty_set_def)

lemma page_in_map: "session_ok x \<Longrightarrow> i < total_pages x \<Longrightarrow> unat i div 64 < length (dirty_pages x)"
  by (auto simp: session_ok_def word_less_nat_alt)

lemma bits_of_single: "bits_of [x] = {n. bit x n}"
proof -
  have "n div 64 < length [x] \<and> bit ([x] ! (n div 64)) (n mod 64) \<longleftrightarrow> n < 64 \<and> bit x n" for n
    by (cases "n < 64") (simp_all add: div_greater_zero_iff not_less)
  moreover have "bit x n \<Longrightarrow> n < 64" for n using bit_imp_le_length [of x n] by simp
  ultimately show ?thesis unfolding bits_of_def by blast
qed

section \<open>Starting\<close>

lemma mark_pages_all:
  "i \<le> n \<Longrightarrow> unat n \<le> 64 * length d \<Longrightarrow>
    \<exists>d'. mark_pages i n d = Some d' \<and> length d' = length d \<and> bits_of d' = bits_of d \<union> {unat i..<unat n}"
proof (induction i n d rule: mark_pages.induct)
  case (1 i n d)
  show ?case
  proof (cases "i < n")
    case True
    then have "unat i div 64 < length d" using 1(3) by (simp add: word_less_nat_alt)
    from set_bit_l_bits [OF this] obtain d1 where
      d1: "set_bit_l i d = Some d1" "length d1 = length d" "bits_of d1 = insert (unat i) (bits_of d)" by auto
    have "i + 1 \<le> n" using True by (simp add: inc_le)
    with 1(1) [OF True d1(1)] 1(3) d1(2) obtain d' where
      d': "mark_pages (i + 1) n d1 = Some d'" "length d' = length d1" "bits_of d' = bits_of d1 \<union> {unat (i + 1)..<unat n}" by auto
    have "{unat i..<unat n} = insert (unat i) {Suc (unat i)..<unat n}" using True by (auto simp: word_less_nat_alt)
    then show ?thesis using True d1 d' by (subst mark_pages.simps) (simp add: unat_Suc_below [OF True])
  next
    case False
    then have "i = n" using 1(2) by simp
    then show ?thesis by (subst mark_pages.simps) simp
  qed
qed

text \<open>
  \<open>migration_start\<close> on a live machine with memory at hand creates a session with every page of the machine
  dirty and the counters to match, and moves the machine, whatever its state, to \<open>VM_STATE_MIGRATING\<close>.
\<close>

theorem migration_start_session:
  assumes m: "vm_objs (base_world g) r = Some m" and av: "objs_av pf (callocs (base_world g))" "objs_av pf (Suc (callocs (base_world g)))"
  shows "\<exists>g' x. migration_start pf g (Some r) (Some c) True = Some (NEXUSVM_OK, Some (next_ref (base_world g)), g') \<and>
    sessions g' = (sessions g)(next_ref (base_world g) \<mapsto> x) \<and> session_ok x \<and> mg_vm x = Some r \<and>
    total_pages x = memory_size m div PAGE_SIZE \<and> dirty_set x = {..<unat (total_pages x)} \<and> transferred_pages x = 0 \<and> mg_connection x = None \<and>
    vm_objs (base_world g') = (vm_objs (base_world g))(r \<mapsto> m\<lparr>state := VM_STATE_MIGRATING\<rparr>) \<and> vcpu_objs (base_world g') = vcpu_objs (base_world g)"
proof -
  let ?n = "memory_size m div PAGE_SIZE"
  have small: "unat ?n < 2 ^ 52" using unat_below [of "memory_size m"] by (simp add: unat_div div_less_iff_less_mult)
  then have "unat ((?n + 63) div 64) = (unat ?n + 63) div 64" by (simp add: unat_div unat_word_ariths)
  then have len: "unat ?n \<le> 64 * length (replicate (unat ((?n + 63) div 64)) (0 :: u64))" by simp
  from mark_pages_all [OF _ len, of 0] obtain d where
    d: "mark_pages 0 ?n (replicate (unat ((?n + 63) div 64)) 0) = Some d" "length d = unat ((?n + 63) div 64)" "bits_of d = {0..<unat ?n}"
    by auto
  define x where "x = \<lparr>mg_vm = Some r, mg_config = c, mg_state = MIGRATION_STATE_INITIATED, mg_connection = None,
    is_source = True, dirty_pages = d, dirty_page_count = ?n, total_pages = ?n, transferred_pages = 0, iteration = 0,
    stats = zero_stats, mg_lock = False\<rparr>"
  have "session_ok x" using len d(2,3) by (auto simp: session_ok_def x_def dirty_set_def)
  moreover have "migration_start pf g (Some r) (Some c) True = Some (NEXUSVM_OK, Some (next_ref (base_world g)),
      \<lparr>base_world = upd_vm ((base_world g)\<lparr>next_ref := Suc (next_ref (base_world g)), callocs := Suc (Suc (callocs (base_world g)))\<rparr>) r
         (\<lambda>m. m\<lparr>state := VM_STATE_MIGRATING\<rparr>), sessions = (sessions g)(next_ref (base_world g) \<mapsto> x)\<rparr>)"
    using m av d(1) by (simp add: migration_start_def request_def x_def Let_def)
  ultimately show ?thesis using m d(3) by (auto simp: x_def dirty_set_def upd_vm_def)
qed

section \<open>Pre-copy rounds\<close>

definition sent_pages :: "migration_session \<Rightarrow> u64 list \<Rightarrow> nat \<Rightarrow> migration_session" where
  "sent_pages x d k = x\<lparr>dirty_pages := d, transferred_pages := transferred_pages x + of_nat k,
     dirty_page_count := dirty_page_count x - of_nat k\<rparr>"

text \<open>From page \<open>i\<close> on, a round sends the lowest dirty pages until it has sent 10000.\<close>

definition sends_from :: "nat \<Rightarrow> nat \<Rightarrow> migration_session \<Rightarrow> nat set \<Rightarrow> u64 list \<Rightarrow> bool" where
  "sends_from i sent x S d \<longleftrightarrow> length d = length (dirty_pages x) \<and> bits_of d = dirty_set x - S \<and>
     S \<subseteq> dirty_set x \<inter> {i..<unat (total_pages x)} \<and> sent + card S \<le> 10000 \<and>
     (sent + card S < 10000 \<longrightarrow> S = dirty_set x \<inter> {i..<unat (total_pages x)}) \<and>
     (\<forall>s \<in> S. \<forall>t \<in> dirty_set x - S. i \<le> t \<longrightarrow> s < t)"

lemma sends_fromD:
  assumes "sends_from i sent x S d"
  shows "length d = length (dirty_pages x)" "bits_of d = dirty_set x - S" "S \<subseteq> dirty_set x \<inter> {i..<unat (total_pages x)}"
    "sent + card S \<le> 10000" "sent + card S < 10000 \<longrightarrow> S = dirty_set x \<inter> {i..<unat (total_pages x)}"
    "\<forall>s \<in> S. \<forall>t \<in> dirty_set x - S. i \<le> t \<longrightarrow> s < t"
  using assms unfolding sends_from_def by - (elim conjE, assumption)+

lemma sends_finite: "sends_from i sent x S d \<Longrightarrow> finite S"
  unfolding sends_from_def by (meson finite_subset le_inf_iff session_ok_fin)

lemma sends_skip:
  assumes "i \<notin> dirty_set x" "sends_from (Suc i) sent x S d"
  shows "sends_from i sent x S d"
proof -
  have "dirty_set x \<inter> {Suc i..<n} = dirty_set x \<inter> {i..<n}" for n
    using assms(1) by (auto simp: Suc_le_eq le_less)
  moreover have "\<forall>s \<in> S. \<forall>t \<in> dirty_set x - S. i \<le> t \<longrightarrow> s < t"
    using assms unfolding sends_from_def by (metis Diff_iff Suc_leI le_neq_implies_less)
  ultimately show ?thesis using assms(2) unfolding sends_from_def by metis
qed

lemma sends_one:
  assumes "i \<in> dirty_set x" "i < unat (total_pages x)" "dirty_set y = dirty_set x - {i}" "total_pages y = total_pages x"
    "length (dirty_pages y) = length (dirty_pages x)" "sends_from (Suc i) (Suc sent) y S d"
  shows "sends_from i sent x (insert i S) d \<and> i \<notin> S"
proof -
  have S: "S \<subseteq> dirty_set x \<inter> {Suc i..<unat (total_pages x)}" "bits_of d = dirty_set x - {i} - S" "Suc sent + card S \<le> 10000"
    "Suc sent + card S < 10000 \<longrightarrow> S = (dirty_set x - {i}) \<inter> {Suc i..<unat (total_pages x)}"
    "\<forall>s \<in> S. \<forall>t \<in> dirty_set x - {i} - S. Suc i \<le> t \<longrightarrow> s < t" "length d = length (dirty_pages x)"
    using assms(3-6) by (auto simp: sends_from_def)
  have i: "i \<notin> S" using S(1) by auto
  have card: "card (insert i S) = Suc (card S)" using sends_finite [OF assms(6)] i by simp
  have all: "dirty_set x \<inter> {i..<unat (total_pages x)} = insert i ((dirty_set x - {i}) \<inter> {Suc i..<unat (total_pages x)})"
    using assms(1,2) by auto
  have "bits_of d = dirty_set x - insert i S" using S(2) by blast
  moreover have "insert i S \<subseteq> dirty_set x \<inter> {i..<unat (total_pages x)}" using S(1) assms(1,2) by auto
  moreover have "s < t" if "s \<in> insert i S" "t \<in> dirty_set x - insert i S" "i \<le> t" for s t
  proof -
    have "Suc i \<le> t" using that(2,3) by (simp add: Suc_le_eq le_less) auto
    then show ?thesis using S(5) that(1,2) by auto
  qed
  ultimately show ?thesis using S(3,4,6) i unfolding sends_from_def card all by simp
qed

lemma precopy_loop_sends:
  "unat (total_pages x) \<le> 64 * length (dirty_pages x) \<Longrightarrow> i \<le> total_pages x \<Longrightarrow> unat sent \<le> 10000 \<Longrightarrow>
    \<exists>S d. precopy_loop i sent x = Some (sent_pages x d (card S)) \<and> sends_from (unat i) (unat sent) x S d"
proof (induction i sent x rule: precopy_loop.induct)
  case (1 i sent x)
  show ?case
  proof (cases "i < total_pages x \<and> sent < 10000")
    case False
    then have "precopy_loop i sent x = Some (sent_pages x (dirty_pages x) (card {}))"
      by (subst precopy_loop.simps) (auto simp: sent_pages_def)
    moreover have "unat sent < 10000 \<Longrightarrow> unat (total_pages x) \<le> unat i"
      using False by (auto simp: word_less_nat_alt not_less)
    ultimately show ?thesis using "1.prems"
      by (intro exI [of _ "{}"] exI [of _ "dirty_pages x"]) (auto simp: sends_from_def dirty_set_def)
  next
    case True
    then have "i < total_pages x" by blast
    moreover from this have "unat i < unat (total_pages x)" by (simp add: word_less_nat_alt)
    moreover from this have "unat i div 64 < length (dirty_pages x)" using "1.prems"(1) by linarith
    ultimately have i: "i < total_pages x" "unat i div 64 < length (dirty_pages x)" "unat i < unat (total_pages x)" by simp_all
    have next_i: "i + 1 \<le> total_pages x" "unat (i + 1) = Suc (unat i)"
      using i(1) by (simp_all add: inc_le unat_Suc_below)
    have test: "test_bit_l i (dirty_pages x) = Some (unat i \<in> dirty_set x)"
      using test_bit_l_iff [OF i(2)] by (simp add: dirty_set_def)
    show ?thesis
    proof (cases "unat i \<in> dirty_set x")
      case dirty: True
      from clear_bit_l_bits [OF i(2)] obtain d where d: "clear_bit_l i (dirty_pages x) = Some d" "length d = length (dirty_pages x)"
        "bits_of d = dirty_set x - {unat i}" by (auto simp: dirty_set_def)
      define y where "y = x\<lparr>dirty_pages := d, transferred_pages := transferred_pages x + 1, dirty_page_count := dirty_page_count x - 1\<rparr>"
      have y: "dirty_set y = dirty_set x - {unat i}" "total_pages y = total_pages x" "length (dirty_pages y) = length (dirty_pages x)"
        using d by (simp_all add: y_def dirty_set_def)
      have sent: "unat (sent + 1) = Suc (unat sent)" "unat (sent + 1) \<le> 10000"
        using True unat_Suc_below [of sent 10000] by (simp_all add: word_less_nat_alt)
      have "\<exists>S e. precopy_loop (i + 1) (sent + 1) y = Some (sent_pages y e (card S)) \<and> sends_from (unat (i + 1)) (unat (sent + 1)) y S e"
        unfolding y_def by (rule "1.IH"(1) [OF True test dirty d(1)]) (use "1.prems" d(2) next_i sent in simp_all)
      then obtain S e where S: "precopy_loop (i + 1) (sent + 1) y = Some (sent_pages y e (card S))"
        "sends_from (Suc (unat i)) (Suc (unat sent)) y S e" using next_i sent by auto
      note one = sends_one [OF dirty i(3) y S(2)]
      have "precopy_loop i sent x = precopy_loop (i + 1) (sent + 1) y"
        using True test dirty d(1) by (subst precopy_loop.simps) (simp add: y_def)
      also have "\<dots> = Some (sent_pages x e (card (insert (unat i) S)))"
        using S(1) one sends_finite [OF S(2)] by (simp add: sent_pages_def y_def algebra_simps)
      finally show ?thesis using one by blast
    next
      case clean: False
      have "\<exists>S e. precopy_loop (i + 1) sent x = Some (sent_pages x e (card S)) \<and> sends_from (unat (i + 1)) (unat sent) x S e"
        by (rule "1.IH"(2) [OF True test clean]) (use "1.prems" next_i in simp_all)
      then obtain S e where S: "precopy_loop (i + 1) sent x = Some (sent_pages x e (card S))"
        "sends_from (Suc (unat i)) (unat sent) x S e" using next_i by auto
      have "precopy_loop i sent x = precopy_loop (i + 1) sent x"
        using True test clean by (subst precopy_loop.simps) simp
      with S(1) sends_skip [OF clean S(2)] show ?thesis by metis
    qed
  qed
qed

lemma set_phase_free:
  "sessions g s = Some x \<Longrightarrow> \<not> mg_lock x \<Longrightarrow> set_phase g s st = Some (g\<lparr>sessions := (sessions g)(s \<mapsto> x\<lparr>mg_state := st, mg_lock := False\<rparr>)\<rparr>)"
  by (simp add: set_phase_def upd_session_def)

lemma round_sends:
  assumes "session_ok x"
  shows "\<exists>S d. precopy_loop 0 0 x = Some (sent_pages x d (card S)) \<and> S \<subseteq> dirty_set x \<and> bits_of d = dirty_set x - S \<and>
    length d = length (dirty_pages x) \<and> card S = min 10000 (card (dirty_set x)) \<and> (\<forall>s \<in> S. \<forall>t \<in> dirty_set x - S. s < t)"
proof -
  have "unat (total_pages x) \<le> 64 * length (dirty_pages x)" and inside: "dirty_set x \<subseteq> {..<unat (total_pages x)}"
    using assms by (simp_all add: session_ok_def)
  from precopy_loop_sends [OF this(1), of 0 0] obtain S d where
    S: "precopy_loop 0 0 x = Some (sent_pages x d (card S))" "sends_from 0 0 x S d" by auto
  have sub: "S \<subseteq> dirty_set x" using S(2) by (auto simp: sends_from_def)
  have all: "dirty_set x \<inter> {0..<unat (total_pages x)} = dirty_set x" using inside by auto
  have "card S \<le> card (dirty_set x)" using sub by (simp add: card_mono)
  with sends_fromD(4,5) [OF S(2), unfolded all] have "card S = min 10000 (card (dirty_set x))" by auto
  moreover have "\<forall>s \<in> S. \<forall>t \<in> dirty_set x - S. s < t" using sends_fromD(6) [OF S(2)] by simp
  ultimately show ?thesis using S(1) sub sends_fromD(1,2) [OF S(2)] by (intro exI conjI)
qed

lemma precopy_step:
  assumes x: "sessions g s = Some x" "session_ok x"
  shows "\<exists>S y. migration_precopy g (Some s) = Some (NEXUSVM_OK, g\<lparr>sessions := (sessions g)(s \<mapsto> y)\<rparr>) \<and> session_ok y \<and>
    S \<subseteq> dirty_set x \<and> dirty_set y = dirty_set x - S \<and> card S = min 10000 (card (dirty_set x)) \<and>
    (\<forall>s \<in> S. \<forall>t \<in> dirty_set y. s < t) \<and> transferred_pages y = transferred_pages x + of_nat (card S) \<and>
    iteration y = iteration x + 1 \<and> total_pages y = total_pages x \<and> mg_vm y = mg_vm x \<and> mg_connection y = mg_connection x \<and>
    mg_config y = mg_config x \<and> st_remaining_pages (stats y) = dirty_page_count y \<and>
    mg_state y = (if card (dirty_set y) < 100 \<or> iteration y > ucast (max_convergence_iterations (mg_config x))
      then MIGRATION_STATE_STOP_AND_COPY else MIGRATION_STATE_PRECOPY)"
proof -
  define x1 where "x1 = x\<lparr>mg_state := MIGRATION_STATE_PRECOPY, mg_lock := False\<rparr>"
  have D: "dirty_set x1 = dirty_set x" by (simp add: x1_def dirty_set_def)
  have ok: "session_ok x1" using x(2) by (simp add: session_ok_def x1_def dirty_set_def)
  from round_sends [OF ok, unfolded D] obtain S d where
    S: "precopy_loop 0 0 x1 = Some (sent_pages x1 d (card S))" "S \<subseteq> dirty_set x" "bits_of d = dirty_set x - S"
      "length d = length (dirty_pages x1)" "card S = min 10000 (card (dirty_set x))" "\<forall>s \<in> S. \<forall>t \<in> dirty_set x - S. s < t" by blast
  define y where "y = end_round (sent_pages x1 d (card S))"
  have same: "dirty_set y = dirty_set x - S" "dirty_page_count y = dirty_page_count x - of_nat (card S)" "dirty_pages y = d"
    "total_pages y = total_pages x" "transferred_pages y = transferred_pages x + of_nat (card S)" "iteration y = iteration x + 1"
    "mg_vm y = mg_vm x" "mg_connection y = mg_connection x" "mg_config y = mg_config x" "\<not> mg_lock y"
    "st_remaining_pages (stats y) = dirty_page_count y"
    using S(3) by (simp_all add: y_def end_round_def sent_pages_def dirty_set_def x1_def Let_def)
  have fin: "finite S" using S(2) by (rule finite_subset) simp
  have "card (dirty_set x) < 2 ^ 64" using x(2) unat_below [of "dirty_page_count x"] by (simp add: session_ok_def)
  then have "unat (of_nat (card S) :: u64) = card S" using S(5) by (intro unat_of_nat_small) simp
  then have count: "unat (dirty_page_count y) = card (dirty_set y)"
    using x(2) S(2,5) fin same(1,2) by (simp add: session_ok_def unat_sub_if' card_Diff_subset)
  have "session_ok y" using count same x(2) S(4) by (auto simp: session_ok_def x1_def)
  moreover have "mg_state y = (if dirty_page_count y < 100 \<or> iteration y > ucast (max_convergence_iterations (mg_config x))
      then MIGRATION_STATE_STOP_AND_COPY else MIGRATION_STATE_PRECOPY)"
    by (simp add: y_def end_round_def sent_pages_def x1_def Let_def)
  then have "mg_state y = (if card (dirty_set y) < 100 \<or> iteration y > ucast (max_convergence_iterations (mg_config x))
      then MIGRATION_STATE_STOP_AND_COPY else MIGRATION_STATE_PRECOPY)"
    by (simp only: word_less_nat_alt [of "dirty_page_count y"] count) simp
  moreover have "migration_precopy g (Some s) = Some (NEXUSVM_OK, g\<lparr>sessions := (sessions g)(s \<mapsto> y)\<rparr>)"
    using x S(1) set_phase_free [OF x(1), of MIGRATION_STATE_PRECOPY]
    by (simp add: migration_precopy_def session_ok_def x1_def y_def)
  ultimately show ?thesis using same S(2,5,6) by (intro exI [of _ S] exI [of _ y]) simp
qed

text \<open>C11. A pre-copy round sends the lowest dirty pages, 10000 of them or all there are, clears exactly their bits, keeps
  the counters true, and ends in the stop-and-copy phase exactly when fewer than 100 pages are left or the configured number of rounds
  is exceeded.
\<close>

theorem migration_precopy_round:
  assumes "sessions g s = Some x" "session_ok x"
  shows "\<exists>S y. migration_precopy g (Some s) = Some (NEXUSVM_OK, g\<lparr>sessions := (sessions g)(s \<mapsto> y)\<rparr>) \<and> session_ok y \<and>
    S \<subseteq> dirty_set x \<and> dirty_set y = dirty_set x - S \<and> card S = min 10000 (card (dirty_set x)) \<and>
    (\<forall>s \<in> S. \<forall>t \<in> dirty_set y. s < t) \<and> transferred_pages y = transferred_pages x + of_nat (card S) \<and>
    mg_state y = (if card (dirty_set y) < 100 \<or> iteration y > ucast (max_convergence_iterations (mg_config x))
      then MIGRATION_STATE_STOP_AND_COPY else MIGRATION_STATE_PRECOPY)"
proof -
  from precopy_step [OF assms] obtain S y where "migration_precopy g (Some s) = Some (NEXUSVM_OK, g\<lparr>sessions := (sessions g)(s \<mapsto> y)\<rparr>)"
    "session_ok y" "S \<subseteq> dirty_set x" "dirty_set y = dirty_set x - S" "card S = min 10000 (card (dirty_set x))"
    "\<forall>s \<in> S. \<forall>t \<in> dirty_set y. s < t" "transferred_pages y = transferred_pages x + of_nat (card S)"
    "mg_state y = (if card (dirty_set y) < 100 \<or> iteration y > ucast (max_convergence_iterations (mg_config x))
      then MIGRATION_STATE_STOP_AND_COPY else MIGRATION_STATE_PRECOPY)" by (elim exE conjE)
  then show ?thesis by (intro exI conjI)
qed

definition demo_session :: migration_session where
  "demo_session = \<lparr>mg_vm = Some 30, mg_config = \<lparr>target_host = ''b'', target_port = 22, max_bandwidth = 0, auto_converge = False,
     compression = False, start_paused = False, downtime_quantum = 0, max_convergence_iterations = 30\<rparr>,
     mg_state = MIGRATION_STATE_INITIATED, mg_connection = None, is_source = True, dirty_pages = [0x80], dirty_page_count = 1,
     total_pages = 8, transferred_pages = 0, iteration = 0, stats = zero_stats, mg_lock = False\<rparr>"

lemma demo_dirty: "dirty_set demo_session = {7}"
proof -
  have "(0x80 :: u64) = push_bit 7 1" by simp
  then have "bit (0x80 :: u64) i \<longleftrightarrow> i = 7" for i by (simp only: bit_push_bit_iff bit_1_iff) auto
  then show ?thesis by (simp add: dirty_set_def demo_session_def bits_of_single)
qed

lemma demo_session_ok: "session_ok demo_session"
  by (simp add: session_ok_def demo_dirty) (simp add: demo_session_def)

lemma migration_precopy_round_witness:
  "\<exists>y. migration_precopy \<lparr>base_world = boot_world, sessions = [50 \<mapsto> demo_session]\<rparr> (Some 50) =
    Some (NEXUSVM_OK, \<lparr>base_world = boot_world, sessions = [50 \<mapsto> y]\<rparr>) \<and> dirty_set y = {}"
proof -
  let ?g = "\<lparr>base_world = boot_world, sessions = [50 \<mapsto> demo_session]\<rparr>"
  have "sessions ?g 50 = Some demo_session" by simp
  from migration_precopy_round [OF this demo_session_ok] obtain S y where
    y: "migration_precopy ?g (Some 50) = Some (NEXUSVM_OK, ?g\<lparr>sessions := (sessions ?g)(50 \<mapsto> y)\<rparr>)"
      "S \<subseteq> {7}" "dirty_set y = {7} - S" "card S = 1" unfolding demo_dirty by auto
  then have "S = {7}" by (auto simp: subset_singleton_iff)
  with y show ?thesis by (intro exI [of _ y]) simp
qed

section \<open>Convergence\<close>

fun precopy_rounds :: "nat \<Rightarrow> mig_world \<Rightarrow> ref \<Rightarrow> mig_world run" where
  "precopy_rounds 0 g s = Some g"
| "precopy_rounds (Suc n) g s = do { (_, g) \<leftarrow> migration_precopy g (Some s); precopy_rounds n g s }"

text \<open>C31. When the guest dirties nothing in between, \<open>n\<close> rounds leave 10000 pages fewer each, and the round that leaves fewer than 100
  moves the session to the stop-and-copy phase: pre-copy converges.
\<close>

theorem migration_precopy_converges:
  assumes "sessions g s = Some x" "session_ok x" "0 < n"
  shows "\<exists>y. precopy_rounds n g s = Some (g\<lparr>sessions := (sessions g)(s \<mapsto> y)\<rparr>) \<and> session_ok y \<and>
    card (dirty_set y) = card (dirty_set x) - 10000 * n \<and>
    (card (dirty_set x) < 10000 * n + 100 \<longrightarrow> mg_state y = MIGRATION_STATE_STOP_AND_COPY)"
  using assms
proof (induction n arbitrary: g x)
  case (Suc n)
  from precopy_step [OF Suc.prems(1,2)] obtain S y where
    y: "migration_precopy g (Some s) = Some (NEXUSVM_OK, g\<lparr>sessions := (sessions g)(s \<mapsto> y)\<rparr>)" "session_ok y"
      "S \<subseteq> dirty_set x" "dirty_set y = dirty_set x - S" "card S = min 10000 (card (dirty_set x))"
      "card (dirty_set y) < 100 \<Longrightarrow> mg_state y = MIGRATION_STATE_STOP_AND_COPY" by fastforce
  have "finite S" using y(3) by (rule finite_subset) simp
  then have left: "card (dirty_set y) = card (dirty_set x) - 10000" using y(3-5) by (simp add: card_Diff_subset)
  show ?case
  proof (cases "n = 0")
    case True
    then show ?thesis using y left by (intro exI [of _ y]) (simp del: fun_upd_apply)
  next
    case False
    let ?g = "g\<lparr>sessions := (sessions g)(s \<mapsto> y)\<rparr>"
    have "sessions ?g s = Some y" "0 < n" using False by simp_all
    from Suc.IH [OF this(1) y(2) this(2)] obtain z where
      "precopy_rounds n ?g s = Some (?g\<lparr>sessions := (sessions ?g)(s \<mapsto> z)\<rparr>)" "session_ok z"
      "card (dirty_set z) = card (dirty_set y) - 10000 * n"
      "card (dirty_set y) < 10000 * n + 100 \<longrightarrow> mg_state z = MIGRATION_STATE_STOP_AND_COPY" by blast
    note z = this
    have "precopy_rounds (Suc n) g s = Some (g\<lparr>sessions := (sessions g)(s \<mapsto> z)\<rparr>)" using y(1) z(1) by simp
    then show ?thesis using z(2-4) left by (intro exI [of _ z] conjI impI) (simp_all del: fun_upd_apply precopy_rounds.simps)
  qed
qed simp

lemma migration_precopy_converges_witness:
  "\<exists>y. precopy_rounds 2 \<lparr>base_world = boot_world, sessions = [50 \<mapsto> demo_session]\<rparr> 50 =
    Some \<lparr>base_world = boot_world, sessions = [50 \<mapsto> y]\<rparr> \<and> mg_state y = MIGRATION_STATE_STOP_AND_COPY"
  using migration_precopy_converges [of "\<lparr>base_world = boot_world, sessions = [50 \<mapsto> demo_session]\<rparr>" 50 demo_session 2]
    demo_session_ok by (simp add: demo_dirty numeral_2_eq_2 del: precopy_rounds.simps) blast

section \<open>The invariant of a session\<close>

datatype mig_op = Precopy | Track u64 | Stop_and_copy

fun run_mig_op :: "platform \<Rightarrow> sizes \<Rightarrow> mig_op \<Rightarrow> mig_world \<Rightarrow> ref \<Rightarrow> (nexusvm_result \<times> mig_world) run" where
  "run_mig_op pf sz Precopy g s = migration_precopy g (Some s)"
| "run_mig_op pf sz (Track p) g s = map_option (Pair NEXUSVM_OK) (migration_track_dirty_page g (Some s) p)"
| "run_mig_op pf sz Stop_and_copy g s = migration_stop_and_copy pf sz g (Some s)"

inductive mig_reach :: "platform \<Rightarrow> sizes \<Rightarrow> ref \<Rightarrow> mig_world \<Rightarrow> mig_world \<Rightarrow> bool" for pf sz s g0 where
  fresh: "mig_reach pf sz s g0 g0"
| phase: "mig_reach pf sz s g0 g \<Longrightarrow> run_mig_op pf sz op g s = Some (res, g') \<Longrightarrow> mig_reach pf sz s g0 g'"

text \<open>The session is well formed and not connected, its machine is migrating, and nothing but the session has changed.\<close>

definition mig_inv :: "ref \<Rightarrow> ref \<Rightarrow> nexusvm \<Rightarrow> mig_world \<Rightarrow> mig_world \<Rightarrow> bool" where
  "mig_inv s r m g0 g \<longleftrightarrow> (\<exists>x. g = g0\<lparr>sessions := (sessions g0)(s \<mapsto> x)\<rparr> \<and> session_ok x \<and> mg_vm x = Some r \<and> mg_connection x = None) \<and>
     vm_objs (base_world g0) r = Some m \<and> state m = VM_STATE_MIGRATING"

lemma mig_invE:
  assumes "mig_inv s r m g0 g"
  obtains x where "sessions g s = Some x" "session_ok x" "mg_vm x = Some r" "mg_connection x = None"
    "g = g0\<lparr>sessions := (sessions g0)(s \<mapsto> x)\<rparr>" "vm_objs (base_world g) r = Some m" "state m = VM_STATE_MIGRATING"
    "\<And>y. session_ok y \<Longrightarrow> mg_vm y = Some r \<Longrightarrow> mg_connection y = None \<Longrightarrow> mig_inv s r m g0 (g\<lparr>sessions := (sessions g)(s \<mapsto> y)\<rparr>)"
  using assms unfolding mig_inv_def by fastforce

lemma track_step:
  assumes x: "sessions g s = Some x" "session_ok x"
  shows "\<exists>y. migration_track_dirty_page g (Some s) p = Some (g\<lparr>sessions := (sessions g)(s \<mapsto> y)\<rparr>) \<and> session_ok y \<and>
    dirty_set y = (if p < total_pages x then insert (unat p) (dirty_set x) else dirty_set x) \<and>
    mg_vm y = mg_vm x \<and> mg_connection y = mg_connection x"
proof (cases "p < total_pages x \<and> unat p \<notin> dirty_set x")
  case True
  have p: "unat p div 64 < length (dirty_pages x)" using page_in_map [OF x(2)] True by blast
  have test: "test_bit_l p (dirty_pages x) = Some False" using test_bit_l_iff [OF p] True by (simp add: dirty_set_def)
  from set_bit_l_bits [OF p] obtain d where d: "set_bit_l p (dirty_pages x) = Some d" "length d = length (dirty_pages x)"
    "bits_of d = insert (unat p) (dirty_set x)" by (auto simp: dirty_set_def)
  define y where "y = x\<lparr>dirty_pages := d, dirty_page_count := dirty_page_count x + 1\<rparr>"
  have D: "dirty_set y = insert (unat p) (dirty_set x)" using d(3) by (simp add: y_def dirty_set_def)
  have sub: "insert (unat p) (dirty_set x) \<subseteq> {..<unat (total_pages x)}"
    using x(2) True by (simp add: session_ok_def word_less_nat_alt)
  have "card (insert (unat p) (dirty_set x)) \<le> unat (total_pages x)" using card_mono [OF _ sub] by simp
  then have "Suc (card (dirty_set x)) < 2 ^ 64" using True unat_below [of "total_pages x"] by simp
  then have "unat (dirty_page_count x + 1) = Suc (card (dirty_set x))" using x(2) by (simp add: session_ok_def unat_word_ariths)
  then have "session_ok y" using x(2) sub True D d(2) by (simp add: session_ok_def y_def)
  moreover have "migration_track_dirty_page g (Some s) p = Some (g\<lparr>sessions := (sessions g)(s \<mapsto> y)\<rparr>)"
    using x True test d(1) by (auto simp: migration_track_dirty_page_def upd_session_def y_def session_ok_def not_le)
  ultimately show ?thesis using D True by (intro exI [of _ y]) (simp add: y_def)
next
  case False
  have "migration_track_dirty_page g (Some s) p = Some g"
  proof (cases "p < total_pages x")
    case True
    then have "unat p div 64 < length (dirty_pages x)" using page_in_map [OF x(2)] by blast
    then have "test_bit_l p (dirty_pages x) = Some True" using False True test_bit_l_iff by (simp add: dirty_set_def)
    then show ?thesis using x True by (simp add: migration_track_dirty_page_def session_ok_def not_le)
  qed (use x in \<open>simp add: migration_track_dirty_page_def not_less\<close>)
  moreover have "g\<lparr>sessions := (sessions g)(s \<mapsto> x)\<rparr> = g" using x(1) by (simp add: fun_upd_idem)
  ultimately show ?thesis using x False by (intro exI [of _ x]) auto
qed

lemma final_copy_defined:
  "unat (total_pages x) \<le> 64 * length (dirty_pages x) \<Longrightarrow> \<exists>k. final_copy_loop i x = Some (x\<lparr>transferred_pages := k\<rparr>)"
proof (induction i x rule: final_copy_loop.induct)
  case (1 i x)
  show ?case
  proof (cases "i < total_pages x")
    case True
    then have "unat i < unat (total_pages x)" by (simp add: word_less_nat_alt)
    then have "unat i div 64 < length (dirty_pages x)" using "1.prems" by linarith
    note test = test_bit_l_iff [OF this]
    obtain k where "final_copy_loop (i + 1) (if unat i \<in> bits_of (dirty_pages x) then x\<lparr>transferred_pages := transferred_pages x + 1\<rparr> else x)
        = Some (x\<lparr>transferred_pages := k\<rparr>)"
      using "1.IH" [OF True test] "1.prems" by (cases "unat i \<in> bits_of (dirty_pages x)") auto
    then show ?thesis using True test by (intro exI [of _ k]) (subst final_copy_loop.simps, simp)
  next
    case False
    then show ?thesis by (intro exI [of _ "transferred_pages x"]) (subst final_copy_loop.simps, simp)
  qed
qed

lemma stop_and_copy_step:
  assumes x: "sessions g s = Some x" "session_ok x" "mg_vm x = Some r" "mg_connection x = None"
    and m: "vm_objs (base_world g) r = Some m" "state m = VM_STATE_MIGRATING"
  shows "\<exists>k. migration_stop_and_copy pf sz g (Some s) = Some (NEXUSVM_ERR_INVALID_PARAM,
    g\<lparr>sessions := (sessions g)(s \<mapsto> x\<lparr>mg_state := MIGRATION_STATE_STOP_AND_COPY, mg_lock := False, transferred_pages := k\<rparr>)\<rparr>)"
proof -
  define x1 where "x1 = x\<lparr>mg_state := MIGRATION_STATE_STOP_AND_COPY, mg_lock := False\<rparr>"
  have "unat (total_pages x1) \<le> 64 * length (dirty_pages x1)" using x(2) by (simp add: session_ok_def x1_def)
  from final_copy_defined [OF this, of 0] obtain k where k: "final_copy_loop 0 x1 = Some (x1\<lparr>transferred_pages := k\<rparr>)" by blast
  have pause: "vm_pause (base_world g) (Some r) = Some (NEXUSVM_ERR_VM_NOT_RUNNING, base_world g)"
    using m by (simp add: vm_pause_def)
  show ?thesis using x k pause set_phase_free [OF x(1), of MIGRATION_STATE_STOP_AND_COPY]
    by (intro exI [of _ k])
      (simp add: migration_stop_and_copy_def migration_send_vm_state_def session_ok_def x1_def)
qed

lemma mig_op_step:
  assumes "mig_inv s r m g0 g"
  shows "\<exists>g'. run_mig_op pf sz op g s = Some (if op = Stop_and_copy then NEXUSVM_ERR_INVALID_PARAM else NEXUSVM_OK, g') \<and> mig_inv s r m g0 g'"
proof -
  from assms(1) obtain x where x: "sessions g s = Some x" "session_ok x" "mg_vm x = Some r" "mg_connection x = None"
    "vm_objs (base_world g) r = Some m" "state m = VM_STATE_MIGRATING" and
    upd: "\<And>y. session_ok y \<Longrightarrow> mg_vm y = Some r \<Longrightarrow> mg_connection y = None \<Longrightarrow> mig_inv s r m g0 (g\<lparr>sessions := (sessions g)(s \<mapsto> y)\<rparr>)"
    by (rule mig_invE) (rule that)
  show ?thesis
  proof (cases op)
    case Precopy
    from precopy_step [OF x(1,2)] obtain y where
      "migration_precopy g (Some s) = Some (NEXUSVM_OK, g\<lparr>sessions := (sessions g)(s \<mapsto> y)\<rparr>)"
      "session_ok y" "mg_vm y = mg_vm x" "mg_connection y = mg_connection x" by (elim exE conjE)
    then show ?thesis using Precopy upd [of y] x(3,4) by simp
  next
    case (Track p)
    from track_step [OF x(1,2), of p] obtain y where
      "migration_track_dirty_page g (Some s) p = Some (g\<lparr>sessions := (sessions g)(s \<mapsto> y)\<rparr>)"
      "session_ok y" "mg_vm y = mg_vm x" "mg_connection y = mg_connection x" by (elim exE conjE)
    then show ?thesis using Track upd [of y] x(3,4) by simp
  next
    case Stop_and_copy
    from stop_and_copy_step [OF x, of pf sz] obtain k where
      "migration_stop_and_copy pf sz g (Some s) = Some (NEXUSVM_ERR_INVALID_PARAM,
        g\<lparr>sessions := (sessions g)(s \<mapsto> x\<lparr>mg_state := MIGRATION_STATE_STOP_AND_COPY, mg_lock := False, transferred_pages := k\<rparr>)\<rparr>)" by blast
    moreover have "session_ok (x\<lparr>mg_state := MIGRATION_STATE_STOP_AND_COPY, mg_lock := False, transferred_pages := k\<rparr>)"
      using x(2) by (simp add: session_ok_def dirty_set_def)
    ultimately show ?thesis using Stop_and_copy x(3,4)
        upd [of "x\<lparr>mg_state := MIGRATION_STATE_STOP_AND_COPY, mg_lock := False, transferred_pages := k\<rparr>"] by auto
  qed
qed

lemma mig_reach_inv: "mig_reach pf sz s g0 g \<Longrightarrow> mig_inv s r m g0 g0 \<Longrightarrow> mig_inv s r m g0 g"
proof (induction rule: mig_reach.induct)
  case (phase g op res g')
  from mig_op_step [OF phase.IH [OF phase.prems], of pf sz op] phase.hyps(2) show ?case by auto
qed

lemma started_inv:
  assumes "migration_start pf g (Some r) (Some c) True = Some (NEXUSVM_OK, Some s, g0)"
  shows "\<exists>m. vm_objs (base_world g) r = Some m \<and> s = next_ref (base_world g) \<and> mig_inv s r (m\<lparr>state := VM_STATE_MIGRATING\<rparr>) g0 g0 \<and>
    vm_objs (base_world g0) = (vm_objs (base_world g))(r \<mapsto> m\<lparr>state := VM_STATE_MIGRATING\<rparr>) \<and>
    vcpu_objs (base_world g0) = vcpu_objs (base_world g) \<and> sessions g0 = (sessions g)(s := sessions g0 s)"
proof -
  from assms obtain m where m: "vm_objs (base_world g) r = Some m"
    by (auto simp: migration_start_def bind_eq_Some_conv)
  have av: "objs_av pf (callocs (base_world g))" "objs_av pf (Suc (callocs (base_world g)))"
    using assms m by (auto simp: migration_start_def request_def Let_def split: if_splits)
  from migration_start_session [OF m av, of c] assms obtain x where
    x: "s = next_ref (base_world g)" "sessions g0 = (sessions g)(s \<mapsto> x)" "session_ok x" "mg_vm x = Some r" "mg_connection x = None"
      "vm_objs (base_world g0) = (vm_objs (base_world g))(r \<mapsto> m\<lparr>state := VM_STATE_MIGRATING\<rparr>)" "vcpu_objs (base_world g0) = vcpu_objs (base_world g)"
    by auto
  have "g0 = g0\<lparr>sessions := (sessions g0)(s \<mapsto> x)\<rparr>" using x(2) by simp
  then have "mig_inv s r (m\<lparr>state := VM_STATE_MIGRATING\<rparr>) g0 g0" unfolding mig_inv_def using x(3-6) by auto
  with m x show ?thesis by auto
qed

text \<open>C12. Whatever sequence of rounds, dirtied pages and attempts at the final copy follows a start, the session stays well formed:
  the counter counts the set bits, no bit beyond the last page is set, the lock is free; its machine stays in
  \<open>VM_STATE_MIGRATING\<close> and nothing but the session has changed. Whatever comes next returns, with success unless it is the final copy.
\<close>

theorem migration_session_invariant:
  assumes "migration_start pf g (Some r) (Some c) True = Some (NEXUSVM_OK, Some s, g0)" "mig_reach pf sz s g0 g1"
  shows "\<exists>x m. sessions g1 = (sessions g)(s \<mapsto> x) \<and> session_ok x \<and> base_world g1 = base_world g0 \<and>
    vm_objs (base_world g1) r = Some m \<and> state m = VM_STATE_MIGRATING \<and>
    (\<forall>op. \<exists>g2. run_mig_op pf sz op g1 s = Some (if op = Stop_and_copy then NEXUSVM_ERR_INVALID_PARAM else NEXUSVM_OK, g2))"
proof -
  from started_inv [OF assms(1)] obtain m where m: "mig_inv s r m g0 g0" "sessions g0 = (sessions g)(s := sessions g0 s)" by auto
  note inv = mig_reach_inv [OF assms(2) m(1)]
  have step: "\<forall>op. \<exists>g2. run_mig_op pf sz op g1 s = Some (if op = Stop_and_copy then NEXUSVM_ERR_INVALID_PARAM else NEXUSVM_OK, g2)"
    using mig_op_step [OF inv] by blast
  from inv obtain x where
    x: "g1 = g0\<lparr>sessions := (sessions g0)(s \<mapsto> x)\<rparr>" "session_ok x" "vm_objs (base_world g0) r = Some m" "state m = VM_STATE_MIGRATING"
    unfolding mig_inv_def by blast
  have "sessions g1 = (sessions g)(s \<mapsto> x)" using x(1) m(2) by (metis fun_upd_upd mig_world.select_convs(2) mig_world.surjective mig_world.update_convs(2))
  then show ?thesis using x step by (intro exI [of _ x] exI [of _ m]) simp
qed

text \<open>C32. The final copy never succeeds: no operation connects a session, and the machine is in \<open>VM_STATE_MIGRATING\<close>, so \<open>vm_pause\<close>
  refuses it. At any point of a migration \<open>migration_stop_and_copy\<close> returns \<open>NEXUSVM_ERR_INVALID_PARAM\<close>; the machine is as it was
  before the start but for its state, \<open>VM_STATE_MIGRATING\<close>, and every virtual CPU is as it was, a running one not paused.
\<close>

theorem migration_stop_and_copy_fails:
  assumes "migration_start pf g (Some r) (Some c) True = Some (NEXUSVM_OK, Some s, g0)" "mig_reach pf sz s g0 g1"
  shows "\<exists>m g2. migration_stop_and_copy pf sz g1 (Some s) = Some (NEXUSVM_ERR_INVALID_PARAM, g2) \<and> base_world g2 = base_world g0 \<and>
    vm_objs (base_world g) r = Some m \<and> vm_objs (base_world g2) = (vm_objs (base_world g))(r \<mapsto> m\<lparr>state := VM_STATE_MIGRATING\<rparr>) \<and>
    vcpu_objs (base_world g2) = vcpu_objs (base_world g)"
proof -
  from started_inv [OF assms(1)] obtain m where m: "vm_objs (base_world g) r = Some m" "mig_inv s r (m\<lparr>state := VM_STATE_MIGRATING\<rparr>) g0 g0"
    "vm_objs (base_world g0) = (vm_objs (base_world g))(r \<mapsto> m\<lparr>state := VM_STATE_MIGRATING\<rparr>)" "vcpu_objs (base_world g0) = vcpu_objs (base_world g)"
    by auto
  from mig_reach_inv [OF assms(2) m(2)] obtain x where
    x: "sessions g1 s = Some x" "session_ok x" "mg_vm x = Some r" "mg_connection x = None" "g1 = g0\<lparr>sessions := (sessions g0)(s \<mapsto> x)\<rparr>"
      "vm_objs (base_world g1) r = Some (m\<lparr>state := VM_STATE_MIGRATING\<rparr>)" "state (m\<lparr>state := VM_STATE_MIGRATING\<rparr>) = VM_STATE_MIGRATING"
    by (rule mig_invE)
  from stop_and_copy_step [OF x(1-4,6,7), of pf sz] x(5) m(1,3,4) show ?thesis by auto
qed

section \<open>The end of a session\<close>

lemma end_session:
  assumes "mig_inv s r m g0 g"
  shows "\<exists>g'. migration_cancel g (Some s) = Some (NEXUSVM_OK, g') \<and> migration_complete g (Some s) = Some (NEXUSVM_OK, g') \<and>
    sessions g' = (sessions g0)(s := None) \<and> vm_objs (base_world g') = (vm_objs (base_world g0))(r \<mapsto> m\<lparr>state := VM_STATE_RUNNING\<rparr>) \<and>
    vcpu_objs (base_world g') = vcpu_objs (base_world g0)"
proof -
  from assms obtain x where
    x: "sessions g s = Some x" "session_ok x" "mg_vm x = Some r" "mg_connection x = None" "g = g0\<lparr>sessions := (sessions g0)(s \<mapsto> x)\<rparr>"
      "vm_objs (base_world g) r = Some m" "state m = VM_STATE_MIGRATING" by (rule mig_invE)
  define g' where "g' = \<lparr>base_world = upd_vm (base_world g0) r (\<lambda>m. m\<lparr>state := VM_STATE_RUNNING\<rparr>), sessions = (sessions g0)(s := None)\<rparr>"
  have lock: "\<not> mg_lock x" using x(2) by (simp add: session_ok_def)
  have "migration_cancel g (Some s) = Some (NEXUSVM_OK, g')" "migration_complete g (Some s) = Some (NEXUSVM_OK, g')"
    using set_phase_free [OF x(1) lock] x(3-7)
    by (simp_all add: migration_cancel_def migration_complete_def leave_migrating_def upd_base_def g'_def)
  then show ?thesis using x(5,6) by (intro exI [of _ g']) (simp add: g'_def upd_vm_def)
qed

text \<open>
  Cancelling or completing a migration frees the session and declares the machine running, in whatever state it was
  when the migration started, while its virtual CPUs stay as they were: a machine that was paused, shut down or never
  started ends as \<open>VM_STATE_RUNNING\<close> with no virtual CPU running.
\<close>

theorem migration_end_forgets_state:
  assumes "migration_start pf g (Some r) (Some c) True = Some (NEXUSVM_OK, Some s, g0)" "mig_reach pf sz s g0 g1"
  shows "\<exists>g2 m. migration_cancel g1 (Some s) = Some (NEXUSVM_OK, g2) \<and> migration_complete g1 (Some s) = Some (NEXUSVM_OK, g2) \<and>
    sessions g2 = (sessions g)(s := None) \<and> vm_objs (base_world g) r = Some m \<and>
    vm_objs (base_world g2) = (vm_objs (base_world g))(r \<mapsto> m\<lparr>state := VM_STATE_RUNNING\<rparr>) \<and>
    vcpu_objs (base_world g2) = vcpu_objs (base_world g)"
proof -
  from started_inv [OF assms(1)] obtain m where
    m: "vm_objs (base_world g) r = Some m" "mig_inv s r (m\<lparr>state := VM_STATE_MIGRATING\<rparr>) g0 g0"
      "vm_objs (base_world g0) = (vm_objs (base_world g))(r \<mapsto> m\<lparr>state := VM_STATE_MIGRATING\<rparr>)"
      "vcpu_objs (base_world g0) = vcpu_objs (base_world g)" "sessions g0 = (sessions g)(s := sessions g0 s)" by auto
  from end_session [OF mig_reach_inv [OF assms(2) m(2)]] obtain g2 where
    g2: "migration_cancel g1 (Some s) = Some (NEXUSVM_OK, g2)" "migration_complete g1 (Some s) = Some (NEXUSVM_OK, g2)"
      "sessions g2 = (sessions g0)(s := None)" "vm_objs (base_world g2) = (vm_objs (base_world g0))(r \<mapsto> m\<lparr>state := VM_STATE_RUNNING\<rparr>)"
      "vcpu_objs (base_world g2) = vcpu_objs (base_world g0)" by auto
  have "sessions g2 = (sessions g)(s := None)" using g2(3) m(5) by (metis fun_upd_upd)
  then show ?thesis using g2 m by (intro exI [of _ g2] exI [of _ m]) simp
qed

text \<open>A migration of a machine that is paused: a start, one round, a page written by the guest, and the end.\<close>

definition paused_mig :: mig_world where
  "paused_mig = \<lparr>base_world = live_world\<lparr>vm_objs := [30 \<mapsto> live_vm\<lparr>state := VM_STATE_PAUSED, memory_size := 0x10000\<rparr>]\<rparr>, sessions = Map.empty\<rparr>"

definition demo_sizes :: sizes where
  "demo_sizes = \<lparr>sizeof_config = 8, sizeof_cpu = 8, sizeof_entity = 8, sizeof_header = 8\<rparr>"

lemma paused_mig_starts:
  "\<exists>s g0. migration_start demo_platform paused_mig (Some 30) (Some (mg_config demo_session)) True = Some (NEXUSVM_OK, Some s, g0)"
proof -
  have "vm_objs (base_world paused_mig) 30 = Some (live_vm\<lparr>state := VM_STATE_PAUSED, memory_size := 0x10000\<rparr>)" by (simp add: paused_mig_def)
  from migration_start_session [OF this, of demo_platform "mg_config demo_session"] show ?thesis by (auto simp: demo_platform_def)
qed

text \<open>A machine of 16 pages is started to migrate, one round sends them all, the guest writes page 3, and the final copy fails.\<close>

lemma migration_session_invariant_witness:
  "\<exists>s g0 g1 g2 x. migration_start demo_platform paused_mig (Some 30) (Some (mg_config demo_session)) True = Some (NEXUSVM_OK, Some s, g0) \<and>
    run_mig_op demo_platform demo_sizes Precopy g0 s = Some (NEXUSVM_OK, g1) \<and> run_mig_op demo_platform demo_sizes (Track 3) g1 s = Some (NEXUSVM_OK, g2) \<and>
    sessions g2 s = Some x \<and> session_ok x \<and> (\<exists>g3. migration_stop_and_copy demo_platform demo_sizes g2 (Some s) = Some (NEXUSVM_ERR_INVALID_PARAM, g3))"
proof -
  obtain s g0 where st: "migration_start demo_platform paused_mig (Some 30) (Some (mg_config demo_session)) True = Some (NEXUSVM_OK, Some s, g0)"
    using paused_mig_starts by blast
  note inv = migration_session_invariant [OF st, of demo_sizes]
  have r0: "mig_reach demo_platform demo_sizes s g0 g0" by (rule mig_reach.fresh)
  from inv [OF r0] obtain g1 where g1: "run_mig_op demo_platform demo_sizes Precopy g0 s = Some (NEXUSVM_OK, g1)" by (metis mig_op.distinct(3))
  have r1: "mig_reach demo_platform demo_sizes s g0 g1" by (rule mig_reach.phase [OF r0 g1])
  from inv [OF r1] obtain g2 where g2: "run_mig_op demo_platform demo_sizes (Track 3) g1 s = Some (NEXUSVM_OK, g2)" by (metis mig_op.distinct(5))
  have r2: "mig_reach demo_platform demo_sizes s g0 g2" by (rule mig_reach.phase [OF r1 g2])
  from inv [OF r2] obtain x where x: "sessions g2 = (sessions paused_mig)(s \<mapsto> x)" "session_ok x"
    "\<forall>op. \<exists>g3. run_mig_op demo_platform demo_sizes op g2 s = Some (if op = Stop_and_copy then NEXUSVM_ERR_INVALID_PARAM else NEXUSVM_OK, g3)" by blast
  from x(3) [rule_format, of Stop_and_copy] have "\<exists>g3. migration_stop_and_copy demo_platform demo_sizes g2 (Some s) = Some (NEXUSVM_ERR_INVALID_PARAM, g3)" by simp
  then show ?thesis using st g1 g2 x(1,2) by (intro exI [of _ s] exI [of _ g0] exI [of _ g1] exI [of _ g2] exI [of _ x]) simp
qed

text \<open>The migration of a running machine.\<close>

definition running_mig :: mig_world where
  "running_mig = \<lparr>base_world = live_world\<lparr>vm_objs := [30 \<mapsto> live_vm\<lparr>state := VM_STATE_RUNNING, memory_size := 0x10000\<rparr>]\<rparr>, sessions = Map.empty\<rparr>"

lemma migration_stop_and_copy_fails_witness:
  "\<exists>s g1 g2 v. migration_start demo_platform running_mig (Some 30) (Some (mg_config demo_session)) True = Some (NEXUSVM_OK, Some s, g1) \<and>
    migration_stop_and_copy demo_platform demo_sizes g1 (Some s) = Some (NEXUSVM_ERR_INVALID_PARAM, g2) \<and>
    vcpu_objs (base_world g2) 20 = Some v \<and> running v"
proof -
  have "vm_objs (base_world running_mig) 30 = Some (live_vm\<lparr>state := VM_STATE_RUNNING, memory_size := 0x10000\<rparr>)" by (simp add: running_mig_def)
  from migration_start_session [OF this, of demo_platform "mg_config demo_session"] obtain s g0 where
    st: "migration_start demo_platform running_mig (Some 30) (Some (mg_config demo_session)) True = Some (NEXUSVM_OK, Some s, g0)"
    by (auto simp: demo_platform_def)
  from migration_stop_and_copy_fails [OF st mig_reach.fresh] obtain g2 where
    g2: "migration_stop_and_copy demo_platform demo_sizes g0 (Some s) = Some (NEXUSVM_ERR_INVALID_PARAM, g2)"
      "vcpu_objs (base_world g2) = vcpu_objs (base_world running_mig)" by blast
  have "\<exists>v. vcpu_objs (base_world running_mig) 20 = Some v \<and> running v"
    by (simp add: running_mig_def live_world_def live_vcpu_def)
  with st g2 show ?thesis by metis
qed

lemma migration_end_forgets_state_witness:
  "\<exists>s g1 g2 m. migration_cancel g1 (Some s) = Some (NEXUSVM_OK, g2) \<and> vm_objs (base_world paused_mig) 30 = Some m \<and>
    state m = VM_STATE_PAUSED \<and> vm_objs (base_world g2) 30 = Some (m\<lparr>state := VM_STATE_RUNNING\<rparr>)"
proof -
  obtain s g0 where st: "migration_start demo_platform paused_mig (Some 30) (Some (mg_config demo_session)) True = Some (NEXUSVM_OK, Some s, g0)"
    using paused_mig_starts by blast
  from migration_end_forgets_state [OF st mig_reach.fresh] obtain g2 m where
    "migration_cancel g0 (Some s) = Some (NEXUSVM_OK, g2)" "vm_objs (base_world paused_mig) 30 = Some m"
    "vm_objs (base_world g2) = (vm_objs (base_world paused_mig))(30 \<mapsto> m\<lparr>state := VM_STATE_RUNNING\<rparr>)" by blast
  moreover from this(2) have "state m = VM_STATE_PAUSED" by (auto simp: paused_mig_def)
  ultimately show ?thesis by (metis fun_upd_same)
qed

section \<open>The transfer of a machine\<close>

lemma cpu_images_all:
  "vm_objs w r = Some m \<Longrightarrow> vcpus m = Some (map Some xs) \<Longrightarrow> list_all (\<lambda>c. vcpu_objs w c \<noteq> None) xs \<Longrightarrow>
    list_all (\<lambda>i. i < length xs) js \<Longrightarrow>
    cpu_images w r js = Some (map (\<lambda>i. Cpu_image (cpu_state_of (the (vcpu_objs w (xs ! i))))) js)"
proof (induction js)
  case (Cons i js)
  then have "i < length xs" by simp
  moreover from this obtain v where "vcpu_objs w (xs ! i) = Some v" using Cons.prems(3) by (auto simp: list_all_length)
  ultimately show ?case using Cons by (simp add: vcpu_at_def get_vcpu_def)
qed simp

lemma restore_cpus_all:
  "vm_objs w r = Some m \<Longrightarrow> vcpus m = Some (map Some ys) \<Longrightarrow> distinct ys \<Longrightarrow> list_all (\<lambda>c. vcpu_objs w c \<noteq> None) ys \<Longrightarrow>
    distinct js \<Longrightarrow> list_all (\<lambda>i. i < length ys) js \<Longrightarrow>
    \<exists>w'. restore_cpus w r (map (\<lambda>i. Cpu_image (f i)) js @ rest) js = Some w' \<and> vm_objs w' = vm_objs w \<and>
      (\<forall>i \<in> set js. vcpu_objs w' (ys ! i) = map_option (\<lambda>v. v\<lparr>cpu_state_of := f i\<rparr>) (vcpu_objs w (ys ! i))) \<and>
      (\<forall>c. c \<notin> (!) ys ` set js \<longrightarrow> vcpu_objs w' c = vcpu_objs w c)"
proof (induction js arbitrary: w)
  case (Cons i js)
  let ?c = "ys ! i"
  define w1 where "w1 = upd_vcpu w ?c (\<lambda>v. v\<lparr>cpu_state_of := f i\<rparr>)"
  have i: "i < length ys" "i \<notin> set js" using Cons.prems(5,6) by simp_all
  have c: "vcpu_objs w ?c \<noteq> None" using i(1) Cons.prems(4) by (simp add: list_all_length)
  have other: "ys ! j \<noteq> ?c" if "j \<in> set js" for j
    using that i Cons.prems(3,6) by (auto simp: list_all_iff nth_eq_iff_index_eq)
  have "list_all (\<lambda>c. vcpu_objs w1 c \<noteq> None) ys" using Cons.prems(4) by (auto simp: w1_def upd_vcpu_def list_all_iff)
  with Cons.IH [of w1] Cons.prems obtain w' where
    w': "restore_cpus w1 r (map (\<lambda>i. Cpu_image (f i)) js @ rest) js = Some w'" "vm_objs w' = vm_objs w"
      "\<forall>i \<in> set js. vcpu_objs w' (ys ! i) = map_option (\<lambda>v. v\<lparr>cpu_state_of := f i\<rparr>) (vcpu_objs w1 (ys ! i))"
      "\<forall>c. c \<notin> (!) ys ` set js \<longrightarrow> vcpu_objs w' c = vcpu_objs w1 c" by (auto simp: w1_def)
  have "restore_cpus w r (map (\<lambda>i. Cpu_image (f i)) (i # js) @ rest) (i # js) = Some w'"
    using w'(1) Cons.prems(1,2) i(1) c by (auto simp: vcpu_at_def update_one_def w1_def)
  moreover have "?c \<notin> (!) ys ` set js" using other by (metis imageE)
  with w'(4) have "vcpu_objs w' ?c = map_option (\<lambda>v. v\<lparr>cpu_state_of := f i\<rparr>) (vcpu_objs w ?c)" by (simp add: w1_def upd_vcpu_def)
  moreover have "vcpu_objs w' (ys ! j) = map_option (\<lambda>v. v\<lparr>cpu_state_of := f j\<rparr>) (vcpu_objs w (ys ! j))" if "j \<in> set js" for j
    using w'(3) other that by (simp add: w1_def upd_vcpu_def)
  moreover have "vcpu_objs w' c = vcpu_objs w c" if "c \<notin> (!) ys ` set (i # js)" for c
    using w'(4) that by (simp add: w1_def upd_vcpu_def)
  ultimately show ?case using w'(2) by (intro exI [of _ w']) simp
qed simp

text \<open>C33. The state of a machine survives the transfer: what \<open>migration_serialize_vm_state\<close> writes of one machine,
  \<open>migration_deserialize_vm_state\<close> puts into another one with as many virtual CPUs: its configuration and the
  registers of each virtual CPU become those of the first, and nothing else changes.
\<close>

theorem migration_state_roundtrip:
  assumes vm: "vm_with w r m xs" and av: "objs_av pf (callocs w)"
    and vm2: "vm_with w2 r2 m2 ys" and count: "vcpu_count m2 = vcpu_count m"
  shows "\<exists>b n w1 w3. migration_serialize_vm_state pf sz w (Some r) True = Some (NEXUSVM_OK, Some (b, n), w1) \<and>
    migration_deserialize_vm_state w2 (Some r2) (Some b) n = Some (NEXUSVM_OK, w3) \<and>
    vm_objs w3 = (vm_objs w2)(r2 \<mapsto> m2\<lparr>config := config m\<rparr>) \<and>
    (\<forall>i < length xs. vcpu_objs w3 (ys ! i) =
      map_option (\<lambda>v. v\<lparr>cpu_state_of := cpu_state_of (the (vcpu_objs w (xs ! i)))\<rparr>) (vcpu_objs w2 (ys ! i))) \<and>
    (\<forall>c. c \<notin> set ys \<longrightarrow> vcpu_objs w3 c = vcpu_objs w2 c)"
proof -
  let ?n = "unat (vcpu_count m)" and ?f = "\<lambda>i. cpu_state_of (the (vcpu_objs w (xs ! i)))"
  let ?w1 = "w\<lparr>callocs := Suc (callocs w)\<rparr>" and ?rest = "replicate (unat (vcpu_count m)) Uninitialised"
  let ?b = "Config_image (config m) # map (\<lambda>i. Cpu_image (?f i)) [0..<?n] @ ?rest"
  have len: "length xs = ?n" "length ys = ?n" using vm vm2 count by (simp_all add: vm_with_def)
  have "cpu_images ?w1 r [0..<?n] = Some (map (\<lambda>i. Cpu_image (?f i)) [0..<?n])"
    using cpu_images_all [of ?w1 r m xs "[0..<?n]"] vm len by (simp add: vm_with_def list_all_iff)
  then have ser: "migration_serialize_vm_state pf sz w (Some r) True = Some (NEXUSVM_OK, Some (?b, state_size sz (vcpu_count m)), ?w1)"
    using vm av by (simp add: migration_serialize_vm_state_def vm_with_def request_def vcpu_numbers_def)
  let ?w2 = "upd_vm w2 r2 (\<lambda>q. q\<lparr>config := config m\<rparr>)"
  have "vm_objs ?w2 r2 = Some (m2\<lparr>config := config m\<rparr>)" "vcpus (m2\<lparr>config := config m\<rparr>) = Some (map Some ys)" "distinct ys"
    "list_all (\<lambda>c. vcpu_objs ?w2 c \<noteq> None) ys" "distinct [0..<?n]" "list_all (\<lambda>i. i < length ys) [0..<?n]"
    using vm2 len by (simp_all add: vm_with_def upd_vm_def list_all_iff)
  from restore_cpus_all [OF this, of ?f ?rest] obtain w3 where
    w3: "restore_cpus ?w2 r2 (map (\<lambda>i. Cpu_image (?f i)) [0..<?n] @ ?rest) [0..<?n] = Some w3" "vm_objs w3 = vm_objs ?w2"
      "\<forall>i \<in> set [0..<?n]. vcpu_objs w3 (ys ! i) = map_option (\<lambda>v. v\<lparr>cpu_state_of := ?f i\<rparr>) (vcpu_objs ?w2 (ys ! i))"
      "\<forall>c. c \<notin> (!) ys ` set [0..<?n] \<longrightarrow> vcpu_objs w3 c = vcpu_objs ?w2 c" by blast
  have "migration_deserialize_vm_state w2 (Some r2) (Some ?b) (state_size sz (vcpu_count m)) = Some (NEXUSVM_OK, w3)"
    using vm2 w3(1) count by (simp add: migration_deserialize_vm_state_def vm_with_def vcpu_numbers_def)
  moreover have "(!) ys ` set [0..<?n] = set ys" using nth_image [of ?n ys] len by simp
  ultimately show ?thesis using ser w3(2-4) vm2 len
    by (intro exI [of _ ?b] exI [of _ "state_size sz (vcpu_count m)"] exI [of _ ?w1] exI [of _ w3])
      (simp add: upd_vm_def vm_with_def)
qed

lemma migration_state_roundtrip_witness:
  "\<exists>b n w1 w3. migration_serialize_vm_state demo_platform demo_sizes live_world (Some 30) True = Some (NEXUSVM_OK, Some (b, n), w1) \<and>
    migration_deserialize_vm_state live_world (Some 30) (Some b) n = Some (NEXUSVM_OK, w3) \<and> vm_objs w3 30 = Some live_vm"
proof -
  have av: "objs_av demo_platform (callocs live_world)" by (simp add: demo_platform_def)
  have "live_vm\<lparr>config := config live_vm\<rparr> = live_vm" by simp
  with migration_state_roundtrip [OF live_vm_with av live_vm_with refl, of demo_sizes] show ?thesis by (metis fun_upd_same)
qed

end
