(* ===== verification/Nested.thy ===== *)
theory Nested
  imports Hypervisor
begin

text \<open>
  Nested virtualization, \<^verbatim>\<open>src/hypervisor/nested/nested_virt.c\<close>: second-level machines, the VMX instructions of a
  first-level hypervisor, their SVM counterparts, and the saved state of a second-level guest.

  The structures \<open>nested_vmx_t\<close>, \<open>nested_svm_t\<close> and \<open>l2_state_t\<close> are heap objects; a saved state is kept by its address,
  because the code stores that address in a guest register. The addresses of live nested structures are also in \<open>blobs\<close> of
  the world, for \<open>vm_destroy\<close>. \<open>l2_at\<close> is the allocator of saved states (\<open>0\<close> for failure), and
  \<open>guest_field\<close> gives the encodings of the VMCS fields that the code names and no header defines.
\<close>

section \<open>Data\<close>

record nested_vmx_obj =
  vmcs_link_pointer :: u64
  vmxon_pointer :: u64
  l1_guest_mode :: bool

record nested_svm_obj =
  n_vmcb :: u64
  n_guest_state :: cpu_state
  nested_running :: bool

record l2_state =
  l2_vmcs :: u64
  guest_state :: cpu_state
  vmexit_handler :: u64
  vmexit_reason :: u64
  vmexit_qualification :: u64
  vmexit_instruction_len :: u64
  l2_running :: bool

definition zero_l2 :: l2_state where
  "zero_l2 = \<lparr>l2_vmcs = 0, guest_state = zero_cpu_state, vmexit_handler = 0, vmexit_reason = 0,
     vmexit_qualification = 0, vmexit_instruction_len = 0, l2_running = False\<rparr>"

record nested_world =
  nw :: world
  nvmx_objs :: "ref \<rightharpoonup> nested_vmx_obj"
  nsvm_objs :: "ref \<rightharpoonup> nested_svm_obj"
  l2_objs :: "u64 \<rightharpoonup> l2_state"
  g_nested_initialized :: bool

datatype (plugins only: code size) guest_reg_field =
  VMCS_GUEST_RAX | VMCS_GUEST_RBX | VMCS_GUEST_RCX | VMCS_GUEST_RDX | VMCS_GUEST_RSI | VMCS_GUEST_RDI | VMCS_GUEST_RBP | VMCS_GUEST_CR2

record nested_env =
  npf :: platform
  guest_field :: "guest_reg_field \<Rightarrow> u32"
  l2_at :: "(u64 \<rightharpoonup> l2_state) \<Rightarrow> u64"

abbreviation ncpu :: "nested_env \<Rightarrow> cpu_env" where
  "ncpu env \<equiv> cpu (hw (npf env))"

definition on_world :: "nested_world \<Rightarrow> (world \<Rightarrow> world) \<Rightarrow> nested_world" where
  "on_world n f = n\<lparr>nw := f (nw n)\<rparr>"

text \<open>The machine of a virtual CPU, \<open>vcpu->vm\<close>.\<close>

definition vcpu_vm :: "nested_world \<Rightarrow> ref \<Rightarrow> (ref \<times> nexusvm) run" where
  "vcpu_vm n r = do { v \<leftarrow> vcpu_objs (nw n) r; k \<leftarrow> vm v; m \<leftarrow> vm_objs (nw n) k; Some (k, m) }"

definition vendor :: "nested_world \<Rightarrow> cpu_vendor run" where
  "vendor n = map_option cpu_vendor_of (g_hypervisor (nw n))"

section \<open>Initialisation\<close>

text \<open>A missing feature bit only logs a warning; the result is the same.\<close>

definition nested_virt_init :: "nested_world \<Rightarrow> nexusvm_result \<times> nested_world" where
  "nested_virt_init n =
     (case g_hypervisor (nw n) of None \<Rightarrow> (NEXUSVM_ERR_GENERIC, n)
      | Some hv \<Rightarrow> (NEXUSVM_OK, n\<lparr>g_nested_initialized := True\<rparr>))"

definition nested_virt_shutdown :: "nested_world \<Rightarrow> nested_world" where
  "nested_virt_shutdown n = n\<lparr>g_nested_initialized := False\<rparr>"

section \<open>Second-level machines\<close>

text \<open>The third argument tells whether the pointer for the result is not \<open>NULL\<close>; the configuration of the caller is marked.\<close>

definition nested_create_l2_vm ::
  "nested_env \<Rightarrow> nested_world \<Rightarrow> ref option \<Rightarrow> vm_config option \<Rightarrow> bool
    \<Rightarrow> (nexusvm_result \<times> ref option \<times> vm_config option \<times> nested_world) run"
where
  "nested_create_l2_vm env n l1_vm l2_config l2_vm =
     (case (l1_vm, l2_config, l2_vm) of
        (Some _, Some c, True) \<Rightarrow> do {
          let c = c\<lparr>nested_virtualization := True\<rparr>;
          (result, r, w) \<leftarrow> vm_create (npf env) (nw n) (Some c);
          if result \<noteq> NEXUSVM_OK then Some (result, r, Some c, n\<lparr>nw := w\<rparr>)
          else do {
            k \<leftarrow> r;
            _ \<leftarrow> vm_objs w k;
            Some (NEXUSVM_OK, r, Some c, n\<lparr>nw := upd_vm w k (\<lambda>m. m\<lparr>is_nested_guest := True\<rparr>)\<rparr>)
          }
        }
      | _ \<Rightarrow> Some (NEXUSVM_ERR_INVALID_PARAM, None, l2_config, n))"

definition nested_start_l2_vm :: "nested_env \<Rightarrow> nested_world \<Rightarrow> ref option \<Rightarrow> (nexusvm_result \<times> nested_world) run" where
  "nested_start_l2_vm env n l2_vm =
     (if l2_vm = None then Some (NEXUSVM_ERR_INVALID_PARAM, n)
      else do { (result, w) \<leftarrow> vm_start (npf env) (nw n) l2_vm; Some (result, n\<lparr>nw := w\<rparr>) })"

definition nested_stop_l2_vm :: "nested_world \<Rightarrow> ref option \<Rightarrow> (nexusvm_result \<times> nested_world) run" where
  "nested_stop_l2_vm n l2_vm =
     (if l2_vm = None then Some (NEXUSVM_ERR_INVALID_PARAM, n)
      else do { (result, w) \<leftarrow> vm_stop (nw n) l2_vm; Some (result, n\<lparr>nw := w\<rparr>) })"

text \<open>\<open>vm_destroy\<close> frees the nested structures of the machine; their content goes with them.\<close>

definition nested_vm_destroy :: "nested_world \<Rightarrow> ref option \<Rightarrow> (nexusvm_result \<times> nested_world) run" where
  "nested_vm_destroy n vmp = do {
     (result, w) \<leftarrow> vm_destroy (nw n) vmp;
     Some (result, n\<lparr>nw := w, nvmx_objs := (\<lambda>x. if x \<in> blobs w then nvmx_objs n x else None),
       nsvm_objs := (\<lambda>x. if x \<in> blobs w then nsvm_objs n x else None)\<rparr>)
   }"

section \<open>Nested VMX\<close>

text \<open>\<open>vcpu->vm->nested_vmx\<close> is overwritten without a look at what it held.\<close>

definition nested_vmx_enable :: "nested_env \<Rightarrow> nested_world \<Rightarrow> ref option \<Rightarrow> (nexusvm_result \<times> nested_world) run" where
  "nested_vmx_enable env n vcpu =
     (case vcpu of None \<Rightarrow> Some (NEXUSVM_ERR_INVALID_PARAM, n)
      | Some r \<Rightarrow> do {
          vnd \<leftarrow> vendor n;
          if vnd \<noteq> CPU_VENDOR_INTEL then Some (NEXUSVM_ERR_NOT_SUPPORTED, n)
          else (case request (npf env) (nw n) of (ok, w) \<Rightarrow>
            if \<not> ok then Some (NEXUSVM_ERR_NO_MEMORY, n\<lparr>nw := w\<rparr>)
            else
              let x = next_ref w; w = w\<lparr>next_ref := Suc x\<rparr> in
              (case vmx_alloc_vmcs_region (buf_al (npf env)) w of (result, p, w) \<Rightarrow>
                if result \<noteq> NEXUSVM_OK then Some (result, n\<lparr>nw := w\<rparr>)
                else do {
                  (k, m) \<leftarrow> vcpu_vm (n\<lparr>nw := w\<rparr>) r;
                  Some (NEXUSVM_OK,
                    n\<lparr>nw := upd_vm (w\<lparr>blobs := insert x (blobs w)\<rparr>) k (\<lambda>m. m\<lparr>nested_vmx := Some x\<rparr>),
                      nvmx_objs := (nvmx_objs n)(x \<mapsto> \<lparr>vmcs_link_pointer = p, vmxon_pointer = 0, l1_guest_mode = False\<rparr>)\<rparr>)
                }))
        })"

definition nested_vmx_disable :: "nested_world \<Rightarrow> ref option \<Rightarrow> nested_world run" where
  "nested_vmx_disable n vcpu =
     (case vcpu of None \<Rightarrow> Some n
      | Some r \<Rightarrow> do {
          (k, m) \<leftarrow> vcpu_vm n r;
          case nested_vmx m of None \<Rightarrow> Some n
          | Some x \<Rightarrow> do {
              o1 \<leftarrow> nvmx_objs n x;
              w \<leftarrow> (if vmcs_link_pointer o1 \<noteq> 0 then vmx_free_vmcs_region (nw n) (vmcs_link_pointer o1) else Some (nw n));
              w \<leftarrow> free_blob w (Some x);
              Some (n\<lparr>nw := upd_vm w k (\<lambda>m. m\<lparr>nested_vmx := None\<rparr>), nvmx_objs := (nvmx_objs n)(x := None)\<rparr>)
            }
        })"

definition nested_vmx_setup_l1 :: "ref option \<Rightarrow> nexusvm_result" where
  "nested_vmx_setup_l1 l1_vm = (if l1_vm = None then NEXUSVM_ERR_INVALID_PARAM else NEXUSVM_OK)"

text \<open>The nested structure of the machine of a virtual CPU, and whether the machine is in guest mode.\<close>

definition nested_of :: "nested_world \<Rightarrow> ref \<Rightarrow> (ref \<times> nested_vmx_obj) option run" where
  "nested_of n r = do {
     (k, m) \<leftarrow> vcpu_vm n r;
     case nested_vmx m of None \<Rightarrow> Some None
     | Some x \<Rightarrow> do { o1 \<leftarrow> nvmx_objs n x; Some (Some (x, o1)) }
   }"

definition in_guest_mode :: "nested_world \<Rightarrow> ref \<Rightarrow> bool run" where
  "in_guest_mode n r = do {
     p \<leftarrow> nested_of n r;
     Some (case p of None \<Rightarrow> False | Some (x, o1) \<Rightarrow> l1_guest_mode o1)
   }"

definition upd_nvmx :: "nested_world \<Rightarrow> ref \<Rightarrow> (nested_vmx_obj \<Rightarrow> nested_vmx_obj) \<Rightarrow> nested_world" where
  "upd_nvmx n x f = n\<lparr>nvmx_objs := (nvmx_objs n)(x := map_option f (nvmx_objs n x))\<rparr>"

text \<open>\<open>value\<close> is the content of the variable of the caller, returned after the call: in guest mode nothing is stored.\<close>

definition nested_vmx_handle_vmread :: "nested_world \<Rightarrow> ref option \<Rightarrow> u32 \<Rightarrow> u64 option \<Rightarrow> (nexusvm_result \<times> u64 option) run" where
  "nested_vmx_handle_vmread n vcpu encoding val =
     (if vcpu = None \<or> val = None then Some (NEXUSVM_ERR_INVALID_PARAM, val)
      else do {
        r \<leftarrow> vcpu;
        guest \<leftarrow> in_guest_mode n r;
        Some (NEXUSVM_OK, if guest then val else Some (vmx_vmread (be (nw n)) encoding))
      })"

definition nested_vmx_handle_vmwrite :: "nested_world \<Rightarrow> ref option \<Rightarrow> u32 \<Rightarrow> u64 \<Rightarrow> (nexusvm_result \<times> nested_world) run" where
  "nested_vmx_handle_vmwrite n vcpu encoding val =
     (case vcpu of None \<Rightarrow> Some (NEXUSVM_ERR_INVALID_PARAM, n)
      | Some r \<Rightarrow> do {
          guest \<leftarrow> in_guest_mode n r;
          Some (NEXUSVM_OK, if guest then n else on_world n (\<lambda>w. w\<lparr>be := vmx_vmwrite encoding val (be w)\<rparr>))
        })"

definition nested_vmx_handle_vmxon :: "nested_world \<Rightarrow> ref option \<Rightarrow> u64 \<Rightarrow> (nexusvm_result \<times> nested_world) run" where
  "nested_vmx_handle_vmxon n vcpu vmxon_region =
     (if vcpu = None \<or> vmxon_region = 0 then Some (NEXUSVM_ERR_INVALID_PARAM, n)
      else do {
        r \<leftarrow> vcpu;
        p \<leftarrow> nested_of n r;
        Some (NEXUSVM_OK, case p of None \<Rightarrow> n | Some (x, o1) \<Rightarrow> upd_nvmx n x (\<lambda>o1. o1\<lparr>vmxon_pointer := vmxon_region\<rparr>))
      })"

definition nested_vmx_handle_vmxoff :: "nested_world \<Rightarrow> ref option \<Rightarrow> (nexusvm_result \<times> nested_world) run" where
  "nested_vmx_handle_vmxoff n vcpu =
     (case vcpu of None \<Rightarrow> Some (NEXUSVM_ERR_INVALID_PARAM, n)
      | Some r \<Rightarrow> do {
          p \<leftarrow> nested_of n r;
          Some (NEXUSVM_OK, case p of None \<Rightarrow> n
            | Some (x, o1) \<Rightarrow> upd_nvmx n x (\<lambda>o1. o1\<lparr>vmxon_pointer := 0, l1_guest_mode := False\<rparr>))
        })"

definition nested_vmx_handle_vmlaunch :: "nested_env \<Rightarrow> nested_world \<Rightarrow> ref option \<Rightarrow> (nexusvm_result \<times> nested_world) run" where
  "nested_vmx_handle_vmlaunch env n vcpu =
     (case vcpu of None \<Rightarrow> Some (NEXUSVM_ERR_INVALID_PARAM, n)
      | Some r \<Rightarrow> do {
          p \<leftarrow> nested_of n r;
          let n = (case p of None \<Rightarrow> n | Some (x, o1) \<Rightarrow> upd_nvmx n x (\<lambda>o1. o1\<lparr>l1_guest_mode := True\<rparr>));
          let (result, w) = vmx_vmentry (ncpu env) (nw n) vcpu;
          Some (result, n\<lparr>nw := w\<rparr>)
        })"

definition nested_vmx_handle_vmresume :: "nested_env \<Rightarrow> nested_world \<Rightarrow> ref option \<Rightarrow> (nexusvm_result \<times> nested_world) run" where
  "nested_vmx_handle_vmresume env n vcpu =
     (if vcpu = None then Some (NEXUSVM_ERR_INVALID_PARAM, n)
      else let (result, w) = vmx_vmentry (ncpu env) (nw n) vcpu in Some (result, n\<lparr>nw := w\<rparr>))"

section \<open>The state of a second-level guest\<close>

text \<open>The registers that are saved and restored, read from the current VMCS.\<close>

definition read_l2_state :: "nested_env \<Rightarrow> backend \<Rightarrow> cpu_state" where
  "read_l2_state env b =
     (let rd = (\<lambda>f. vmx_vmread b (guest_field env f)); rdv = (\<lambda>f. vmx_vmread b (enc (ncpu env) f)) in
      zero_cpu_state\<lparr>
        gprs := zero_gprs\<lparr>rax := rd VMCS_GUEST_RAX, rbx := rd VMCS_GUEST_RBX, rcx := rd VMCS_GUEST_RCX, rdx := rd VMCS_GUEST_RDX,
          rsi := rd VMCS_GUEST_RSI, rdi := rd VMCS_GUEST_RDI, rbp := rd VMCS_GUEST_RBP, rsp := rdv VMCS_GUEST_RSP,
          rip := rdv VMCS_GUEST_RIP, rflags := rdv VMCS_GUEST_RFLAGS\<rparr>,
        cr := \<lparr>cr0 = rdv VMCS_GUEST_CR0, cr2 = rd VMCS_GUEST_CR2, cr3 = rdv VMCS_GUEST_CR3, cr4 = rdv VMCS_GUEST_CR4, cr8 = 0\<rparr>\<rparr>)"

definition saved_l2 :: "nested_env \<Rightarrow> backend \<Rightarrow> l2_state" where
  "saved_l2 env b = zero_l2\<lparr>guest_state := read_l2_state env b,
     vmexit_reason := vmx_vmread b (enc (ncpu env) VMCS_VM_EXIT_REASON),
     vmexit_qualification := vmx_vmread b (enc (ncpu env) VMCS_VM_EXIT_QUALIFICATION),
     vmexit_instruction_len := vmx_vmread b (enc (ncpu env) VMCS_VM_EXIT_INSTRUCTION_LENGTH)\<rparr>"

definition l2_writes :: "nested_env \<Rightarrow> cpu_state \<Rightarrow> (u32 \<times> u64) list" where
  "l2_writes env s =
     (let g = guest_field env; e = enc (ncpu env); q = gprs s; c = cr s in
      [(g VMCS_GUEST_RAX, rax q), (g VMCS_GUEST_RBX, rbx q), (g VMCS_GUEST_RCX, rcx q), (g VMCS_GUEST_RDX, rdx q),
       (g VMCS_GUEST_RSI, rsi q), (g VMCS_GUEST_RDI, rdi q), (g VMCS_GUEST_RBP, rbp q), (e VMCS_GUEST_RSP, rsp q),
       (e VMCS_GUEST_RIP, rip q), (e VMCS_GUEST_RFLAGS, rflags q),
       (e VMCS_GUEST_CR0, cr0 c), (g VMCS_GUEST_CR2, cr2 c), (e VMCS_GUEST_CR3, cr3 c), (e VMCS_GUEST_CR4, cr4 c)])"

text \<open>The address of the saved state goes to \<open>r12\<close> of the virtual CPU.\<close>

definition nested_save_l2_state :: "nested_env \<Rightarrow> nested_world \<Rightarrow> ref option \<Rightarrow> (nexusvm_result \<times> nested_world) run" where
  "nested_save_l2_state env n vcpu =
     (case vcpu of None \<Rightarrow> Some (NEXUSVM_ERR_INVALID_PARAM, n)
      | Some r \<Rightarrow> do {
          vnd \<leftarrow> vendor n;
          if vnd \<noteq> CPU_VENDOR_INTEL then Some (NEXUSVM_OK, n)
          else do {
            (k, m) \<leftarrow> vcpu_vm n r;
            if nested_vmx m = None then Some (NEXUSVM_OK, n)
            else
              let a = l2_at env (l2_objs n) in
              if a = 0 then Some (NEXUSVM_ERR_NO_MEMORY, n)
              else Some (NEXUSVM_OK,
                n\<lparr>nw := upd_gprs (nw n) r (\<lambda>g. g\<lparr>r12 := a\<rparr>), l2_objs := (l2_objs n)(a \<mapsto> saved_l2 env (be (nw n)))\<rparr>)
          }
        })"

text \<open>\<open>r12\<close> is used as a pointer; when it does not point to a saved state the behaviour is undefined.\<close>

definition nested_restore_l2_state :: "nested_env \<Rightarrow> nested_world \<Rightarrow> ref option \<Rightarrow> (nexusvm_result \<times> nested_world) run" where
  "nested_restore_l2_state env n vcpu =
     (case vcpu of None \<Rightarrow> Some (NEXUSVM_ERR_INVALID_PARAM, n)
      | Some r \<Rightarrow> do {
          vnd \<leftarrow> vendor n;
          if vnd \<noteq> CPU_VENDOR_INTEL then Some (NEXUSVM_OK, n)
          else do {
            (k, m) \<leftarrow> vcpu_vm n r;
            if nested_vmx m = None then Some (NEXUSVM_OK, n)
            else do {
              v \<leftarrow> vcpu_objs (nw n) r;
              let a = r12 (gprs (cpu_state_of v));
              if a = 0 then Some (NEXUSVM_ERR_GENERIC, n)
              else do {
                l2 \<leftarrow> l2_objs n a;
                let b = fold (\<lambda>(e, x). vmx_vmwrite e x) (l2_writes env (guest_state l2)) (be (nw n));
                Some (NEXUSVM_OK, n\<lparr>nw := upd_gprs ((nw n)\<lparr>be := b\<rparr>) r (\<lambda>g. g\<lparr>r12 := 0\<rparr>), l2_objs := (l2_objs n)(a := None)\<rparr>)
              }
            }
          }
        })"

text \<open>The result of saving is ignored; nothing is delivered to the first-level hypervisor.\<close>

definition nested_vmx_handle_l2_vmexit :: "nested_env \<Rightarrow> nested_world \<Rightarrow> ref option \<Rightarrow> (nexusvm_result \<times> nested_world) run" where
  "nested_vmx_handle_l2_vmexit env n vcpu =
     (if vcpu = None then Some (NEXUSVM_ERR_INVALID_PARAM, n)
      else do { (_, n) \<leftarrow> nested_save_l2_state env n vcpu; Some (NEXUSVM_OK, n) })"

section \<open>Nested SVM\<close>

definition nested_svm_enable :: "nested_env \<Rightarrow> nested_world \<Rightarrow> ref option \<Rightarrow> (nexusvm_result \<times> nested_world) run" where
  "nested_svm_enable env n vcpu =
     (case vcpu of None \<Rightarrow> Some (NEXUSVM_ERR_INVALID_PARAM, n)
      | Some r \<Rightarrow> do {
          vnd \<leftarrow> vendor n;
          if vnd \<noteq> CPU_VENDOR_AMD then Some (NEXUSVM_ERR_NOT_SUPPORTED, n)
          else (case request (npf env) (nw n) of (ok, w) \<Rightarrow>
            if \<not> ok then Some (NEXUSVM_ERR_NO_MEMORY, n\<lparr>nw := w\<rparr>)
            else do {
              let x = next_ref w;
              (k, m) \<leftarrow> vcpu_vm (n\<lparr>nw := w\<rparr>) r;
              Some (NEXUSVM_OK,
                n\<lparr>nw := upd_vm (w\<lparr>next_ref := Suc x, blobs := insert x (blobs w)\<rparr>) k (\<lambda>m. m\<lparr>nested_svm := Some x\<rparr>),
                  nsvm_objs := (nsvm_objs n)(x \<mapsto> \<lparr>n_vmcb = 0, n_guest_state = zero_cpu_state, nested_running = False\<rparr>)\<rparr>)
            })
        })"

definition nested_svm_disable :: "nested_world \<Rightarrow> ref option \<Rightarrow> nested_world run" where
  "nested_svm_disable n vcpu =
     (case vcpu of None \<Rightarrow> Some n
      | Some r \<Rightarrow> do {
          (k, m) \<leftarrow> vcpu_vm n r;
          case nested_svm m of None \<Rightarrow> Some n
          | Some x \<Rightarrow> do {
              _ \<leftarrow> nsvm_objs n x;
              w \<leftarrow> free_blob (nw n) (Some x);
              Some (n\<lparr>nw := upd_vm w k (\<lambda>m. m\<lparr>nested_svm := None\<rparr>), nsvm_objs := (nsvm_objs n)(x := None)\<rparr>)
            }
        })"

definition nested_svm_handle_vmrun :: "nested_world \<Rightarrow> ref option \<Rightarrow> phys_addr \<Rightarrow> (nexusvm_result \<times> nested_world) run" where
  "nested_svm_handle_vmrun n vcpu vmcb_pa =
     (case vcpu of None \<Rightarrow> Some (NEXUSVM_ERR_INVALID_PARAM, n)
      | Some r \<Rightarrow> do {
          (k, m) \<leftarrow> vcpu_vm n r;
          case nested_svm m of None \<Rightarrow> Some (NEXUSVM_OK, n)
          | Some x \<Rightarrow> do {
              _ \<leftarrow> nsvm_objs n x;
              Some (NEXUSVM_OK, n\<lparr>nsvm_objs := (nsvm_objs n)(x := map_option (\<lambda>o1. o1\<lparr>n_vmcb := vmcb_pa, nested_running := True\<rparr>) (nsvm_objs n x))\<rparr>)
            }
        })"

definition nested_svm_handle_vmmcall :: "ref option \<Rightarrow> nexusvm_result" where
  "nested_svm_handle_vmmcall vcpu = (if vcpu = None then NEXUSVM_ERR_INVALID_PARAM else NEXUSVM_OK)"

section \<open>Status and VMFUNC\<close>

text \<open>The two pointers may be \<open>NULL\<close>, \<^const>\<open>None\<close>; the results are what they point to afterwards.\<close>

definition nested_get_status ::
  "nested_world \<Rightarrow> ref option \<Rightarrow> bool option \<Rightarrow> bool option \<Rightarrow> (bool option \<times> bool option) run"
where
  "nested_get_status n vcpu is_nested is_guest =
     (case vcpu of None \<Rightarrow> Some (is_nested, is_guest)
      | Some r \<Rightarrow> do {
          vnd \<leftarrow> vendor n;
          let store = (\<lambda>p x. case p of None \<Rightarrow> Some None | Some _ \<Rightarrow> map_option Some x);
          let svm = do { (k, m) \<leftarrow> vcpu_vm n r;
            case nested_svm m of None \<Rightarrow> Some None | Some x \<Rightarrow> map_option Some (nsvm_objs n x) };
          (case vnd of
             CPU_VENDOR_INTEL \<Rightarrow> do {
               a \<leftarrow> store is_nested (map_option (\<lambda>(k, m). nested_vmx m \<noteq> None) (vcpu_vm n r));
               b \<leftarrow> store is_guest (in_guest_mode n r);
               Some (a, b)
             }
           | CPU_VENDOR_AMD \<Rightarrow> do {
               a \<leftarrow> store is_nested (map_option (\<lambda>(k, m). nested_svm m \<noteq> None) (vcpu_vm n r));
               b \<leftarrow> store is_guest (map_option (\<lambda>p. case p of None \<Rightarrow> False | Some o1 \<Rightarrow> nested_running o1) svm);
               Some (a, b)
             }
           | CPU_VENDOR_UNKNOWN \<Rightarrow> Some (map_option (\<lambda>_. False) is_nested, map_option (\<lambda>_. False) is_guest))
        })"

definition nested_handle_vmfunc :: "ref option \<Rightarrow> u32 \<Rightarrow> nexusvm_result" where
  "nested_handle_vmfunc vcpu f =
     (if vcpu = None then NEXUSVM_ERR_INVALID_PARAM else if f = 0 then NEXUSVM_OK else NEXUSVM_ERR_NOT_SUPPORTED)"

end
