(* ===== verification/Nested_Correct.thy ===== *)
theory Nested_Correct
  imports Nested Hypervisor_Correct
begin

text \<open>
  Nested virtualization: guest mode as a state machine over the VMX instructions of the first-level hypervisor, the round trip of
  a saved second-level state, the states that are lost when exits are handled without a restore, and enabling and disabling.
\<close>

section \<open>Guest mode\<close>

datatype vmx_instr = Vmxon u64 | Vmxoff | Vmlaunch | Vmresume | L2_exit | Vmwrite u32 u64

fun run_instr :: "nested_env \<Rightarrow> vmx_instr \<Rightarrow> nested_world \<Rightarrow> ref \<Rightarrow> (nexusvm_result \<times> nested_world) run" where
  "run_instr env (Vmxon p) n r = nested_vmx_handle_vmxon n (Some r) p"
| "run_instr env Vmxoff n r = nested_vmx_handle_vmxoff n (Some r)"
| "run_instr env Vmlaunch n r = nested_vmx_handle_vmlaunch env n (Some r)"
| "run_instr env Vmresume n r = nested_vmx_handle_vmresume env n (Some r)"
| "run_instr env L2_exit n r = nested_vmx_handle_l2_vmexit env n (Some r)"
| "run_instr env (Vmwrite e x) n r = nested_vmx_handle_vmwrite n (Some r) e x"

fun run_instrs :: "nested_env \<Rightarrow> vmx_instr list \<Rightarrow> nested_world \<Rightarrow> ref \<Rightarrow> nested_world run" where
  "run_instrs env [] n r = Some n"
| "run_instrs env (i # is) n r = do { (_, n) \<leftarrow> run_instr env i n r; run_instrs env is n r }"

text \<open>The abstract machine: a launch enters guest mode, VMXOFF leaves it.\<close>

fun mode_step :: "vmx_instr \<Rightarrow> bool \<Rightarrow> bool" where
  "mode_step Vmlaunch md = True"
| "mode_step Vmxoff md = False"
| "mode_step _ md = md"

lemma nested_of_be [simp]: "nested_of (n\<lparr>nw := (nw n)\<lparr>be := b\<rparr>\<rparr>) r = nested_of n r"
  by (simp add: nested_of_def vcpu_vm_def cong: option.case_cong)

lemma nested_of_gprs [simp]: "nested_of (n\<lparr>nw := upd_gprs (nw n) r' f, l2_objs := l\<rparr>) r = nested_of n r"
proof -
  have "vcpu_vm (n\<lparr>nw := upd_gprs (nw n) r' f, l2_objs := l\<rparr>) r = vcpu_vm n r"
    by (cases "vcpu_objs (nw n) r") (auto simp: vcpu_vm_def upd_gprs_def upd_vcpu_def)
  then show ?thesis by (simp add: nested_of_def cong: option.case_cong)
qed

lemma nested_of_upd:
  assumes "nested_of n r = Some (Some (x, q))"
  shows "nested_of (upd_nvmx n x f) r = Some (Some (x, f q))"
  using assms by (auto simp: nested_of_def vcpu_vm_def upd_nvmx_def bind_eq_Some_conv split: option.splits)

lemma vmentry_be: "vmx_vmentry env w (Some r) = (NEXUSVM_OK, w\<lparr>be := vm_entry env True 0 (be w)\<rparr>)"
  by (simp add: vmx_vmentry_def)

lemma save_keeps_nested:
  "nested_save_l2_state env n (Some r) = Some (res, n') \<Longrightarrow> nested_of n' r = nested_of n r"
  by (auto simp: nested_save_l2_state_def bind_eq_Some_conv Let_def split: if_splits)

lemma instr_step:
  assumes "nested_of n r = Some (Some (x, q))" "run_instr env i n r = Some (res, n')"
  shows "\<exists>q'. nested_of n' r = Some (Some (x, q')) \<and> l1_guest_mode q' = mode_step i (l1_guest_mode q)"
proof (cases i)
  case (Vmxon p)
  then show ?thesis using assms nested_of_upd [OF assms(1)] by (auto simp: nested_vmx_handle_vmxon_def split: if_splits)
next
  case Vmxoff
  then show ?thesis using assms nested_of_upd [OF assms(1)] by (auto simp: nested_vmx_handle_vmxoff_def)
next
  case Vmlaunch
  then show ?thesis using assms nested_of_upd [OF assms(1), of "\<lambda>o1. o1\<lparr>l1_guest_mode := True\<rparr>"]
    by (auto simp: nested_vmx_handle_vmlaunch_def vmentry_be Let_def)
next
  case Vmresume
  then show ?thesis using assms by (auto simp: nested_vmx_handle_vmresume_def vmentry_be)
next
  case L2_exit
  then show ?thesis using assms by (auto simp: nested_vmx_handle_l2_vmexit_def bind_eq_Some_conv dest: save_keeps_nested)
next
  case (Vmwrite e v)
  then show ?thesis using assms by (auto simp: nested_vmx_handle_vmwrite_def in_guest_mode_def on_world_def split: if_splits)
qed

lemma instrs_mode:
  "nested_of n r = Some (Some (x, q)) \<Longrightarrow> run_instrs env is n r = Some n' \<Longrightarrow>
    \<exists>q'. nested_of n' r = Some (Some (x, q')) \<and> l1_guest_mode q' = fold mode_step is (l1_guest_mode q)"
proof (induction "is" arbitrary: n q)
  case (Cons i "is")
  from Cons.prems(2) obtain res n1 where i: "run_instr env i n r = Some (res, n1)" "run_instrs env is n1 r = Some n'"
    by (auto simp: bind_eq_Some_conv)
  from instr_step [OF Cons.prems(1) i(1)] obtain q1 where
    q1: "nested_of n1 r = Some (Some (x, q1))" "l1_guest_mode q1 = mode_step i (l1_guest_mode q)" by blast
  from Cons.IH [OF q1(1) i(2)] q1(2) show ?case by simp
qed auto

text \<open>C34. Guest mode follows the abstract machine over any sequence of VMX instructions and second-level exits: it is entered by VMLAUNCH and left by
  VMXOFF only, so an exit of the second-level guest leaves the machine in guest mode, and there the VMREAD of the first-level hypervisor
  reports success without storing a value.
\<close>

theorem nested_mode_machine:
  assumes "nested_of n r = Some (Some (x, q))" "run_instrs env is n r = Some n'"
  shows "in_guest_mode n' r = Some (fold mode_step is (l1_guest_mode q)) \<and>
    nested_vmx_handle_vmread n' (Some r) e (Some old) =
      Some (NEXUSVM_OK, Some (if fold mode_step is (l1_guest_mode q) then old else vmx_vmread (be (nw n')) e))"
proof -
  from instrs_mode [OF assms] obtain q' where "nested_of n' r = Some (Some (x, q'))"
    "l1_guest_mode q' = fold mode_step is (l1_guest_mode q)" by blast
  then have "in_guest_mode n' r = Some (fold mode_step is (l1_guest_mode q))" by (simp add: in_guest_mode_def)
  then show ?thesis by (simp add: nested_vmx_handle_vmread_def)
qed

definition demo_nested_env :: nested_env where
  "demo_nested_env = \<lparr>npf = demo_platform, guest_field = (\<lambda>f. case f of VMCS_GUEST_RAX \<Rightarrow> 1 | _ \<Rightarrow> 2),
     l2_at = (\<lambda>h. if h 0x1000 = None then 0x1000 else if h 0x2000 = None then 0x2000 else 0)\<rparr>"

text \<open>A running Intel machine with nested VMX enabled and a current VMCS.\<close>

definition demo_nested :: nested_world where
  "demo_nested = \<lparr>nw = live_world\<lparr>g_hypervisor := Some (zero_hypervisor\<lparr>cpu_vendor_of := CPU_VENDOR_INTEL\<rparr>),
       vm_objs := [30 \<mapsto> live_vm\<lparr>nested_vmx := Some 40\<rparr>], be := reset_backend\<lparr>vmcs_current := Some 0x9000\<rparr>, blobs := {40}\<rparr>,
     nvmx_objs = [40 \<mapsto> \<lparr>vmcs_link_pointer = 0, vmxon_pointer = 0, l1_guest_mode = False\<rparr>],
     nsvm_objs = Map.empty, l2_objs = Map.empty, g_nested_initialized = True\<rparr>"

lemma demo_vcpu_vm: "vcpu_vm demo_nested 20 = Some (30, live_vm\<lparr>nested_vmx := Some 40\<rparr>)"
  by (simp add: vcpu_vm_def demo_nested_def live_world_def live_vcpu_def)

lemma demo_nested_of:
  "nested_of demo_nested 20 = Some (Some (40, \<lparr>vmcs_link_pointer = 0, vmxon_pointer = 0, l1_guest_mode = False\<rparr>))"
  by (simp add: nested_of_def demo_vcpu_vm) (simp add: demo_nested_def)

lemma nested_mode_machine_witness:
  "\<exists>n'. run_instrs demo_nested_env [Vmxon 5, Vmlaunch] demo_nested 20 = Some n' \<and> in_guest_mode n' 20 = Some True"
proof -
  let ?q = "\<lparr>vmcs_link_pointer = 0, vmxon_pointer = 0, l1_guest_mode = False\<rparr>"
  obtain n1 where n1: "run_instr demo_nested_env (Vmxon 5) demo_nested 20 = Some (NEXUSVM_OK, n1)"
    using demo_nested_of by (simp add: nested_vmx_handle_vmxon_def)
  from instr_step [OF demo_nested_of n1] obtain q1 where "nested_of n1 20 = Some (Some (40, q1))" by blast
  then obtain n2 where n2: "run_instr demo_nested_env Vmlaunch n1 20 = Some (NEXUSVM_OK, n2)"
    by (simp add: nested_vmx_handle_vmlaunch_def vmentry_be Let_def)
  have "run_instrs demo_nested_env [Vmxon 5, Vmlaunch] demo_nested 20 = Some n2" using n1 n2 by simp
  from nested_mode_machine [OF demo_nested_of this] this show ?thesis by auto
qed

section \<open>Saving and restoring\<close>




text \<open>The situation in which a second-level state is saved: an Intel processor, nested VMX, and an allocator that has memory.\<close>

definition l2_ready :: "nested_env \<Rightarrow> nested_world \<Rightarrow> ref \<Rightarrow> nexusvcpu \<Rightarrow> bool" where
  "l2_ready env n r v \<longleftrightarrow> vendor n = Some CPU_VENDOR_INTEL \<and> vcpu_objs (nw n) r = Some v \<and>
     (\<exists>k m. vcpu_vm n r = Some (k, m) \<and> nested_vmx m \<noteq> None) \<and> l2_at env (l2_objs n) \<noteq> 0 \<and> l2_objs n (l2_at env (l2_objs n)) = None"

abbreviation with_r12 :: "u64 \<Rightarrow> nexusvcpu \<Rightarrow> nexusvcpu" where
  "with_r12 a v \<equiv> v\<lparr>cpu_state_of := (cpu_state_of v)\<lparr>gprs := (gprs (cpu_state_of v))\<lparr>r12 := a\<rparr>\<rparr>\<rparr>"

lemma save_l2:
  "l2_ready env n r v \<Longrightarrow> nested_save_l2_state env n (Some r) = Some (NEXUSVM_OK,
    n\<lparr>nw := (nw n)\<lparr>vcpu_objs := (vcpu_objs (nw n))(r \<mapsto> with_r12 (l2_at env (l2_objs n)) v)\<rparr>,
      l2_objs := (l2_objs n)(l2_at env (l2_objs n) \<mapsto> saved_l2 env (be (nw n)))\<rparr>)"
  by (auto simp: l2_ready_def nested_save_l2_state_def Let_def upd_gprs_def upd_vcpu_def)


lemma demo_l2_ready: "l2_ready demo_nested_env demo_nested 20 live_vcpu"
  unfolding l2_ready_def demo_vcpu_vm by (simp add: vendor_def demo_nested_def demo_nested_env_def live_world_def)


section \<open>Exits without a restore\<close>

text \<open>The allocator has room for \<open>k\<close> more saved states.\<close>

definition l2_room :: "nested_env \<Rightarrow> nested_world \<Rightarrow> nat \<Rightarrow> bool" where
  "l2_room env n k \<longleftrightarrow> finite (dom (l2_objs n)) \<and>
     (\<forall>h. finite (dom h) \<longrightarrow> card (dom h) < card (dom (l2_objs n)) + k \<longrightarrow> l2_at env h \<noteq> 0 \<and> h (l2_at env h) = None)"

text \<open>Every exit of the second-level guest saves a new state and forgets the one before: after \<open>k\<close> exits without a restore there
  are \<open>k\<close> more saved states on the heap, and the virtual CPU knows the address of the last one only.
\<close>

theorem nested_l2_exits_leak:
  assumes "l2_ready env n r v" "l2_room env n k"
  shows "\<exists>n' v'. run_instrs env (replicate k L2_exit) n r = Some n' \<and> card (dom (l2_objs n')) = card (dom (l2_objs n)) + k \<and>
    vcpu_objs (nw n') r = Some v' \<and> (0 < k \<longrightarrow> l2_objs n' (r12 (gprs (cpu_state_of v'))) \<noteq> None)"
  using assms
proof (induction k arbitrary: n v)
  case 0
  then show ?case by (auto simp: l2_ready_def)
next
  case (Suc k)
  let ?a = "l2_at env (l2_objs n)"
  define n1 where "n1 = n\<lparr>nw := (nw n)\<lparr>vcpu_objs := (vcpu_objs (nw n))(r \<mapsto> with_r12 ?a v)\<rparr>,
    l2_objs := (l2_objs n)(?a \<mapsto> saved_l2 env (be (nw n)))\<rparr>"
  have exit: "run_instr env L2_exit n r = Some (NEXUSVM_OK, n1)"
    using save_l2 [OF Suc.prems(1)] by (simp add: nested_vmx_handle_l2_vmexit_def n1_def)
  have fin: "finite (dom (l2_objs n))" and fresh: "l2_objs n ?a = None" using Suc.prems by (simp_all add: l2_room_def l2_ready_def)
  then have card: "card (dom (l2_objs n1)) = Suc (card (dom (l2_objs n)))" by (simp add: n1_def domIff)
  have room: "l2_room env n1 k" using Suc.prems(2) fin card by (simp add: l2_room_def n1_def)
  obtain q m where "vcpu_vm n r = Some (q, m)" "nested_vmx m \<noteq> None" using Suc.prems(1) by (auto simp: l2_ready_def)
  then have vm1: "vcpu_vm n1 r = Some (q, m)" "nested_vmx m \<noteq> None" using Suc.prems(1)
    by (auto simp: l2_ready_def vcpu_vm_def n1_def bind_eq_Some_conv)
  have run: "run_instrs env (replicate (Suc k) L2_exit) n r = run_instrs env (replicate k L2_exit) n1 r"
    using exit by (simp del: run_instr.simps)
  have n1: "vcpu_objs (nw n1) r = Some (with_r12 ?a v)" "l2_objs n1 ?a \<noteq> None" by (simp_all add: n1_def)
  show ?case
  proof (cases "k = 0")
    case True
    then show ?thesis using run card n1 by (intro exI [of _ n1] exI [of _ "with_r12 ?a v"]) simp
  next
    case False
    then have "l2_at env (l2_objs n1) \<noteq> 0 \<and> l2_objs n1 (l2_at env (l2_objs n1)) = None"
      using room unfolding l2_room_def by simp
    then have "l2_ready env n1 r (with_r12 ?a v)" using Suc.prems(1) vm1 by (auto simp: l2_ready_def vendor_def n1_def)
    from Suc.IH [OF this room] show ?thesis using run card False by simp
  qed
qed

lemma nested_l2_exits_leak_witness:
  "\<exists>n'. run_instrs demo_nested_env (replicate 2 L2_exit) demo_nested 20 = Some n' \<and> card (dom (l2_objs n')) = 2"
proof -
  have "l2_at demo_nested_env h \<noteq> 0 \<and> h (l2_at demo_nested_env h) = None" if "finite (dom h)" "card (dom h) < 2" for h
  proof -
    have "\<not> {0x1000, 0x2000} \<subseteq> dom h"
    proof
      assume "{0x1000, 0x2000} \<subseteq> dom h"
      from card_mono [OF that(1) this] that(2) show False by simp
    qed
    then show ?thesis by (auto simp: demo_nested_env_def)
  qed
  then have "l2_room demo_nested_env demo_nested 2" by (simp add: l2_room_def demo_nested_def)
  from nested_l2_exits_leak [OF demo_l2_ready this] show ?thesis by (auto simp: demo_nested_def)
qed

section \<open>Enabling and disabling\<close>

text \<open>
  Enabling nested VMX on an Intel machine without it returns: it fails without memory and then changes no object and no buffer, or
  it hangs a structure with a VMCS region on the machine, and disabling it again gives back the machines, the structures and the
  buffers from before.
\<close>

theorem nested_vmx_enable_disable:
  assumes al: "buf_fresh (buf_al (npf env))" and vnd: "vendor n = Some CPU_VENDOR_INTEL"
    and vm: "vcpu_vm n r = Some (k, m)" "nested_vmx m = None" and new: "nvmx_objs n (next_ref (nw n)) = None"
  shows "\<exists>res n1. nested_vmx_enable env n (Some r) = Some (res, n1) \<and>
    (res = NEXUSVM_ERR_NO_MEMORY \<and> vm_objs (nw n1) = vm_objs (nw n) \<and> bufs (nw n1) = bufs (nw n) \<and> nvmx_objs n1 = nvmx_objs n \<or>
     res = NEXUSVM_OK \<and> in_guest_mode n1 r = Some False \<and> (\<exists>m1. vcpu_vm n1 r = Some (k, m1) \<and> nested_vmx m1 \<noteq> None) \<and>
     (\<exists>n2. nested_vmx_disable n1 (Some r) = Some n2 \<and> vm_objs (nw n2) = vm_objs (nw n) \<and> bufs (nw n2) = bufs (nw n) \<and>
       nvmx_objs n2 = nvmx_objs n))"
proof -
  let ?x = "next_ref (nw n)" and ?al = "buf_al (npf env)"
  let ?bs = "region_bytes (vmx_get_basic_info (be (nw n)))" and ?rev = "set_revision (revision_id (vmx_get_basic_info (be (nw n))))"
  define p where "p = ?al (bufs (nw n)) ?bs"
  define w where "w = (nw n)\<lparr>callocs := Suc (callocs (nw n))\<rparr>"
  have vm0: "vm_objs (nw n) k = Some m" "\<exists>v. vcpu_objs (nw n) r = Some v \<and> Nexus_Types.vm v = Some k"
    using vm(1) by (auto simp: vcpu_vm_def bind_eq_Some_conv)
  consider "\<not> objs_av (npf env) (callocs (nw n))" | "objs_av (npf env) (callocs (nw n))" "p = 0" | "objs_av (npf env) (callocs (nw n))" "p \<noteq> 0" by blast
  then show ?thesis
  proof cases
    case 1
    then show ?thesis using vnd by (simp add: nested_vmx_enable_def request_def)
  next
    case 2
    then show ?thesis using vnd
      by (simp add: nested_vmx_enable_def request_def vmx_alloc_vmcs_region_def buf_new_def p_def Let_def)
  next
    case 3
    define w1 where "w1 = (nw n)\<lparr>callocs := Suc (callocs (nw n)), next_ref := Suc ?x,
      bufs := (bufs (nw n))(p \<mapsto> ?rev (replicate (unat ?bs) 0)), blobs := insert ?x (blobs (nw n)), vm_objs := (vm_objs (nw n))(k \<mapsto> m\<lparr>nested_vmx := Some ?x\<rparr>)\<rparr>"
    define n1 where "n1 = n\<lparr>nw := w1, nvmx_objs := (nvmx_objs n)(?x \<mapsto> \<lparr>vmcs_link_pointer = p, vmxon_pointer = 0, l1_guest_mode = False\<rparr>)\<rparr>"
    have free: "bufs (nw n) p = None" using al 3(2) by (simp add: buf_fresh_def p_def)
    have enable: "nested_vmx_enable env n (Some r) = Some (NEXUSVM_OK, n1)"
      using vnd 3 vm0 p_def [symmetric]
      by (auto simp: nested_vmx_enable_def request_def vmx_alloc_vmcs_region_def buf_new_def Let_def vcpu_vm_def upd_vm_def n1_def w1_def)
    have vm1: "vcpu_vm n1 r = Some (k, m\<lparr>nested_vmx := Some ?x\<rparr>)" using vm0 by (auto simp: vcpu_vm_def n1_def w1_def)
    then have guest: "in_guest_mode n1 r = Some False" by (simp add: in_guest_mode_def nested_of_def) (simp add: n1_def)
    define n2 where "n2 = n1\<lparr>nw := upd_vm (w1\<lparr>bufs := (bufs w1)(p := None), blobs := blobs w1 - {?x}\<rparr>) k (\<lambda>m. m\<lparr>nested_vmx := None\<rparr>), nvmx_objs := (nvmx_objs n1)(?x := None)\<rparr>"
    have disable: "nested_vmx_disable n1 (Some r) = Some n2"
      using 3(2) by (simp add: nested_vmx_disable_def vm1 n2_def)
        (simp add: n1_def w1_def vmx_free_vmcs_region_def buf_free_def free_blob_def)
    have "m\<lparr>nested_vmx := None\<rparr> = m" using vm(2) by simp
    then have "vm_objs (nw n2) = vm_objs (nw n)" using vm0(1) by (simp add: n2_def w1_def upd_vm_def fun_upd_idem)
    moreover have "bufs (nw n2) = bufs (nw n)" "nvmx_objs n2 = nvmx_objs n"
      using free new by (simp_all add: n2_def n1_def w1_def upd_vm_def fun_upd_idem)
    ultimately show ?thesis using enable guest vm1 disable by (intro exI [of _ NEXUSVM_OK] exI [of _ n1]) auto
  qed
qed

lemma nested_vmx_enable_disable_witness:
  "\<exists>res n1. nested_vmx_enable demo_nested_env (demo_nested\<lparr>nw := (nw demo_nested)\<lparr>vm_objs := [30 \<mapsto> live_vm]\<rparr>\<rparr>) (Some 20) = Some (res, n1)"
proof -
  let ?n = "demo_nested\<lparr>nw := (nw demo_nested)\<lparr>vm_objs := [30 \<mapsto> live_vm]\<rparr>\<rparr>"
  have "buf_fresh (buf_al (npf demo_nested_env))" "vendor ?n = Some CPU_VENDOR_INTEL" "vcpu_vm ?n 20 = Some (30, live_vm)"
    "nested_vmx live_vm = None" "nvmx_objs ?n (next_ref (nw ?n)) = None"
    by (simp_all add: demo_nested_env_def demo_platform_def buf_fresh_def vendor_def demo_nested_def vcpu_vm_def live_world_def
      live_vcpu_def live_vm_def zero_vm_def boot_world_def)
  from nested_vmx_enable_disable [OF this] show ?thesis by blast
qed

end
