(* ===== verification/Utils_Spinlock.thy ===== *)
theory Utils_Spinlock
  imports Scheduler
begin

text \<open>
  The spin lock of \<^verbatim>\<open>src/utils/log.c\<close>: its atomic operations, the lock function run by one thread, and any number of
  threads that take and release one lock, interleaved at the atomic operations.
\<close>

section \<open>Operations\<close>

record spinlock =
  locked :: int

definition spinlock_init :: spinlock where
  "spinlock_init = \<lparr>locked = 0\<rparr>"

text \<open>\<open>__sync_lock_test_and_set(&lock->locked, 1)\<close>: the old value and the lock afterwards.\<close>

definition test_and_set :: "spinlock \<Rightarrow> int \<times> spinlock" where
  "test_and_set l = (locked l, l\<lparr>locked := 1\<rparr>)"

definition spinlock_trylock :: "spinlock \<Rightarrow> bool \<times> spinlock" where
  "spinlock_trylock l = (case test_and_set l of (old, l) \<Rightarrow> (old = 0, l))"

definition spinlock_unlock :: "spinlock \<Rightarrow> spinlock" where
  "spinlock_unlock l = l\<lparr>locked := 0\<rparr>"

text \<open>The two nested loops of \<open>spinlock_lock\<close>, run with no other thread.\<close>

partial_function (option) spin_wait :: "spinlock \<Rightarrow> spinlock option" where
  "spin_wait l = (if locked l \<noteq> 0 then spin_wait l else Some l)"

partial_function (option) spinlock_lock :: "spinlock \<Rightarrow> spinlock option" where
  "spinlock_lock l = (case test_and_set l of (old, l) \<Rightarrow>
     if old \<noteq> 0 then do { l \<leftarrow> spin_wait l; spinlock_lock l } else Some l)"

lemma spin_wait_free: "spin_wait l = Some l' \<Longrightarrow> locked l = 0"
  by (rule spin_wait.raw_induct [of "\<lambda>l _. locked l = 0"]) (auto split: if_splits)

lemma spin_wait_held: "locked l \<noteq> 0 \<Longrightarrow> spin_wait l = None"
  using spin_wait_free by (cases "spin_wait l") auto

text \<open>
  One thread alone gets a free lock at once and never returns from a lock that is held: what the models of the run-queue
  locks and of the session locks take for granted.
\<close>

theorem spinlock_lock_alone:
  "spinlock_lock l = (if locked l = 0 then Some \<lparr>locked = 1\<rparr> else None)"
  by (cases l) (subst spinlock_lock.simps, simp add: test_and_set_def spin_wait_held)

lemma rq_lock_is_spinlock:
  "get_rq w i = Some (arr, q) \<Longrightarrow>
    rq_lock w i = (case spinlock_lock \<lparr>locked = of_bool (lock q)\<rparr> of None \<Rightarrow> None
      | Some l \<Rightarrow> Some (upd_rq w i (\<lambda>q. q\<lparr>lock := (locked l \<noteq> 0)\<rparr>)))"
  by (simp add: rq_lock_def spinlock_lock_alone)

section \<open>Threads\<close>

text \<open>
  Where a thread is: outside, before the test-and-set of the outer loop, in the inner loop, or past \<open>spinlock_lock\<close>.
\<close>

datatype pc = Outside | Trying | Spinning | Holding

record threads =
  the_lock :: spinlock
  pcs :: "nat \<Rightarrow> pc"

definition goto :: "nat \<Rightarrow> pc \<Rightarrow> spinlock \<Rightarrow> threads \<Rightarrow> threads" where
  "goto t p l s = \<lparr>the_lock = l, pcs = (pcs s)(t := p)\<rparr>"

inductive thread_step :: "nat \<Rightarrow> threads \<Rightarrow> threads \<Rightarrow> bool" for t s where
  call_lock: "pcs s t = Outside \<Longrightarrow> thread_step t s (goto t Trying (the_lock s) s)"
| take_lock: "pcs s t = Trying \<Longrightarrow> test_and_set (the_lock s) = (old, l) \<Longrightarrow>
    thread_step t s (goto t (if old = 0 then Holding else Spinning) l s)"
| look: "pcs s t = Spinning \<Longrightarrow> thread_step t s (goto t (if locked (the_lock s) \<noteq> 0 then Spinning else Trying) (the_lock s) s)"
| try_lock: "pcs s t = Outside \<Longrightarrow> spinlock_trylock (the_lock s) = (ok, l) \<Longrightarrow>
    thread_step t s (goto t (if ok then Holding else Outside) l s)"
| release: "pcs s t = Holding \<Longrightarrow> thread_step t s (goto t Outside (spinlock_unlock (the_lock s)) s)"

inductive threads_reach :: "threads \<Rightarrow> bool" where
  start: "threads_reach \<lparr>the_lock = spinlock_init, pcs = (\<lambda>_. Outside)\<rparr>"
| step: "threads_reach s \<Longrightarrow> thread_step t s s' \<Longrightarrow> threads_reach s'"

text \<open>The lock is free and nobody holds it, or it is taken and held by exactly one thread.\<close>

definition lock_inv :: "threads \<Rightarrow> bool" where
  "lock_inv s \<longleftrightarrow> (if locked (the_lock s) = 0 then \<forall>u. pcs s u \<noteq> Holding else \<exists>t. \<forall>u. pcs s u = Holding \<longleftrightarrow> u = t)"

lemma goto_simps [simp]: "the_lock (goto t p l s) = l" "pcs (goto t p l s) u = (if u = t then p else pcs s u)"
  by (simp_all add: goto_def)

lemma lock_inv_idle:
  assumes "lock_inv s" "pcs s t \<noteq> Holding" "p \<noteq> Holding" "locked l = 0 \<longleftrightarrow> locked (the_lock s) = 0"
  shows "lock_inv (goto t p l s)"
proof -
  have "pcs (goto t p l s) u = Holding \<longleftrightarrow> pcs s u = Holding" for u using assms(2,3) by simp
  with assms(1,4) show ?thesis unfolding lock_inv_def by (simp only: goto_simps(1))
qed

lemma lock_inv_take: "lock_inv s \<Longrightarrow> locked (the_lock s) = 0 \<Longrightarrow> locked l \<noteq> 0 \<Longrightarrow> lock_inv (goto t Holding l s)"
  by (auto simp: lock_inv_def)

lemma lock_inv_step:
  assumes "thread_step t s s'" "lock_inv s"
  shows "lock_inv s'"
  using assms(1)
proof (cases rule: thread_step.cases)
  case call_lock
  then show ?thesis using lock_inv_idle [OF assms(2)] by simp
next
  case (take_lock old l)
  then show ?thesis using lock_inv_idle [OF assms(2)] lock_inv_take [OF assms(2)] by (auto simp: test_and_set_def)
next
  case look
  then show ?thesis using lock_inv_idle [OF assms(2)] by simp
next
  case (try_lock ok l)
  then show ?thesis using lock_inv_idle [OF assms(2)] lock_inv_take [OF assms(2)]
    by (auto simp: test_and_set_def spinlock_trylock_def)
next
  case release
  then show ?thesis using assms(2) by (auto simp: lock_inv_def spinlock_unlock_def split: if_splits)
qed

lemma lock_inv_reach: "threads_reach s \<Longrightarrow> lock_inv s"
proof (induction rule: threads_reach.induct)
  case start
  then show ?case by (simp add: lock_inv_def spinlock_init_def)
qed (rule lock_inv_step)

text \<open>C36. Mutual exclusion, and no blocking: in every interleaving of any number of threads at most one is past
  \<open>spinlock_lock\<close>, and whenever none is, a thread that has called it needs at most two steps of its own to get the lock.
\<close>

theorem spinlock_mutual_exclusion:
  assumes "threads_reach s"
  shows "(\<forall>t u. pcs s t = Holding \<longrightarrow> pcs s u = Holding \<longrightarrow> t = u) \<and>
    (\<forall>t. pcs s t \<in> {Trying, Spinning} \<longrightarrow> (\<forall>u. pcs s u \<noteq> Holding) \<longrightarrow>
      (\<exists>s1 s2. (thread_step t s s1 \<and> pcs s1 t = Holding) \<or> (thread_step t s s1 \<and> thread_step t s1 s2 \<and> pcs s2 t = Holding)))"
proof (intro conjI allI impI)
  have inv: "lock_inv s" using assms by (rule lock_inv_reach)
  then show "t = u" if "pcs s t = Holding" "pcs s u = Holding" for t u using that by (auto simp: lock_inv_def split: if_splits)
  fix t assume pc: "pcs s t \<in> {Trying, Spinning}" and "\<forall>u. pcs s u \<noteq> Holding"
  then have free: "locked (the_lock s) = 0" using inv by (auto simp: lock_inv_def split: if_splits)
  have tas: "thread_step t q (goto t Holding ((the_lock q)\<lparr>locked := 1\<rparr>) q)" if "pcs q t = Trying" "locked (the_lock q) = 0" for q
    using thread_step.take_lock [OF that(1), of 0 "(the_lock q)\<lparr>locked := 1\<rparr>"] that(2) by (simp add: test_and_set_def)
  let ?s1 = "goto t Trying (the_lock s) s"
  show "\<exists>s1 s2. (thread_step t s s1 \<and> pcs s1 t = Holding) \<or> (thread_step t s s1 \<and> thread_step t s1 s2 \<and> pcs s2 t = Holding)"
  proof (cases "pcs s t = Trying")
    case True
    with tas [OF True free] show ?thesis by (auto simp: goto_def)
  next
    case False
    then have "pcs s t = Spinning" using pc by simp
    from thread_step.look [OF this] free have "thread_step t s ?s1" by simp
    moreover have "pcs ?s1 t = Trying" "locked (the_lock ?s1) = 0" using free by (simp_all add: goto_def)
    from tas [OF this] have "thread_step t ?s1 (goto t Holding ((the_lock ?s1)\<lparr>locked := 1\<rparr>) ?s1)" .
    ultimately show ?thesis by (intro exI [of _ ?s1] exI) (auto simp: goto_def)
  qed
qed

lemma spinlock_mutual_exclusion_witness:
  "\<exists>s. threads_reach s \<and> pcs s 1 = Holding \<and> pcs s 2 = Spinning \<and> (\<forall>t. pcs s t = Holding \<longrightarrow> t = 1)"
proof -
  let ?l = "\<lparr>locked = 1\<rparr>" and ?p = "\<lambda>_::nat. Outside"
  have s1: "threads_reach \<lparr>the_lock = ?l, pcs = ?p(1 := Holding)\<rparr>"
    using threads_reach.step [OF threads_reach.start thread_step.try_lock [of _ 1 True ?l]]
    by (simp add: goto_def spinlock_trylock_def test_and_set_def spinlock_init_def)
  have s2: "threads_reach \<lparr>the_lock = ?l, pcs = ?p(1 := Holding, 2 := Trying)\<rparr>"
    using threads_reach.step [OF s1 thread_step.call_lock [of _ 2]] by (simp add: goto_def)
  have s3: "threads_reach \<lparr>the_lock = ?l, pcs = ?p(1 := Holding, 2 := Spinning)\<rparr>"
    using threads_reach.step [OF s2 thread_step.take_lock [of _ 2 1 ?l]] by (simp add: goto_def test_and_set_def)
  have "t = 1" if "pcs \<lparr>the_lock = ?l, pcs = ?p(1 := Holding, 2 := Spinning)\<rparr> t = Holding" for t
    by (rule spinlock_mutual_exclusion [OF s3, THEN conjunct1, rule_format, OF that]) simp
  with s3 show ?thesis by (intro exI [of _ "\<lparr>the_lock = ?l, pcs = ?p(1 := Holding, 2 := Spinning)\<rparr>"]) simp
qed

end
