(* ===== verification/Checkpoint_Layout.thy ===== *)
theory Checkpoint_Layout
  imports Hypervisor
begin

text \<open>
  How the structures that go to a checkpoint file lie in memory, after their declarations in
  \<^verbatim>\<open>include/hypervisor/types.h\<close> and the alignment rules of the x86-64 ABI: little-endian words, padding bytes (zero here) before and
  after members. A character array holds a string and zeros behind it. The register state is a sequence of 64-bit words;
  reading back what was stored gives the structure again.
\<close>

section \<open>Words and strings\<close>

definition u64s :: "u64 list \<Rightarrow> u8 list" where
  "u64s ws = concat (map (le_bytes 8) ws)"

fun rd_u64s :: "nat \<Rightarrow> u8 list \<Rightarrow> u64 list" where
  "rd_u64s 0 bs = []"
| "rd_u64s (Suc n) bs = of_le (take 8 bs) # rd_u64s n (drop 8 bs)"

definition num_at :: "nat \<Rightarrow> nat \<Rightarrow> u8 list \<Rightarrow> u64" where
  "num_at n off bs = of_le (take n (drop off bs))"

definition str_bytes :: "nat \<Rightarrow> string \<Rightarrow> u8 list" where
  "str_bytes n s = take n (ascii s @ replicate n 0)"

definition str_at :: "nat \<Rightarrow> nat \<Rightarrow> u8 list \<Rightarrow> string" where
  "str_at n off bs = map (\<lambda>b. char_of (unat b)) (takeWhile (\<lambda>b. b \<noteq> 0) (take n (drop off bs)))"

lemma length_u64s [simp]: "length (u64s ws) = 8 * length ws"
  by (induction ws) (simp_all add: u64s_def)

lemma u64s_append: "u64s (xs @ ys) = u64s xs @ u64s ys"
  by (simp add: u64s_def)

lemma rd_u64s_u64s [simp]: "n = length ws \<Longrightarrow> rd_u64s n (u64s ws @ rest) = ws"
  by (induction ws arbitrary: n) (simp_all add: u64s_def)

lemma length_str_bytes [simp]: "length (str_bytes n s) = n"
  by (simp add: str_bytes_def)

section \<open>Register state\<close>

definition gprs_words :: "guest_gprs \<Rightarrow> u64 list" where
  "gprs_words g = [rax g, rbx g, rcx g, rdx g, rsi g, rdi g, rbp g, rsp g, r8 g, r9 g, r10 g, r11 g, r12 g, r13 g, r14 g, r15 g,
     rip g, rflags g]"

definition gprs_of :: "u64 list \<Rightarrow> guest_gprs" where
  "gprs_of ws = \<lparr>rax = ws ! 0, rbx = ws ! 1, rcx = ws ! 2, rdx = ws ! 3, rsi = ws ! 4, rdi = ws ! 5, rbp = ws ! 6, rsp = ws ! 7,
     r8 = ws ! 8, r9 = ws ! 9, r10 = ws ! 10, r11 = ws ! 11, r12 = ws ! 12, r13 = ws ! 13, r14 = ws ! 14, r15 = ws ! 15,
     rip = ws ! 16, rflags = ws ! 17\<rparr>"

definition control_words :: "guest_control_regs \<Rightarrow> u64 list" where
  "control_words c = [cr0 c, cr2 c, cr3 c, cr4 c, cr8 c]"

definition control_of :: "u64 list \<Rightarrow> guest_control_regs" where
  "control_of ws = \<lparr>cr0 = ws ! 0, cr2 = ws ! 1, cr3 = ws ! 2, cr4 = ws ! 3, cr8 = ws ! 4\<rparr>"

definition debug_words :: "guest_debug_regs \<Rightarrow> u64 list" where
  "debug_words d = [dr0 d, dr1 d, dr2 d, dr3 d, dr6 d, dr7 d]"

definition debug_of :: "u64 list \<Rightarrow> guest_debug_regs" where
  "debug_of ws = \<lparr>dr0 = ws ! 0, dr1 = ws ! 1, dr2 = ws ! 2, dr3 = ws ! 3, dr6 = ws ! 4, dr7 = ws ! 5\<rparr>"

definition msrs_words :: "guest_msrs \<Rightarrow> u64 list" where
  "msrs_words x = [ia32_efer x, ia32_pat x, ia32_fs_base x, ia32_gs_base x, ia32_kernel_gs_base x, ia32_star x, ia32_lstar x,
     ia32_cstar x, ia32_sfmask x, ia32_sysenter_cs x, ia32_sysenter_esp x, ia32_sysenter_eip x, ia32_perf_global_ctrl x,
     ia32_debugctl x, ia32_mtrr_cap x, ia32_mtrr_def_type x]"

definition msrs_of :: "u64 list \<Rightarrow> guest_msrs" where
  "msrs_of ws = \<lparr>ia32_efer = ws ! 0, ia32_pat = ws ! 1, ia32_fs_base = ws ! 2, ia32_gs_base = ws ! 3, ia32_kernel_gs_base = ws ! 4,
     ia32_star = ws ! 5, ia32_lstar = ws ! 6, ia32_cstar = ws ! 7, ia32_sfmask = ws ! 8, ia32_sysenter_cs = ws ! 9,
     ia32_sysenter_esp = ws ! 10, ia32_sysenter_eip = ws ! 11, ia32_perf_global_ctrl = ws ! 12, ia32_debugctl = ws ! 13,
     ia32_mtrr_cap = ws ! 14, ia32_mtrr_def_type = ws ! 15\<rparr>"

text \<open>A segment register takes three words: the selector and six bytes of padding, the base, and limit and attributes.\<close>

definition segment_words :: "segment_reg \<Rightarrow> u64 list" where
  "segment_words x = [ucast (selector x), base x, ucast (limit x) OR push_bit 32 (ucast (attributes x))]"

definition segment_of :: "u64 list \<Rightarrow> segment_reg" where
  "segment_of ws = \<lparr>selector = ucast (ws ! 0), base = ws ! 1, limit = ucast (ws ! 2), attributes = ucast (drop_bit 32 (ws ! 2))\<rparr>"

definition cpu_words :: "cpu_state \<Rightarrow> u64 list" where
  "cpu_words x = gprs_words (gprs x) @ control_words (cr x) @ debug_words (dr x) @ msrs_words (msrs x) @
     segment_words (cs x) @ segment_words (ds x) @ segment_words (es x) @ segment_words (fs x) @ segment_words (gs x) @
     segment_words (ss x) @ segment_words (tr x) @ segment_words (ldt x) @ segment_words (gdt_base x) @ segment_words (idt_base x) @
     [gdtr_limit x, idtr_limit x, pending_exceptions x, active_events x, interruptibility_state x]"

definition cpu_of_words :: "u64 list \<Rightarrow> cpu_state" where
  "cpu_of_words ws =
     (let seg = (\<lambda>i. segment_of (take 3 (drop (45 + 3 * i) ws))) in
      \<lparr>gprs = gprs_of (take 18 ws), cr = control_of (take 5 (drop 18 ws)), dr = debug_of (take 6 (drop 23 ws)),
       msrs = msrs_of (take 16 (drop 29 ws)), cs = seg 0, ds = seg 1, es = seg 2, fs = seg 3, gs = seg 4, ss = seg 5, tr = seg 6,
       ldt = seg 7, gdt_base = seg 8, idt_base = seg 9, gdtr_limit = ws ! 75, idtr_limit = ws ! 76, pending_exceptions = ws ! 77,
       active_events = ws ! 78, interruptibility_state = ws ! 79\<rparr>)"

definition cpu_bytes :: "cpu_state \<Rightarrow> u8 list" where
  "cpu_bytes x = u64s (cpu_words x)"

definition cpu_of_bytes :: "u8 list \<Rightarrow> cpu_state" where
  "cpu_of_bytes bs = cpu_of_words (rd_u64s 80 bs)"

definition sizeof_cpu_state :: nat where "sizeof_cpu_state = 640"

lemma gprs_of_words [simp]: "gprs_of (gprs_words g) = g"
  by (simp add: gprs_of_def gprs_words_def)

lemma control_of_words [simp]: "control_of (control_words c) = c"
  by (simp add: control_of_def control_words_def)

lemma debug_of_words [simp]: "debug_of (debug_words d) = d"
  by (simp add: debug_of_def debug_words_def)

lemma msrs_of_words [simp]: "msrs_of (msrs_words x) = x"
  by (simp add: msrs_of_def msrs_words_def)

lemma segment_of_words [simp]: "segment_of (segment_words x) = x"
proof -
  have "ucast ((ucast (limit x) :: u64) OR push_bit 32 (ucast (attributes x))) = limit x"
    "ucast (drop_bit 32 ((ucast (limit x) :: u64) OR push_bit 32 (ucast (attributes x)))) = attributes x"
    by (rule bit_word_eqI; auto simp: bit_ucast_iff bit_or_iff bit_push_bit_iff bit_drop_bit_eq dest: bit_imp_le_length)+
  moreover have "ucast (ucast (selector x) :: u64) = selector x" by (rule bit_word_eqI) (simp add: bit_ucast_iff)
  ultimately show ?thesis by (simp add: segment_of_def segment_words_def)
qed

lemma words_lengths [simp]: "length (gprs_words g) = 18" "length (control_words c) = 5" "length (debug_words d) = 6"
  "length (msrs_words x) = 16" "length (segment_words y) = 3" "length (cpu_words z) = 80"
  by (simp_all add: gprs_words_def control_words_def debug_words_def msrs_words_def segment_words_def cpu_words_def)

lemma cpu_of_words_words [simp]: "cpu_of_words (cpu_words x) = x"
  by (simp add: cpu_of_words_def cpu_words_def nth_append)

lemma length_cpu_bytes [simp]: "length (cpu_bytes x) = sizeof_cpu_state"
  by (simp add: cpu_bytes_def sizeof_cpu_state_def)

lemma cpu_of_bytes_bytes [simp]: "cpu_of_bytes (cpu_bytes x @ rest) = x"
  by (simp add: cpu_of_bytes_def cpu_bytes_def)

lemma cpu_of_bytes_bytes0 [simp]: "cpu_of_bytes (cpu_bytes x) = x"
  using cpu_of_bytes_bytes [of x "[]"] by simp

section \<open>The configuration of a machine\<close>

text \<open>The two pointers of the structure are not members of the model; their values are arguments.\<close>

definition cfg_bytes :: "u64 \<Rightarrow> u64 \<Rightarrow> vm_config \<Rightarrow> u8 list" where
  "cfg_bytes regions_ptr vcpus_ptr c =
     str_bytes 64 (cfg_name c) @ le_bytes 4 (ucast (cfg_id c)) @ le_bytes 4 (ucast (cfg_vcpu_count c)) @ le_bytes 8 (cfg_memory_size c) @
     le_bytes 4 (ucast (cfg_memory_region_count c)) @ replicate 4 0 @ le_bytes 8 regions_ptr @ le_bytes 8 vcpus_ptr @
     le_bytes 8 (kernel_entry c) @ le_bytes 8 (initrd_addr c) @ le_bytes 8 (initrd_size c) @ str_bytes 256 (kernel_cmdline c) @
     le_bytes 8 (cfg_eptp c) @
     map of_bool [nested_virtualization c, unrestricted_guest c, long_mode c, pae c, apic c, x2apic c, vpid_enabled c, ept_enabled c,
       preemption_timer c] @ replicate 7 0"

definition cfg_of_bytes :: "u8 list \<Rightarrow> vm_config" where
  "cfg_of_bytes bs =
     \<lparr>cfg_name = str_at 64 0 bs, cfg_id = ucast (num_at 4 64 bs), cfg_vcpu_count = ucast (num_at 4 68 bs),
      cfg_memory_size = num_at 8 72 bs, cfg_memory_region_count = ucast (num_at 4 80 bs), kernel_entry = num_at 8 104 bs,
      initrd_addr = num_at 8 112 bs, initrd_size = num_at 8 120 bs, kernel_cmdline = str_at 256 128 bs, cfg_eptp = num_at 8 384 bs,
      nested_virtualization = (bs ! 392 \<noteq> 0), unrestricted_guest = (bs ! 393 \<noteq> 0), long_mode = (bs ! 394 \<noteq> 0),
      pae = (bs ! 395 \<noteq> 0), apic = (bs ! 396 \<noteq> 0), x2apic = (bs ! 397 \<noteq> 0), vpid_enabled = (bs ! 398 \<noteq> 0),
      ept_enabled = (bs ! 399 \<noteq> 0), preemption_timer = (bs ! 400 \<noteq> 0)\<rparr>"

definition sizeof_vm_config :: nat where "sizeof_vm_config = 408"

lemma length_cfg_bytes [simp]: "length (cfg_bytes p q c) = sizeof_vm_config"
  by (simp add: cfg_bytes_def sizeof_vm_config_def)

text \<open>A string without NUL that leaves room for the terminator comes back.\<close>

definition fits :: "nat \<Rightarrow> string \<Rightarrow> bool" where
  "fits n s \<longleftrightarrow> length s < n \<and> list_all (\<lambda>c. c \<noteq> CHR 0x00) s"

lemma unat_of_char: "unat (of_char c :: u8) = of_char c"
proof -
  have "(of_char c :: u8) = of_nat (of_char c)" by (simp only: of_nat_of_char)
  then show ?thesis by (simp only: unat_of_nat) simp
qed

lemma char_of_ascii: "char_of (unat (of_char c :: u8)) = c"
  by (simp only: unat_of_char char_of_char)

lemma ascii_nonzero: "c \<noteq> CHR 0x00 \<Longrightarrow> (of_char c :: u8) \<noteq> 0"
proof
  assume c: "c \<noteq> CHR 0x00" and "(of_char c :: u8) = 0"
  then have "c = char_of (0 :: nat)" using char_of_ascii [of c] by simp
  moreover have "char_of (0 :: nat) = CHR 0x00" by (simp add: char_of_def)
  ultimately show False using c by simp
qed

lemma str_at_bytes:
  assumes "fits n s" "length pre = off"
  shows "str_at n off (pre @ str_bytes n s @ rest) = s"
proof -
  have "str_bytes n s = ascii s @ replicate (n - length s) 0"
    using assms(1) by (simp add: str_bytes_def fits_def ascii_def)
  moreover have "takeWhile (\<lambda>b. b \<noteq> 0) (ascii s @ replicate (n - length s) 0) = ascii s"
  proof -
    have "b \<noteq> 0" if b: "b \<in> set (ascii s)" for b
    proof -
      obtain c where "c \<in> set s" "b = of_char c" using b by (auto simp: ascii_def)
      moreover from this(1) have "c \<noteq> CHR 0x00" using assms(1) by (simp add: fits_def list_all_iff)
      ultimately show ?thesis using ascii_nonzero by metis
    qed
    then show ?thesis by (simp add: takeWhile_append2)
  qed
  ultimately have "takeWhile (\<lambda>b. b \<noteq> 0) (str_bytes n s) = ascii s" by simp
  moreover have "take n (drop off (pre @ str_bytes n s @ rest)) = str_bytes n s"
    using assms(2) by simp
  ultimately show ?thesis by (simp add: str_at_def ascii_def char_of_ascii comp_def)
qed

lemma num_at_bytes: "length pre = off \<Longrightarrow> num_at n off (pre @ le_bytes n v @ rest) = take_bit (8 * n) v"
  by (simp add: num_at_def of_le_le_bytes)

lemma cfg_of_bytes_bytes:
  assumes "fits 64 (cfg_name c)" "fits 256 (kernel_cmdline c)"
  shows "cfg_of_bytes (cfg_bytes p q c @ rest) = c"
proof -
  define bools where "bools = (map of_bool [nested_virtualization c, unrestricted_guest c, long_mode c, pae c, apic c, x2apic c, vpid_enabled c,
    ept_enabled c, preemption_timer c] :: u8 list)"
  let ?bs = "cfg_bytes p q c @ rest"
  have words: "ucast (take_bit 32 (ucast x :: u64)) = x" for x :: u32
    by (rule bit_word_eqI) (simp add: bit_ucast_iff bit_take_bit_iff)
  have strs: "str_at 64 0 ?bs = cfg_name c" "str_at 256 128 ?bs = kernel_cmdline c"
    using str_at_bytes [OF assms(1), of "[]" 0] str_at_bytes [OF assms(2), of "take 128 ?bs" 128]
    by (simp_all add: cfg_bytes_def)
  have nums: "num_at 4 64 ?bs = take_bit 32 (ucast (cfg_id c))" "num_at 4 68 ?bs = take_bit 32 (ucast (cfg_vcpu_count c))"
    "num_at 8 72 ?bs = cfg_memory_size c" "num_at 4 80 ?bs = take_bit 32 (ucast (cfg_memory_region_count c))"
    "num_at 8 104 ?bs = kernel_entry c" "num_at 8 112 ?bs = initrd_addr c" "num_at 8 120 ?bs = initrd_size c" "num_at 8 384 ?bs = cfg_eptp c"
    by (simp_all add: num_at_def cfg_bytes_def of_le_le_bytes take_bit_word_eq_self)
  have "drop 392 ?bs = bools @ replicate 7 0 @ rest" by (simp add: cfg_bytes_def bools_def)
  then have "?bs ! (392 + i) = (bools @ replicate 7 0 @ rest) ! i" for i
    using nth_drop [of 392 ?bs i] by (simp add: sizeof_vm_config_def)
  from this [of 0] this [of 1] this [of 2] this [of 3] this [of 4] this [of 5] this [of 6] this [of 7] this [of 8]
  show ?thesis using strs nums words by (simp add: cfg_of_bytes_def bools_def)
qed

section \<open>The header of a checkpoint and the regions of memory\<close>

record checkpoint_header =
  ck_magic :: string
  ck_version :: u32
  ck_checksum :: u32
  ck_timestamp :: u64
  ck_vm_id :: u64
  ck_vcpu_count :: u32
  ck_memory_regions :: u32
  ck_total_size :: u64
  ck_memory_size :: u64
  ck_vm_name :: string
  ck_state :: u32

definition hdr_bytes :: "checkpoint_header \<Rightarrow> u8 list" where
  "hdr_bytes h = str_bytes 8 (ck_magic h) @ le_bytes 4 (ucast (ck_version h)) @ le_bytes 4 (ucast (ck_checksum h)) @
     le_bytes 8 (ck_timestamp h) @ le_bytes 8 (ck_vm_id h) @ le_bytes 4 (ucast (ck_vcpu_count h)) @
     le_bytes 4 (ucast (ck_memory_regions h)) @ le_bytes 8 (ck_total_size h) @ le_bytes 8 (ck_memory_size h) @
     str_bytes 64 (ck_vm_name h) @ le_bytes 4 (ucast (ck_state h)) @ replicate 4 0"

definition sizeof_checkpoint_header :: nat where "sizeof_checkpoint_header = 128"

text \<open>The magic of a header, as bytes.\<close>

definition magic_of :: "u8 list \<Rightarrow> u8 list" where
  "magic_of bs = take 8 bs"

definition region_code :: "memory_region_type \<Rightarrow> u64" where
  "region_code t = (case t of MEM_REGION_RAM \<Rightarrow> 0 | MEM_REGION_ROM \<Rightarrow> 1 | MEM_REGION_MMIO \<Rightarrow> 2 | MEM_REGION_IOMEM \<Rightarrow> 3
     | MEM_REGION_DEVICE \<Rightarrow> 4 | MEM_REGION_SHARED \<Rightarrow> 5 | MEM_REGION_VOLATILE \<Rightarrow> 6)"

text \<open>\<open>name_ptr\<close> is the address of the name; \<open>next\<close> is never set.\<close>

definition region_image :: "(ref option \<Rightarrow> u64) \<Rightarrow> memory_region \<Rightarrow> u8 list" where
  "region_image name_ptr x = le_bytes 8 (guest_phys x) @ le_bytes 8 (host_phys x) @ le_bytes 8 (region_size x) @
     le_bytes 4 (region_code (region_type x)) @ le_bytes 4 (ucast (flags x)) @ le_bytes 8 (name_ptr (region_name x)) @ le_bytes 8 0"

definition sizeof_region :: nat where "sizeof_region = 48"

lemma length_hdr_bytes [simp]: "length (hdr_bytes h) = sizeof_checkpoint_header"
  by (simp add: hdr_bytes_def sizeof_checkpoint_header_def)

lemma length_region_image [simp]: "length (region_image p x) = sizeof_region"
  by (simp add: region_image_def sizeof_region_def)

lemma magic_of_hdr: "magic_of (hdr_bytes h @ rest) = str_bytes 8 (ck_magic h)"
  by (simp add: magic_of_def hdr_bytes_def)

section \<open>The configuration space of a PCI device\<close>

text \<open>The arrays are functions of the index.\<close>

record pci_config_space =
  pci_vendor_id :: u16
  pci_device_id :: u16
  pci_command :: u16
  pci_status :: u16
  pci_revision_id :: u8
  pci_prog_if :: u8
  pci_subclass :: u8
  pci_class_code :: u8
  pci_cache_line_size :: u8
  pci_latency_timer :: u8
  pci_header_type :: u8
  pci_bist :: u8
  pci_bar :: "nat \<Rightarrow> u32"
  pci_cardbus_cis_ptr :: u32
  pci_subsystem_vendor_id :: u16
  pci_subsystem_id :: u16
  pci_expansion_rom_base_addr :: u32
  pci_capabilities_ptr :: u8
  pci_reserved :: "nat \<Rightarrow> u8"
  pci_interrupt_line :: u8
  pci_interrupt_pin :: u8
  pci_min_grant :: u8
  pci_max_latency :: u8

definition pci_bytes :: "pci_config_space \<Rightarrow> u8 list" where
  "pci_bytes x =
     concat (map (\<lambda>v. le_bytes 2 (ucast v)) [pci_vendor_id x, pci_device_id x, pci_command x, pci_status x]) @
     [pci_revision_id x, pci_prog_if x, pci_subclass x, pci_class_code x, pci_cache_line_size x, pci_latency_timer x, pci_header_type x, pci_bist x] @
     concat (map (\<lambda>i. le_bytes 4 (ucast (pci_bar x i))) [0..<6]) @ le_bytes 4 (ucast (pci_cardbus_cis_ptr x)) @
     le_bytes 2 (ucast (pci_subsystem_vendor_id x)) @ le_bytes 2 (ucast (pci_subsystem_id x)) @
     le_bytes 4 (ucast (pci_expansion_rom_base_addr x)) @ [pci_capabilities_ptr x] @ map (pci_reserved x) [0..<7] @
     [pci_interrupt_line x, pci_interrupt_pin x, pci_min_grant x, pci_max_latency x]"

definition sizeof_pci_config_space :: nat where "sizeof_pci_config_space = 64"

lemma length_pci_bytes [simp]: "length (pci_bytes x) = sizeof_pci_config_space"
  by (simp add: pci_bytes_def sizeof_pci_config_space_def length_concat comp_def sum_list_triv)

end
