(* ===== verification/Checkpoint.thy ===== *)
theory Checkpoint
  imports Checkpoint_Layout Vm_Memory Vcpu_Ops
begin

text \<open>
  Checkpoints and snapshots of a machine, \<^verbatim>\<open>src/hypervisor/checkpoint/checkpoint.c\<close>.

  The C library is modelled as far as the code uses it: files are byte sequences under a path; a stream keeps
  its position and the bytes it has buffered. Which opens and removals succeed, how many bytes an
  \<open>fwrite\<close> accepts and how many buffered bytes it passes on, the clock, and what uninitialised storage holds
  are parameters, indexed by the number of the operation where they may vary. \<open>struct pci_device\<close> and
  \<open>INVALID_PHYS_ADDR\<close> are used and defined nowhere in the repository: the configuration spaces of the devices on the
  list of a machine (which no code changes) and the value of the second are parameters, too. The host memory that backs the
  guest is apart from the objects of the hypervisor; the code uses a host-physical address as a pointer.
\<close>

record ck_env =
  env_platform :: platform
  may_open :: "nat \<Rightarrow> string \<Rightarrow> bool"
  may_remove :: "nat \<Rightarrow> string \<Rightarrow> bool"
  accepted :: "nat \<Rightarrow> nat \<Rightarrow> nat"
  flushed :: "nat \<Rightarrow> nat"
  clock :: "nat \<Rightarrow> u64"
  junk :: "nat \<Rightarrow> nat \<Rightarrow> u8"
  invalid_pa :: phys_addr
  config_ptrs :: "ref \<Rightarrow> u64 \<times> u64"
  name_address :: "ref option \<Rightarrow> u64"
  device_list_length :: "ref \<Rightarrow> nat"
  device_count :: "ref \<Rightarrow> u32"
  device_config :: "ref \<Rightarrow> nat \<Rightarrow> pci_config_space"

record ck_world =
  cw :: world
  files :: "string \<rightharpoonup> u8 list"
  host_mem :: "u64 \<Rightarrow> u8"
  ops :: nat

section \<open>Streams\<close>

datatype file_mode = Mode_rb | Mode_wb | Mode_ab

record stream =
  spath :: string
  spos :: nat
  sappend :: bool
  pending :: "u8 list"

definition tick :: "ck_world \<Rightarrow> ck_world" where
  "tick s = s\<lparr>ops := Suc (ops s)\<rparr>"

definition content :: "ck_world \<Rightarrow> string \<Rightarrow> u8 list" where
  "content s p = (case files s p of None \<Rightarrow> [] | Some c \<Rightarrow> c)"

definition set_file :: "ck_world \<Rightarrow> string \<Rightarrow> u8 list \<Rightarrow> ck_world" where
  "set_file s p c = s\<lparr>files := (files s)(p \<mapsto> c)\<rparr>"

definition fopen :: "ck_env \<Rightarrow> ck_world \<Rightarrow> string \<Rightarrow> file_mode \<Rightarrow> stream option \<times> ck_world" where
  "fopen env s p md =
     (if \<not> may_open env (ops s) p \<or> md = Mode_rb \<and> files s p = None then (None, tick s)
      else (Some \<lparr>spath = p, spos = 0, sappend = (md = Mode_ab), pending = []\<rparr>,
        case md of Mode_rb \<Rightarrow> tick s | Mode_wb \<Rightarrow> set_file (tick s) p [] | Mode_ab \<Rightarrow> set_file (tick s) p (content s p)))"

text \<open>A write at a position past the end fills the gap with zeros.\<close>

definition put_at :: "nat \<Rightarrow> u8 list \<Rightarrow> u8 list \<Rightarrow> u8 list" where
  "put_at p bs c = (if bs = [] then c else take p (c @ replicate (p - length c) 0) @ bs @ drop (p + length bs) c)"

text \<open>Bytes leave the buffer: to the end of the file in append mode, else to the position of the stream.\<close>

definition deliver :: "ck_world \<Rightarrow> stream \<Rightarrow> u8 list \<Rightarrow> ck_world" where
  "deliver s f bs = set_file s (spath f) (if sappend f then content s (spath f) @ bs else put_at (spos f) bs (content s (spath f)))"

definition fwrite :: "ck_env \<Rightarrow> ck_world \<Rightarrow> stream \<Rightarrow> u8 list \<Rightarrow> nat \<times> stream \<times> ck_world" where
  "fwrite env s f bs =
     (let n = min (accepted env (ops s) (length bs)) (length bs); b = pending f @ take n bs; out = take (flushed env (ops s)) b in
      (n, f\<lparr>spos := spos f + length out, pending := drop (flushed env (ops s)) b\<rparr>, deliver (tick s) f out))"

definition fclose :: "ck_world \<Rightarrow> stream \<Rightarrow> ck_world" where
  "fclose s f = deliver s f (pending f)"

text \<open>The second result is what the destination holds where \<open>fread\<close> has stored, and the old content behind it.\<close>

definition fread :: "ck_env \<Rightarrow> ck_world \<Rightarrow> stream \<Rightarrow> nat \<Rightarrow> u8 list \<times> u8 list \<times> stream \<times> ck_world" where
  "fread env s f n =
     (let bs = take n (drop (spos f) (content s (spath f))) in
      (bs, bs @ map (junk env (ops s)) [length bs..<n], f\<lparr>spos := spos f + length bs\<rparr>, tick s))"

definition fseek_set :: "stream \<Rightarrow> nat \<Rightarrow> stream" where
  "fseek_set f off = f\<lparr>spos := off\<rparr>"

text \<open>The offset is a \<open>long\<close>; a target outside the file offsets is refused and leaves the position.\<close>

definition fseek_cur :: "stream \<Rightarrow> u64 \<Rightarrow> stream" where
  "fseek_cur f off =
     (let t = int (spos f) + sint off in if t < 0 \<or> 2 ^ 63 \<le> t then f else f\<lparr>spos := nat t\<rparr>)"

section \<open>File helpers\<close>

definition checkpoint_open :: "ck_env \<Rightarrow> ck_world \<Rightarrow> string \<Rightarrow> file_mode \<Rightarrow> stream option \<times> ck_world" where
  "checkpoint_open env s p md = fopen env s p md"

definition checkpoint_close :: "ck_world \<Rightarrow> stream option \<Rightarrow> ck_world" where
  "checkpoint_close s f = (case f of None \<Rightarrow> s | Some f \<Rightarrow> fclose s f)"

definition checkpoint_write :: "ck_env \<Rightarrow> ck_world \<Rightarrow> stream \<Rightarrow> u8 list \<Rightarrow> nexusvm_result \<times> stream \<times> ck_world" where
  "checkpoint_write env s f bs =
     (case fwrite env s f bs of (n, f, s) \<Rightarrow> (if n \<noteq> length bs then NEXUSVM_ERR_GENERIC else NEXUSVM_OK, f, s))"

text \<open>The second result is the destination afterwards.\<close>

definition checkpoint_read :: "ck_env \<Rightarrow> ck_world \<Rightarrow> stream \<Rightarrow> nat \<Rightarrow> nexusvm_result \<times> u8 list \<times> stream \<times> ck_world" where
  "checkpoint_read env s f n =
     (case fread env s f n of (bs, dest, f, s) \<Rightarrow> (if length bs \<noteq> n then NEXUSVM_ERR_GENERIC else NEXUSVM_OK, dest, f, s))"

section \<open>Device state\<close>

text \<open>
  The second result is the buffer; \<open>outs\<close> tells whether both result pointers are not \<open>NULL\<close>. More devices on the list than are
  counted overrun the buffer; with fewer, its end stays as \<open>malloc\<close> left it.
\<close>

definition device_images :: "ck_env \<Rightarrow> ref \<Rightarrow> u8 list" where
  "device_images env r = concat (map (\<lambda>i. pci_bytes (device_config env r i)) [0..<device_list_length env r])"

definition checkpoint_save_device_state ::
  "ck_env \<Rightarrow> ck_world \<Rightarrow> ref option \<Rightarrow> bool \<Rightarrow> (nexusvm_result \<times> u8 list option \<times> ck_world) run"
where
  "checkpoint_save_device_state env s vmp outs =
     (case (vmp, outs) of
        (Some r, True) \<Rightarrow> do {
          _ \<leftarrow> vm_objs (cw s) r;
          case request (env_platform env) (cw s) of (ok, w) \<Rightarrow>
          let k = ops s; s = tick (s\<lparr>cw := w\<rparr>); total_size = 4 + sizeof_pci_config_space * unat (device_count env r);
              bs = le_bytes 4 (ucast (device_count env r)) @ device_images env r in
          if \<not> ok then Some (NEXUSVM_ERR_NO_MEMORY, None, s)
          else if length bs > total_size then None
          else Some (NEXUSVM_OK, Some (bs @ map (junk env k) [length bs..<total_size]), s)
        }
      | _ \<Rightarrow> Some (NEXUSVM_ERR_INVALID_PARAM, None, s))"

text \<open>The count is read whatever the size of the buffer; the loop only moves a pointer.\<close>

definition checkpoint_restore_device_state :: "world \<Rightarrow> ref option \<Rightarrow> u8 list option \<Rightarrow> u64 \<Rightarrow> nexusvm_result run" where
  "checkpoint_restore_device_state w vmp buffer sz =
     (case (vmp, buffer) of
        (Some r, Some bs) \<Rightarrow> do { _ \<leftarrow> vm_objs w r; if length bs < 4 then None else Some NEXUSVM_OK }
      | _ \<Rightarrow> Some NEXUSVM_ERR_INVALID_PARAM)"

section \<open>Memory\<close>

definition read_host :: "(u64 \<Rightarrow> u8) \<Rightarrow> u64 \<Rightarrow> u64 \<Rightarrow> u8 list" where
  "read_host h a n = map (\<lambda>i. h (a + of_nat i)) [0..<unat n]"

fun write_host :: "(u64 \<Rightarrow> u8) \<Rightarrow> u64 \<Rightarrow> u8 list \<Rightarrow> (u64 \<Rightarrow> u8)" where
  "write_host h a [] = h"
| "write_host h a (b # bs) = write_host (h(a := b)) (a + 1) bs"

fun save_regions :: "ck_env \<Rightarrow> ck_world \<Rightarrow> stream \<Rightarrow> ref \<Rightarrow> nat list \<Rightarrow> (stream \<times> ck_world) run" where
  "save_regions env s f r [] = Some (f, s)"
| "save_regions env s f r (i # is) = do {
     m \<leftarrow> vm_objs (cw s) r;
     regions \<leftarrow> memory_regions m;
     if i \<ge> length regions then None
     else
       let region = regions ! i in
       case checkpoint_write env s f (region_image (name_address env) region) of (_, f, s) \<Rightarrow>
       if region_type region = MEM_REGION_RAM \<and> region_size region > 0 then do {
         host \<leftarrow> vm_gpa_to_hpa (invalid_pa env) (cw s) (Some r) (guest_phys region);
         if host \<noteq> invalid_pa env then
           (case checkpoint_write env s f (read_host (host_mem s) host (region_size region)) of (_, f, s) \<Rightarrow> save_regions env s f r is)
         else save_regions env s f r is
       }
       else save_regions env s f r is
   }"

text \<open>\<open>path\<close> goes to \<open>fopen\<close> unchecked.\<close>

definition checkpoint_save_memory :: "ck_env \<Rightarrow> ck_world \<Rightarrow> ref option \<Rightarrow> string option \<Rightarrow> (nexusvm_result \<times> ck_world) run" where
  "checkpoint_save_memory env s vmp path =
     (case vmp of None \<Rightarrow> Some (NEXUSVM_ERR_INVALID_PARAM, s)
      | Some r \<Rightarrow> do {
          m \<leftarrow> vm_objs (cw s) r;
          p \<leftarrow> path;
          case checkpoint_open env s p Mode_ab of
            (None, s) \<Rightarrow> Some (NEXUSVM_ERR_GENERIC, s)
          | (Some f, s) \<Rightarrow> do {
              (f, s) \<leftarrow> save_regions env s f r [0..<unat (memory_region_count m)];
              Some (NEXUSVM_OK, checkpoint_close s (Some f))
            }
        })"

fun restore_regions :: "ck_env \<Rightarrow> ck_world \<Rightarrow> stream \<Rightarrow> ref \<Rightarrow> nat list \<Rightarrow> (stream \<times> ck_world) run" where
  "restore_regions env s f r [] = Some (f, s)"
| "restore_regions env s f r (i # is) =
     (case fread env s f sizeof_region of (_, region, f, s) \<Rightarrow>
      if num_at 4 24 region = region_code MEM_REGION_RAM \<and> num_at 8 16 region > 0 then do {
        host \<leftarrow> vm_gpa_to_hpa (invalid_pa env) (cw s) (Some r) (num_at 8 0 region);
        if host \<noteq> invalid_pa env then
          (case fread env s f (unat (num_at 8 16 region)) of (bs, _, f, s) \<Rightarrow>
           restore_regions env (s\<lparr>host_mem := write_host (host_mem s) host bs\<rparr>) f r is)
        else restore_regions env s f r is
      }
      else restore_regions env s f r is)"

text \<open>The second seek is absolute, too, so that the header is not skipped.\<close>

definition checkpoint_restore_memory :: "ck_env \<Rightarrow> ck_world \<Rightarrow> ref option \<Rightarrow> string option \<Rightarrow> (nexusvm_result \<times> ck_world) run" where
  "checkpoint_restore_memory env s vmp path =
     (case (vmp, path) of
        (Some r, Some p) \<Rightarrow>
          (case checkpoint_open env s p Mode_rb of
             (None, s) \<Rightarrow> Some (NEXUSVM_ERR_GENERIC, s)
           | (Some f, s) \<Rightarrow> do {
               m \<leftarrow> vm_objs (cw s) r;
               let f = fseek_set f sizeof_checkpoint_header;
               let f = fseek_set f sizeof_vm_config;
               let f = fseek_cur f (of_nat sizeof_cpu_state * ucast (vcpu_count m));
               case fread env s f 8 of (_, device_size, f, s) \<Rightarrow> do {
                 let f = fseek_cur f (of_le device_size);
                 (f, s) \<leftarrow> restore_regions env s f r [0..<unat (memory_region_count m)];
                 Some (NEXUSVM_OK, checkpoint_close s (Some f))
               }
             })
      | _ \<Rightarrow> Some (NEXUSVM_ERR_INVALID_PARAM, s))"

section \<open>Creation\<close>

definition zero_header :: checkpoint_header where
  "zero_header = \<lparr>ck_magic = [], ck_version = 0, ck_checksum = 0, ck_timestamp = 0, ck_vm_id = 0, ck_vcpu_count = 0,
     ck_memory_regions = 0, ck_total_size = 0, ck_memory_size = 0, ck_vm_name = [], ck_state = 0\<rparr>"

definition NEXUSVM_CHECKPOINT_VERSION :: u32 where
  "NEXUSVM_CHECKPOINT_VERSION = 1"

definition full_header :: "nexusvm \<Rightarrow> u64 \<Rightarrow> checkpoint_header" where
  "full_header m time = zero_header\<lparr>ck_magic := ''NXVMCHKP'', ck_version := NEXUSVM_CHECKPOINT_VERSION, ck_timestamp := time,
     ck_vm_id := ucast (vm_id m), ck_vcpu_count := vcpu_count m, ck_memory_regions := memory_region_count m,
     ck_memory_size := memory_size m, ck_vm_name := vm_name m, ck_state := ucast (vm_state_code (state m))\<rparr>"

definition incremental_header :: "nexusvm \<Rightarrow> u64 \<Rightarrow> checkpoint_header" where
  "incremental_header m time = zero_header\<lparr>ck_magic := ''NXVMINCK'', ck_version := NEXUSVM_CHECKPOINT_VERSION,
     ck_timestamp := time, ck_vm_id := ucast (vm_id m)\<rparr>"

definition saved_config :: "ck_env \<Rightarrow> ref \<Rightarrow> nexusvm \<Rightarrow> u8 list" where
  "saved_config env r m = (case config_ptrs env r of (p, q) \<Rightarrow> cfg_bytes p q (config m))"

fun write_cpus :: "ck_env \<Rightarrow> ck_world \<Rightarrow> stream \<Rightarrow> ref \<Rightarrow> nat list \<Rightarrow> (nexusvm_result \<times> stream \<times> ck_world) run" where
  "write_cpus env s f r [] = Some (NEXUSVM_OK, f, s)"
| "write_cpus env s f r (i # is) = do {
     c \<leftarrow> vcpu_at (cw s) r i;
     v \<leftarrow> get_vcpu (cw s) c;
     case checkpoint_write env s f (cpu_bytes (cpu_state_of v)) of (result, f, s) \<Rightarrow>
     if result \<noteq> NEXUSVM_OK then Some (result, f, s) else write_cpus env s f r is
   }"

text \<open>The part of \<open>checkpoint_create\<close> on the devices: its result is dropped.\<close>

definition write_devices :: "ck_env \<Rightarrow> ck_world \<Rightarrow> stream \<Rightarrow> ref \<Rightarrow> (stream \<times> ck_world) run" where
  "write_devices env s f r = do {
     (result, buffer, s) \<leftarrow> checkpoint_save_device_state env s (Some r) True;
     if result = NEXUSVM_OK then do {
       bs \<leftarrow> buffer;
       case checkpoint_write env s f (le_bytes 8 (of_nat (length bs))) of (result, f, s) \<Rightarrow>
       if result = NEXUSVM_OK then (case checkpoint_write env s f bs of (_, f, s) \<Rightarrow> Some (f, s)) else Some (f, s)
     } else Some (f, s)
   }"

definition checkpoint_create :: "ck_env \<Rightarrow> ck_world \<Rightarrow> ref option \<Rightarrow> string option \<Rightarrow> (nexusvm_result \<times> ck_world) run" where
  "checkpoint_create env s vmp path =
     (case (vmp, path) of
        (Some r, Some p) \<Rightarrow> do {
          m \<leftarrow> vm_objs (cw s) r;
          case checkpoint_open env s p Mode_wb of
            (None, s) \<Rightarrow> Some (NEXUSVM_ERR_GENERIC, s)
          | (Some f, s) \<Rightarrow>
              if length (vm_name m) \<ge> 63 then None
              else
                (case checkpoint_write env s f (hdr_bytes (full_header m (clock env (ops s)))) of (result, f, s) \<Rightarrow>
                 if result \<noteq> NEXUSVM_OK then Some (result, checkpoint_close s (Some f))
                 else
                   (case checkpoint_write env s f (saved_config env r m) of (result, f, s) \<Rightarrow>
                    if result \<noteq> NEXUSVM_OK then Some (result, checkpoint_close s (Some f))
                    else do {
                      (result, f, s) \<leftarrow> write_cpus env s f r (vcpu_numbers m);
                      if result \<noteq> NEXUSVM_OK then Some (result, checkpoint_close s (Some f))
                      else do {
                        (f, s) \<leftarrow> write_devices env s f r;
                        (result, s) \<leftarrow> checkpoint_save_memory env s vmp path;
                        Some (result, checkpoint_close s (Some f))
                      }
                    }))
        }
      | _ \<Rightarrow> Some (NEXUSVM_ERR_INVALID_PARAM, s))"

definition set_vm_state :: "vm_state \<Rightarrow> ref \<Rightarrow> ck_world \<Rightarrow> ck_world" where
  "set_vm_state st r s = s\<lparr>cw := upd_vm (cw s) r (\<lambda>m. m\<lparr>state := st\<rparr>)\<rparr>"

definition snapshot_create :: "ck_env \<Rightarrow> ck_world \<Rightarrow> ref option \<Rightarrow> string option \<Rightarrow> (nexusvm_result \<times> ck_world) run" where
  "snapshot_create env s vmp path =
     (case (vmp, path) of
        (Some r, Some p) \<Rightarrow> do {
          _ \<leftarrow> vm_objs (cw s) r;
          (result, s) \<leftarrow> checkpoint_create env (set_vm_state VM_STATE_SUSPENDED r s) vmp path;
          Some (result, if result = NEXUSVM_OK then set_vm_state VM_STATE_RUNNING r s else s)
        }
      | _ \<Rightarrow> Some (NEXUSVM_ERR_INVALID_PARAM, s))"

section \<open>Restoration\<close>

text \<open>\<open>vcpu_set_state\<close> on a virtual CPU of a machine.\<close>

definition set_cpu_of :: "ck_world \<Rightarrow> ref \<Rightarrow> nat \<Rightarrow> u8 list \<Rightarrow> ck_world run" where
  "set_cpu_of s r i bs = do {
     c \<leftarrow> vcpu_at (cw s) r i;
     (_, w) \<leftarrow> vcpu_set_state (cw s) c (Some (cpu_of_bytes bs));
     Some (s\<lparr>cw := w\<rparr>)
   }"

text \<open>The loop of \<open>checkpoint_restore\<close> up to the first failing read.\<close>

fun read_cpus :: "ck_env \<Rightarrow> ck_world \<Rightarrow> stream \<Rightarrow> ref \<Rightarrow> nat list \<Rightarrow> (nexusvm_result \<times> stream \<times> ck_world) run" where
  "read_cpus env s f r [] = Some (NEXUSVM_OK, f, s)"
| "read_cpus env s f r (i # is) =
     (case checkpoint_read env s f sizeof_cpu_state of (result, bs, f, s) \<Rightarrow>
      if result \<noteq> NEXUSVM_OK then Some (result, f, s)
      else do { s \<leftarrow> set_cpu_of s r i bs; read_cpus env s f r is })"

text \<open>The part of \<open>checkpoint_restore\<close> on the devices.\<close>

definition read_devices :: "ck_env \<Rightarrow> ck_world \<Rightarrow> stream \<Rightarrow> ref \<Rightarrow> (stream \<times> ck_world) run" where
  "read_devices env s f r =
     (case checkpoint_read env s f 8 of (result, device_size, f, s) \<Rightarrow>
      if result = NEXUSVM_OK \<and> of_le device_size > 0 then
        (case request (env_platform env) (cw s) of (ok, w) \<Rightarrow>
         let s = s\<lparr>cw := w\<rparr> in
         if ok then
           (case checkpoint_read env s f (unat (of_le device_size)) of (result, bs, f, s) \<Rightarrow>
            if result = NEXUSVM_OK then do {
              _ \<leftarrow> checkpoint_restore_device_state (cw s) (Some r) (Some bs) (of_le device_size);
              Some (f, s)
            } else Some (f, s))
         else Some (f, s))
      else Some (f, s))"

text \<open>
  \<open>strncmp\<close> of eight characters with a longer constant is a comparison of eight bytes. The second result is what
  \<open>*vm_out\<close> is assigned, if it is; the result of restoring the memory is dropped.
\<close>

definition checkpoint_restore ::
  "ck_env \<Rightarrow> ck_world \<Rightarrow> string option \<Rightarrow> bool \<Rightarrow> (nexusvm_result \<times> ref option \<times> ck_world) run"
where
  "checkpoint_restore env s path vm_out =
     (case (path, vm_out) of
        (Some p, True) \<Rightarrow>
          (case checkpoint_open env s p Mode_rb of
             (None, s) \<Rightarrow> Some (NEXUSVM_ERR_GENERIC, None, s)
           | (Some f, s) \<Rightarrow>
               (case checkpoint_read env s f sizeof_checkpoint_header of (result, hdr, f, s) \<Rightarrow>
                if result \<noteq> NEXUSVM_OK then Some (result, None, checkpoint_close s (Some f))
                else if magic_of hdr \<noteq> magic_of (ascii ''NXVHMCHKP'')
                then Some (NEXUSVM_ERR_GENERIC, None, checkpoint_close s (Some f))
                else
                  (case checkpoint_read env s f sizeof_vm_config of (result, cfg, f, s) \<Rightarrow>
                   if result \<noteq> NEXUSVM_OK then Some (result, None, checkpoint_close s (Some f))
                   else do {
                     (result, new, w) \<leftarrow> vm_create (env_platform env) (cw s) (Some (cfg_of_bytes cfg));
                     let s = s\<lparr>cw := w\<rparr>;
                     if result \<noteq> NEXUSVM_OK then Some (result, None, checkpoint_close s (Some f))
                     else do {
                       r \<leftarrow> new;
                       m \<leftarrow> vm_objs (cw s) r;
                       (result, f, s) \<leftarrow> read_cpus env s f r (vcpu_numbers m);
                       if result \<noteq> NEXUSVM_OK then do {
                         (_, w) \<leftarrow> vm_destroy (cw s) new;
                         Some (result, None, checkpoint_close (s\<lparr>cw := w\<rparr>) (Some f))
                       }
                       else do {
                         (f, s) \<leftarrow> read_devices env s f r;
                         (_, s) \<leftarrow> checkpoint_restore_memory env (checkpoint_close s (Some f)) new path;
                         Some (NEXUSVM_OK, new, s)
                       }
                     }
                   })))
      | _ \<Rightarrow> Some (NEXUSVM_ERR_INVALID_PARAM, None, s))"

text \<open>The loops that go on after a failed read, with what the local variable then holds; those past \<open>n\<close> only read.\<close>

fun apply_cpus :: "ck_env \<Rightarrow> ck_world \<Rightarrow> stream \<Rightarrow> ref \<Rightarrow> nat \<Rightarrow> nat list \<Rightarrow> (stream \<times> ck_world) run" where
  "apply_cpus env s f r n [] = Some (f, s)"
| "apply_cpus env s f r n (i # is) =
     (case checkpoint_read env s f sizeof_cpu_state of (_, bs, f, s) \<Rightarrow> do {
        s \<leftarrow> (if i < n then set_cpu_of s r i bs else Some s);
        apply_cpus env s f r n is
      })"

definition snapshot_restore :: "ck_env \<Rightarrow> ck_world \<Rightarrow> ref option \<Rightarrow> string option \<Rightarrow> (nexusvm_result \<times> ck_world) run" where
  "snapshot_restore env s vmp path =
     (case (vmp, path) of
        (Some r, Some p) \<Rightarrow> do {
          m \<leftarrow> vm_objs (cw s) r;
          case checkpoint_open env s p Mode_rb of
            (None, s) \<Rightarrow> Some (NEXUSVM_ERR_GENERIC, s)
          | (Some f, s) \<Rightarrow> do {
              let f = fseek_set f sizeof_checkpoint_header;
              let f = fseek_cur f (of_nat sizeof_vm_config);
              (f, s) \<leftarrow> apply_cpus env s f r (unat (vcpu_count m)) (vcpu_numbers m);
              case checkpoint_read env s f 8 of (_, device_size, f, s) \<Rightarrow>
              let f = fseek_cur f (of_le device_size) in
              checkpoint_restore_memory env (checkpoint_close s (Some f)) vmp path
            }
        }
      | _ \<Rightarrow> Some (NEXUSVM_ERR_INVALID_PARAM, s))"

section \<open>Operations on files\<close>

text \<open>The second result is what \<open>*info\<close> holds afterwards, \<open>info\<close> whether the pointer is not \<open>NULL\<close>.\<close>

definition checkpoint_get_info ::
  "ck_env \<Rightarrow> ck_world \<Rightarrow> string option \<Rightarrow> bool \<Rightarrow> nexusvm_result \<times> u8 list option \<times> ck_world"
where
  "checkpoint_get_info env s path info =
     (case (path, info) of
        (Some p, True) \<Rightarrow>
          (case checkpoint_open env s p Mode_rb of
             (None, s) \<Rightarrow> (NEXUSVM_ERR_GENERIC, None, s)
           | (Some f, s) \<Rightarrow>
               (case checkpoint_read env s f sizeof_checkpoint_header of (result, hdr, f, s) \<Rightarrow>
                (result, Some hdr, checkpoint_close s (Some f))))
      | _ \<Rightarrow> (NEXUSVM_ERR_INVALID_PARAM, None, s))"

definition checkpoint_list :: "string option \<Rightarrow> bool \<Rightarrow> u32 \<Rightarrow> u32" where
  "checkpoint_list dir entries max_entries = (if dir = None \<or> \<not> entries \<or> max_entries = 0 then 0 else 0)"

definition checkpoint_delete :: "ck_env \<Rightarrow> ck_world \<Rightarrow> string option \<Rightarrow> nexusvm_result \<times> ck_world" where
  "checkpoint_delete env s path =
     (case path of None \<Rightarrow> (NEXUSVM_ERR_INVALID_PARAM, s)
      | Some p \<Rightarrow>
          if files s p = None \<or> \<not> may_remove env (ops s) p then (NEXUSVM_ERR_GENERIC, tick s)
          else (NEXUSVM_OK, (tick s)\<lparr>files := (files s)(p := None)\<rparr>))"

section \<open>Incremental checkpoints\<close>

text \<open>The results of the writes are dropped.\<close>

fun write_all_cpus :: "ck_env \<Rightarrow> ck_world \<Rightarrow> stream \<Rightarrow> ref \<Rightarrow> nat list \<Rightarrow> (stream \<times> ck_world) run" where
  "write_all_cpus env s f r [] = Some (f, s)"
| "write_all_cpus env s f r (i # is) = do {
     c \<leftarrow> vcpu_at (cw s) r i;
     v \<leftarrow> get_vcpu (cw s) c;
     case checkpoint_write env s f (cpu_bytes (cpu_state_of v)) of (_, f, s) \<Rightarrow> write_all_cpus env s f r is
   }"

definition checkpoint_create_incremental ::
  "ck_env \<Rightarrow> ck_world \<Rightarrow> ref option \<Rightarrow> string option \<Rightarrow> string option \<Rightarrow> (nexusvm_result \<times> ck_world) run"
where
  "checkpoint_create_incremental env s vmp base_checkpoint path =
     (case (vmp, path) of
        (Some r, Some p) \<Rightarrow>
          (case checkpoint_get_info env s base_checkpoint True of (result, _, s) \<Rightarrow>
           if result \<noteq> NEXUSVM_OK then checkpoint_create env s vmp path
           else
             (case checkpoint_open env s p Mode_wb of
                (None, s) \<Rightarrow> Some (NEXUSVM_ERR_GENERIC, s)
              | (Some f, s) \<Rightarrow> do {
                  m \<leftarrow> vm_objs (cw s) r;
                  case checkpoint_write env s f (hdr_bytes (incremental_header m (clock env (ops s)))) of (_, f, s) \<Rightarrow> do {
                    (f, s) \<leftarrow> write_all_cpus env s f r (vcpu_numbers m);
                    Some (NEXUSVM_OK, checkpoint_close s (Some f))
                  }
                }))
      | _ \<Rightarrow> Some (NEXUSVM_ERR_INVALID_PARAM, s))"

definition checkpoint_apply_incremental ::
  "ck_env \<Rightarrow> ck_world \<Rightarrow> ref option \<Rightarrow> string option \<Rightarrow> string option \<Rightarrow> (nexusvm_result \<times> ck_world) run"
where
  "checkpoint_apply_incremental env s vmp base_checkpoint incremental =
     (case (vmp, base_checkpoint, incremental) of
        (Some r, Some b, Some p) \<Rightarrow> do {
          (result, temp, s) \<leftarrow> checkpoint_restore env s base_checkpoint True;
          if result \<noteq> NEXUSVM_OK then Some (result, s)
          else
            (case checkpoint_open env s p Mode_rb of
               (None, s) \<Rightarrow> do { (_, w) \<leftarrow> vm_destroy (cw s) temp; Some (NEXUSVM_ERR_GENERIC, s\<lparr>cw := w\<rparr>) }
             | (Some f, s) \<Rightarrow> do {
                 t \<leftarrow> get_vm (cw s) temp;
                 m \<leftarrow> vm_objs (cw s) r;
                 (f, s) \<leftarrow> apply_cpus env s (fseek_set f sizeof_checkpoint_header) r (unat (vcpu_count m)) (vcpu_numbers t);
                 let s = checkpoint_close s (Some f);
                 (_, w) \<leftarrow> vm_destroy (cw s) temp;
                 Some (NEXUSVM_OK, s\<lparr>cw := w\<rparr>)
               })
        }
      | _ \<Rightarrow> Some (NEXUSVM_ERR_INVALID_PARAM, s))"

end
