(* ===== verification/Checkpoint_Correct.thy ===== *)
theory Checkpoint_Correct
  imports Checkpoint Hypervisor_Correct
begin

text \<open>
  What a checkpoint file holds, what the restoring functions make of it, and what creating one leaves of the machine.
\<close>

section \<open>Streams\<close>

definition accepts_all :: "ck_env \<Rightarrow> bool" where
  "accepts_all env \<longleftrightarrow> (\<forall>k n. n \<le> accepted env k n)"

definition opens_all :: "ck_env \<Rightarrow> bool" where
  "opens_all env \<longleftrightarrow> (\<forall>k p. may_open env k p)"

definition unbuffered_free :: "ck_env \<Rightarrow> bool" where
  "unbuffered_free env \<longleftrightarrow> (\<forall>k. flushed env k = 0)"

text \<open>
  \<open>holds s f bs\<close>: the stream writes at its own position, has passed \<open>spos f\<close> bytes on to the file, and these with the buffered ones are
  \<open>bs\<close>. \<open>adds s f b bs\<close>: the same for a stream in append mode on a file with the content \<open>b\<close>.
\<close>

definition holds :: "ck_world \<Rightarrow> stream \<Rightarrow> u8 list \<Rightarrow> bool" where
  "holds s f bs \<longleftrightarrow> \<not> sappend f \<and> spos f \<le> length bs \<and> files s (spath f) = Some (take (spos f) bs) \<and> pending f = drop (spos f) bs"

definition adds :: "ck_world \<Rightarrow> stream \<Rightarrow> u8 list \<Rightarrow> u8 list \<Rightarrow> bool" where
  "adds s f b bs \<longleftrightarrow> sappend f \<and> (\<exists>c. files s (spath f) = Some c \<and> c @ pending f = b @ bs)"

text \<open>What an operation on one file leaves alone.\<close>

definition same_but :: "string \<Rightarrow> ck_world \<Rightarrow> ck_world \<Rightarrow> bool" where
  "same_but p s s' \<longleftrightarrow> cw s' = cw s \<and> host_mem s' = host_mem s \<and> (\<forall>q. q \<noteq> p \<longrightarrow> files s' q = files s q)"

lemma same_but_refl [simp]: "same_but p s s"
  by (simp add: same_but_def)

lemma same_but_trans: "same_but p s s' \<Longrightarrow> same_but p s' s'' \<Longrightarrow> same_but p s s''"
  by (simp add: same_but_def)

lemma world_fields [simp]: "cw (tick s) = cw s" "files (tick s) = files s" "host_mem (tick s) = host_mem s" "ops (tick s) = Suc (ops s)"
  "cw (set_file s p c) = cw s" "files (set_file s p c) = (files s)(p \<mapsto> c)" "host_mem (set_file s p c) = host_mem s"
  "ops (set_file s p c) = ops s" "cw (deliver s f bs) = cw s" "host_mem (deliver s f bs) = host_mem s" "ops (deliver s f bs) = ops s"
  by (simp_all add: tick_def set_file_def deliver_def)

lemma deliver_other [simp]: "q \<noteq> spath f \<Longrightarrow> files (deliver s f bs) q = files s q"
  by (simp add: deliver_def)

lemma put_at_end: "put_at (length c) bs c = c @ bs"
  by (simp add: put_at_def)

lemma write_same:
  assumes "checkpoint_write env s f bs = (res, f', s')"
  shows "same_but (spath f) s s'" "spath f' = spath f" "sappend f' = sappend f" "ops s' = Suc (ops s)"
  using assms by (auto simp: checkpoint_write_def fwrite_def Let_def same_but_def)

lemma accepts [simp]: "accepts_all env \<Longrightarrow> min (accepted env k n) n = n"
  by (simp add: accepts_all_def min_absorb2)

lemma write_effect:
  assumes "accepts_all env" "checkpoint_write env s f bs = (res, f', s')" "k = flushed env (ops s)" "b = pending f @ bs"
  shows "res = NEXUSVM_OK" "f' = f\<lparr>spos := spos f + length (take k b), pending := drop k b\<rparr>" "s' = deliver (tick s) f (take k b)"
  using assms(1,2) unfolding assms(3,4) checkpoint_write_def fwrite_def Let_def accepts [OF assms(1)] take_all [OF order.refl]
  by (simp_all del: take_append drop_append length_take)

lemma write_holds:
  assumes h: "holds s f bs" and a: "accepts_all env" and w: "checkpoint_write env s f zs = (res, f', s')"
  shows "holds s' f' (bs @ zs)" "unbuffered_free env \<Longrightarrow> spos f' = spos f"
proof -
  let ?k = "flushed env (ops s)" and ?b = "pending f @ zs"
  have f': "f' = f\<lparr>spos := spos f + length (take ?k ?b), pending := drop ?k ?b\<rparr>" "s' = deliver (tick s) f (take ?k ?b)"
    using write_effect(2,3) [OF a w refl refl] .
  have b: "?b = drop (spos f) (bs @ zs)" "spos f \<le> length bs" "files s (spath f) = Some (take (spos f) bs)" "\<not> sappend f"
    using h by (simp_all add: holds_def)
  have len: "length (take (spos f) bs) = spos f" using b(2) by simp
  have put: "put_at (spos f) x (take (spos f) bs) = take (spos f) bs @ x" for x
    using put_at_end [of "take (spos f) bs" x] len by simp
  let ?n = "min ?k (length ?b)"
  have n: "take ?k ?b = take ?n ?b" "drop ?k ?b = drop ?n ?b" by (simp_all add: min_def)
  have sp: "spos f' = spos f + ?n" using f'(1) by (simp add: min.commute)
  define out where "out = take ?k ?b"
  have "take (spos f) (bs @ zs) = take (spos f) bs" using b(2) by simp
  moreover have "take ?n (drop (spos f) (bs @ zs)) = out" unfolding out_def b(1) [symmetric] n(1) ..
  ultimately have "take (spos f') (bs @ zs) = take (spos f) bs @ out" by (simp only: sp take_add)
  moreover have "files s' (spath f) = Some (take (spos f) bs @ out)"
    using b(3,4) put unfolding f'(2) out_def [symmetric] by (simp add: deliver_def content_def)
  ultimately have "files s' (spath f) = Some (take (spos f') (bs @ zs))" by (simp only:)
  moreover have "pending f' = drop ?n ?b" unfolding f'(1) n(2) [symmetric] by simp
  then have "pending f' = drop (spos f') (bs @ zs)" unfolding sp b(1) by (simp only: drop_drop add.commute)
  moreover have "length ?b = length (bs @ zs) - spos f" unfolding b(1) by (simp only: length_drop)
  then have "spos f' \<le> length (bs @ zs)" unfolding sp using b(2) by simp
  moreover have "sappend f' = sappend f" "spath f' = spath f" unfolding f'(1) by simp_all
  ultimately show "holds s' f' (bs @ zs)" using b(4) by (simp only: holds_def simp_thms)
  show "unbuffered_free env \<Longrightarrow> spos f' = spos f" using sp by (simp add: unbuffered_free_def)
qed

lemma write_adds:
  assumes h: "adds s f b bs" and a: "accepts_all env" and w: "checkpoint_write env s f zs = (res, f', s')"
  shows "adds s' f' b (bs @ zs)"
proof -
  let ?k = "flushed env (ops s)" and ?b = "pending f @ zs"
  have f': "f' = f\<lparr>spos := spos f + length (take ?k ?b), pending := drop ?k ?b\<rparr>" "s' = deliver (tick s) f (take ?k ?b)"
    using write_effect(2,3) [OF a w refl refl] .
  from h obtain c where c: "files s (spath f) = Some c" "c @ pending f = b @ bs" "sappend f" by (auto simp: adds_def)
  have "(c @ take ?k ?b) @ drop ?k ?b = c @ ?b" by (simp only: append_assoc append_take_drop_id)
  then have "(c @ take ?k ?b) @ drop ?k ?b = b @ bs @ zs" using c(2) by (metis append_assoc)
  then show ?thesis using f' c(1,3) by (simp add: adds_def deliver_def content_def del: append_assoc)
qed

section \<open>What creation writes\<close>

text \<open>The registers of the virtual CPUs with the numbers in a list, and the bytes of the memory section.\<close>

fun saved_cpus :: "world \<Rightarrow> ref \<Rightarrow> nat list \<Rightarrow> cpu_state list run" where
  "saved_cpus w r [] = Some []"
| "saved_cpus w r (i # is) = do {
     c \<leftarrow> vcpu_at w r i; v \<leftarrow> get_vcpu w c; xs \<leftarrow> saved_cpus w r is; Some (cpu_state_of v # xs) }"

definition region_data :: "ck_env \<Rightarrow> world \<Rightarrow> (u64 \<Rightarrow> u8) \<Rightarrow> ref \<Rightarrow> memory_region \<Rightarrow> u8 list run" where
  "region_data env w h r region =
     (if region_type region = MEM_REGION_RAM \<and> region_size region > 0 then do {
        host \<leftarrow> vm_gpa_to_hpa (invalid_pa env) w (Some r) (guest_phys region);
        Some (if host \<noteq> invalid_pa env then read_host h host (region_size region) else [])
      } else Some [])"

fun memory_section :: "ck_env \<Rightarrow> world \<Rightarrow> (u64 \<Rightarrow> u8) \<Rightarrow> ref \<Rightarrow> memory_region list \<Rightarrow> u8 list run" where
  "memory_section env w h r [] = Some []"
| "memory_section env w h r (x # xs) = do {
     d \<leftarrow> region_data env w h r x; rest \<leftarrow> memory_section env w h r xs;
     Some (region_image (name_address env) x @ d @ rest) }"

lemma write_cpus_holds:
  "holds s f bs \<Longrightarrow> accepts_all env \<Longrightarrow> saved_cpus (cw s) r js = Some xs \<Longrightarrow>
    \<exists>f' s'. write_cpus env s f r js = Some (NEXUSVM_OK, f', s') \<and> holds s' f' (bs @ concat (map cpu_bytes xs)) \<and>
      spath f' = spath f \<and> same_but (spath f) s s' \<and> (unbuffered_free env \<longrightarrow> spos f' = spos f)"
proof (induction js arbitrary: s f bs xs)
  case (Cons i js)
  from Cons.prems(3) obtain c v ys where
    v: "vcpu_at (cw s) r i = Some c" "get_vcpu (cw s) c = Some v" "saved_cpus (cw s) r js = Some ys" "xs = cpu_state_of v # ys"
    by (auto simp: bind_eq_Some_conv)
  obtain res g t where w: "checkpoint_write env s f (cpu_bytes (cpu_state_of v)) = (res, g, t)" by (metis prod_cases3)
  note holds_t = write_holds [OF Cons.prems(1,2) w]
  note same_t = write_same [OF w]
  have ok: "res = NEXUSVM_OK" using write_effect(1) [OF Cons.prems(2) w refl refl] .
  have "saved_cpus (cw t) r js = Some ys" using v(3) same_t(1) by (simp add: same_but_def)
  from Cons.IH [OF holds_t(1) Cons.prems(2) this] obtain f' s' where
    r: "write_cpus env t g r js = Some (NEXUSVM_OK, f', s')" "holds s' f' ((bs @ cpu_bytes (cpu_state_of v)) @ concat (map cpu_bytes ys))"
      "spath f' = spath g" "same_but (spath g) t s'" "unbuffered_free env \<longrightarrow> spos f' = spos g" by blast
  have "write_cpus env s f r (i # js) = Some (NEXUSVM_OK, f', s')" using v(1,2) w ok r(1) by simp
  moreover have "same_but (spath f) s s'" using same_t(1,2) r(4) same_but_trans by metis
  ultimately show ?case using r(2,3,5) same_t(2) holds_t(2) v(4) by (intro exI [of _ f'] exI [of _ s']) simp
qed auto

lemma save_regions_adds:
  "adds s f b bs \<Longrightarrow> accepts_all env \<Longrightarrow> vm_objs (cw s) r = Some m \<Longrightarrow> memory_regions m = Some regions \<Longrightarrow>
    list_all (\<lambda>i. i < length regions) js \<Longrightarrow> memory_section env (cw s) (host_mem s) r (map ((!) regions) js) = Some d \<Longrightarrow>
    \<exists>f' s'. save_regions env s f r js = Some (f', s') \<and> adds s' f' b (bs @ d) \<and> spath f' = spath f \<and> same_but (spath f) s s'"
proof (induction js arbitrary: s f bs d)
  case (Cons i js)
  let ?x = "regions ! i"
  from Cons.prems(6) obtain d1 d2 where
    d: "region_data env (cw s) (host_mem s) r ?x = Some d1" "memory_section env (cw s) (host_mem s) r (map ((!) regions) js) = Some d2"
      "d = region_image (name_address env) ?x @ d1 @ d2" by (auto simp: bind_eq_Some_conv)
  obtain res g t where w: "checkpoint_write env s f (region_image (name_address env) ?x) = (res, g, t)" by (metis prod_cases3)
  note a_t = write_adds [OF Cons.prems(1,2) w]
  note same_t = write_same [OF w]
  have cw: "cw t = cw s" "host_mem t = host_mem s" using same_t(1) by (simp_all add: same_but_def)
  have step: "\<exists>g' t'. save_regions env s f r (i # js) = save_regions env t' g' r js \<and>
    adds t' g' b (bs @ region_image (name_address env) ?x @ d1) \<and> spath g' = spath f \<and> same_but (spath f) s t'"
  proof (cases "\<exists>host. region_type ?x = MEM_REGION_RAM \<and> region_size ?x > 0 \<and>
      vm_gpa_to_hpa (invalid_pa env) (cw s) (Some r) (guest_phys ?x) = Some host \<and> host \<noteq> invalid_pa env")
    case True
    then obtain host where host: "region_type ?x = MEM_REGION_RAM" "region_size ?x > 0"
      "vm_gpa_to_hpa (invalid_pa env) (cw s) (Some r) (guest_phys ?x) = Some host" "host \<noteq> invalid_pa env" by blast
    then have d1: "d1 = read_host (host_mem s) host (region_size ?x)" using d(1) by (simp add: region_data_def)
    obtain res2 g2 t2 where w2: "checkpoint_write env t g (read_host (host_mem t) host (region_size ?x)) = (res2, g2, t2)" by (metis prod_cases3)
    have "save_regions env s f r (i # js) = save_regions env t2 g2 r js"
      using Cons.prems(3-5) w host w2 cw by simp
    moreover have "adds t2 g2 b (bs @ region_image (name_address env) ?x @ d1)"
      using write_adds [OF a_t Cons.prems(2) w2] d1 cw by simp
    moreover have "same_but (spath f) s t2" using same_t write_same [OF w2] same_but_trans by metis
    ultimately show ?thesis using write_same(2) [OF w2] same_t(2) by metis
  next
    case False
    then have d1: "d1 = []" using d(1) by (auto simp: region_data_def bind_eq_Some_conv split: if_splits)
    have "save_regions env s f r (i # js) = save_regions env t g r js"
      using Cons.prems(3-5) w False d(1) cw by (auto simp: region_data_def bind_eq_Some_conv split: if_splits)
    then show ?thesis using a_t same_t d1 by auto
  qed
  then obtain g' t' where st: "save_regions env s f r (i # js) = save_regions env t' g' r js"
    "adds t' g' b (bs @ region_image (name_address env) ?x @ d1)" "spath g' = spath f" "same_but (spath f) s t'" by blast
  from st(4) have "vm_objs (cw t') r = Some m" "memory_section env (cw t') (host_mem t') r (map ((!) regions) js) = Some d2"
    using Cons.prems(3) d(2) by (simp_all add: same_but_def)
  from Cons.IH [OF st(2) Cons.prems(2) this(1) Cons.prems(4) _ this(2)] Cons.prems(5) obtain f' s' where
    "save_regions env t' g' r js = Some (f', s')" "adds s' f' b ((bs @ region_image (name_address env) ?x @ d1) @ d2)"
    "spath f' = spath g'" "same_but (spath g') t' s'" by auto
  then show ?case using st d(3) same_but_trans [OF st(4), of s'] by (intro exI [of _ f'] exI [of _ s']) simp
qed simp

text \<open>The device section, when the list has as many devices as are counted.\<close>

definition device_buffer :: "ck_env \<Rightarrow> ref \<Rightarrow> u8 list" where
  "device_buffer env r = le_bytes 4 (ucast (device_count env r)) @ device_images env r"

definition counted_request :: "ck_world \<Rightarrow> ck_world" where
  "counted_request s = s\<lparr>cw := (cw s)\<lparr>callocs := Suc (callocs (cw s))\<rparr>\<rparr>"

lemma counted_fields [simp]: "cw (counted_request s) = (cw s)\<lparr>callocs := Suc (callocs (cw s))\<rparr>" "files (counted_request s) = files s"
  "host_mem (counted_request s) = host_mem s" "ops (counted_request s) = ops s"
  by (simp_all add: counted_request_def)

lemma length_device_images: "length (device_images env r) = sizeof_pci_config_space * device_list_length env r"
  by (simp add: device_images_def length_concat comp_def sum_list_triv mult.commute)

lemma save_device_state:
  assumes "vm_objs (cw s) r = Some m" "objs_av (env_platform env) (callocs (cw s))" "device_list_length env r = unat (device_count env r)"
  shows "checkpoint_save_device_state env s (Some r) True = Some (NEXUSVM_OK, Some (device_buffer env r), tick (counted_request s))"
  using assms by (simp add: checkpoint_save_device_state_def request_def device_buffer_def length_device_images counted_request_def Let_def)

lemma write_devices_holds:
  assumes h: "holds s f bs" and a: "accepts_all env" and m: "vm_objs (cw s) r = Some m"
    and av: "objs_av (env_platform env) (callocs (cw s))" and n: "device_list_length env r = unat (device_count env r)"
  shows "\<exists>f' s'. write_devices env s f r = Some (f', s') \<and>
    holds s' f' (bs @ le_bytes 8 (of_nat (length (device_buffer env r))) @ device_buffer env r) \<and>
    spath f' = spath f \<and> same_but (spath f) (counted_request s) s' \<and> (unbuffered_free env \<longrightarrow> spos f' = spos f)"
proof -
  let ?B = "device_buffer env r" and ?s = "tick (counted_request s)"
  obtain res g t where w: "checkpoint_write env ?s f (le_bytes 8 (of_nat (length ?B))) = (res, g, t)" by (metis prod_cases3)
  obtain res2 g2 t2 where w2: "checkpoint_write env t g ?B = (res2, g2, t2)" by (metis prod_cases3)
  have "holds ?s f bs" using h by (simp add: holds_def)
  note h1 = write_holds [OF this a w]
  note h2 = write_holds [OF h1(1) a w2]
  have "write_devices env s f r = Some (g2, t2)"
    using w w2 write_effect(1) [OF a w refl refl] by (simp add: write_devices_def save_device_state [OF m av n])
  moreover have "same_but (spath f) (counted_request s) t2"
    using write_same(1,2) [OF w] write_same(1) [OF w2] by (simp add: same_but_def)
  ultimately show ?thesis using h1(2) h2 write_same(2) [OF w] write_same(2) [OF w2] by (intro exI [of _ g2] exI [of _ t2]) simp
qed

text \<open>The memory section goes to the end of the file as it is.\<close>

definition region_list :: "nexusvm \<Rightarrow> memory_region list" where
  "region_list m = (case memory_regions m of None \<Rightarrow> [] | Some xs \<Rightarrow> xs)"

lemma map_nth_take: "n \<le> length xs \<Longrightarrow> map ((!) xs) [0..<n] = take n xs"
  by (rule nth_equalityI) simp_all

lemma vm_gpa_to_hpa_callocs [simp]: "vm_gpa_to_hpa x (w\<lparr>callocs := k\<rparr>) p g = vm_gpa_to_hpa x w p g"
  by (cases p) (simp_all add: vm_gpa_to_hpa_def cong: if_cong)

lemma region_data_callocs [simp]: "region_data env (w\<lparr>callocs := k\<rparr>) h r x = region_data env w h r x"
  by (simp add: region_data_def)

lemma memory_section_callocs [simp]: "memory_section env (w\<lparr>callocs := k\<rparr>) h r xs = memory_section env w h r xs"
  by (induction xs) simp_all

lemma save_memory:
  assumes a: "accepts_all env" and o: "opens_all env" and m: "vm_objs (cw s) r = Some m"
    and n: "unat (memory_region_count m) \<le> length (region_list m)"
    and d: "memory_section env (cw s) (host_mem s) r (take (unat (memory_region_count m)) (region_list m)) = Some d"
  shows "\<exists>s'. checkpoint_save_memory env s (Some r) (Some p) = Some (NEXUSVM_OK, s') \<and>
    files s' p = Some (content s p @ d) \<and> same_but p s s'"
proof -
  let ?n = "unat (memory_region_count m)" and ?f = "\<lparr>spath = p, spos = 0, sappend = True, pending = []\<rparr>"
  let ?s = "set_file (tick s) p (content s p)"
  have op: "checkpoint_open env s p Mode_ab = (Some ?f, ?s)" using o by (simp add: checkpoint_open_def fopen_def opens_all_def)
  have h: "adds ?s ?f (content s p) []" by (simp add: adds_def)
  have "\<exists>f' s'. save_regions env ?s ?f r [0..<?n] = Some (f', s') \<and> adds s' f' (content s p) d \<and> spath f' = p \<and> same_but p ?s s'"
  proof (cases "memory_regions m")
    case None
    then have "?n = 0" "d = []" using n d by (simp_all add: region_list_def)
    then show ?thesis using h by simp
  next
    case (Some regions)
    then have r: "region_list m = regions" by (simp add: region_list_def)
    then have "map ((!) regions) [0..<?n] = take ?n regions" "list_all (\<lambda>i. i < length regions) [0..<?n]"
      using n map_nth_take by (simp_all add: list_all_iff)
    then show ?thesis using save_regions_adds [OF h a, of r m regions "[0..<?n]" d] m Some d r by simp
  qed
  then obtain f' s' where f': "save_regions env ?s ?f r [0..<?n] = Some (f', s')" "adds s' f' (content s p) d" "spath f' = p" "same_but p ?s s'"
    by blast
  have "checkpoint_save_memory env s (Some r) (Some p) = Some (NEXUSVM_OK, fclose s' f')"
    using m op f'(1) by (simp add: checkpoint_save_memory_def checkpoint_close_def)
  moreover have "files (fclose s' f') p = Some (content s p @ d)"
    using f'(2,3) by (auto simp: adds_def fclose_def deliver_def content_def)
  moreover have "same_but p s (fclose s' f')" using f'(3,4) by (simp add: same_but_def fclose_def)
  ultimately show ?thesis by blast
qed

section \<open>The file of a checkpoint\<close>

text \<open>What the first stream writes, and a machine that can be saved.\<close>

definition first_sections :: "ck_env \<Rightarrow> ref \<Rightarrow> nexusvm \<Rightarrow> u64 \<Rightarrow> cpu_state list \<Rightarrow> u8 list" where
  "first_sections env r m time xs = hdr_bytes (full_header m time) @ saved_config env r m @ concat (map cpu_bytes xs) @
     le_bytes 8 (of_nat (length (device_buffer env r))) @ device_buffer env r"

definition saveable :: "ck_env \<Rightarrow> ck_world \<Rightarrow> ref \<Rightarrow> nexusvm \<Rightarrow> cpu_state list \<Rightarrow> u8 list \<Rightarrow> bool" where
  "saveable env s r m xs d \<longleftrightarrow>
     accepts_all env \<and> opens_all env \<and> vm_objs (cw s) r = Some m \<and> length (vm_name m) < 63 \<and>
     saved_cpus (cw s) r (vcpu_numbers m) = Some xs \<and> objs_av (env_platform env) (callocs (cw s)) \<and>
     device_list_length env r = unat (device_count env r) \<and> unat (memory_region_count m) \<le> length (region_list m) \<and>
     memory_section env (cw s) (host_mem s) r (take (unat (memory_region_count m)) (region_list m)) = Some d"

lemma create_writes:
  assumes "saveable env s r m xs d"
  defines "S \<equiv> first_sections env r m (clock env (Suc (ops s))) xs"
  shows "\<exists>s' j. checkpoint_create env s (Some r) (Some p) = Some (NEXUSVM_OK, s') \<and> j \<le> length S \<and>
    files s' p = Some (S @ drop (length S - j) d) \<and> (unbuffered_free env \<longrightarrow> j = 0) \<and> same_but p (counted_request s) s'"
proof -
  have a: "accepts_all env" and o: "opens_all env" and m: "vm_objs (cw s) r = Some m" "length (vm_name m) < 63"
    and xs: "saved_cpus (cw s) r (vcpu_numbers m) = Some xs" and av: "objs_av (env_platform env) (callocs (cw s))"
    and dv: "device_list_length env r = unat (device_count env r)" and n: "unat (memory_region_count m) \<le> length (region_list m)"
    and d: "memory_section env (cw s) (host_mem s) r (take (unat (memory_region_count m)) (region_list m)) = Some d"
    using assms(1) unfolding saveable_def by blast+
  let ?f = "\<lparr>spath = p, spos = 0, sappend = False, pending = []\<rparr>" and ?s = "set_file (tick s) p []"
  let ?hdr = "hdr_bytes (full_header m (clock env (Suc (ops s))))" and ?cfg = "saved_config env r m"
  have op: "checkpoint_open env s p Mode_wb = (Some ?f, ?s)" using o by (simp add: checkpoint_open_def fopen_def opens_all_def)
  have h0: "holds ?s ?f []" by (simp add: holds_def)
  obtain r1 f1 s1 where w1: "checkpoint_write env ?s ?f ?hdr = (r1, f1, s1)" by (metis prod_cases3)
  note h1 = write_holds [OF h0 a w1]
  obtain r2 f2 s2 where w2: "checkpoint_write env s1 f1 ?cfg = (r2, f2, s2)" by (metis prod_cases3)
  note h2 = write_holds [OF h1(1) a w2]
  have p2: "spath f2 = p" "same_but p s s2" using write_same(1,2) [OF w1] write_same(1,2) [OF w2] by (simp_all add: same_but_def)
  have "saved_cpus (cw s2) r (vcpu_numbers m) = Some xs" using xs p2(2) by (simp add: same_but_def)
  from write_cpus_holds [OF h2(1) a this] obtain f3 s3 where
    h3: "write_cpus env s2 f2 r (vcpu_numbers m) = Some (NEXUSVM_OK, f3, s3)" "holds s3 f3 (([] @ ?hdr @ ?cfg) @ concat (map cpu_bytes xs))"
      "spath f3 = p" "same_but p s2 s3" "unbuffered_free env \<longrightarrow> spos f3 = spos f2" using p2(1) by auto
  have p3: "same_but p s s3" using p2(2) h3(4) same_but_trans by blast
  have "vm_objs (cw s3) r = Some m" "objs_av (env_platform env) (callocs (cw s3))" using m av p3 by (simp_all add: same_but_def)
  from write_devices_holds [OF h3(2) a this dv] obtain f4 s4 where
    h4: "write_devices env s3 f3 r = Some (f4, s4)" "holds s4 f4 S" "spath f4 = p" "same_but p (counted_request s3) s4"
      "unbuffered_free env \<longrightarrow> spos f4 = spos f3" using h3(3) by (auto simp: S_def first_sections_def)
  have p4: "same_but p (counted_request s) s4" using p3 h4(4) by (simp add: same_but_def)
  have "vm_objs (cw s4) r = Some m"
    "memory_section env (cw s4) (host_mem s4) r (take (unat (memory_region_count m)) (region_list m)) = Some d"
    using m d p4 by (simp_all add: same_but_def)
  from save_memory [OF a o this(1) n this(2), of p] obtain s5 where
    h5: "checkpoint_save_memory env s4 (Some r) (Some p) = Some (NEXUSVM_OK, s5)" "files s5 p = Some (content s4 p @ d)" "same_but p s4 s5"
    by blast
  have ok: "r1 = NEXUSVM_OK" "r2 = NEXUSVM_OK" using write_effect(1) [OF a w1 refl refl] write_effect(1) [OF a w2 refl refl] by simp_all
  have create: "checkpoint_create env s (Some r) (Some p) = Some (NEXUSVM_OK, fclose s5 f4)"
    using m op w1 w2 h3(1) h4(1) h5(1) ok by (simp add: checkpoint_create_def checkpoint_close_def)
  let ?j = "spos f4"
  have f4: "\<not> sappend f4" "?j \<le> length S" "content s4 p = take ?j S" "pending f4 = drop ?j S"
    using h4(2,3) by (simp_all add: holds_def content_def)
  have "put_at ?j (drop ?j S) (take ?j S @ d) = S @ drop (length S - ?j) d"
    using f4(2) by (cases "?j = length S") (simp_all add: put_at_def append_assoc [symmetric] del: append_assoc)
  then have "files (fclose s5 f4) p = Some (S @ drop (length S - ?j) d)"
    using f4 h4(3) h5(2) by (simp add: fclose_def deliver_def content_def)
  moreover have "same_but p (counted_request s) (fclose s5 f4)"
    using h4(3) p4 h5(3) by (simp add: same_but_def fclose_def)
  moreover have "unbuffered_free env \<longrightarrow> ?j = 0" using h4(5) h3(5) h2(2) h1(2) by simp
  ultimately show ?thesis using create f4(2) by blast
qed

text \<open>A machine with two virtual CPUs, one device and one region of MMIO, saved by an implementation that flushes on \<open>fclose\<close> only.\<close>

definition zero_pci :: pci_config_space where
  "zero_pci = \<lparr>pci_vendor_id = 0, pci_device_id = 0, pci_command = 0, pci_status = 0, pci_revision_id = 0, pci_prog_if = 0, pci_subclass = 0,
     pci_class_code = 0, pci_cache_line_size = 0, pci_latency_timer = 0, pci_header_type = 0, pci_bist = 0, pci_bar = (\<lambda>_. 0),
     pci_cardbus_cis_ptr = 0, pci_subsystem_vendor_id = 0, pci_subsystem_id = 0, pci_expansion_rom_base_addr = 0, pci_capabilities_ptr = 0,
     pci_reserved = (\<lambda>_. 0), pci_interrupt_line = 0, pci_interrupt_pin = 0, pci_min_grant = 0, pci_max_latency = 0\<rparr>"

definition demo_ck_env :: ck_env where
  "demo_ck_env = \<lparr>env_platform = demo_platform, may_open = (\<lambda>_ _. True), may_remove = (\<lambda>_ _. True), accepted = (\<lambda>_ n. n),
     flushed = (\<lambda>_. 0), clock = (\<lambda>_. 7), junk = (\<lambda>_ _. 0), invalid_pa = - 1, config_ptrs = (\<lambda>_. (0, 0)), name_address = (\<lambda>_. 0),
     device_list_length = (\<lambda>_. 1), device_count = (\<lambda>_. 1), device_config = (\<lambda>_ _. zero_pci)\<rparr>"

definition mmio_region :: memory_region where
  "mmio_region = zero_region\<lparr>region_type := MEM_REGION_MMIO, region_size := 4096\<rparr>"

definition saved_vm :: nexusvm where
  "saved_vm = live_vm\<lparr>memory_regions := Some [mmio_region], memory_region_count := 1\<rparr>"

definition demo_ck_world :: ck_world where
  "demo_ck_world = \<lparr>cw = live_world\<lparr>vm_objs := [30 \<mapsto> saved_vm]\<rparr>, files = Map.empty, host_mem = (\<lambda>_. 0), ops = 0\<rparr>"

lemma demo_saveable: "saveable demo_ck_env demo_ck_world 30 saved_vm [cpu_state_of live_vcpu, cpu_state_of live_vcpu]
    (region_image (\<lambda>_. 0) mmio_region)"
  by (simp add: saveable_def accepts_all_def opens_all_def demo_ck_env_def demo_ck_world_def saved_vm_def live_world_def live_vm_def zero_vm_def
      demo_platform_def vcpu_numbers_def vcpu_at_def get_vcpu_def region_list_def region_data_def mmio_region_def upt_conv_Cons)

text \<open>C8. The memory section is appended by a second stream while the first one still buffers: what the first one then
  delivers at its own position overwrites the start of the memory section.
\<close>

theorem checkpoint_create_file:
  assumes "saveable env s r m xs d"
  defines "S \<equiv> first_sections env r m (clock env (Suc (ops s))) xs"
  shows "\<exists>s' j. checkpoint_create env s (Some r) (Some p) = Some (NEXUSVM_OK, s') \<and> j \<le> length S \<and>
    files s' p = Some (S @ drop (length S - j) d) \<and> (unbuffered_free env \<longrightarrow> j = 0) \<and> same_but p (counted_request s) s'"
  unfolding S_def by (rule create_writes [OF assms(1)])

theorem checkpoint_create_file_witness:
  "\<exists>s' S. checkpoint_create demo_ck_env demo_ck_world (Some 30) (Some ''a'') = Some (NEXUSVM_OK, s') \<and>
    files s' ''a'' = Some S \<and> length S = 1892 \<and> cw s' = (cw demo_ck_world)\<lparr>callocs := 1\<rparr>"
proof -
  let ?S = "first_sections demo_ck_env 30 saved_vm (clock demo_ck_env (Suc (ops demo_ck_world))) [cpu_state_of live_vcpu, cpu_state_of live_vcpu]"
  have len: "length ?S = 1892"
    by (simp add: first_sections_def saved_config_def demo_ck_env_def device_buffer_def length_device_images sizeof_checkpoint_header_def
        sizeof_vm_config_def sizeof_cpu_state_def sizeof_pci_config_space_def)
  show ?thesis using checkpoint_create_file [OF demo_saveable, of "''a''"] len
    by (auto simp: same_but_def demo_ck_env_def unbuffered_free_def demo_ck_world_def live_world_def boot_world_def
        sizeof_region_def)
qed

section \<open>Restoring\<close>

text \<open>A stream for reading leaves the files as they are.\<close>

definition reading :: "ck_world \<Rightarrow> stream \<Rightarrow> string \<Rightarrow> nat \<Rightarrow> bool" where
  "reading s f p n \<longleftrightarrow> f = \<lparr>spath = p, spos = n, sappend = False, pending = []\<rparr> \<and> files s p \<noteq> None"

lemma close_reading [simp]: "reading s f p n \<Longrightarrow> checkpoint_close s (Some f) = s"
  by (auto simp: reading_def checkpoint_close_def fclose_def deliver_def set_file_def content_def put_at_def fun_upd_idem)

lemma open_reading:
  assumes "opens_all env" "files s p \<noteq> None"
  shows "\<exists>f. checkpoint_open env s p Mode_rb = (Some f, tick s) \<and> reading (tick s) f p 0"
  using assms by (simp add: checkpoint_open_def fopen_def opens_all_def reading_def)

lemma read_exact:
  assumes "reading s f p k" "files s p = Some (pre @ bs @ rest)" "length pre = k" "length bs = n"
  shows "\<exists>g. checkpoint_read env s f n = (NEXUSVM_OK, bs, g, tick s) \<and> reading (tick s) g p (k + n)"
  using assms by (auto simp: checkpoint_read_def fread_def Let_def reading_def content_def)

lemma magic_differs: "str_bytes 8 ''NXVMCHKP'' \<noteq> magic_of (ascii ''NXVHMCHKP'')"
  by (simp add: str_bytes_def magic_of_def ascii_def of_char_def)

text \<open>C16. Whatever happened since, what \<open>checkpoint_create\<close> wrote is refused by \<open>checkpoint_restore\<close>, which looks for another magic.\<close>

theorem checkpoint_restore_refuses_created:
  assumes "saveable env s r m xs d"
  shows "\<exists>s'. checkpoint_create env s (Some r) (Some p) = Some (NEXUSVM_OK, s') \<and>
    (\<forall>env2 t. opens_all env2 \<and> files t p = files s' p \<longrightarrow>
      checkpoint_restore env2 t (Some p) True = Some (NEXUSVM_ERR_GENERIC, None, tick (tick t)) \<and>
      (\<forall>v q. checkpoint_apply_incremental env2 t (Some v) (Some p) (Some q) = Some (NEXUSVM_ERR_GENERIC, tick (tick t))))"
proof -
  let ?S = "first_sections env r m (clock env (Suc (ops s))) xs" and ?h = "hdr_bytes (full_header m (clock env (Suc (ops s))))"
  from create_writes [OF assms, of p] obtain s' e where
    s': "checkpoint_create env s (Some r) (Some p) = Some (NEXUSVM_OK, s')" "files s' p = Some (?S @ e)" by blast
  obtain rest where rest: "?S @ e = [] @ ?h @ rest" by (simp add: first_sections_def)
  have refuse: "checkpoint_restore env2 t (Some p) True = Some (NEXUSVM_ERR_GENERIC, None, tick (tick t))"
    if o: "opens_all env2" and t: "files t p = files s' p" for env2 t
  proof -
    obtain f where f: "checkpoint_open env2 t p Mode_rb = (Some f, tick t)" "reading (tick t) f p 0"
      using open_reading [of env2 t p] o t s'(2) by auto
    have "files (tick t) p = Some ([] @ ?h @ rest)" using t s'(2) rest by simp
    from read_exact [OF f(2) this] obtain g where
      g: "checkpoint_read env2 (tick t) f sizeof_checkpoint_header = (NEXUSVM_OK, ?h, g, tick (tick t))" "reading (tick (tick t)) g p (0 + sizeof_checkpoint_header)"
      by (metis length_hdr_bytes list.size(3))
    have "magic_of ?h \<noteq> magic_of (ascii ''NXVHMCHKP'')"
      using magic_of_hdr [of "full_header m (clock env (Suc (ops s)))" "[]"] magic_differs by (simp add: full_header_def)
    then show ?thesis using f(1) g by (simp add: checkpoint_restore_def)
  qed
  then have "checkpoint_apply_incremental env2 t (Some v) (Some p) (Some q) = Some (NEXUSVM_ERR_GENERIC, tick (tick t))"
    if "opens_all env2" "files t p = files s' p" for env2 t v q using that by (simp add: checkpoint_apply_incremental_def)
  then show ?thesis using s'(1) refuse by blast
qed

lemma checkpoint_restore_refuses_created_witness:
  "\<exists>s'. checkpoint_create demo_ck_env demo_ck_world (Some 30) (Some ''a'') = Some (NEXUSVM_OK, s') \<and>
    checkpoint_restore demo_ck_env s' (Some ''a'') True = Some (NEXUSVM_ERR_GENERIC, None, tick (tick s'))"
proof -
  have "opens_all demo_ck_env" using demo_saveable by (simp add: saveable_def)
  then show ?thesis using checkpoint_restore_refuses_created [OF demo_saveable, of "''a''"] by blast
qed

section \<open>Snapshots\<close>

text \<open>The registers \<open>ys\<close> put into the virtual CPUs \<open>qs\<close>.\<close>

fun put_states :: "(ref \<rightharpoonup> nexusvcpu) \<Rightarrow> ref list \<Rightarrow> cpu_state list \<Rightarrow> (ref \<rightharpoonup> nexusvcpu)" where
  "put_states objs (q # qs) (y # ys) = put_states (objs(q := map_option (\<lambda>v. v\<lparr>cpu_state_of := y\<rparr>) (objs q))) qs ys"
| "put_states objs qs ys = objs"

lemma put_states_other: "q \<notin> set qs \<Longrightarrow> put_states objs qs ys q = objs q"
  by (induction objs qs ys rule: put_states.induct) auto

lemma put_states_nth:
  "distinct qs \<Longrightarrow> length qs = length ys \<Longrightarrow> i < length qs \<Longrightarrow>
    put_states objs qs ys (qs ! i) = map_option (\<lambda>v. v\<lparr>cpu_state_of := ys ! i\<rparr>) (objs (qs ! i))"
proof (induction objs qs ys arbitrary: i rule: put_states.induct)
  case (1 objs q qs y ys)
  show ?case
  proof (cases i)
    case 0
    then show ?thesis using 1(2) by (simp add: put_states_other)
  next
    case (Suc k)
    then have "qs ! k \<noteq> q" using 1(2,4) by auto
    then show ?thesis using 1 Suc by (simp add: fun_upd_def)
  qed
qed auto

definition with_states :: "ck_world \<Rightarrow> ref list \<Rightarrow> cpu_state list \<Rightarrow> ck_world" where
  "with_states s qs ys = s\<lparr>cw := (cw s)\<lparr>vcpu_objs := put_states (vcpu_objs (cw s)) qs ys\<rparr>\<rparr>"

lemma read_any:
  assumes "reading s f p k"
  shows "\<exists>res dest g k'. checkpoint_read env s f n = (res, dest, g, tick s) \<and> reading (tick s) g p k'"
  using assms by (auto simp: checkpoint_read_def fread_def Let_def reading_def)

lemma seek_reading: "reading s f p k \<Longrightarrow> \<exists>k'. reading s (fseek_cur f off) p k'"
  by (auto simp: reading_def fseek_cur_def Let_def)

lemma fseek_cur_of_nat: "spos f + n < 2 ^ 63 \<Longrightarrow> fseek_cur f (of_nat n) = f\<lparr>spos := spos f + n\<rparr>"
proof -
  assume n: "spos f + n < 2 ^ 63"
  then have "sint (of_nat n :: u64) = int n"
    by (subst signed_of_nat) (simp add: signed_take_bit_int_eq_self)
  then show ?thesis using n by (simp add: fseek_cur_def Let_def nat_int_add)
qed

lemma apply_cpus_restores:
  "reading s f p k \<Longrightarrow> files s p = Some (pre @ concat (map cpu_bytes ys) @ rest) \<Longrightarrow> length pre = k \<Longrightarrow> vm_with (cw s) r m xs \<Longrightarrow>
    list_all (\<lambda>i. i < length xs \<and> i < n) js \<Longrightarrow> length js = length ys \<Longrightarrow>
    \<exists>f' s'. apply_cpus env s f r n js = Some (f', s') \<and> reading s' f' p (k + sizeof_cpu_state * length ys) \<and>
      s' = (with_states s (map ((!) xs) js) ys)\<lparr>ops := ops s + length js\<rparr>"
proof (induction js arbitrary: s f k pre ys)
  case Nil
  then show ?case by (auto simp: with_states_def reading_def)
next
  case (Cons i js)
  from Cons.prems(6) obtain y zs where ys: "ys = y # zs" by (cases ys) auto
  then have content_s: "files s p = Some (pre @ cpu_bytes y @ concat (map cpu_bytes zs) @ rest)" using Cons.prems(2) by simp
  obtain g where g: "checkpoint_read env s f sizeof_cpu_state = (NEXUSVM_OK, cpu_bytes y, g, tick s)" "reading (tick s) g p (k + sizeof_cpu_state)"
    using read_exact [OF Cons.prems(1) content_s Cons.prems(3) length_cpu_bytes] by blast
  let ?t = "(tick s)\<lparr>cw := upd_vcpu (cw s) (xs ! i) (\<lambda>v. v\<lparr>cpu_state_of := y\<rparr>)\<rparr>"
  have i: "i < length xs" "i < n" using Cons.prems(5) by simp_all
  then have "vcpu_objs (cw s) (xs ! i) \<noteq> None" using Cons.prems(4) by (simp add: vm_with_def list_all_length)
  then have set: "set_cpu_of (tick s) r i (cpu_bytes y) = Some ?t"
    using Cons.prems(4) i(1) by (auto simp: set_cpu_of_def vcpu_at_def vcpu_set_state_def vm_with_def)
  have "reading ?t g p (k + sizeof_cpu_state)" using g(2) by (simp add: reading_def)
  moreover have "files ?t p = Some ((pre @ cpu_bytes y) @ concat (map cpu_bytes zs) @ rest)" using content_s by simp
  moreover have "vm_with (cw ?t) r m xs" using Cons.prems(4) by (auto simp: vm_with_def upd_vcpu_def list_all_iff)
  ultimately obtain f' s' where r: "apply_cpus env ?t g r n js = Some (f', s')" "reading s' f' p (k + sizeof_cpu_state + sizeof_cpu_state * length zs)"
    "s' = (with_states ?t (map ((!) xs) js) zs)\<lparr>ops := ops ?t + length js\<rparr>"
    using Cons.IH [of ?t g "k + sizeof_cpu_state" "pre @ cpu_bytes y" zs] Cons.prems(3,5,6) ys by auto
  have "apply_cpus env s f r n (i # js) = Some (f', s')" using g(1) set r(1) i(2) by simp
  moreover have "s' = (with_states s (map ((!) xs) (i # js)) ys)\<lparr>ops := ops s + length (i # js)\<rparr>"
    using r(3) by (simp add: with_states_def upd_vcpu_def ys tick_def)
  ultimately show ?case using r(2) ys by (intro exI [of _ f'] exI [of _ s']) (simp add: algebra_simps)
qed

lemma saved_cpus_length: "saved_cpus w r js = Some xs \<Longrightarrow> length xs = length js"
  by (induction js arbitrary: xs) (auto simp: bind_eq_Some_conv)

lemma restore_memory_no_regions:
  assumes o: "opens_all env" and p: "files s p \<noteq> None" and m: "vm_objs (cw s) r = Some m" "memory_region_count m = 0"
  shows "checkpoint_restore_memory env s (Some r) (Some p) = Some (NEXUSVM_OK, tick (tick s))"
proof -
  obtain f where f: "checkpoint_open env s p Mode_rb = (Some f, tick s)" "reading (tick s) f p 0" using open_reading [OF o p] by blast
  let ?f = "fseek_cur (fseek_set (fseek_set f sizeof_checkpoint_header) sizeof_vm_config) (of_nat sizeof_cpu_state * ucast (vcpu_count m))"
  obtain bs dest g t where g: "fread env (tick s) ?f 8 = (bs, dest, g, t)" by (metis prod_cases4)
  have "reading (tick s) (fseek_set (fseek_set f sizeof_checkpoint_header) sizeof_vm_config) p sizeof_vm_config"
    using f(2) by (simp add: reading_def fseek_set_def)
  then obtain k where "reading (tick s) ?f p k" using seek_reading by blast
  then have "reading t g p (k + length bs)" "t = tick (tick s)" using g by (auto simp: fread_def Let_def reading_def)
  moreover from this(1) obtain k' where "reading t (fseek_cur g (of_le dest)) p k'" using seek_reading by blast
  ultimately show ?thesis using f(1) m g by (simp add: checkpoint_restore_memory_def)
qed

text \<open>C7. The registers make the round trip: after \<open>checkpoint_create\<close>, and whatever happened to everything but the file, \<open>snapshot_restore\<close> into a
  machine with as many virtual CPUs gives the \<open>i\<close>-th one the registers saved from the \<open>i\<close>-th one and goes on to restore the memory; with no
  region of memory nothing else changes.
\<close>

theorem snapshot_restore_registers:
  assumes "saveable env s r m ys d"
  shows "\<exists>s'. checkpoint_create env s (Some r) (Some p) = Some (NEXUSVM_OK, s') \<and>
    (\<forall>env2 t r2 m2 zs. opens_all env2 \<and> files t p = files s' p \<and> vm_with (cw t) r2 m2 zs \<and> vcpu_count m2 = vcpu_count m \<longrightarrow>
      (\<exists>u. snapshot_restore env2 t (Some r2) (Some p) = checkpoint_restore_memory env2 u (Some r2) (Some p) \<and>
        (\<forall>i < length zs. vcpu_objs (cw u) (zs ! i) = map_option (\<lambda>v. v\<lparr>cpu_state_of := ys ! i\<rparr>) (vcpu_objs (cw t) (zs ! i))) \<and>
        (\<forall>q. q \<notin> set zs \<longrightarrow> vcpu_objs (cw u) q = vcpu_objs (cw t) q) \<and>
        cw u = (cw t)\<lparr>vcpu_objs := vcpu_objs (cw u)\<rparr> \<and> files u = files t \<and> host_mem u = host_mem t \<and>
        (memory_region_count m2 = 0 \<longrightarrow> checkpoint_restore_memory env2 u (Some r2) (Some p) = Some (NEXUSVM_OK, tick (tick u)))))"
proof -
  let ?S = "first_sections env r m (clock env (Suc (ops s))) ys"
  let ?pre = "hdr_bytes (full_header m (clock env (Suc (ops s)))) @ saved_config env r m"
  from create_writes [OF assms, of p] obtain s' e where
    s': "checkpoint_create env s (Some r) (Some p) = Some (NEXUSVM_OK, s')" "files s' p = Some (?S @ e)" by blast
  obtain rest where rest: "?S @ e = ?pre @ concat (map cpu_bytes ys) @ rest" by (simp add: first_sections_def)
  have pre: "length ?pre = 536"
    by (simp add: saved_config_def sizeof_checkpoint_header_def sizeof_vm_config_def split: prod.split)
  have ys: "length ys = unat (vcpu_count m)" using assms saved_cpus_length by (fastforce simp: saveable_def vcpu_numbers_def)
  have "\<exists>u. snapshot_restore env2 t (Some r2) (Some p) = checkpoint_restore_memory env2 u (Some r2) (Some p) \<and>
        (\<exists>k. u = (with_states t zs ys)\<lparr>ops := k\<rparr>)"
    if o: "opens_all env2" and t: "files t p = files s' p" and vm: "vm_with (cw t) r2 m2 zs" and n: "vcpu_count m2 = vcpu_count m"
    for env2 t r2 m2 zs
  proof -
    obtain f where f: "checkpoint_open env2 t p Mode_rb = (Some f, tick t)" "reading (tick t) f p 0"
      using open_reading [OF o, of t p] t s'(2) by auto
    let ?f = "fseek_cur (fseek_set f sizeof_checkpoint_header) (of_nat sizeof_vm_config)" and ?js = "[0..<unat (vcpu_count m2)]"
    have "?f = \<lparr>spath = p, spos = 536, sappend = False, pending = []\<rparr>"
      using f(2) by (subst fseek_cur_of_nat) (simp_all add: reading_def fseek_set_def sizeof_checkpoint_header_def sizeof_vm_config_def)
    then have rd: "reading (tick t) ?f p 536" using f(2) by (simp add: reading_def)
    have fl: "files (tick t) p = Some (?pre @ concat (map cpu_bytes ys) @ rest)" using t s'(2) rest by simp
    have len: "length zs = unat (vcpu_count m2)" using vm by (simp add: vm_with_def)
    then have nums: "map ((!) zs) ?js = zs" using map_nth [of zs] by simp
    have vm': "vm_with (cw (tick t)) r2 m2 zs" using vm by simp
    have "list_all (\<lambda>i. i < length zs \<and> i < unat (vcpu_count m2)) ?js" "length ?js = length ys"
      using len ys n by (simp_all add: list_all_iff)
    from apply_cpus_restores [OF rd fl pre vm' this, of env2] obtain g v where
      g: "apply_cpus env2 (tick t) ?f r2 (unat (vcpu_count m2)) ?js = Some (g, v)" "\<exists>k. reading v g p k"
        "v = (with_states (tick t) zs ys)\<lparr>ops := ops (tick t) + length ?js\<rparr>"
      unfolding nums by blast
    obtain k where "reading v g p k" using g(2) by blast
    from read_any [OF this, of env2 8] obtain res dest h k' where
      h: "checkpoint_read env2 v g 8 = (res, dest, h, tick v)" "reading (tick v) h p k'" by blast
    obtain k2 where close: "reading (tick v) (fseek_cur h (of_le dest)) p k2" using seek_reading [OF h(2)] by blast
    have "snapshot_restore env2 t (Some r2) (Some p) = checkpoint_restore_memory env2 (tick v) (Some r2) (Some p)"
      using vm f(1) g(1) h(1) close_reading [OF close] by (simp add: snapshot_restore_def vm_with_def vcpu_numbers_def Let_def)
    moreover have "tick v = (with_states t zs ys)\<lparr>ops := Suc (ops v)\<rparr>" using g(3) by (simp add: tick_def with_states_def)
    ultimately show ?thesis by blast
  qed
  note restored = this
  show ?thesis
  proof (rule exI [of _ s'], intro conjI s'(1) allI impI)
    fix env2 :: ck_env and t :: ck_world and r2 m2 zs
    assume prem: "opens_all env2 \<and> files t p = files s' p \<and> vm_with (cw t) r2 m2 zs \<and> vcpu_count m2 = vcpu_count m"
    then obtain u k where u: "snapshot_restore env2 t (Some r2) (Some p) = checkpoint_restore_memory env2 u (Some r2) (Some p)"
      "u = (with_states t zs ys)\<lparr>ops := k\<rparr>" using restored by metis
    have zs: "distinct zs" "length zs = length ys" "vm_objs (cw t) r2 = Some m2" using prem ys by (simp_all add: vm_with_def)
    have cu: "vcpu_objs (cw u) = put_states (vcpu_objs (cw t)) zs ys" "cw u = (cw t)\<lparr>vcpu_objs := vcpu_objs (cw u)\<rparr>"
      "files u = files t" "host_mem u = host_mem t" unfolding u(2) by (simp_all add: with_states_def)
    have "vm_objs (cw u) r2 = Some m2" "files u p \<noteq> None" unfolding u(2) using zs(3) s'(2) prem by (simp_all add: with_states_def)
    note mem = restore_memory_no_regions [OF _ this(2,1), of env2]
    show "\<exists>u. snapshot_restore env2 t (Some r2) (Some p) = checkpoint_restore_memory env2 u (Some r2) (Some p) \<and>
        (\<forall>i < length zs. vcpu_objs (cw u) (zs ! i) = map_option (\<lambda>v. v\<lparr>cpu_state_of := ys ! i\<rparr>) (vcpu_objs (cw t) (zs ! i))) \<and>
        (\<forall>q. q \<notin> set zs \<longrightarrow> vcpu_objs (cw u) q = vcpu_objs (cw t) q) \<and>
        cw u = (cw t)\<lparr>vcpu_objs := vcpu_objs (cw u)\<rparr> \<and> files u = files t \<and> host_mem u = host_mem t \<and>
        (memory_region_count m2 = 0 \<longrightarrow> checkpoint_restore_memory env2 u (Some r2) (Some p) = Some (NEXUSVM_OK, tick (tick u)))"
    proof (rule exI [of _ u], intro conjI u(1) cu(2-4))
      show "\<forall>i < length zs. vcpu_objs (cw u) (zs ! i) = map_option (\<lambda>v. v\<lparr>cpu_state_of := ys ! i\<rparr>) (vcpu_objs (cw t) (zs ! i))"
        unfolding cu(1) using put_states_nth [OF zs(1,2)] by blast
      show "\<forall>q. q \<notin> set zs \<longrightarrow> vcpu_objs (cw u) q = vcpu_objs (cw t) q" unfolding cu(1) using put_states_other by blast
      show "memory_region_count m2 = 0 \<longrightarrow> checkpoint_restore_memory env2 u (Some r2) (Some p) = Some (NEXUSVM_OK, tick (tick u))"
        using mem prem by blast
    qed
  qed
qed

text \<open>Restoring into the machine without memory that \<open>live_world\<close> has.\<close>

lemma snapshot_restore_registers_witness:
  "\<exists>s' t u. checkpoint_create demo_ck_env demo_ck_world (Some 30) (Some ''a'') = Some (NEXUSVM_OK, s') \<and> cw t = live_world \<and>
    snapshot_restore demo_ck_env t (Some 30) (Some ''a'') = Some (NEXUSVM_OK, u) \<and>
    vcpu_objs (cw u) 20 = Some (live_vcpu\<lparr>cpu_state_of := cpu_state_of live_vcpu\<rparr>)"
proof -
  obtain s' where s': "checkpoint_create demo_ck_env demo_ck_world (Some 30) (Some ''a'') = Some (NEXUSVM_OK, s')" and
    all: "\<forall>env2 t r2 m2 zs. opens_all env2 \<and> files t ''a'' = files s' ''a'' \<and> vm_with (cw t) r2 m2 zs \<and> vcpu_count m2 = vcpu_count saved_vm \<longrightarrow>
      (\<exists>u. snapshot_restore env2 t (Some r2) (Some ''a'') = checkpoint_restore_memory env2 u (Some r2) (Some ''a'') \<and>
        (\<forall>i < length zs. vcpu_objs (cw u) (zs ! i) =
          map_option (\<lambda>v. v\<lparr>cpu_state_of := [cpu_state_of live_vcpu, cpu_state_of live_vcpu] ! i\<rparr>) (vcpu_objs (cw t) (zs ! i))) \<and>
        (\<forall>q. q \<notin> set zs \<longrightarrow> vcpu_objs (cw u) q = vcpu_objs (cw t) q) \<and>
        cw u = (cw t)\<lparr>vcpu_objs := vcpu_objs (cw u)\<rparr> \<and> files u = files t \<and> host_mem u = host_mem t \<and>
        (memory_region_count m2 = 0 \<longrightarrow> checkpoint_restore_memory env2 u (Some r2) (Some ''a'') = Some (NEXUSVM_OK, tick (tick u))))"
    using snapshot_restore_registers [OF demo_saveable, of "''a''"] by blast
  define t where "t = s'\<lparr>cw := live_world\<rparr>"
  have "opens_all demo_ck_env" using demo_saveable by (simp add: saveable_def)
  moreover have "vm_with (cw t) 30 live_vm [20, 21]" using live_vm_with by (simp add: t_def)
  moreover have "memory_region_count live_vm = 0" by (simp add: live_vm_def zero_vm_def)
  moreover have "vcpu_count live_vm = vcpu_count saved_vm" by (simp add: saved_vm_def)
  moreover have "files t ''a'' = files s' ''a''" by (simp add: t_def)
  ultimately obtain u where u: "snapshot_restore demo_ck_env t (Some 30) (Some ''a'') = Some (NEXUSVM_OK, tick (tick u))"
    "\<forall>i < length [20, 21 :: ref]. vcpu_objs (cw u) ([20, 21] ! i) =
          map_option (\<lambda>v. v\<lparr>cpu_state_of := [cpu_state_of live_vcpu, cpu_state_of live_vcpu] ! i\<rparr>) (vcpu_objs (cw t) ([20, 21] ! i))"
    using all by metis
  from u(2) have "vcpu_objs (cw u) 20 = map_option (\<lambda>v. v\<lparr>cpu_state_of := cpu_state_of live_vcpu\<rparr>) (vcpu_objs (cw t) 20)" by force
  then show ?thesis using s' u(1) by (intro exI [of _ s'] exI [of _ t] exI [of _ "tick (tick u)"]) (simp add: t_def live_world_def)
qed

section \<open>Where the memory is looked for\<close>

lemma u64s_drop: "i < length ws \<Longrightarrow> take 8 (drop (8 * i) (u64s ws @ rest)) = le_bytes 8 (ws ! i)"
proof (induction ws arbitrary: i)
  case (Cons w ws)
  then show ?case by (cases i) (simp_all add: u64s_def)
qed simp

lemma tr_base_word: "cpu_words x ! 64 = base (tr x)"
  by (simp add: cpu_words_def nth_append segment_words_def)

lemma tr_base_in_file:
  assumes "length pre = 536" "ys \<noteq> []"
  shows "take 8 (drop (408 + 640 * length ys) (pre @ concat (map cpu_bytes ys) @ rest)) = le_bytes 8 (base (tr (last ys)))"
proof -
  let ?A = "pre @ concat (map cpu_bytes (butlast ys))"
  have ys: "ys = butlast ys @ [last ys]" using assms(2) by simp
  have all: "length (concat (map cpu_bytes zs)) = 640 * length zs" for zs
    by (induction zs) (simp_all add: sizeof_cpu_state_def)
  have len: "408 + 640 * length ys = length ?A + 8 * 64"
    using assms all [of "butlast ys"] by (cases ys rule: rev_cases) simp_all
  have "pre @ concat (map cpu_bytes ys) @ rest = ?A @ u64s (cpu_words (last ys)) @ rest"
    by (subst (1) ys) (simp add: cpu_bytes_def)
  then have "drop (408 + 640 * length ys) (pre @ concat (map cpu_bytes ys) @ rest) = drop (8 * 64) (u64s (cpu_words (last ys)) @ rest)"
    unfolding len by (simp only: drop_append) simp
  then show ?thesis using u64s_drop [of 64 "cpu_words (last ys)" rest] tr_base_word [of "last ys"] by simp
qed

text \<open>C28. The memory is looked for in the wrong place: because the configuration is skipped from the start of the file, the size of the device state is
  read inside the registers of the last virtual CPU: it is the base of its task register, and the first region is taken from behind the
  bytes that this value skips.
\<close>

theorem checkpoint_restore_memory_misplaced:
  assumes sv: "saveable env s r m ys d" and some: "ys \<noteq> []"
  shows "\<exists>s'. checkpoint_create env s (Some r) (Some p) = Some (NEXUSVM_OK, s') \<and>
    (\<forall>env2 t r2 m2. opens_all env2 \<and> files t p = files s' p \<and> vm_objs (cw t) r2 = Some m2 \<and> vcpu_count m2 = vcpu_count m \<longrightarrow>
      checkpoint_restore_memory env2 t (Some r2) (Some p) = do {
        (f, u) \<leftarrow> restore_regions env2 (tick (tick t))
          (fseek_cur \<lparr>spath = p, spos = 416 + 640 * length ys, sappend = False, pending = []\<rparr> (base (tr (last ys))))
          r2 [0..<unat (memory_region_count m2)];
        Some (NEXUSVM_OK, checkpoint_close u (Some f)) })"
proof -
  let ?S = "first_sections env r m (clock env (Suc (ops s))) ys"
  let ?pre = "hdr_bytes (full_header m (clock env (Suc (ops s)))) @ saved_config env r m"
  from create_writes [OF sv, of p] obtain s' e where
    s': "checkpoint_create env s (Some r) (Some p) = Some (NEXUSVM_OK, s')" "files s' p = Some (?S @ e)" by blast
  obtain rest where rest: "?S @ e = ?pre @ concat (map cpu_bytes ys) @ rest" by (simp add: first_sections_def)
  have pre: "length ?pre = 536"
    by (simp add: saved_config_def sizeof_checkpoint_header_def sizeof_vm_config_def split: prod.split)
  have ys: "length ys = unat (vcpu_count m)" using sv saved_cpus_length by (fastforce simp: saveable_def vcpu_numbers_def)
  have "checkpoint_restore_memory env2 t (Some r2) (Some p) = do {
        (f, u) \<leftarrow> restore_regions env2 (tick (tick t))
          (fseek_cur \<lparr>spath = p, spos = 416 + 640 * length ys, sappend = False, pending = []\<rparr> (base (tr (last ys))))
          r2 [0..<unat (memory_region_count m2)];
        Some (NEXUSVM_OK, checkpoint_close u (Some f)) }"
    if o: "opens_all env2" and t: "files t p = files s' p" and m2: "vm_objs (cw t) r2 = Some m2" and n: "vcpu_count m2 = vcpu_count m"
    for env2 t r2 m2
  proof -
    obtain f where f: "checkpoint_open env2 t p Mode_rb = (Some f, tick t)" "reading (tick t) f p 0"
      using open_reading [OF o, of t p] t s'(2) by auto
    have off: "of_nat sizeof_cpu_state * ucast (vcpu_count m2) = (of_nat (640 * length ys) :: u64)"
      using ys n by (simp add: sizeof_cpu_state_def)
    have "length ys < 2 ^ 32" using ys unat_below [of "vcpu_count m"] by simp
    then have small: "408 + 640 * length ys < 2 ^ 63" by simp
    let ?f = "fseek_cur (fseek_set (fseek_set f sizeof_checkpoint_header) sizeof_vm_config) (of_nat sizeof_cpu_state * ucast (vcpu_count m2))"
    have pos: "?f = \<lparr>spath = p, spos = 408 + 640 * length ys, sappend = False, pending = []\<rparr>"
      unfolding off using f(2) small by (subst fseek_cur_of_nat) (simp_all add: reading_def fseek_set_def sizeof_vm_config_def)
    have bytes: "take 8 (drop (408 + 640 * length ys) (content (tick t) p)) = le_bytes 8 (base (tr (last ys)))"
      using tr_base_in_file [OF pre some, of rest] t s'(2) rest by (simp add: content_def)
    have "fread env2 (tick t) ?f 8 = (le_bytes 8 (base (tr (last ys))), le_bytes 8 (base (tr (last ys))),
        \<lparr>spath = p, spos = 416 + 640 * length ys, sappend = False, pending = []\<rparr>, tick (tick t))"
      unfolding pos by (simp add: fread_def Let_def bytes)
    then show ?thesis using f(1) m2 by (simp add: checkpoint_restore_memory_def)
  qed
  then show ?thesis using s'(1) by blast
qed

lemma checkpoint_restore_memory_misplaced_witness:
  "\<exists>s'. checkpoint_create demo_ck_env demo_ck_world (Some 30) (Some ''a'') = Some (NEXUSVM_OK, s') \<and>
    checkpoint_restore_memory demo_ck_env s' (Some 30) (Some ''a'') = do {
        (f, u) \<leftarrow> restore_regions demo_ck_env (tick (tick s'))
          (fseek_cur \<lparr>spath = ''a'', spos = 1696, sappend = False, pending = []\<rparr> (base (tr (cpu_state_of live_vcpu)))) 30 [0];
        Some (NEXUSVM_OK, checkpoint_close u (Some f)) }"
proof -
  obtain s' where s': "checkpoint_create demo_ck_env demo_ck_world (Some 30) (Some ''a'') = Some (NEXUSVM_OK, s')"
    "\<forall>env2 t r2 m2. opens_all env2 \<and> files t ''a'' = files s' ''a'' \<and> vm_objs (cw t) r2 = Some m2 \<and> vcpu_count m2 = vcpu_count saved_vm \<longrightarrow>
      checkpoint_restore_memory env2 t (Some r2) (Some ''a'') = do {
        (f, u) \<leftarrow> restore_regions env2 (tick (tick t))
          (fseek_cur \<lparr>spath = ''a'', spos = 416 + 640 * length [cpu_state_of live_vcpu, cpu_state_of live_vcpu], sappend = False, pending = []\<rparr>
            (base (tr (last [cpu_state_of live_vcpu, cpu_state_of live_vcpu]))))
          r2 [0..<unat (memory_region_count m2)];
        Some (NEXUSVM_OK, checkpoint_close u (Some f)) }"
    using checkpoint_restore_memory_misplaced [OF demo_saveable, of "''a''"] by blast
  obtain s2 where s2: "checkpoint_create demo_ck_env demo_ck_world (Some 30) (Some ''a'') = Some (NEXUSVM_OK, s2)"
    "same_but ''a'' (counted_request demo_ck_world) s2" using create_writes [OF demo_saveable, of "''a''"] by blast
  have "s2 = s'" using s'(1) s2(1) by simp
  then have "vm_objs (cw s') 30 = Some saved_vm" using s2(2) by (simp add: same_but_def demo_ck_world_def)
  moreover have "opens_all demo_ck_env" using demo_saveable by (simp add: saveable_def)
  moreover have "memory_region_count saved_vm = 1" by (simp add: saved_vm_def)
  ultimately show ?thesis using s' by (intro exI [of _ s']) (simp add: upt_conv_Cons)
qed

section \<open>What creation leaves alone\<close>

text \<open>On every path only the file and the number of requests for memory may change.\<close>

definition frame :: "string \<Rightarrow> ck_world \<Rightarrow> ck_world \<Rightarrow> bool" where
  "frame p s s' \<longleftrightarrow> (\<exists>k. cw s' = (cw s)\<lparr>callocs := k\<rparr>) \<and> host_mem s' = host_mem s \<and> (\<forall>q. q \<noteq> p \<longrightarrow> files s' q = files s q)"

lemma frame_trans: "frame p s s' \<Longrightarrow> frame p s' s'' \<Longrightarrow> frame p s s''"
  by (auto simp: frame_def)

lemma frame_same: "same_but p s s' \<Longrightarrow> frame p s s'"
  by (auto simp: frame_def same_but_def intro: exI [of _ "callocs (cw s)"])

lemma frame_write: "checkpoint_write env s f bs = (res, f', s') \<Longrightarrow> frame (spath f) s s' \<and> spath f' = spath f"
  using write_same(1,2) frame_same by metis

lemma frame_close: "frame p s s' \<Longrightarrow> spath f = p \<Longrightarrow> frame p s (checkpoint_close s' (Some f))"
  by (auto simp: frame_def checkpoint_close_def fclose_def)

lemma frame_write_cpus: "write_cpus env s f r js = Some (res, f', s') \<Longrightarrow> frame (spath f) s s' \<and> spath f' = spath f"
proof (induction js arbitrary: s f)
  case Nil
  then show ?case by (simp add: frame_same)
next
  case (Cons i js)
  from Cons.prems obtain c v where v: "vcpu_at (cw s) r i = Some c" "get_vcpu (cw s) c = Some v" by (auto simp: bind_eq_Some_conv)
  obtain res1 g t where w: "checkpoint_write env s f (cpu_bytes (cpu_state_of v)) = (res1, g, t)" by (metis prod_cases3)
  note fw = frame_write [OF w]
  show ?case
  proof (cases "res1 = NEXUSVM_OK")
    case True
    then have "write_cpus env t g r js = Some (res, f', s')" using Cons.prems v w by simp
    then show ?thesis using Cons.IH fw frame_trans by metis
  next
    case False
    then show ?thesis using Cons.prems v w fw by simp
  qed
qed

lemma frame_save_regions: "save_regions env s f r js = Some (f', s') \<Longrightarrow> frame (spath f) s s' \<and> spath f' = spath f"
proof (induction js arbitrary: s f)
  case Nil
  then show ?case by (simp add: frame_same)
next
  case (Cons i js)
  then obtain m regions where m: "vm_objs (cw s) r = Some m" "memory_regions m = Some regions" "\<not> length regions \<le> i"
    by (auto simp: bind_eq_Some_conv split: if_splits)
  let ?x = "regions ! i"
  obtain res g t where w: "checkpoint_write env s f (region_image (name_address env) ?x) = (res, g, t)" by (metis prod_cases3)
  note fw = frame_write [OF w]
  have "\<exists>t' g'. save_regions env t' g' r js = Some (f', s') \<and> frame (spath f) s t' \<and> spath g' = spath f"
  proof (cases "\<exists>host. region_type ?x = MEM_REGION_RAM \<and> region_size ?x > 0 \<and>
      vm_gpa_to_hpa (invalid_pa env) (cw t) (Some r) (guest_phys ?x) = Some host \<and> host \<noteq> invalid_pa env")
    case True
    then obtain host where host: "region_type ?x = MEM_REGION_RAM" "region_size ?x > 0"
      "vm_gpa_to_hpa (invalid_pa env) (cw t) (Some r) (guest_phys ?x) = Some host" "host \<noteq> invalid_pa env" by blast
    obtain res2 g2 t2 where w2: "checkpoint_write env t g (read_host (host_mem t) host (region_size ?x)) = (res2, g2, t2)" by (metis prod_cases3)
    have "save_regions env t2 g2 r js = Some (f', s')" using Cons.prems m w w2 host by simp
    then show ?thesis using fw frame_write [OF w2] frame_trans by metis
  next
    case False
    then have "save_regions env t g r js = Some (f', s')"
      using Cons.prems m w by (auto simp: bind_eq_Some_conv Let_def split: if_splits)
    then show ?thesis using fw by blast
  qed
  then show ?case using Cons.IH frame_trans by metis
qed

lemma frame_open: "checkpoint_open env s p md = (f, s') \<Longrightarrow> frame p s s' \<and> (\<forall>g. f = Some g \<longrightarrow> spath g = p)"
  by (auto simp: checkpoint_open_def fopen_def split: if_splits file_mode.splits intro!: frame_same simp: same_but_def)

lemma frame_save_memory: "checkpoint_save_memory env s (Some r) (Some p) = Some (res, s') \<Longrightarrow> frame p s s'"
proof -
  assume run: "checkpoint_save_memory env s (Some r) (Some p) = Some (res, s')"
  obtain f t where o: "checkpoint_open env s p Mode_ab = (f, t)" by fastforce
  show ?thesis
  proof (cases f)
    case None
    then show ?thesis using run o frame_open [OF o] by (auto simp: checkpoint_save_memory_def bind_eq_Some_conv)
  next
    case (Some g)
    with run o obtain js h u where "save_regions env t g r js = Some (h, u)" "s' = checkpoint_close u (Some h)"
      by (auto simp: checkpoint_save_memory_def bind_eq_Some_conv)
    then show ?thesis using frame_open [OF o] frame_save_regions frame_trans frame_close Some by metis
  qed
qed

lemma frame_write_devices: "write_devices env s f r = Some (f', s') \<Longrightarrow> frame (spath f) s s' \<and> spath f' = spath f"
proof -
  assume run: "write_devices env s f r = Some (f', s')"
  then obtain res buffer t where d: "checkpoint_save_device_state env s (Some r) True = Some (res, buffer, t)"
    by (auto simp: write_devices_def bind_eq_Some_conv)
  then have t: "frame (spath f) s t"
    by (auto simp: checkpoint_save_device_state_def request_def Let_def bind_eq_Some_conv frame_def split: if_splits)
  show ?thesis
  proof (cases "res = NEXUSVM_OK")
    case True
    with run d obtain bs where b: "buffer = Some bs" by (auto simp: write_devices_def bind_eq_Some_conv)
    obtain r1 g1 t1 where w1: "checkpoint_write env t f (le_bytes 8 (of_nat (length bs))) = (r1, g1, t1)" by (metis prod_cases3)
    obtain r2 g2 t2 where w2: "checkpoint_write env t1 g1 bs = (r2, g2, t2)" by (metis prod_cases3)
    have "(f', s') = (if r1 = NEXUSVM_OK then (g2, t2) else (g1, t1))"
      using run d True b w1 w2 by (auto simp: write_devices_def split: if_splits)
    then show ?thesis using t frame_write [OF w1] frame_write [OF w2] frame_trans by (metis prod.inject)
  next
    case False
    then show ?thesis using run d t by (simp add: write_devices_def)
  qed
qed

lemma frame_create: "checkpoint_create env s (Some r) (Some p) = Some (res, s') \<Longrightarrow> frame p s s'"
proof -
  assume run: "checkpoint_create env s (Some r) (Some p) = Some (res, s')"
  then obtain m where m: "vm_objs (cw s) r = Some m" by (auto simp: checkpoint_create_def bind_eq_Some_conv)
  obtain f0 s0 where o: "checkpoint_open env s p Mode_wb = (f0, s0)" by fastforce
  show ?thesis
  proof (cases f0)
    case None
    then show ?thesis using run m o frame_open [OF o] by (simp add: checkpoint_create_def)
  next
    case (Some f)
    then have f: "frame p s s0" "spath f = p" using frame_open [OF o] by simp_all
    have name: "length (vm_name m) < 63" using run m o Some by (simp add: checkpoint_create_def split: if_splits)
    obtain r1 f1 s1 where w1: "checkpoint_write env s0 f (hdr_bytes (full_header m (clock env (ops s0)))) = (r1, f1, s1)" by (metis prod_cases3)
    obtain r2 f2 s2 where w2: "checkpoint_write env s1 f1 (saved_config env r m) = (r2, f2, s2)" by (metis prod_cases3)
    have 1: "frame p s s1" "spath f1 = p" using f frame_write [OF w1] frame_trans by metis+
    have 2: "frame p s s2" "spath f2 = p" using 1 frame_write [OF w2] frame_trans by metis+
    consider (a) "r1 \<noteq> NEXUSVM_OK" | (b) "r1 = NEXUSVM_OK" "r2 \<noteq> NEXUSVM_OK" | (c) "r1 = NEXUSVM_OK" "r2 = NEXUSVM_OK" by blast
    then show ?thesis
    proof cases
      case a
      then show ?thesis using run m o Some name w1 frame_close [OF 1] by (simp add: checkpoint_create_def)
    next
      case b
      then show ?thesis using run m o Some name w1 w2 frame_close [OF 2] by (simp add: checkpoint_create_def)
    next
      case c
      with run m o Some name w1 w2 obtain r3 f3 s3 where w3: "write_cpus env s2 f2 r (vcpu_numbers m) = Some (r3, f3, s3)"
        by (auto simp: checkpoint_create_def bind_eq_Some_conv)
      have 3: "frame p s s3" "spath f3 = p" using 2 frame_write_cpus [OF w3] frame_trans by metis+
      show ?thesis
      proof (cases "r3 = NEXUSVM_OK")
        case False
        then show ?thesis using run m o Some name w1 w2 w3 c frame_close [OF 3] by (simp add: checkpoint_create_def)
      next
        case True
        with run m o Some name w1 w2 w3 c obtain f4 s4 s5 where
          w4: "write_devices env s3 f3 r = Some (f4, s4)" "checkpoint_save_memory env s4 (Some r) (Some p) = Some (res, s5)"
            "s' = checkpoint_close s5 (Some f4)" by (auto simp: checkpoint_create_def bind_eq_Some_conv)
        have "frame p s s4" "spath f4 = p" using 3 frame_write_devices [OF w4(1)] frame_trans by metis+
        moreover from this(1) have "frame p s s5" using frame_save_memory [OF w4(2)] frame_trans by blast
        ultimately show ?thesis using w4(3) frame_close by simp
      qed
    qed
  qed
qed

text \<open>
  A snapshot forgets the state of the machine: whatever it was, the machine runs after a successful \<open>snapshot_create\<close> and stays suspended after a failed
  one; no other machine, no virtual CPU, no byte of host memory and no other file changes.
\<close>

theorem snapshot_create_forgets_state:
  assumes run: "snapshot_create env s (Some r) (Some p) = Some (res, s')" and m: "vm_objs (cw s) r = Some m"
  shows "vm_objs (cw s') = (vm_objs (cw s))(r \<mapsto> m\<lparr>state := if res = NEXUSVM_OK then VM_STATE_RUNNING else VM_STATE_SUSPENDED\<rparr>) \<and>
    vcpu_objs (cw s') = vcpu_objs (cw s) \<and> host_mem s' = host_mem s \<and> (\<forall>q. q \<noteq> p \<longrightarrow> files s' q = files s q)"
proof -
  from run m obtain t where t: "checkpoint_create env (set_vm_state VM_STATE_SUSPENDED r s) (Some r) (Some p) = Some (res, t)"
    "s' = (if res = NEXUSVM_OK then set_vm_state VM_STATE_RUNNING r t else t)"
    by (auto simp: snapshot_create_def bind_eq_Some_conv)
  have "frame p (set_vm_state VM_STATE_SUSPENDED r s) t" using frame_create [OF t(1)] .
  then obtain k where k: "cw t = (upd_vm (cw s) r (\<lambda>m. m\<lparr>state := VM_STATE_SUSPENDED\<rparr>))\<lparr>callocs := k\<rparr>" "host_mem t = host_mem s"
    "\<forall>q. q \<noteq> p \<longrightarrow> files t q = files s q" by (auto simp: frame_def set_vm_state_def)
  have "vm_objs (cw s') = (vm_objs (cw s))(r \<mapsto> m\<lparr>state := if res = NEXUSVM_OK then VM_STATE_RUNNING else VM_STATE_SUSPENDED\<rparr>)"
    using t(2) k(1) m by (simp add: set_vm_state_def upd_vm_def)
  moreover have "vcpu_objs (cw s') = vcpu_objs (cw s)" "host_mem s' = host_mem s" "\<forall>q. q \<noteq> p \<longrightarrow> files s' q = files s q"
    using t(2) k by (simp_all add: set_vm_state_def upd_vm_def)
  ultimately show ?thesis by blast
qed

text \<open>A running machine, and a file that cannot be opened.\<close>

lemma snapshot_create_forgets_state_witness:
  "\<exists>s'. snapshot_create (demo_ck_env\<lparr>may_open := (\<lambda>_ _. False)\<rparr>) demo_ck_world (Some 30) (Some ''a'') = Some (NEXUSVM_ERR_GENERIC, s') \<and>
    vm_objs (cw s') 30 = Some (saved_vm\<lparr>state := VM_STATE_SUSPENDED\<rparr>) \<and> state saved_vm = VM_STATE_RUNNING"
proof -
  let ?e = "demo_ck_env\<lparr>may_open := (\<lambda>_ _. False)\<rparr>"
  have m: "vm_objs (cw demo_ck_world) 30 = Some saved_vm" by (simp add: demo_ck_world_def)
  then have "\<exists>s'. snapshot_create ?e demo_ck_world (Some 30) (Some ''a'') = Some (NEXUSVM_ERR_GENERIC, s')"
    by (simp add: snapshot_create_def checkpoint_create_def checkpoint_open_def fopen_def set_vm_state_def upd_vm_def)
  then obtain s' where s': "snapshot_create ?e demo_ck_world (Some 30) (Some ''a'') = Some (NEXUSVM_ERR_GENERIC, s')" by blast
  show ?thesis using snapshot_create_forgets_state [OF s' m] s' by (intro exI [of _ s']) (simp add: saved_vm_def)
qed

end
