(* ===== verification/Front_End.thy ===== *)
theory Front_End
  imports Hypervisor
begin

text \<open>
  The command line front end, \<^verbatim>\<open>src/main.rs\<close> (C code in spite of its name): options, commands and the main program.

  \<open>getopt_long\<close> is a library function; its successive results are the input. \<open>atoi\<close> of a number outside the range of \<open>int\<close> is undefined.
  When signals arrive is a parameter: \<open>sig k\<close> tells whether one arrives before the \<open>k\<close>-th test of \<open>g_running\<close>.
\<close>

section \<open>Options\<close>

record nexusvm_options =
  opt_verbose :: bool
  opt_daemon :: bool
  opt_config_file :: "string option"
  opt_vm_name :: "string option"
  opt_list_vms :: bool
  opt_create_vm :: bool
  opt_destroy_vm :: bool
  opt_start_vm :: bool
  opt_stop_vm :: bool
  opt_vm_memory :: u32
  opt_vm_vcpus :: u32

datatype cli_option =
    Opt_help
  | Opt_verbose
  | Opt_daemon
  | Opt_config string
  | Opt_list
  | Opt_create string
  | Opt_destroy string
  | Opt_start string
  | Opt_stop string
  | Opt_memory string
  | Opt_vcpus string
  | Opt_unknown

definition default_options :: nexusvm_options where
  "default_options = \<lparr>opt_verbose = False, opt_daemon = False, opt_config_file = None, opt_vm_name = None, opt_list_vms = False,
     opt_create_vm = False, opt_destroy_vm = False, opt_start_vm = False, opt_stop_vm = False, opt_vm_memory = 1024, opt_vm_vcpus = 2\<rparr>"

definition digit :: "char \<Rightarrow> int option" where
  "digit c = (let n = int (of_char c) in if 48 \<le> n \<and> n \<le> 57 then Some (n - 48) else None)"

fun digits :: "int \<Rightarrow> string \<Rightarrow> int" where
  "digits acc [] = acc"
| "digits acc (c # rest) = (case digit c of None \<Rightarrow> acc | Some d \<Rightarrow> digits (10 * acc + d) rest)"

definition is_space :: "char \<Rightarrow> bool" where
  "is_space c \<longleftrightarrow> (let n = of_char c :: nat in n = 32 \<or> 9 \<le> n \<and> n \<le> 13)"

definition atoi :: "string \<Rightarrow> int run" where
  "atoi s =
     (let t = dropWhile is_space s;
          v = (case t of [] \<Rightarrow> 0
               | c # u \<Rightarrow> if c = CHR ''-'' then - digits 0 u else if c = CHR ''+'' then digits 0 u else digits 0 t)
      in if - (2 ^ 31) \<le> v \<and> v < 2 ^ 31 then Some v else None)"

text \<open>\<open>Inl\<close> is the argument of \<open>exit\<close>.\<close>

fun parse_options :: "nexusvm_options \<Rightarrow> cli_option list \<Rightarrow> (nat + nexusvm_options) run" where
  "parse_options opts [] = Some (Inr opts)"
| "parse_options opts (c # rest) =
     (case c of
        Opt_help \<Rightarrow> Some (Inl 0)
      | Opt_verbose \<Rightarrow> parse_options (opts\<lparr>opt_verbose := True\<rparr>) rest
      | Opt_daemon \<Rightarrow> parse_options (opts\<lparr>opt_daemon := True\<rparr>) rest
      | Opt_config s \<Rightarrow> parse_options (opts\<lparr>opt_config_file := Some s\<rparr>) rest
      | Opt_list \<Rightarrow> parse_options (opts\<lparr>opt_list_vms := True\<rparr>) rest
      | Opt_create s \<Rightarrow> parse_options (opts\<lparr>opt_create_vm := True, opt_vm_name := Some s\<rparr>) rest
      | Opt_destroy s \<Rightarrow> parse_options (opts\<lparr>opt_destroy_vm := True, opt_vm_name := Some s\<rparr>) rest
      | Opt_start s \<Rightarrow> parse_options (opts\<lparr>opt_start_vm := True, opt_vm_name := Some s\<rparr>) rest
      | Opt_stop s \<Rightarrow> parse_options (opts\<lparr>opt_stop_vm := True, opt_vm_name := Some s\<rparr>) rest
      | Opt_memory s \<Rightarrow> do { n \<leftarrow> atoi s; parse_options (opts\<lparr>opt_vm_memory := word_of_int n\<rparr>) rest }
      | Opt_vcpus s \<Rightarrow> do { n \<leftarrow> atoi s; parse_options (opts\<lparr>opt_vm_vcpus := word_of_int n\<rparr>) rest }
      | Opt_unknown \<Rightarrow> Some (Inl 1))"

definition parse_args :: "cli_option list \<Rightarrow> (nat + nexusvm_options) run" where
  "parse_args = parse_options default_options"

section \<open>Commands\<close>

text \<open>A row of the table that \<open>list_vms\<close> prints: identifier, name, state, virtual CPUs, megabytes.\<close>

type_synonym vm_row = "u32 \<times> string \<times> string \<times> u32 \<times> u64"

fun state_string :: "vm_state \<Rightarrow> string" where
  "state_string VM_STATE_CREATED = ''Created''"
| "state_string VM_STATE_INITIALIZED = ''Initialized''"
| "state_string VM_STATE_RUNNING = ''Running''"
| "state_string VM_STATE_PAUSED = ''Paused''"
| "state_string VM_STATE_SUSPENDED = ''Suspended''"
| "state_string VM_STATE_MIGRATING = ''Migrating''"
| "state_string VM_STATE_SHUTDOWN = ''Shutdown''"
| "state_string _ = ''Unknown''"

fun vm_rows :: "world \<Rightarrow> u32 list \<Rightarrow> vm_row list run" where
  "vm_rows w [] = Some []"
| "vm_rows w (n # ns) = do {
     p \<leftarrow> vm_get_by_id w n;
     row \<leftarrow> (case p of None \<Rightarrow> Some []
             | Some r \<Rightarrow> do { m \<leftarrow> vm_objs w r;
                 Some [(vm_id m, vm_name m, state_string (state m), vcpu_count m, memory_size m div (1024 * 1024))] });
     rows \<leftarrow> vm_rows w ns;
     Some (row @ rows)
   }"

definition list_vms :: "world \<Rightarrow> vm_row list run" where
  "list_vms w = do {
     (cnt, ids) \<leftarrow> vm_enumerate w (Some (replicate 256 0)) 256;
     a \<leftarrow> ids;
     vm_rows w (take (unat cnt) a)
   }"

definition new_config :: "string \<Rightarrow> u32 \<Rightarrow> u32 \<Rightarrow> vm_config" where
  "new_config name memory_mb n = zero_config\<lparr>cfg_name := name, cfg_vcpu_count := n, cfg_memory_size := ucast memory_mb * 1024 * 1024,
     kernel_entry := 0x100000, long_mode := True, apic := True\<rparr>"

text \<open>The commands return the exit code.\<close>

definition create_vm :: "platform \<Rightarrow> world \<Rightarrow> string \<Rightarrow> u32 \<Rightarrow> u32 \<Rightarrow> (nat \<times> world) run" where
  "create_vm pf w name memory_mb n =
     (if length name \<ge> 63 then None
      else do {
        (result, p, w) \<leftarrow> vm_create pf w (Some (new_config name memory_mb n));
        Some (if result \<noteq> NEXUSVM_OK then 1 else 0, w)
      })"

text \<open>Look-up by name and one operation on the machine.\<close>

definition on_named_vm :: "(world \<Rightarrow> ref option \<Rightarrow> (nexusvm_result \<times> world) run) \<Rightarrow> world \<Rightarrow> string \<Rightarrow> (nat \<times> world) run" where
  "on_named_vm f w name = do {
     p \<leftarrow> vm_get_by_name w (Some name);
     if p = None then Some (1, w)
     else do { (result, w) \<leftarrow> f w p; Some (if result \<noteq> NEXUSVM_OK then 1 else 0, w) }
   }"

definition start_vm :: "platform \<Rightarrow> world \<Rightarrow> string \<Rightarrow> (nat \<times> world) run" where
  "start_vm pf = on_named_vm (vm_start pf)"

definition stop_vm :: "world \<Rightarrow> string \<Rightarrow> (nat \<times> world) run" where
  "stop_vm = on_named_vm vm_stop"

definition destroy_vm :: "world \<Rightarrow> string \<Rightarrow> (nat \<times> world) run" where
  "destroy_vm = on_named_vm vm_destroy"

section \<open>The main program\<close>

text \<open>The exit code, the rows printed and the world after the command.\<close>

definition run_command :: "platform \<Rightarrow> nexusvm_options \<Rightarrow> world \<Rightarrow> (nat \<times> vm_row list \<times> world) run" where
  "run_command pf opts w =
     (let quiet = (\<lambda>x. do { (ret, w) \<leftarrow> x; Some (ret, [], w) });
          idle = (if opt_daemon opts then Some (0, [], w) else do { rows \<leftarrow> list_vms w; Some (0, rows, w) }) in
      if opt_list_vms opts then do { rows \<leftarrow> list_vms w; Some (0, rows, w) }
      else
        (case opt_vm_name opts of
           Some name \<Rightarrow>
             if opt_create_vm opts then quiet (create_vm pf w name (opt_vm_memory opts) (opt_vm_vcpus opts))
             else if opt_start_vm opts then quiet (start_vm pf w name)
             else if opt_stop_vm opts then quiet (stop_vm w name)
             else if opt_destroy_vm opts then quiet (destroy_vm w name)
             else idle
         | None \<Rightarrow> idle))"

text \<open>\<open>while (g_running && !g_options.daemon) sleep(1)\<close>; the result is the number of the test that ended it.\<close>

partial_function (option) main_loop :: "(nat \<Rightarrow> bool) \<Rightarrow> bool \<Rightarrow> nat \<Rightarrow> nat option" where
  "main_loop sig daemon k = (if sig k \<or> daemon then Some k else main_loop sig daemon (Suc k))"

definition main_program :: "platform \<Rightarrow> (nat \<Rightarrow> bool) \<Rightarrow> cli_option list \<Rightarrow> world \<Rightarrow> (nat \<times> vm_row list \<times> world) run" where
  "main_program pf sig args w = do {
     parsed \<leftarrow> parse_args args;
     case parsed of
       Inl code \<Rightarrow> Some (code, [], w)
     | Inr opts \<Rightarrow> do {
         (result, w) \<leftarrow> hypervisor_init pf w;
         if result \<noteq> NEXUSVM_OK then Some (1, [], w)
         else do {
           (ret, rows, w) \<leftarrow> run_command pf opts w;
           _ \<leftarrow> main_loop sig (opt_daemon opts) 0;
           w \<leftarrow> hypervisor_shutdown w;
           Some (ret, rows, w)
         }
       }
   }"

end
