(* ===== verification/Front_End_Correct.thy ===== *)
theory Front_End_Correct
  imports Front_End Hypervisor_Correct Io_Correct
begin

text \<open>
  The main program: when it returns, and what its commands can achieve on a hypervisor that the same process has just
  initialised.
\<close>

section \<open>The main loop\<close>

lemma main_loop_from: "sig (k + n) \<Longrightarrow> \<exists>m. main_loop sig daemon k = Some m"
proof (induction n arbitrary: k)
  case 0
  then show ?case by (simp add: main_loop.simps)
next
  case (Suc n)
  then show ?case using Suc.IH [of "Suc k"] by (cases daemon) (simp_all add: main_loop.simps [of sig _ k])
qed

lemma main_loop_returns: "main_loop sig daemon k = Some m \<Longrightarrow> daemon \<or> (\<exists>j. sig j)"
proof (induction rule: main_loop.raw_induct [rotated, consumes 1, case_names step])
  case (step loop sig daemon k m)
  show ?case
  proof (cases "sig k \<or> daemon")
    case True
    then show ?thesis by blast
  next
    case False
    then have "loop sig daemon (Suc k) = Some m" using step(2) by simp
    then show ?thesis using step(1) by blast
  qed
qed

lemma main_loop_iff: "(\<exists>m. main_loop sig daemon 0 = Some m) \<longleftrightarrow> daemon \<or> (\<exists>j. sig j)"
proof
  show "\<exists>m. main_loop sig daemon 0 = Some m \<Longrightarrow> daemon \<or> (\<exists>j. sig j)" using main_loop_returns by blast
  assume "daemon \<or> (\<exists>j. sig j)"
  then show "\<exists>m. main_loop sig daemon 0 = Some m"
  proof
    assume daemon
    then show ?thesis by (subst main_loop.simps) simp
  next
    assume "\<exists>j. sig j"
    then show ?thesis using main_loop_from [of sig 0 _ daemon] by auto
  qed
qed

section \<open>Commands on a fresh hypervisor\<close>

definition fresh :: "world \<Rightarrow> bool" where
  "fresh w \<longleftrightarrow> (\<exists>hv. g_hypervisor w = Some hv \<and> vms hv = None \<and> online_cpu_count hv = 0)"

lemma fresh_no_name: "fresh w \<Longrightarrow> vm_get_by_name w (Some name) = Some None"
  by (auto simp: fresh_def vm_get_by_name_def vm_find.simps)

lemma fresh_named: "fresh w \<Longrightarrow> on_named_vm f w name = Some (1, w)"
  by (simp add: on_named_vm_def fresh_no_name)

lemma fresh_lists_nothing: "fresh w \<Longrightarrow> list_vms w = Some []"
proof -
  assume "fresh w"
  then obtain hv where hv: "g_hypervisor w = Some hv" "vms hv = None" by (auto simp: fresh_def)
  have "enumerate_loop w None ids cnt n = Some (cnt, ids)" for ids cnt n by (cases n) simp_all
  then show ?thesis using hv by (simp add: list_vms_def vm_enumerate_def)
qed

text \<open>With no online CPU no virtual CPU is created.\<close>

definition no_cpus :: "world \<Rightarrow> bool" where
  "no_cpus w \<longleftrightarrow> (\<forall>hv. g_hypervisor w = Some hv \<longrightarrow> online_cpu_count hv = 0)"

lemma vcpu_create_fails: "no_cpus w \<Longrightarrow> vcpu_create pf w (Some r) n = Some (res, c, w') \<Longrightarrow> res \<noteq> NEXUSVM_OK"
  by (auto simp: no_cpus_def vcpu_create_def Let_def bind_eq_Some_conv split: if_splits)

lemma create_vcpus_fails:
  assumes "no_cpus w" "0 < n" "create_vcpus pf w r [0..<n] = Some (res, w')"
  shows "res \<noteq> NEXUSVM_OK"
proof -
  from assms(2) have n: "[0..<n] = 0 # [1..<n]" using upt_conv_Cons by simp
  from assms(3) obtain res1 c w1 where v: "vcpu_create pf w (Some r) 0 = Some (res1, c, w1)"
    by (auto simp: n bind_eq_Some_conv)
  have "res1 \<noteq> NEXUSVM_OK" using vcpu_create_fails [OF assms(1) v] .
  then show ?thesis using assms(3) v by (auto simp: n bind_eq_Some_conv)
qed

lemma vm_create_fails:
  assumes "no_cpus w" "cfg_vcpu_count c > 0" "vm_create pf w (Some c) = Some (res, p, w')"
  shows "res \<noteq> NEXUSVM_OK"
proof
  assume ok: "res = NEXUSVM_OK"
  have n: "0 < unat (cfg_vcpu_count c)" using assms(2) by (simp add: unat_gt_0 word_gt_0)
  from assms(3) ok obtain r w1 w2 where "create_vcpus pf w1 r [0..<unat (cfg_vcpu_count c)] = Some (NEXUSVM_OK, w2)" "no_cpus w1"
    using assms(1) n
    by (auto simp: vm_create_def request_def upd_hv_def no_cpus_def Let_def bind_eq_Some_conv split: option.splits if_splits prod.splits)
  then show False using create_vcpus_fails n by blast
qed

lemma create_vm_fails:
  assumes "fresh w" "n > 0" "create_vm pf w name mb n = Some (ret, w')"
  shows "ret = 1"
proof -
  from assms(3) obtain res p where "vm_create pf w (Some (new_config name mb n)) = Some (res, p, w')" "ret = (if res \<noteq> NEXUSVM_OK then 1 else 0)"
    by (auto simp: create_vm_def bind_eq_Some_conv split: if_splits)
  moreover have "no_cpus w" "cfg_vcpu_count (new_config name mb n) > 0" using assms(1,2) by (auto simp: fresh_def no_cpus_def new_config_def)
  ultimately show ?thesis using vm_create_fails by auto
qed

section \<open>The main program\<close>

text \<open>A command on a machine: creation with at least one virtual CPU, start, stop or destruction, and no listing.\<close>

definition machine_command :: "nexusvm_options \<Rightarrow> bool" where
  "machine_command opts \<longleftrightarrow> \<not> opt_list_vms opts \<and> opt_vm_name opts \<noteq> None \<and>
     (if opt_create_vm opts then opt_vm_vcpus opts > 0 else opt_start_vm opts \<or> opt_stop_vm opts \<or> opt_destroy_vm opts)"

lemma fresh_after_init:
  "hypervisor_init pf w = Some (NEXUSVM_OK, w') \<Longrightarrow> \<not> g_initialized w \<Longrightarrow> fresh w'"
  using hypervisor_init_effect [of pf w w'] by (auto simp: fresh_def)

text \<open>C15. A machine lives in the process that created it and no longer: when \<open>main_program\<close> in a fresh process with well-formed
  arguments returns (creating a machine divides by zero after an initialisation that succeeded), a command on a machine has given exit code 1
  and a listing no row; and after an initialisation that succeeded it returns only in daemon mode or by a signal.
\<close>

theorem main_program_commands_fail:
  assumes run: "main_program pf sig args w = Some (ret, rows, w')" and boot: "\<not> g_initialized w"
    and parsed: "parse_args args = Some (Inr opts)"
  shows "rows = [] \<and> (machine_command opts \<longrightarrow> ret = 1) \<and>
    (hypervisor_init pf w = Some (NEXUSVM_OK, w1) \<longrightarrow> opt_daemon opts \<or> (\<exists>k. sig k))"
proof -
  from run parsed obtain res w0 where i: "hypervisor_init pf w = Some (res, w0)" by (auto simp: main_program_def bind_eq_Some_conv)
  show ?thesis
  proof (cases "res = NEXUSVM_OK")
    case False
    then show ?thesis using run parsed i by (auto simp: main_program_def)
  next
    case True
    with run parsed i obtain w2 n where c: "run_command pf opts w0 = Some (ret, rows, w2)" "main_loop sig (opt_daemon opts) 0 = Some n"
      by (auto simp: main_program_def bind_eq_Some_conv)
    have f: "fresh w0" using fresh_after_init i boot True by simp
    have "rows = []" using c(1) f
      by (auto simp: run_command_def Let_def bind_eq_Some_conv fresh_lists_nothing split: if_splits option.splits)
    moreover have "ret = 1" if "machine_command opts"
      using c(1) that f create_vm_fails [OF f]
      by (auto simp: run_command_def Let_def bind_eq_Some_conv machine_command_def start_vm_def stop_vm_def destroy_vm_def fresh_named
          split: if_splits)
    ultimately show ?thesis using main_loop_returns [OF c(2)] by blast
  qed
qed

lemma idle_shutdown: "\<exists>i. io_emul_shutdown io_ready = Some i"
proof -
  obtain xs where xs: "io_inv io_ready xs" "map snd xs = default_ports" using io_ready_inv by blast
  have m: "g_mmio_handlers io_ready = None" by code_simp
  have c: "chain (io_objs io_ready) (g_io_handlers io_ready) xs" "distinct (map fst xs)"
    using xs(1) by (simp_all add: io_inv_def)
  obtain t where t: "io_free_loop io_ready (g_io_handlers io_ready) = Some t" "t = io_ready\<lparr>io_objs := io_objs t\<rparr>"
    using io_free_loop_chain [OF c] by auto
  have "g_mmio_handlers t = None" using m by (subst t(2)) simp
  then show ?thesis using t(1) by (simp add: io_emul_shutdown_def mmio_free_loop.simps)
qed

text \<open>A processor that is recognised, \<open>--start a\<close>, and a signal.\<close>

lemma main_program_commands_fail_witness:
  "\<exists>w'. main_program swapped_platform (\<lambda>k. k = 3) [Opt_start ''a''] boot_world = Some (1, [], w') \<and>
    (\<exists>w1. hypervisor_init swapped_platform boot_world = Some (NEXUSVM_OK, w1))"
proof -
  obtain w1 where w1: "hypervisor_init swapped_platform boot_world = Some (NEXUSVM_OK, w1)" using swapped_init by blast
  have b: "\<not> g_initialized boot_world" by (simp add: boot_world_def)
  from hypervisor_init_effect [OF w1 b] obtain hv where hv: "g_hypervisor w1 = Some hv" "vms hv = None" "g_initialized w1"
    "io w1 = io_ready" by (auto simp: io_ready_def swapped_platform_def demo_platform_def boot_world_def)
  obtain i where i: "io_emul_shutdown io_ready = Some i" using idle_shutdown ..
  have "stop_all w1 None = Some w1" by (subst stop_all.simps) simp
  then obtain w2 where s: "hypervisor_shutdown w1 = Some w2" using hv i by (simp add: hypervisor_shutdown_def)
  let ?o = "default_options\<lparr>opt_start_vm := True, opt_vm_name := Some ''a''\<rparr>"
  have p: "parse_args [Opt_start ''a''] = Some (Inr ?o)" by (simp add: parse_args_def)
  obtain n where n: "main_loop (\<lambda>k. k = 3) False 0 = Some n" using main_loop_iff by auto
  have "run_command swapped_platform ?o w1 = Some (1, [], w1)"
    using fresh_named [OF fresh_after_init [OF w1 b]] by (simp add: run_command_def start_vm_def default_options_def)
  then have "\<exists>ret rows w'. main_program swapped_platform (\<lambda>k. k = 3) [Opt_start ''a''] boot_world = Some (ret, rows, w')"
    using p w1 n s by (simp add: main_program_def default_options_def)
  then obtain ret rows w' where run: "main_program swapped_platform (\<lambda>k. k = 3) [Opt_start ''a''] boot_world = Some (ret, rows, w')"
    by blast
  have "machine_command ?o" by (simp add: machine_command_def default_options_def)
  then show ?thesis using main_program_commands_fail [OF run b p, of w1] run w1 by blast
qed

end
