(* ===== verification/Utils_Log.thy ===== *)
theory Utils_Log
  imports Nexus_Prelude
begin

text \<open>
  Formatted output: \<open>nexusvm_log\<close> of \<^verbatim>\<open>utils/log.c\<close> and the part of \<open>printf\<close> and \<open>strftime\<close> that the sources use.

  An output stream is the string of the characters written to it. A directive whose argument is missing or of another
  type is undefined. Flags stand in the order \<open>-\<close>, \<open>0\<close>. Numbers print in base 10 or 16; how a number of type \<open>double\<close> prints is a parameter
  (\<open>show_double\<close>, by precision), as is the time zone (\<open>localtime\<close>).
\<close>

section \<open>Numbers as text\<close>

definition digit_char :: "nat \<Rightarrow> char" where
  "digit_char d = char_of (if d < 10 then 48 + d else 87 + d)"

function show_base :: "nat \<Rightarrow> nat \<Rightarrow> string" where
  "show_base b n = (if b < 2 \<or> n < b then [digit_char n] else show_base b (n div b) @ [digit_char (n mod b)])"
  by auto
termination by (relation "measure snd") auto

declare show_base.simps [simp del]

lemma show_base_small: "n < b \<Longrightarrow> show_base b n = [digit_char n]"
  by (simp add: show_base.simps)

lemma show_base_step: "2 \<le> b \<Longrightarrow> b \<le> n \<Longrightarrow> show_base b n = show_base b (n div b) @ [digit_char (n mod b)]"
  by (simp add: show_base.simps [of b n])

lemma show_base_nonempty [simp]: "show_base b n \<noteq> []"
  by (simp add: show_base.simps [of b n])

section \<open>Directives\<close>

text \<open>\<open>PStr\<close> is a \<open>char *\<close> up to its terminator, \<open>PInt\<close> an \<open>int\<close> or \<open>unsigned\<close>, \<open>PLong\<close> a \<open>long\<close> or \<open>unsigned long\<close>.\<close>

datatype 'd printf_arg = PStr string | PInt u32 | PLong u64 | PDouble 'd

record directive =
  d_left :: bool
  d_zero :: bool
  d_width :: nat
  d_prec :: "nat option"
  d_long :: bool

text \<open>The number at the head of a format.\<close>

fun take_number :: "nat \<Rightarrow> string \<Rightarrow> nat \<times> string" where
  "take_number acc [] = (acc, [])"
| "take_number acc (c # s) = (if 48 \<le> (of_char c :: nat) \<and> (of_char c :: nat) \<le> 57 then take_number (10 * acc + (of_char c - 48)) s
     else (acc, c # s))"

lemma take_number_shorter: "length (snd (take_number acc s)) \<le> length s"
  by (induction acc s rule: take_number.induct) auto

definition opt_char :: "char \<Rightarrow> string \<Rightarrow> bool \<times> string" where
  "opt_char c s = (case s of [] \<Rightarrow> (False, []) | x # t \<Rightarrow> if x = c then (True, t) else (False, s))"

lemma opt_char_shorter: "length (snd (opt_char c s)) \<le> length s"
  by (auto simp: opt_char_def split: list.splits)

definition parse_directive :: "string \<Rightarrow> directive \<times> string" where
  "parse_directive s =
     (let (left, s) = opt_char (CHR ''-'') s; (zero, s) = opt_char (CHR ''0'') s; (w, s) = take_number 0 s;
          (dot, s) = opt_char (CHR ''.'') s; (p, s) = (if dot then take_number 0 s else (0, s)); (long, s) = opt_char (CHR ''l'') s
      in (\<lparr>d_left = left, d_zero = zero, d_width = w, d_prec = (if dot then Some p else None), d_long = long\<rparr>, s))"

lemma parse_directive_shorter: "length (snd (parse_directive s)) \<le> length s"
proof -
  have step: "length (snd (opt_char c t)) \<le> n" "length (snd (take_number a t)) \<le> n" if "length t \<le> n" for c a t n
    using that opt_char_shorter [of c t] take_number_shorter [of a t] by linarith+
  show ?thesis
    unfolding parse_directive_def Let_def
    by (auto simp: case_prod_beta intro!: step)
qed

definition pad :: "directive \<Rightarrow> string \<Rightarrow> string" where
  "pad d s = (let fill = d_width d - length s in
     if d_left d then s @ replicate fill (CHR '' '') else replicate fill (CHR '' '') @ s)"

text \<open>With the flag \<open>0\<close> a number is filled with zeros behind its sign, unless it is left-justified or has a precision.\<close>

definition pad_number :: "directive \<Rightarrow> string \<Rightarrow> string \<Rightarrow> string" where
  "pad_number d sign s = (if d_zero d \<and> \<not> d_left d \<and> d_prec d = None then sign @ replicate (d_width d - length sign - length s) (CHR ''0'') @ s else pad d (sign @ s))"

text \<open>The digits of a number, at least as many as the precision asks for; a precision switches the flag \<open>0\<close> off.\<close>

definition number_digits :: "directive \<Rightarrow> nat \<Rightarrow> nat \<Rightarrow> string" where
  "number_digits d b n =
     (case d_prec d of
        None \<Rightarrow> show_base b n
      | Some p \<Rightarrow> if p = 0 \<and> n = 0 then [] else replicate (p - length (show_base b n)) (CHR ''0'') @ show_base b n)"

definition show_unsigned :: "directive \<Rightarrow> nat \<Rightarrow> nat \<Rightarrow> string" where
  "show_unsigned d b n = pad_number d '''' (number_digits d b n)"

definition show_signed :: "directive \<Rightarrow> int \<Rightarrow> string" where
  "show_signed d i = pad_number d (if i < 0 then ''-'' else '''') (number_digits d 10 (nat \<bar>i\<bar>))"

definition show_arg :: "(nat \<Rightarrow> 'd \<Rightarrow> string) \<Rightarrow> directive \<Rightarrow> char \<Rightarrow> 'd printf_arg \<Rightarrow> string run" where
  "show_arg show_double d c a =
     (case a of
        PStr s \<Rightarrow> if c = CHR ''s'' \<and> \<not> d_long d \<and> \<not> d_zero d then Some (pad d (case d_prec d of None \<Rightarrow> s | Some p \<Rightarrow> take p s)) else None
      | PInt n \<Rightarrow>
          if d_long d then None
          else if c = CHR ''d'' then Some (show_signed d (sint n))
          else if c = CHR ''u'' then Some (show_unsigned d 10 (unat n))
          else if c = CHR ''x'' then Some (show_unsigned d 16 (unat n))
          else None
      | PLong n \<Rightarrow>
          if \<not> d_long d then None
          else if c = CHR ''d'' then Some (show_signed d (sint n))
          else if c = CHR ''u'' then Some (show_unsigned d 10 (unat n))
          else if c = CHR ''x'' then Some (show_unsigned d 16 (unat n))
          else None
      | PDouble x \<Rightarrow> if c = CHR ''f'' then Some (pad d (show_double (case d_prec d of None \<Rightarrow> 6 | Some p \<Rightarrow> p) x)) else None)"

function vfprintf :: "(nat \<Rightarrow> 'd \<Rightarrow> string) \<Rightarrow> string \<Rightarrow> 'd printf_arg list \<Rightarrow> string run" where
  "vfprintf show_double [] as = Some []"
| "vfprintf show_double (c # s) as =
     (if c \<noteq> CHR ''%'' then do { t \<leftarrow> vfprintf show_double s as; Some (c # t) }
      else let (d, r) = parse_directive s in
        case r of
          [] \<Rightarrow> None
        | x # rest \<Rightarrow>
            if x = CHR ''%'' then do { t \<leftarrow> vfprintf show_double rest as; Some (CHR ''%'' # t) }
            else (case as of
                [] \<Rightarrow> None
              | a # as \<Rightarrow> do { u \<leftarrow> show_arg show_double d x a; t \<leftarrow> vfprintf show_double rest as; Some (u @ t) }))"
  by pat_completeness auto
termination
proof (relation "measure (\<lambda>(_, s, _). length s)")
  have shorter: "length rest < Suc (length s)" if "(d, x # rest) = parse_directive s" for d x rest s
    using parse_directive_shorter [of s] that by (metis length_Cons less_Suc_eq_le not_less_eq_eq snd_conv Suc_le_lessD le_SucI)
  show "((show_double, rest, as), show_double, c # s, as) \<in> measure (\<lambda>(_, s, _). length s)"
    if "y = parse_directive s" "(d, r) = y" "r = x # rest" for show_double :: "nat \<Rightarrow> 'd \<Rightarrow> string" and as c s y d r x rest
    using shorter that by simp
  show "((show_double, rest, as'), show_double, c # s, as) \<in> measure (\<lambda>(_, s, _). length s)"
    if "y = parse_directive s" "(d, r) = y" "r = x # rest" for show_double :: "nat \<Rightarrow> 'd \<Rightarrow> string" and as as' c s y d r x rest
    using shorter that by simp
qed auto

declare vfprintf.simps(2) [simp del]

section \<open>The log\<close>

type_synonym nexusvm_log_level = u32

definition NEXUSVM_LOG_LEVEL_DEBUG :: nexusvm_log_level where "NEXUSVM_LOG_LEVEL_DEBUG = 0"
definition NEXUSVM_LOG_LEVEL_INFO :: nexusvm_log_level where "NEXUSVM_LOG_LEVEL_INFO = 1"
definition NEXUSVM_LOG_LEVEL_WARN :: nexusvm_log_level where "NEXUSVM_LOG_LEVEL_WARN = 2"
definition NEXUSVM_LOG_LEVEL_ERROR :: nexusvm_log_level where "NEXUSVM_LOG_LEVEL_ERROR = 3"

definition log_level_strings :: "string list" where
  "log_level_strings = [''DEBUG'', ''INFO'', ''WARN'', ''ERROR'']"

text \<open>Broken-down time, the members that the log prints; \<open>localtime\<close> is \<^const>\<open>None\<close> for a time it cannot represent.\<close>

record tm =
  tm_year :: int
  tm_mon :: int
  tm_mday :: int
  tm_hour :: int
  tm_min :: int
  tm_sec :: int

definition two :: "int \<Rightarrow> string" where
  "two i = show_signed \<lparr>d_left = False, d_zero = True, d_width = 2, d_prec = None, d_long = False\<rparr> i"

definition number :: "int \<Rightarrow> string" where
  "number i = show_signed \<lparr>d_left = False, d_zero = False, d_width = 0, d_prec = None, d_long = False\<rparr> i"

text \<open>\<open>strftime\<close> with \<^verbatim>\<open>"%Y-%m-%d %H:%M:%S"\<close> into a buffer of 32 characters, which is indeterminate if the text does not fit.\<close>

definition time_text :: "tm \<Rightarrow> string run" where
  "time_text x = (let s = number (tm_year x + 1900) @ ''-'' @ two (tm_mon x + 1) @ ''-'' @ two (tm_mday x) @ '' '' @
       two (tm_hour x) @ '':'' @ two (tm_min x) @ '':'' @ two (tm_sec x)
     in if length s < 32 then Some s else None)"

definition nexusvm_log :: "(nat \<Rightarrow> 'd \<Rightarrow> string) \<Rightarrow> (int \<Rightarrow> tm option) \<Rightarrow> int \<Rightarrow> string \<Rightarrow> nexusvm_log_level \<Rightarrow> string \<Rightarrow> u32 \<Rightarrow>
    string \<Rightarrow> 'd printf_arg list \<Rightarrow> string run" where
  "nexusvm_log show_double localtime now stderr level file line fmt args = do {
     tm_info \<leftarrow> localtime now;
     time_buf \<leftarrow> time_text tm_info;
     lvl \<leftarrow> (if unat level < length log_level_strings then Some (log_level_strings ! unat level) else None);
     head \<leftarrow> vfprintf show_double ''[%s] [%s] %s:%d: '' [PStr time_buf, PStr lvl, PStr file, PInt line];
     body \<leftarrow> vfprintf show_double fmt args;
     Some (stderr @ head @ body)
   }"

section \<open>Correctness\<close>

lemma vfprintf_plain: "c \<noteq> CHR ''%'' \<Longrightarrow> vfprintf sd (c # s) as = do { t \<leftarrow> vfprintf sd s as; Some (c # t) }"
  by (simp add: vfprintf.simps)

lemma vfprintf_directive:
  "parse_directive s = (d, x # rest) \<Longrightarrow> x \<noteq> CHR ''%'' \<Longrightarrow>
   vfprintf sd (CHR ''%'' # s) (a # as) = do { u \<leftarrow> show_arg sd d x a; t \<leftarrow> vfprintf sd rest as; Some (u @ t) }"
  by (simp add: vfprintf.simps)

lemma vfprintf_no_argument: "parse_directive s = (d, x # rest) \<Longrightarrow> x \<noteq> CHR ''%'' \<Longrightarrow> vfprintf sd (CHR ''%'' # s) [] = None"
  by (simp add: vfprintf.simps)

text \<open>Plain text passes through, and arguments that no directive uses are ignored.\<close>

lemma vfprintf_append_text: "CHR ''%'' \<notin> set s \<Longrightarrow> vfprintf sd (s @ r) as = do { t \<leftarrow> vfprintf sd r as; Some (s @ t) }"
  by (induction s) (auto simp: vfprintf_plain)

lemma vfprintf_text: "CHR ''%'' \<notin> set s \<Longrightarrow> vfprintf sd s as = Some s"
  using vfprintf_append_text [of s sd "[]"] by simp

lemmas directive_parsing = parse_directive_def opt_char_def

lemmas printf_simps = vfprintf_plain vfprintf_directive directive_parsing show_arg_def pad_def show_unsigned_def show_signed_def pad_number_def number_digits_def

lemma length_show_base: "2 \<le> b \<Longrightarrow> n < b ^ k \<Longrightarrow> 0 < k \<Longrightarrow> length (show_base b n) \<le> k"
proof (induction k arbitrary: n)
  case (Suc k)
  show ?case
  proof (cases "n < b")
    case False
    then have "k \<noteq> 0" using Suc.prems by (cases k) auto
    moreover have "n div b < b ^ k" using Suc.prems by (simp add: less_mult_imp_div_less mult.commute)
    ultimately show ?thesis using Suc False by (simp add: show_base_step)
  qed (simp add: show_base_small)
qed simp

lemma two_length: "0 \<le> i \<Longrightarrow> i < 100 \<Longrightarrow> length (two i) = 2"
  using length_show_base [of 10 "nat i" 2] by (auto simp: two_def printf_simps)

lemma year_length: "1000 \<le> i \<Longrightarrow> i \<le> 9999 \<Longrightarrow> length (number i) = 4"
  by (auto simp: number_def printf_simps show_base_step show_base_small)

definition tm_valid :: "tm \<Rightarrow> bool" where
  "tm_valid x \<longleftrightarrow> 1000 \<le> tm_year x + 1900 \<and> tm_year x + 1900 \<le> 9999 \<and> 0 \<le> tm_mon x \<and> tm_mon x \<le> 11 \<and> 1 \<le> tm_mday x \<and> tm_mday x \<le> 31 \<and>
     0 \<le> tm_hour x \<and> tm_hour x \<le> 23 \<and> 0 \<le> tm_min x \<and> tm_min x \<le> 59 \<and> 0 \<le> tm_sec x \<and> tm_sec x \<le> 60"

lemma time_text_length: "tm_valid x \<Longrightarrow> \<exists>s. time_text x = Some s \<and> length s = 19"
  by (simp add: tm_valid_def time_text_def Let_def year_length two_length)

text \<open>C30. In the years 1000 to 9999 a call of \<open>nexusvm_log\<close> appends one prefix with a time of 19 characters, the name of the level, file and line, and
  then the text of the format, which is undefined exactly when a directive has no argument of its type. A level above \<open>ERROR\<close>
  reads behind the table of names.\<close>

theorem nexusvm_log_line:
  assumes "localtime now = Some x" "tm_valid x"
  shows "\<exists>ts. length ts = 19 \<and> nexusvm_log sd localtime now err level file line fmt args =
    (if level \<le> NEXUSVM_LOG_LEVEL_ERROR
     then map_option (\<lambda>body. err @ ''['' @ ts @ ''] ['' @ log_level_strings ! unat level @ ''] '' @ file @ '':'' @ number (sint line) @ '': '' @ body)
       (vfprintf sd fmt args)
     else None)"
proof -
  obtain ts where ts: "time_text x = Some ts" "length ts = 19" using time_text_length assms(2) by blast
  have lvl: "level \<le> NEXUSVM_LOG_LEVEL_ERROR \<longleftrightarrow> unat level < length log_level_strings"
    by (auto simp: NEXUSVM_LOG_LEVEL_ERROR_def log_level_strings_def word_le_nat_alt)
  have head: "vfprintf sd ''[%s] [%s] %s:%d: '' [PStr ts, PStr l, PStr file, PInt line] =
      Some (''['' @ ts @ ''] ['' @ l @ ''] '' @ file @ '':'' @ number (sint line) @ '': '')" for l
    by (simp add: printf_simps number_def)
  show ?thesis
    using ts(2) by (cases "vfprintf sd fmt args") (auto intro!: exI [of _ ts] simp: nexusvm_log_def assms(1) ts(1) head lvl)
qed

theorem nexusvm_log_line_witness:
  "\<exists>ts. length ts = 19 \<and>
    nexusvm_log (\<lambda>_ (x::unit). '''') (\<lambda>t. Some \<lparr>tm_year = 124, tm_mon = 0, tm_mday = 2, tm_hour = 3, tm_min = 4, tm_sec = 5\<rparr>) 0 '''' NEXUSVM_LOG_LEVEL_WARN ''a.c'' 7
      ''%u%%'' [PInt 42] = Some (''['' @ ts @ ''] [WARN] a.c:7: 42%'')"
  using nexusvm_log_line [of "\<lambda>t. Some \<lparr>tm_year = 124, tm_mon = 0, tm_mday = 2, tm_hour = 3, tm_min = 4, tm_sec = 5\<rparr>" 0
      "\<lparr>tm_year = 124, tm_mon = 0, tm_mday = 2, tm_hour = 3, tm_min = 4, tm_sec = 5\<rparr>" "\<lambda>_ (x::unit). ''''" "''''" NEXUSVM_LOG_LEVEL_WARN "''a.c''" 7
      "''%u%%''" "[PInt 42]"]
  by (simp add: tm_valid_def NEXUSVM_LOG_LEVEL_WARN_def NEXUSVM_LOG_LEVEL_ERROR_def log_level_strings_def number_def printf_simps show_base_step show_base_small
      digit_char_def char_of_def bit_Suc_0_iff vfprintf.simps)

end
