(* ===== verification/Front_End_Output.thy ===== *)
theory Front_End_Output
  imports Front_End Utils_Log
begin

text \<open>
  The text that the front end prints: the table of machines of \<^verbatim>\<open>main.rs\<close>.
\<close>

section \<open>The table of machines\<close>

definition list_heading :: string where
  "list_heading = ''ID   Name                    State       vCPUs  Memory'' @ [CHR 0x0A]"

definition list_rule :: string where
  "list_rule = replicate 61 (CHR ''-'') @ [CHR 0x0A]"

definition row_text :: "(nat \<Rightarrow> 'd \<Rightarrow> string) \<Rightarrow> vm_row \<Rightarrow> string run" where
  "row_text sd = (\<lambda>(n, name, st, cnt, mb). vfprintf sd (''%-4u %-24s %-11s %-6u %-7lu MB'' @ [CHR 0x0A]) [PInt n, PStr name, PStr st, PInt cnt, PLong mb])"

fun rows_text :: "(nat \<Rightarrow> 'd \<Rightarrow> string) \<Rightarrow> vm_row list \<Rightarrow> string run" where
  "rows_text sd [] = Some []"
| "rows_text sd (r # rs) = do { a \<leftarrow> row_text sd r; b \<leftarrow> rows_text sd rs; Some (a @ b) }"

text \<open>The output of \<open>list_vms\<close>; the first test is on the number of machines that were enumerated.\<close>

definition list_vms_text :: "(nat \<Rightarrow> 'd \<Rightarrow> string) \<Rightarrow> world \<Rightarrow> string run" where
  "list_vms_text sd w = do {
     (cnt, ids) \<leftarrow> vm_enumerate w (Some (replicate 256 0)) 256;
     if cnt = 0 then Some (''No VMs found.'' @ [CHR 0x0A])
     else do { rows \<leftarrow> list_vms w; t \<leftarrow> rows_text sd rows; Some (list_heading @ list_rule @ t) }
   }"

section \<open>Columns\<close>

definition column :: "nat \<Rightarrow> string \<Rightarrow> string" where
  "column k s = s @ replicate (k - length s) (CHR '' '')"

lemma row_text_columns:
  "row_text sd (n, name, st, cnt, mb) = Some (column 4 (show_base 10 (unat n)) @ '' '' @ column 24 name @ '' '' @ column 11 st @ '' '' @
     column 6 (show_base 10 (unat cnt)) @ '' '' @ column 7 (show_base 10 (unat mb)) @ '' MB'' @ [CHR 0x0A])"
  by (simp add: row_text_def printf_simps column_def)

lemma length_column: "length s \<le> k \<Longrightarrow> length (column k s) = k"
  by (simp add: column_def)

lemma blanks_4: "replicate 4 x = [x, x, x, x]"
  by (simp add: numeral_nat)

lemma take_drop_column: "length a = i \<Longrightarrow> length s \<le> k \<Longrightarrow> take k (drop i (a @ column k s @ b)) = column k s"
  by (simp add: length_column)

text \<open>In the table every row shows the state of a machine from column 30 on, provided that its number has at most four digits and its
  name at most 24 characters; the heading has the word \<open>State\<close> one column before.\<close>

theorem list_vms_columns:
  assumes "n < 10000" "length name \<le> 24" "length st \<le> 11"
  shows "\<exists>t. row_text sd (n, name, st, cnt, mb) = Some t \<and> take 11 (drop 30 t) = column 11 st \<and> take 5 (drop 29 list_heading) = ''State''"
proof -
  have n: "length (show_base 10 (unat n)) \<le> 4"
    using assms(1) by (intro length_show_base) (simp_all add: word_less_nat_alt)
  have "length (column 4 (show_base 10 (unat n)) @ '' '' @ column 24 name @ '' '') = 30"
    using n assms(2) by (simp add: length_column)
  from take_drop_column [OF this assms(3)] show ?thesis
    by (simp add: row_text_columns list_heading_def)
qed

theorem list_vms_columns_witness:
  "\<exists>t. row_text (\<lambda>_ (x::unit). '''') (3, ''web'', ''Running'', 2, 1024) = Some t \<and> take 11 (drop 30 t) = ''Running    '' \<and>
    take 5 (drop 29 list_heading) = ''State''"
  using list_vms_columns [of 3 "''web''" "''Running''" "\<lambda>_ (x::unit). ''''" 2 1024] by (simp add: column_def blanks_4)

end
