(* ===== verification/Hypercalls_Correct.thy ===== *)
theory Hypercalls_Correct
  imports Vmx_Correct
begin

text \<open>
  The hypercalls as the guest sees them: \<open>hypercall_handle\<close> of \<^verbatim>\<open>src/hypervisor/hypervisor.c\<close> reached by a
  \<open>VMCALL\<close> through \<open>vmx_handle_vmcall\<close> of \<^verbatim>\<open>src/hypervisor/vmx/vmx.c\<close>. First the calls that are supported and what the handler
  does for every other number, then the guest's view of saving and restoring its registers, last the accessors of one virtual CPU.
\<close>

section \<open>The handler\<close>

definition supported :: "hypercall_number list" where
  "supported = [HYPERCALL_VM_GET_INFO, HYPERCALL_VCPU_GET_STATE, HYPERCALL_VCPU_SET_STATE, HYPERCALL_VM_GET_STATISTICS,
     HYPERCALL_VCPU_GET_STATISTICS]"

lemma handle_unsupported:
  assumes "vcpu_objs w r = Some v" "p_rax p \<notin> hypercall_code ` set supported"
  shows "hypercall_handle w (Some r) (Some p) (Some q) =
    Some (NEXUSVM_ERR_NOT_SUPPORTED, Some (cleared_result\<lparr>status := result_word NEXUSVM_ERR_NOT_SUPPORTED\<rparr>), w)"
  using assms by (simp add: hypercall_handle_def supported_def Let_def)

lemma handle_get_state:
  assumes "vcpu_objs w r = Some v" "p_rax p = hypercall_code HYPERCALL_VCPU_GET_STATE" "cpu_states w (p_rbx p) = Some x" "p_rbx p \<noteq> 0"
  shows "hypercall_handle w (Some r) (Some p) (Some q) =
    Some (NEXUSVM_OK, Some cleared_result, w\<lparr>cpu_states := (cpu_states w)(p_rbx p \<mapsto> cpu_state_of v)\<rparr>)"
  using assms by (simp add: hypercall_handle_def Let_def)

lemma handle_set_state:
  assumes "vcpu_objs w r = Some v" "p_rax p = hypercall_code HYPERCALL_VCPU_SET_STATE" "cpu_states w (p_rbx p) = Some x" "p_rbx p \<noteq> 0"
  shows "hypercall_handle w (Some r) (Some p) (Some q) =
    Some (NEXUSVM_OK, Some cleared_result, upd_vcpu w r (\<lambda>v. v\<lparr>cpu_state_of := x\<rparr>))"
  using assms by (simp add: hypercall_handle_def Let_def)

text \<open>
  For a virtual CPU of a live machine the handler is undefined exactly when one of the two calls that move registers gets an address
  that no register image lives at: \<open>rbx\<close> of the guest is used as a pointer of the host.
\<close>

lemma hypercall_undefined_iff:
  assumes "vcpu_objs w r = Some v" "get_vm w (vm v) = Some m"
  shows "hypercall_handle w (Some r) (Some p) (Some q) = None \<longleftrightarrow>
    p_rax p \<in> {hypercall_code HYPERCALL_VCPU_GET_STATE, hypercall_code HYPERCALL_VCPU_SET_STATE} \<and>
    p_rbx p \<noteq> 0 \<and> cpu_states w (p_rbx p) = None"
  using assms by (cases "cpu_states w (p_rbx p)") (auto simp: hypercall_handle_def Let_def)

text \<open>
  No call changes a machine, the hypervisor or another virtual CPU: the handler changes the registers of its own virtual CPU and the
  image that \<open>rbx\<close> points to, nothing else.
\<close>

definition registers_only :: "world \<Rightarrow> ref \<Rightarrow> world \<Rightarrow> bool" where
  "registers_only w r w' \<longleftrightarrow>
     (\<exists>f c. w' = (upd_vcpu w r (\<lambda>v. v\<lparr>cpu_state_of := f (cpu_state_of v)\<rparr>))\<lparr>cpu_states := c\<rparr> \<and> dom c = dom (cpu_states w))"

lemma upd_vcpu_id [simp]: "upd_vcpu w r (\<lambda>v. v) = w"
  by (cases "vcpu_objs w r") (auto simp: upd_vcpu_def fun_upd_idem)

lemma registers_only_refl [intro]: "registers_only w r w"
  unfolding registers_only_def by (rule exI [of _ id], rule exI [of _ "cpu_states w"]) simp

lemma registers_only_store [intro]:
  "cpu_states w a = Some x \<Longrightarrow> registers_only w r (w\<lparr>cpu_states := (cpu_states w)(a \<mapsto> y)\<rparr>)"
  unfolding registers_only_def by (rule exI [of _ id], rule exI [of _ "(cpu_states w)(a \<mapsto> y)"]) auto

lemma registers_only_set [intro]: "registers_only w r (upd_vcpu w r (cpu_state_of_update (\<lambda>_. x)))"
  unfolding registers_only_def by (rule exI [of _ "\<lambda>_. x"], rule exI [of _ "cpu_states w"]) (simp add: upd_vcpu_def)

lemma hypercall_handle_frame:
  assumes "hypercall_handle w (Some r) params res = Some (st, res', w')"
  shows "registers_only w r w'"
proof (cases params; cases res)
  fix p q assume c: "params = Some p" "res = Some q"
  show ?thesis using assms unfolding hypercall_handle_def c Let_def option.case prod.case
    by (elim bind_eq_Some_conv [THEN iffD1, elim_format] exE conjE)
      (auto simp del: hypercall_code.simps simp: bind_eq_Some_conv split: if_splits)
qed (use assms in \<open>auto simp: hypercall_handle_def\<close>)

section \<open>The guest's view\<close>

text \<open>After a call the four result words stand in \<open>rax\<close> to \<open>rdx\<close>: zero when the call has no results.\<close>

definition no_results :: "guest_gprs \<Rightarrow> guest_gprs" where
  "no_results g = g\<lparr>rax := 0, rbx := 0, rcx := 0, rdx := 0\<rparr>"

lemma hypercall_args_simps [simp]: "p_rax (hypercall_args g) = rax g" "p_rbx (hypercall_args g) = rbx g"
  by (simp_all add: hypercall_args_def)

lemma cleared_results [simp]:
  "ret0 cleared_result = 0" "ret1 cleared_result = 0" "ret2 cleared_result = 0" "ret3 cleared_result = 0"
  by (simp_all add: cleared_result_def)

lemma upd_gprs_simps [simp]:
  "vcpu_objs (upd_gprs w r f) q = (if q = r then map_option (\<lambda>v. v\<lparr>cpu_state_of := (cpu_state_of v)\<lparr>gprs := f (gprs (cpu_state_of v))\<rparr>\<rparr>)
     (vcpu_objs w r) else vcpu_objs w q)"
  "cpu_states (upd_gprs w r f) = cpu_states w"
  by (simp_all add: upd_gprs_def upd_vcpu_def)

lemma advance_rip_objs [simp]:
  "vcpu_objs (advance_rip env w) = vcpu_objs w" "cpu_states (advance_rip env w) = cpu_states w"
  by (simp_all add: advance_rip_def Let_def)

lemma vmcall_unsupported:
  assumes "vcpu_objs w r = Some v" "rax (regs v) \<notin> hypercall_code ` set supported"
  shows "vmx_handle_vmcall env w r = Some (NEXUSVM_ERR_NOT_SUPPORTED, advance_rip env (upd_gprs w r no_results))"
  using assms by (simp add: vmx_handle_vmcall_def handle_unsupported no_results_def [abs_def])

lemma vmcall_get_state:
  assumes "vcpu_objs w r = Some v" "rax (regs v) = hypercall_code HYPERCALL_VCPU_GET_STATE" "rbx (regs v) \<noteq> 0"
    "cpu_states w (rbx (regs v)) = Some x"
  shows "vmx_handle_vmcall env w r = Some (NEXUSVM_OK,
    advance_rip env (upd_gprs (w\<lparr>cpu_states := (cpu_states w)(rbx (regs v) \<mapsto> cpu_state_of v)\<rparr>) r no_results))"
  using assms by (simp add: vmx_handle_vmcall_def handle_get_state no_results_def [abs_def])

lemma vmcall_set_state:
  assumes "vcpu_objs w r = Some v" "rax (regs v) = hypercall_code HYPERCALL_VCPU_SET_STATE" "rbx (regs v) \<noteq> 0"
    "cpu_states w (rbx (regs v)) = Some x"
  shows "vmx_handle_vmcall env w r =
    Some (NEXUSVM_OK, advance_rip env (upd_gprs (upd_vcpu w r (\<lambda>v. v\<lparr>cpu_state_of := x\<rparr>)) r no_results))"
  using assms by (simp add: vmx_handle_vmcall_def handle_set_state no_results_def [abs_def])

text \<open>C37. A guest saves its registers by a \<open>VMCALL\<close> with the number \<open>HYPERCALL_VCPU_GET_STATE\<close>. Whatever happens to the world
  afterwards, as long as the saved image stays in place, a later \<open>VMCALL\<close> with \<open>HYPERCALL_VCPU_SET_STATE\<close> on the same image
  succeeds and brings back in the image \<open>vcpu->cpu_state\<close> every saved register but \<open>rax\<close>, \<open>rbx\<close>, \<open>rcx\<close> and \<open>rdx\<close>: the empty results
  of the call overwrite them with zero. The theorem is about this image; no code loads it into the VMCS.\<close>

theorem vmcall_save_restore_registers:
  assumes "vcpu_objs w r = Some v" "rax (regs v) = hypercall_code HYPERCALL_VCPU_GET_STATE" "rbx (regs v) = a" "a \<noteq> 0"
    and "cpu_states w a = Some x" "vmx_handle_vmcall env w r = Some (st, w1)"
    and "vcpu_objs w2 q = Some u" "rax (regs u) = hypercall_code HYPERCALL_VCPU_SET_STATE" "rbx (regs u) = a"
    and "cpu_states w2 a = cpu_states w1 a"
  shows "st = NEXUSVM_OK \<and> (\<exists>w3. vmx_handle_vmcall env w2 q = Some (NEXUSVM_OK, w3) \<and>
    vcpu_objs w3 q = Some (u\<lparr>cpu_state_of := (cpu_state_of v)\<lparr>gprs := no_results (regs v)\<rparr>\<rparr>))"
proof -
  have s: "st = NEXUSVM_OK" "cpu_states w1 a = Some (cpu_state_of v)"
    using assms(1-6) by (auto simp: vmcall_get_state simp del: hypercall_code.simps)
  then show ?thesis
    using assms(4,7-10) by (auto simp: vmcall_set_state regs_def upd_vcpu_def simp del: hypercall_code.simps)
qed

text \<open>A guest whose \<open>r12\<close> is 7, which saves its registers at address 0x5000.\<close>

definition calling :: "hypercall_number \<Rightarrow> world" where
  "calling n = vmx_world\<lparr>cpu_states := [0x5000 \<mapsto> zero_cpu_state],
     vcpu_objs := [20 \<mapsto> hw_vcpu\<lparr>cpu_state_of := zero_cpu_state\<lparr>gprs := zero_gprs\<lparr>rax := hypercall_code n, rbx := 0x5000, r12 := 7\<rparr>\<rparr>\<rparr>]\<rparr>"

lemma calling_facts:
  "\<exists>v. vcpu_objs (calling n) 20 = Some v \<and> rax (regs v) = hypercall_code n \<and> rbx (regs v) = 0x5000 \<and> r12 (regs v) = 7"
  "cpu_states (calling n) 0x5000 = Some zero_cpu_state"
  by (simp_all add: calling_def regs_def)

text \<open>Between the calls it loses everything but the two registers that name the second call.\<close>

lemma vmcall_save_restore_registers_witness:
  "\<exists>w1 w3 u. vmx_handle_vmcall demo_env (calling HYPERCALL_VCPU_GET_STATE) 20 = Some (NEXUSVM_OK, w1) \<and>
    vmx_handle_vmcall demo_env (w1\<lparr>vcpu_objs := [20 \<mapsto> hw_vcpu\<lparr>cpu_state_of := zero_cpu_state\<lparr>gprs :=
      zero_gprs\<lparr>rax := 0x1602, rbx := 0x5000\<rparr>\<rparr>\<rparr>]\<rparr>) 20 = Some (NEXUSVM_OK, w3) \<and>
    vcpu_objs w3 20 = Some u \<and> r12 (regs u) = 7 \<and> rax (regs u) = 0 \<and> rbx (regs u) = 0"
proof -
  let ?w = "calling HYPERCALL_VCPU_GET_STATE"
  let ?w2 = "\<lambda>w1. w1\<lparr>vcpu_objs := [20 \<mapsto> hw_vcpu\<lparr>cpu_state_of := zero_cpu_state\<lparr>gprs := zero_gprs\<lparr>rax := 0x1602, rbx := 0x5000\<rparr>\<rparr>\<rparr>]\<rparr>"
  obtain v where v: "vcpu_objs ?w 20 = Some v" "rax (regs v) = hypercall_code HYPERCALL_VCPU_GET_STATE" "rbx (regs v) = 0x5000"
    "r12 (regs v) = 7" using calling_facts(1) by blast
  obtain w1 where w1: "vmx_handle_vmcall demo_env ?w 20 = Some (NEXUSVM_OK, w1)"
    using vmcall_get_state [OF v(1,2)] v(3) calling_facts(2) by simp
  have "\<exists>w3. vmx_handle_vmcall demo_env (?w2 w1) 20 = Some (NEXUSVM_OK, w3) \<and>
      vcpu_objs w3 20 = Some (hw_vcpu\<lparr>cpu_state_of := (cpu_state_of v)\<lparr>gprs := no_results (regs v)\<rparr>\<rparr>)"
    using vmcall_save_restore_registers [OF v(1-3) _ calling_facts(2) w1, of "?w2 w1" 20] by (simp add: regs_def)
  then show ?thesis using w1 v(4) by (force simp: regs_def no_results_def)
qed

text \<open>To a guest a call that is not supported looks like one that succeeded without results: whatever number other than the
  five supported ones it passes, the four result registers become zero and the guest goes on behind the \<open>VMCALL\<close>; the error reaches
  only the run loop of the host.\<close>

theorem vmcall_hides_unsupported:
  assumes "vcpu_objs w r = Some v" "rax (regs v) \<notin> hypercall_code ` set supported"
  shows "\<exists>w'. vmx_handle_vmcall env w r = Some (NEXUSVM_ERR_NOT_SUPPORTED, advance_rip env w') \<and>
    vcpu_objs w' r = Some (v\<lparr>cpu_state_of := (cpu_state_of v)\<lparr>gprs := no_results (regs v)\<rparr>\<rparr>) \<and>
    registers_only w r w'"
  using assms vmcall_unsupported [OF assms]
  by (auto simp: regs_def upd_gprs_def upd_vcpu_def registers_only_def
      intro!: exI [of _ "\<lambda>s. s\<lparr>gprs := no_results (gprs s)\<rparr>"] exI [of _ "cpu_states w"])

text \<open>The call that destroys a machine has a number in the header and no handler.\<close>

lemma vmcall_hides_unsupported_witness:
  "\<exists>w' v. vmx_handle_vmcall demo_env (calling HYPERCALL_VM_DESTROY) 20 = Some (NEXUSVM_ERR_NOT_SUPPORTED, advance_rip demo_env w') \<and>
    vcpu_objs w' 20 = Some v \<and> rax (regs v) = 0 \<and> r12 (regs v) = 7"
proof -
  let ?w = "calling HYPERCALL_VM_DESTROY"
  obtain v where v: "vcpu_objs ?w 20 = Some v" "rax (regs v) = hypercall_code HYPERCALL_VM_DESTROY" "r12 (regs v) = 7"
    using calling_facts(1) by blast
  then have "rax (regs v) \<notin> hypercall_code ` set supported" by (simp add: supported_def)
  from vmcall_hides_unsupported [OF v(1) this, of demo_env] v(3) show ?thesis
    by (force simp: regs_def no_results_def)
qed

section \<open>Operations on one virtual CPU\<close>

text \<open>What \<open>vcpu_set_state\<close> writes, \<open>vcpu_get_state\<close> reads, and nothing else of the world changes.\<close>

lemma vcpu_set_get_state:
  assumes "vcpu_objs w r = Some v"
  shows "\<exists>w'. vcpu_set_state w (Some r) (Some x) = Some (NEXUSVM_OK, w') \<and>
    vcpu_get_state w' (Some r) (Some y) = Some (NEXUSVM_OK, Some x) \<and> registers_only w r w' \<and> cpu_states w' = cpu_states w"
  using assms registers_only_set [of w r x]
  by (auto simp: vcpu_set_state_def vcpu_get_state_def upd_vcpu_def get_vcpu_def)

text \<open>
  \<open>vcpu_migrate\<close> refuses a CPU that is not online; the CPUs are counted by \<open>online_cpu_count\<close>, which no code raises, so that after
  initialisation it refuses every CPU.
\<close>

lemma vcpu_migrate_offline:
  assumes "g_hypervisor w = Some hv" "online_cpu_count hv \<le> c"
  shows "vcpu_migrate w (Some r) c = Some (NEXUSVM_ERR_INVALID_PARAM, w)"
  using assms by (simp add: vcpu_migrate_def)

lemma vcpu_migrate_initialised:
  assumes "g_hypervisor w = Some hv" "online_cpu_count hv = 0"
  shows "vcpu_migrate w r c = Some (NEXUSVM_ERR_INVALID_PARAM, w)"
  using assms by (cases r) (simp_all add: vcpu_migrate_def)

end
