(* ===== verification/Types_Layout.thy ===== *)
theory Types_Layout
  imports Ept
begin

text \<open>
  The structures of bit-fields of \<^verbatim>\<open>include/hypervisor/types.h\<close> that no function of the repository uses: the upper levels of
  the page tables, messages of interrupts, and the delivery of an interrupt. \<open>field_places\<close> is the placement that \<open>bitfield_layout\<close>
  gives, for storage units of any size; every field lies inside one unit, no two fields share a bit, and all of them lie inside
  the structure.
\<close>

section \<open>Placement\<close>

text \<open>Offset and width of each member when the declared type has \<open>u\<close> bits, starting at bit \<open>pos\<close>.\<close>

definition field_start :: "nat \<Rightarrow> nat \<Rightarrow> nat \<Rightarrow> nat" where
  "field_start u pos w = (if pos mod u + w \<le> u then pos else u * (pos div u + 1))"

fun field_places :: "nat \<Rightarrow> nat \<Rightarrow> (string \<times> nat) list \<Rightarrow> (string \<times> nat \<times> nat) list" where
  "field_places u pos [] = []"
| "field_places u pos ((f, w) # fs) = (let s = field_start u pos w in (f, s, w) # field_places u (s + w) fs)"

fun fields_end :: "nat \<Rightarrow> nat \<Rightarrow> (string \<times> nat) list \<Rightarrow> nat" where
  "fields_end u pos [] = pos"
| "fields_end u pos ((f, w) # fs) = fields_end u (field_start u pos w + w) fs"

definition struct_bits :: "nat \<Rightarrow> (string \<times> nat) list \<Rightarrow> nat" where
  "struct_bits u fs = u * ((fields_end u 0 fs + u - 1) div u)"

lemma bitfield_layout_places:
  "bitfield_layout pos fs = (map (\<lambda>(f, s, w). (f, s)) (field_places 64 pos fs), 64 * ((fields_end 64 pos fs + 63) div 64))"
  by (induction pos fs rule: bitfield_layout.induct) (auto simp: Let_def field_start_def)

lemma sizeof_fields_struct: "sizeof_fields fs = struct_bits 64 fs div 8"
  by (simp add: sizeof_fields_def bitfield_layout_places struct_bits_def)

lemma field_start_bounds:
  assumes "0 < u" "w \<le> u"
  shows "pos \<le> field_start u pos w" "field_start u pos w mod u + w \<le> u"
proof -
  show "pos \<le> field_start u pos w"
    using assms(1) dividend_less_times_div [of u pos] by (simp add: field_start_def)
  show "field_start u pos w mod u + w \<le> u" using assms by (auto simp: field_start_def)
qed

lemma fields_end_ge: "0 < u \<Longrightarrow> \<forall>(f, w)\<in>set fs. w \<le> u \<Longrightarrow> pos \<le> fields_end u pos fs"
proof (induction u pos fs rule: fields_end.induct)
  case (2 u pos f w fs)
  then show ?case using field_start_bounds(1) [of u w pos] by force
qed simp

lemma field_places_bounds:
  assumes "0 < u" "\<forall>(f, w)\<in>set fs. w \<le> u" "(f, s, w) \<in> set (field_places u pos fs)"
  shows "pos \<le> s \<and> s mod u + w \<le> u \<and> s + w \<le> fields_end u pos fs"
  using assms
proof (induction u pos fs rule: field_places.induct)
  case (2 u pos g x fs)
  note b = field_start_bounds [of u x pos]
  show ?case
  proof (cases "(f, s, w) \<in> set (field_places u (field_start u pos x + x) fs)")
    case True
    then show ?thesis using 2 b by force
  next
    case False
    then have "f = g" "s = field_start u pos x" "w = x" using 2(4) by (auto simp: Let_def)
    then show ?thesis using 2(2,3) b fields_end_ge [of u fs "field_start u pos x + x"] by auto
  qed
qed simp

lemma field_places_ordered:
  assumes "0 < u" "\<forall>(f, w)\<in>set fs. w \<le> u"
  shows "sorted_wrt (\<lambda>(f, s, w) (f', s', w'). s + w \<le> s') (field_places u pos fs)"
  using assms
  by (induction u pos fs rule: field_places.induct) (auto simp: Let_def dest: field_places_bounds)

section \<open>The structures\<close>

definition ept_pme_fields :: "(string \<times> nat) list" where
  "ept_pme_fields =
     [(''present'', 1), (''write'', 1), (''executable'', 1), (''memory_type'', 3), (''ignore_pat'', 1), (''accessed'', 1),
      (''dirty'', 1), (''big_pagesize'', 1), (''available'', 3), (''physical_address'', 40), (''available2'', 12)]"

definition ept_pue_fields :: "(string \<times> nat) list" where
  "ept_pue_fields =
     [(''present'', 1), (''write'', 1), (''executable'', 1), (''memory_type'', 3), (''ignore_pat'', 1), (''accessed'', 1),
      (''dirty'', 1), (''big_pagesize'', 1), (''available'', 3), (''physical_address'', 40), (''available2'', 12)]"

definition ept_pdpe_fields :: "(string \<times> nat) list" where
  "ept_pdpe_fields =
     [(''present'', 1), (''write'', 1), (''executable'', 1), (''memory_type'', 3), (''ignore_pat'', 1), (''accessed'', 1),
      (''dirty'', 1), (''big_pagesize'', 1), (''available'', 3), (''physical_address'', 40), (''available2'', 12)]"

definition msi_address_fields :: "(string \<times> nat) list" where
  "msi_address_fields =
     [(''destination_mode'', 1), (''redirection_hint'', 1), (''reserved1'', 2), (''destination_id'', 8), (''reserved2'', 4),
      (''base_address'', 36), (''reserved3'', 12)]"

text \<open>The members of \<open>msi_data_t\<close> are of the 16-bit type and have 18 bits, those of \<open>interrupt_info_t\<close> of the 32-bit type.\<close>

definition msi_data_fields :: "(string \<times> nat) list" where
  "msi_data_fields =
     [(''vector'', 8), (''delivery_mode'', 3), (''trigger_mode'', 1), (''reserved1'', 1), (''level'', 1), (''reserved2'', 1),
      (''assert'', 1), (''reserved3'', 2)]"

definition interrupt_info_fields :: "(string \<times> nat) list" where
  "interrupt_info_fields =
     [(''vector'', 8), (''type'', 3), (''delivery_pending'', 1), (''destination_mode'', 1), (''delivery_mode'', 3),
      (''level_triggered'', 1), (''assertion'', 1), (''reserved'', 2), (''destination_id'', 8), (''reserved2'', 4)]"

lemmas structure_fields = ept_pme_fields_def ept_pue_fields_def ept_pdpe_fields_def msi_address_fields_def msi_data_fields_def
  interrupt_info_fields_def

lemma structure_sizes:
  "struct_bits 64 ept_pme_fields = 128" "struct_bits 64 ept_pue_fields = 128" "struct_bits 64 ept_pdpe_fields = 128"
  "struct_bits 64 msi_address_fields = 64" "struct_bits 16 msi_data_fields = 32" "struct_bits 32 interrupt_info_fields = 32"
  by (simp_all add: structure_fields struct_bits_def field_start_def)

text \<open>The upper levels have the layout that the code relies on when it casts them to entries of the fourth level.\<close>

lemma upper_levels_alike:
  "ept_pme_fields = ept_pml4e_fields" "ept_pue_fields = ept_pml4e_fields" "ept_pdpe_fields = ept_pml4e_fields"
  by (simp_all add: structure_fields ept_pml4e_fields_def)

lemma msi_address_places:
  "field_places 64 0 msi_address_fields =
     [(''destination_mode'', 0, 1), (''redirection_hint'', 1, 1), (''reserved1'', 2, 2), (''destination_id'', 4, 8),
      (''reserved2'', 12, 4), (''base_address'', 16, 36), (''reserved3'', 52, 12)]"
  by code_simp

end
