(* ===== verification/Types_Controls.thy ===== *)
theory Types_Controls
  imports Vmx Types_Enums
begin

text \<open>
  The families of bits and register numbers of \<^verbatim>\<open>include/hypervisor/types.h\<close> that are macros: the control words of VT-x, its capability registers, the
  memory types of extended page tables, and the intercept bits of AMD-V. They are tables in the order of the header; the control words that \<open>vmx_vcpu_setup\<close>
  writes are the ones these names denote.
\<close>

section \<open>Tables\<close>

definition vmx_proc_based_ctls :: "(string \<times> nat) list" where
  "vmx_proc_based_ctls =
    [(''VMX_PROC_BASED_CTLS_HLT'', 7), (''VMX_PROC_BASED_CTLS_MWAIT'', 10), (''VMX_PROC_BASED_CTLS_RDTSC'', 12),
     (''VMX_PROC_BASED_CTLS_CR3_STORE'', 15), (''VMX_PROC_BASED_CTLS_CR3_LOAD'', 16), (''VMX_PROC_BASED_CTLS_CR8_STORE'', 19),
     (''VMX_PROC_BASED_CTLS_CR8_LOAD'', 20), (''VMX_PROC_BASED_CTLS_TPR_SHADOW'', 21), (''VMX_PROC_BASED_CTLS_NMI_WINDOW'', 22),
     (''VMX_PROC_BASED_CTLS_MOV_DR'', 23), (''VMX_PROC_BASED_CTLS_UNCOND_IO'', 24), (''VMX_PROC_BASED_CTLS_IO_BITMAP'', 25),
     (''VMX_PROC_BASED_CTLS_MSR_BITMAP'', 28), (''VMX_PROC_BASED_CTLS_MONITOR'', 29), (''VMX_PROC_BASED_CTLS_PAUSE'', 30),
     (''VMX_PROC_BASED_CTLS_SECONDARY'', 31)]"

definition vmx_proc_based_ctls2 :: "(string \<times> nat) list" where
  "vmx_proc_based_ctls2 =
    [(''VMX_PROC_BASED_CTLS2_VIRTUAL_APIC'', 0), (''VMX_PROC_BASED_CTLS2_EPT'', 1), (''VMX_PROC_BASED_CTLS2_DESC_TABLE'', 2),
     (''VMX_PROC_BASED_CTLS2_RDTSCP'', 3), (''VMX_PROC_BASED_CTLS2_X2APIC'', 4), (''VMX_PROC_BASED_CTLS2_VPID'', 5),
     (''VMX_PROC_BASED_CTLS2_WBINVD'', 6), (''VMX_PROC_BASED_CTLS2_UNRESTRICTED_GUEST'', 7), (''VMX_PROC_BASED_CTLS2_APIC_REG_VIRT'', 8),
     (''VMX_PROC_BASED_CTLS2_VIRT_INT_DELIVERY'', 9), (''VMX_PROC_BASED_CTLS2_PAUSE_LOOP_EXIT'', 10), (''VMX_PROC_BASED_CTLS2_RDRAND'', 11),
     (''VMX_PROC_BASED_CTLS2_INVPCID'', 12), (''VMX_PROC_BASED_CTLS2_VMFUNC'', 13), (''VMX_PROC_BASED_CTLS2_VMCS_SHADOWING'', 14),
     (''VMX_PROC_BASED_CTLS2_RDSEED'', 15), (''VMX_PROC_BASED_CTLS2_EPT_VIOLATION'', 16), (''VMX_PROC_BASED_CTLS2_PCOMMIT'', 22),
     (''VMX_PROC_BASED_CTLS2_SHADOW_STACK'', 22), (''VMX_PROC_BASED_CTLS2_PKS'', 24)]"

definition vmx_pin_based_ctls :: "(string \<times> nat) list" where
  "vmx_pin_based_ctls =
    [(''VMX_PIN_BASED_CTLS_EXT_INT_EXIT'', 0), (''VMX_PIN_BASED_CTLS_NMI_EXIT'', 3), (''VMX_PIN_BASED_CTLS_VIRTUAL_NMI'', 5),
     (''VMX_PIN_BASED_CTLS_ACTIVE_VMX_PREEMPT_TIMER'', 6), (''VMX_PIN_BASED_CTLS_PROCESS_POSTED_INTERRUPTS'', 7)]"

definition vmx_entry_ctls :: "(string \<times> nat) list" where
  "vmx_entry_ctls =
    [(''VMX_ENTRY_CTLS_LOAD_DEBUG'', 2), (''VMX_ENTRY_CTLS_IA32E_MODE'', 9), (''VMX_ENTRY_CTLS_ENTRY_TO_SMM'', 10),
     (''VMX_ENTRY_CTLS_DEACTIVATE_DUAL'', 11), (''VMX_ENTRY_CTLS_LOAD_PERF_GLOBAL_CTRL'', 13), (''VMX_ENTRY_CTLS_LOAD_PAT'', 14),
     (''VMX_ENTRY_CTLS_LOAD_EFER'', 15), (''VMX_ENTRY_CTLS_LOAD_BNDCFGS'', 16), (''VMX_ENTRY_CTLS_HIDE_FROM_TRACE'', 21)]"

definition vmx_exit_ctls :: "(string \<times> nat) list" where
  "vmx_exit_ctls =
    [(''VMX_EXIT_CTLS_SAVE_DEBUG'', 2), (''VMX_EXIT_CTLS_HOST_ADDRESS_SPACE_SIZE'', 9), (''VMX_EXIT_CTLS_LOAD_PERF_GLOBAL_CTRL'', 12),
     (''VMX_EXIT_CTLS_ACK_INTERRUPT'', 15), (''VMX_EXIT_CTLS_SAVE_PAT'', 18), (''VMX_EXIT_CTLS_LOAD_PAT'', 19), (''VMX_EXIT_CTLS_SAVE_EFER'', 20),
     (''VMX_EXIT_CTLS_LOAD_EFER'', 21), (''VMX_EXIT_CTLS_SAVE_VMX_PREEMPT_TIMER_VAL'', 22)]"

definition vmx_capability_msrs :: "(string \<times> u64) list" where
  "vmx_capability_msrs =
    [(''MSR_IA32_VMX_BASIC'', 0x480), (''MSR_IA32_VMX_PINBASED_CTLS'', 0x481), (''MSR_IA32_VMX_PROCBASED_CTLS'', 0x482),
     (''MSR_IA32_VMX_VMEXIT_CTLS'', 0x483), (''MSR_IA32_VMX_VMENTRY_CTLS'', 0x484), (''MSR_IA32_VMX_MISC'', 0x485),
     (''MSR_IA32_VMX_CR0_FIXED0'', 0x486), (''MSR_IA32_VMX_CR0_FIXED1'', 0x487), (''MSR_IA32_VMX_CR4_FIXED0'', 0x488),
     (''MSR_IA32_VMX_CR4_FIXED1'', 0x489), (''MSR_IA32_VMX_VMCS_ENUM'', 0x48a), (''MSR_IA32_VMX_SECONDARY_CTLS'', 0x48b),
     (''MSR_IA32_VMX_EPT_VPID_CAP'', 0x48c), (''MSR_IA32_VMX_TRUE_CTLS'', 0x48d), (''MSR_IA32_VMX_VMFUNC'', 0x491)]"

definition ept_memory_types :: "(string \<times> u64) list" where
  "ept_memory_types =
    [(''EPT_MEMORY_TYPE_UNCACHABLE'', 0), (''EPT_MEMORY_TYPE_WRITE_COMBINE'', 1), (''EPT_MEMORY_TYPE_WRITE_THROUGH'', 4),
     (''EPT_MEMORY_TYPE_WRITE_PROTECTED'', 5), (''EPT_MEMORY_TYPE_WRITE_BACK'', 6)]"

definition svm_msrs :: "(string \<times> u64) list" where
  "svm_msrs =
    [(''MSR_VM_HSAVE_PA'', 0xc0010117), (''MSR_SVM_EPBC'', 0xc0010119), (''MSR_SVM_VM_CR'', 0xc001011a), (''MSR_SVM_VM_HSAVE_PA_MSR'', 0xc0010117)]"

definition vmcb_bits :: "(string \<times> nat) list" where
  "vmcb_bits =
    [(''VMCB_C'', 0), (''VMCB_D'', 1), (''VMCB_E'', 2), (''VMCB_F'', 3), (''VMCB_G'', 4), (''VMCB_H'', 5), (''VMCB_I'', 6), (''VMCB_J'', 7),
     (''VMCB_K'', 8), (''VMCB_L'', 9), (''VMCB_M'', 10), (''VMCB_N'', 11), (''VMCB_O'', 12), (''VMCB_P'', 13), (''VMCB_Q'', 14), (''VMCB_R'', 15),
     (''VMCB_S'', 16), (''VMCB_T'', 17), (''VMCB_U'', 18), (''VMCB_V'', 19), (''VMCB_W'', 20), (''VMCB_X'', 21), (''VMCB_Y'', 22), (''VMCB_Z'', 23),
     (''VMCB_a'', 24), (''VMCB_b'', 25), (''VMCB_c'', 26), (''VMCB_d'', 27), (''VMCB_e'', 28), (''VMCB_f'', 29), (''VMCB_g'', 30), (''VMCB_h'', 31),
     (''VMCB_i'', 32), (''VMCB_j'', 33), (''VMCB_k'', 34), (''VMCB_l'', 35), (''VMCB_m'', 36), (''VMCB_n'', 37), (''VMCB_o'', 38), (''VMCB_p'', 39),
     (''VMCB_q'', 40), (''VMCB_r'', 41), (''VMCB_s'', 42), (''VMCB_t'', 43), (''VMCB_u'', 44), (''VMCB_v'', 45), (''VMCB_w'', 46), (''VMCB_x'', 47),
     (''VMCB_y'', 48), (''VMCB_z'', 49), (''VMCB_A'', 50), (''VMCB_B'', 51), (''VMCB_C'', 52), (''VMCB_D'', 53), (''VMCB_E'', 54), (''VMCB_F'', 55),
     (''VMCB_G'', 56), (''VMCB_H'', 57), (''VMCB_I'', 58), (''VMCB_J'', 59), (''VMCB_K'', 60), (''VMCB_L'', 61), (''VMCB_M'', 62), (''VMCB_N'', 63),
     (''VMCB_O'', 64), (''VMCB_P'', 65), (''VMCB_Q'', 66), (''VMCB_R'', 67), (''VMCB_S'', 68), (''VMCB_T'', 69), (''VMCB_U'', 70), (''VMCB_V'', 71),
     (''VMCB_W'', 72), (''VMCB_X'', 73), (''VMCB_Y'', 74), (''VMCB_Z'', 75), (''VMCB_a'', 76), (''VMCB_b'', 77), (''VMCB_c'', 78), (''VMCB_d'', 79),
     (''VMCB_e'', 80), (''VMCB_f'', 81), (''VMCB_g'', 82), (''VMCB_h'', 83), (''VMCB_i'', 84), (''VMCB_j'', 85), (''VMCB_k'', 86), (''VMCB_l'', 87),
     (''VMCB_m'', 88), (''VMCB_n'', 89), (''VMCB_o'', 90), (''VMCB_p'', 91), (''VMCB_q'', 92)]"

text \<open>The bit that a name has in code after the header, and the control word with the bits of the given names.\<close>

definition control_bit :: "(string \<times> nat) list \<Rightarrow> string \<Rightarrow> nat option" where
  "control_bit t = map_of (rev t)"

fun control_word :: "(string \<times> nat) list \<Rightarrow> string list \<Rightarrow> u32" where
  "control_word t [] = 0"
| "control_word t (n # ns) = (case control_bit t n of None \<Rightarrow> 0 | Some k \<Rightarrow> BIT k) OR control_word t ns"

section \<open>The control words of the VT-x backend\<close>

lemma control_word_append: "control_word t (a @ b) = control_word t a OR control_word t b"
  by (induction a) (simp_all add: or.assoc)

lemma pin_ctls_named:
  "pin_ctls hv = control_word vmx_pin_based_ctls ([''VMX_PIN_BASED_CTLS_EXT_INT_EXIT'', ''VMX_PIN_BASED_CTLS_NMI_EXIT''] @
     (if bit (vmx_cap_pinbased (vmx hv)) 5 then [''VMX_PIN_BASED_CTLS_VIRTUAL_NMI''] else []))"
  by (simp add: pin_ctls_def control_word_append control_bit_def vmx_pin_based_ctls_def)

lemma proc_ctls_named:
  "proc_ctls = control_word vmx_proc_based_ctls [''VMX_PROC_BASED_CTLS_CR3_STORE'', ''VMX_PROC_BASED_CTLS_CR3_LOAD'', ''VMX_PROC_BASED_CTLS_TPR_SHADOW'',
     ''VMX_PROC_BASED_CTLS_IO_BITMAP'', ''VMX_PROC_BASED_CTLS_MSR_BITMAP'', ''VMX_PROC_BASED_CTLS_PAUSE'', ''VMX_PROC_BASED_CTLS_SECONDARY'']"
  by (simp add: proc_ctls_def control_bit_def vmx_proc_based_ctls_def or.assoc)

lemma proc2_ctls_named:
  "proc2_ctls hv = control_word vmx_proc_based_ctls2 ((if has_ept hv then [''VMX_PROC_BASED_CTLS2_EPT''] else []) @
     (if has_vpid hv then [''VMX_PROC_BASED_CTLS2_VPID''] else []) @ [''VMX_PROC_BASED_CTLS2_UNRESTRICTED_GUEST''])"
  by (simp add: proc2_ctls_def control_word_append control_bit_def vmx_proc_based_ctls2_def or.assoc)

lemma exit_ctls_named:
  "exit_ctls hv = control_word vmx_exit_ctls ([''VMX_EXIT_CTLS_SAVE_DEBUG'', ''VMX_EXIT_CTLS_ACK_INTERRUPT'', ''VMX_EXIT_CTLS_HOST_ADDRESS_SPACE_SIZE''] @
     (if bit (vmx_cap_exit (vmx hv)) 18 then [''VMX_EXIT_CTLS_SAVE_PAT''] else []) @ (if bit (vmx_cap_exit (vmx hv)) 19 then [''VMX_EXIT_CTLS_LOAD_PAT''] else []) @
     (if bit (vmx_cap_exit (vmx hv)) 20 then [''VMX_EXIT_CTLS_SAVE_EFER''] else []) @ (if bit (vmx_cap_exit (vmx hv)) 21 then [''VMX_EXIT_CTLS_LOAD_EFER''] else []))"
  by (simp add: exit_ctls_def Let_def control_word_append control_bit_def vmx_exit_ctls_def or.assoc)

lemma entry_ctls_named:
  "entry_ctls = control_word vmx_entry_ctls [''VMX_ENTRY_CTLS_LOAD_DEBUG'', ''VMX_ENTRY_CTLS_LOAD_PAT'', ''VMX_ENTRY_CTLS_LOAD_EFER'']"
  by (simp add: entry_ctls_def control_bit_def vmx_entry_ctls_def or.assoc)

text \<open>A virtual CPU always leaves to a 64-bit host, is never entered in 64-bit mode, and always asks for an unrestricted guest, even without the
  extended page tables that this needs.\<close>

lemma setup_modes:
  "bit (exit_ctls hv) 9" "control_bit vmx_exit_ctls ''VMX_EXIT_CTLS_HOST_ADDRESS_SPACE_SIZE'' = Some 9"
  "\<not> bit entry_ctls 9" "control_bit vmx_entry_ctls ''VMX_ENTRY_CTLS_IA32E_MODE'' = Some 9"
  "bit (proc2_ctls hv) 7" "bit (proc2_ctls hv) 1 \<longleftrightarrow> has_ept hv" "control_bit vmx_proc_based_ctls2 ''VMX_PROC_BASED_CTLS2_EPT'' = Some 1"
  by (simp_all add: exit_ctls_def entry_ctls_def proc2_ctls_def Let_def BIT_def bit_simps control_bit_def vmx_exit_ctls_def vmx_entry_ctls_def
      vmx_proc_based_ctls2_def)

section \<open>Names and bits\<close>

text \<open>All control bits fit the 32-bit words; two secondary controls share bit 22, no others share one.\<close>

lemma control_bits_distinct:
  "distinct (map snd (vmx_proc_based_ctls))" "distinct (map snd vmx_pin_based_ctls)" "distinct (map snd vmx_entry_ctls)" "distinct (map snd vmx_exit_ctls)"
  "distinct (map snd (filter (\<lambda>x. fst x \<noteq> ''VMX_PROC_BASED_CTLS2_PCOMMIT'') vmx_proc_based_ctls2))"
  "control_bit vmx_proc_based_ctls2 ''VMX_PROC_BASED_CTLS2_PCOMMIT'' = control_bit vmx_proc_based_ctls2 ''VMX_PROC_BASED_CTLS2_SHADOW_STACK''"
  by (simp_all add: vmx_proc_based_ctls_def vmx_pin_based_ctls_def vmx_entry_ctls_def vmx_exit_ctls_def vmx_proc_based_ctls2_def control_bit_def)

text \<open>The intercept bits are numbered in order, from 52 on with the names of the first 41, which thereby lose their own.\<close>

lemma vmcb_bits_numbered: "map snd vmcb_bits = 0 # 1 # [2..<93]"
  by (simp add: vmcb_bits_def)

lemma vmcb_bits_redefined: "map fst (drop 52 vmcb_bits) = map fst (take 41 vmcb_bits)"
  by (simp add: vmcb_bits_def)

lemma vmcb_first_bit_unnamed: "fst (vmcb_bits ! 0) = ''VMCB_C''" "control_bit vmcb_bits ''VMCB_C'' = Some 52"
proof -
  show "fst (vmcb_bits ! 0) = ''VMCB_C''" by (simp add: vmcb_bits_def)
  show "control_bit vmcb_bits ''VMCB_C'' = Some 52" by code_simp
qed

end
